(* ===== verification/Prelude.thy ===== *)
theory Prelude
  imports Main "HOL-Library.AList" "HOL-Library.Char_ord" "HOL-Library.List_Lexorder"
begin

text \<open>
  What the component theories share: errors as values of a sum (\<open>Inl\<close> is the error a
  Go function returns, \<open>Inr\<close> its result) with the bind and the loop that stop at the
  first error, instants and durations in nanoseconds, decimal printing and parsing as
  \<open>strconv\<close> and \<open>fmt\<close> do it, and the interface of a keyed table.  A Go string is
  a sequence of bytes, which is exactly HOL's \<open>string\<close> (a list of 8-bit characters).
\<close>

named_theorems res_simps \<open>rewriting of error-valued computations\<close>
named_theorems tbl_simps \<open>reading a keyed table after it was written\<close>


section \<open>Errors as values\<close>

definition rbind :: "'e + 'a \<Rightarrow> ('a \<Rightarrow> 'e + 'b) \<Rightarrow> 'e + 'b" where
  "rbind m f = (case m of Inl e \<Rightarrow> Inl e | Inr x \<Rightarrow> f x)"

primrec rfold :: "('a \<Rightarrow> 's \<Rightarrow> 'e + 's) \<Rightarrow> 'a list \<Rightarrow> 's \<Rightarrow> 'e + 's" where
  "rfold f [] s = Inr s"
| "rfold f (x # xs) s = rbind (f x s) (rfold f xs)"

primrec rmapl :: "('a \<Rightarrow> 'e + 'b) \<Rightarrow> 'a list \<Rightarrow> 'e + 'b list" where
  "rmapl f [] = Inr []"
| "rmapl f (x # xs) = rbind (f x) (\<lambda>y. rbind (rmapl f xs) (\<lambda>ys. Inr (y # ys)))"

lemma rbind_Inl [simp]: "rbind (Inl e) f = Inl e"
  by (simp add: rbind_def)

lemma rbind_Inr [simp]: "rbind (Inr x) f = f x"
  by (simp add: rbind_def)

lemma rbind_eq_Inr [res_simps]: "rbind m f = Inr y \<longleftrightarrow> (\<exists>x. m = Inr x \<and> f x = Inr y)"
  by (cases m) auto

lemma rbind_eq_Inl [res_simps]:
  "rbind m f = Inl e \<longleftrightarrow> m = Inl e \<or> (\<exists>x. m = Inr x \<and> f x = Inl e)"
  by (cases m) auto

lemma if_Inl_eq_Inr [res_simps]: "(if b then Inl e else m) = Inr y \<longleftrightarrow> \<not> b \<and> m = Inr y"
  by auto

lemma rbind_assoc: "rbind (rbind m f) g = rbind m (\<lambda>x. rbind (f x) g)"
  by (cases m) auto

lemma rbind_cong: "m = m' \<Longrightarrow> (\<And>x. m' = Inr x \<Longrightarrow> f x = g x) \<Longrightarrow> rbind m f = rbind m' g"
  by (cases m') auto

text \<open>What every successful iteration keeps, the whole loop keeps.\<close>

lemma rfold_invariant:
  assumes "rfold f xs s = Inr s'"
    and "P s"
    and "\<And>x t t'. x \<in> set xs \<Longrightarrow> P t \<Longrightarrow> f x t = Inr t' \<Longrightarrow> P t'"
  shows "P s'"
  using assms
proof (induction xs arbitrary: s)
  case Nil
  then show ?case by simp
next
  case (Cons x xs)
  from Cons.prems(1) obtain t where t: "f x s = Inr t" and rest: "rfold f xs t = Inr s'"
    by (auto simp: res_simps)
  from Cons.prems(2,3) t have "P t" by auto
  then show ?case using Cons.IH [OF rest] Cons.prems(3) by auto
qed

text \<open>What each iteration establishes for its element, and no later one destroys, holds at the end.\<close>

lemma rfold_establish:
  assumes "rfold f xs s = Inr s'" and "P s"
    and "\<And>x t t'. x \<in> set xs \<Longrightarrow> P t \<Longrightarrow> f x t = Inr t' \<Longrightarrow> P t' \<and> Q x t'"
    and "\<And>x y t t'. x \<in> set xs \<Longrightarrow> y \<in> set xs \<Longrightarrow> P t \<Longrightarrow> Q x t \<Longrightarrow> f y t = Inr t' \<Longrightarrow> Q x t'"
  shows "\<forall>x \<in> set xs. Q x s'"
  using assms
proof (induction xs arbitrary: s)
  case Nil
  show ?case by simp
next
  case (Cons x xs)
  from Cons.prems(1) obtain t where t: "f x s = Inr t" and rest: "rfold f xs t = Inr s'"
    by (auto simp: rbind_eq_Inr)
  have x: "x \<in> set (x # xs)" and sub: "\<And>y. y \<in> set xs \<Longrightarrow> y \<in> set (x # xs)" by simp_all
  have first: "P t" "Q x t" using Cons.prems(3) [OF x Cons.prems(2) t] by blast+
  have "\<forall>y \<in> set xs. Q y s'"
  proof (rule Cons.IH [OF rest first(1)])
    show "P t' \<and> Q y t'" if "y \<in> set xs" "P u" "f y u = Inr t'" for y u t'
      by (rule Cons.prems(3) [OF sub [OF that(1)] that(2,3)])
    show "Q y t'" if "y \<in> set xs" "z \<in> set xs" "P u" "Q y u" "f z u = Inr t'" for y z u t'
      by (rule Cons.prems(4) [OF sub [OF that(1)] sub [OF that(2)] that(3-5)])
  qed
  moreover have "P s' \<and> Q x s'"
  proof (rule rfold_invariant [OF rest, where P = "\<lambda>t. P t \<and> Q x t"])
    show "P t \<and> Q x t" using first by blast
    show "P t' \<and> Q x t'" if "y \<in> set xs" "P u \<and> Q x u" "f y u = Inr t'" for y u t'
      using Cons.prems(3) [OF sub [OF that(1)], of u t'] Cons.prems(4) [OF x sub [OF that(1)], of u t'] that(2,3) by blast
  qed
  ultimately show ?case by simp
qed

lemma rfold_append: "rfold f (xs @ ys) s = rbind (rfold f xs s) (rfold f ys)"
  by (induction xs arbitrary: s) (auto simp: rbind_assoc intro!: rbind_cong)

lemma rmapl_length: "rmapl f xs = Inr ys \<Longrightarrow> length ys = length xs"
  by (induction xs arbitrary: ys) (auto simp: res_simps)

lemma rmapl_nth: "rmapl f xs = Inr ys \<Longrightarrow> i < length xs \<Longrightarrow> f (xs ! i) = Inr (ys ! i)"
proof (induction xs arbitrary: ys i)
  case Nil
  then show ?case by simp
next
  case (Cons x xs)
  then show ?case by (cases i) (auto simp: res_simps)
qed

lemma rmapl_total: "(\<And>x. x \<in> set xs \<Longrightarrow> \<exists>y. f x = Inr y) \<Longrightarrow> \<exists>ys. rmapl f xs = Inr ys"
proof (induction xs)
  case Nil
  then show ?case by simp
next
  case (Cons x xs)
  then obtain y ys where "f x = Inr y" "rmapl f xs = Inr ys"
    by (metis list.set_intros)
  then show ?case by simp
qed


section \<open>Instants and durations\<close>

text \<open>
  A \<open>time.Time\<close> is its instant in nanoseconds from the Unix epoch; \<open>time_zero\<close> is
  Go's zero time (1 January of year 1), which \<open>IsZero\<close> tests for.
\<close>

type_synonym time = int
type_synonym duration = int

definition time_zero :: time where "time_zero = - 62135596800 * 1000000000"

definition Second :: duration where "Second = 1000000000"
definition Minute :: duration where "Minute = 60 * Second"
definition Hour :: duration where "Hour = 60 * Minute"

lemmas duration_defs = Second_def Minute_def Hour_def

definition maxTime :: "time \<Rightarrow> time \<Rightarrow> time" where
  "maxTime a b = (if a > b then a else b)"

lemma maxTime_max: "maxTime a b = max a b"
  by (simp add: maxTime_def max_def)


section \<open>Decimal text\<close>

definition digit_char :: "nat \<Rightarrow> char" where
  "digit_char n = char_of (48 + n)"

definition digit_val :: "char \<Rightarrow> nat" where
  "digit_val c = of_char c - 48"

definition is_digit :: "char \<Rightarrow> bool" where
  "is_digit c \<longleftrightarrow> (48::nat) \<le> of_char c \<and> of_char c \<le> (57::nat)"

fun show_nat :: "nat \<Rightarrow> string" where
  "show_nat n = (if n < 10 then [digit_char n] else show_nat (n div 10) @ [digit_char (n mod 10)])"

declare show_nat.simps [simp del]

definition show_int :: "int \<Rightarrow> string" where
  "show_int i = (if i < 0 then CHR ''-'' # show_nat (nat (- i)) else show_nat (nat i))"

definition nat_of_digits :: "string \<Rightarrow> nat" where
  "nat_of_digits s = foldl (\<lambda>a c. 10 * a + digit_val c) 0 s"

text \<open>\<open>strconv.ParseInt(s, 10, 64)\<close>; \<open>None\<close> is the returned error (syntax or range).\<close>

definition ParseInt :: "string \<Rightarrow> int option" where
  "ParseInt s =
     (let neg = (s \<noteq> [] \<and> hd s = CHR ''-'');
          ds = (if s \<noteq> [] \<and> (hd s = CHR ''-'' \<or> hd s = CHR ''+'') then tl s else s);
          v = (if neg then - int (nat_of_digits ds) else int (nat_of_digits ds))
      in if ds = [] \<or> \<not> list_all is_digit ds \<or> v < - (2 ^ 63) \<or> v \<ge> 2 ^ 63 then None else Some v)"

lemma of_char_digit_char: "n < 10 \<Longrightarrow> of_char (digit_char n) = (48 + n :: nat)"
  by (simp add: digit_char_def)

lemma digit_val_digit_char [simp]: "n < 10 \<Longrightarrow> digit_val (digit_char n) = n"
  by (simp add: digit_val_def of_char_digit_char)

lemma is_digit_digit_char [simp]: "n < 10 \<Longrightarrow> is_digit (digit_char n)"
  by (simp add: is_digit_def of_char_digit_char)

lemma nat_of_digits_snoc: "nat_of_digits (s @ [c]) = 10 * nat_of_digits s + digit_val c"
  by (simp add: nat_of_digits_def)

lemma nat_of_digits_show [simp]: "nat_of_digits (show_nat n) = n"
proof (induction n rule: show_nat.induct)
  case (1 n)
  then show ?case
    by (subst show_nat.simps) (simp add: nat_of_digits_snoc, simp add: nat_of_digits_def)
qed

lemma show_nat_digits: "list_all is_digit (show_nat n)"
proof (induction n rule: show_nat.induct)
  case (1 n)
  then show ?case by (subst show_nat.simps) simp
qed

lemma show_nat_nonempty [simp]: "show_nat n \<noteq> []"
  by (subst show_nat.simps) simp

lemma show_nat_inj: "show_nat m = show_nat n \<longleftrightarrow> m = n"
  by (metis nat_of_digits_show)

lemma hd_show_nat: "is_digit (hd (show_nat n))"
  using show_nat_digits [of n] show_nat_nonempty [of n] by (cases "show_nat n") auto

lemma show_nat_not_minus [simp]: "show_nat n \<noteq> CHR ''-'' # s"
  using hd_show_nat [of n] by (auto simp: is_digit_def)

lemma show_int_inj: "show_int i = show_int j \<longleftrightarrow> i = j"
  by (auto simp: show_int_def show_nat_inj split: if_splits) (metis show_nat_not_minus)+

lemma show_int_nonempty [simp]: "show_int i \<noteq> []"
  by (simp add: show_int_def)

lemma ParseInt_show_int: "- (2 ^ 63) \<le> i \<Longrightarrow> i < 2 ^ 63 \<Longrightarrow> ParseInt (show_int i) = Some i"
proof -
  assume range: "- (2 ^ 63) \<le> i" "i < 2 ^ 63"
  have hd: "hd (show_nat n) \<noteq> CHR ''-'' \<and> hd (show_nat n) \<noteq> CHR ''+''" for n
    using hd_show_nat [of n] by (auto simp: is_digit_def)
  show ?thesis
    using range hd by (auto simp: ParseInt_def show_int_def Let_def show_nat_digits)
qed


section \<open>Text\<close>

text \<open>
  \<open>strings.ToLower\<close> and \<open>strings.ToUpper\<close> as far as ASCII text can tell: the ASCII
  letters, and the only two runes outside ASCII that each of them maps to an ASCII letter
  (the Kelvin sign and the dotted capital I; the dotless i and the long s).  Every other
  rune outside ASCII is mapped outside ASCII and is left as it is here.
\<close>

definition lower_char :: "char \<Rightarrow> char" where
  "lower_char c = (if (65::nat) \<le> of_char c \<and> of_char c \<le> (90::nat) then char_of (of_char c + 32 :: nat) else c)"

definition upper_char :: "char \<Rightarrow> char" where
  "upper_char c = (if (97::nat) \<le> of_char c \<and> of_char c \<le> (122::nat) then char_of (of_char c - 32 :: nat) else c)"

fun ToLower :: "string \<Rightarrow> string" where
  "ToLower (a # b # c # s) =
     (if a = CHR 0xE2 \<and> b = CHR 0x84 \<and> c = CHR 0xAA then CHR ''k'' # ToLower s
      else if a = CHR 0xC4 \<and> b = CHR 0xB0 then CHR ''i'' # ToLower (c # s)
      else lower_char a # ToLower (b # c # s))"
| "ToLower (a # b # s) =
     (if a = CHR 0xC4 \<and> b = CHR 0xB0 then CHR ''i'' # ToLower s else lower_char a # ToLower (b # s))"
| "ToLower (a # s) = lower_char a # ToLower s"
| "ToLower [] = []"

fun ToUpper :: "string \<Rightarrow> string" where
  "ToUpper (a # b # s) =
     (if a = CHR 0xC4 \<and> b = CHR 0xB1 then CHR ''I'' # ToUpper s
      else if a = CHR 0xC5 \<and> b = CHR 0xBF then CHR ''S'' # ToUpper s
      else upper_char a # ToUpper (b # s))"
| "ToUpper (a # s) = upper_char a # ToUpper s"
| "ToUpper [] = []"

fun has_prefix :: "string \<Rightarrow> string \<Rightarrow> bool" where
  "has_prefix [] s = True"
| "has_prefix (p # ps) [] = False"
| "has_prefix (p # ps) (c # s) = (p = c \<and> has_prefix ps s)"

text \<open>\<open>strings.Contains(s, sub)\<close>.\<close>

fun str_contains :: "string \<Rightarrow> string \<Rightarrow> bool" where
  "str_contains [] sub = (sub = [])"
| "str_contains (c # s) sub = (has_prefix sub (c # s) \<or> str_contains s sub)"


section \<open>Keyed tables\<close>

text \<open>
  The interface of the storage a component reads and writes by key: what a read returns
  after a write or a delete.  The clients' lemmas need these laws only.
\<close>

locale keyed_table =
  fixes get :: "'t \<Rightarrow> 'k \<Rightarrow> 'v option"
    and put :: "'k \<Rightarrow> 'v \<Rightarrow> 't \<Rightarrow> 't"
    and del :: "'k \<Rightarrow> 't \<Rightarrow> 't"
  assumes get_put: "get (put k v t) k' = (if k' = k then Some v else get t k')"
    and get_del: "get (del k t) k' = (if k' = k then None else get t k')"
begin

lemma get_put_same: "get (put k v t) k = Some v"
  by (simp add: get_put)

lemma get_put_other: "k' \<noteq> k \<Longrightarrow> get (put k v t) k' = get t k'"
  by (simp add: get_put)

lemma put_put_get: "get (put k w (put k v t)) = get (put k w t)"
  by (auto simp: fun_eq_iff get_put)

lemma del_put_get: "get t k = None \<Longrightarrow> get (del k (put k v t)) = get t"
  by (auto simp: fun_eq_iff get_put get_del)

text \<open>A property of every stored value survives a write of a value that has it.\<close>

lemma put_all:
  assumes "\<And>k' v'. get t k' = Some v' \<Longrightarrow> P k' v'" and "P k v"
    and "get (put k v t) k'' = Some w"
  shows "P k'' w"
  using assms by (auto simp: get_put split: if_splits)

end

interpretation alist: keyed_table "map_of :: ('k \<times> 'v) list \<Rightarrow> 'k \<Rightarrow> 'v option"
  AList.update AList.delete
proof unfold_locales
  show "map_of (AList.update k v t) k' = (if k' = k then Some v else map_of t k')"
    for k :: 'k and v :: 'v and t k'
    by (simp add: update_conv')
  show "map_of (AList.delete k t) k' = (if k' = k then None else map_of t k')"
    for k :: 'k and t :: "('k \<times> 'v) list" and k'
    by (simp add: delete_conv')
qed

lemmas alist_tbl [tbl_simps] = alist.get_put_same alist.get_put alist.get_del

end
