(* ===== verification/Watch_Model.thy ===== *)
theory Watch_Model
  imports Prelude
begin

text \<open>
  The data of the Watch coordinator (\<^verbatim>\<open>src/pkg/watch/model.go\<close>, the row types of
  \<^verbatim>\<open>definitions.go\<close>, \<^verbatim>\<open>notifications.go\<close>, \<^verbatim>\<open>telegram.go\<close>,
  \<^verbatim>\<open>telegram_provider.go\<close>) and the tables of its storage.  Each Go struct is a record
  with the source's field names behind a prefix of its own (HOL record fields are global);
  an embedded \<open>Scope\<close> is a field.  The states, triggers and lifecycles stay the strings
  the code compares.

  Parameters (\<open>watch_env\<close>): the configuration, and the functions of libraries the
  code only calls: the SHA-256 of a marshalled list (\<open>stable_hash\<close>), \<open>json.Marshal\<close>
  of a stored value (\<open>marshal\<close>), \<open>time.Time.Format\<close>, \<open>mail.ParseAddress\<close>,
  and the validation of a Check input (package datatug-core).
\<close>

datatype watch_error = ErrForbidden | ErrNotFound | ErrConflict | ErrStaleLease | ErrInvalid | ErrCapacity

record scope =
  Namespace :: string
  Project :: string
  Environment :: string

record actor =
  a_ID :: string
  a_Email :: string
  a_Scope :: scope
  a_SharedEditor :: bool
  a_AccountID :: string
  a_Tier :: string
  a_Phone :: string

record runner_identity =
  i_TelegramBotID :: string
  i_TelegramBotUsername :: string
  i_ID :: string
  i_Scope :: scope
  i_Capabilities :: "string list"

record notification_policy =
  CooldownSeconds :: int
  Recovery :: bool

text \<open>
  \<open>Inputs\<close> is a Go map: \<open>None\<close> is the nil map, \<open>Some kvs\<close> the entries in
  key order (the order \<open>json.Marshal\<close> writes them in), so that equal texts are equal
  values.  A Check input value is a type of datatug-core; it is kept as its JSON text.
\<close>

type_synonym inputs = "(string \<times> string) list option"

record definition_t =
  d_SourceRevision :: string
  d_SourceFingerprint :: string
  d_Scope :: scope
  d_ID :: string
  d_Version :: int
  d_Title :: string
  d_Owner :: string
  d_Visibility :: string
  d_CheckID :: string
  d_CheckVersion :: string
  d_Inputs :: inputs
  d_IntervalSeconds :: int
  d_Trigger :: string
  d_InitialObservation :: string
  d_Mode :: string
  d_Lifecycle :: string
  d_Enabled :: bool
  d_Requirements :: "string list"
  d_NotificationPolicy :: notification_policy
  d_CreatedAt :: time
  d_UpdatedAt :: time

record subscription =
  s_TelegramBotID :: string
  s_AccountID :: string
  s_Tier :: string
  s_Phone :: string
  s_WatchID :: string
  s_UserID :: string
  s_Channels :: "string list"
  s_NotifyOn :: "string list"
  s_Email :: string
  s_Unsubscribed :: bool

record event =
  e_Scope :: scope
  e_ID :: string
  e_WatchID :: string
  e_RunID :: string
  e_DefinitionVersion :: int
  e_Title :: string
  e_Kind :: string
  e_Previous :: string
  e_Outcome :: string
  e_OccurredAt :: time
  e_CheckID :: string
  e_CheckVersion :: string
  e_SourceFingerprint :: string
  e_CheckRunRef :: string
  e_Inputs :: inputs
  e_Owner :: string
  e_Visibility :: string

record observation =
  o_LastEventID :: string
  o_SourceFingerprint :: string
  o_WatchID :: string
  o_Value :: string
  o_LastKnown :: string
  o_LastRunID :: string
  o_LastObservedAt :: time
  o_LastNotifiedAt :: time
  o_NextEvaluation :: time
  o_Availability :: string

record run =
  r_EventID :: string
  r_Scope :: scope
  r_ID :: string
  r_WatchID :: string
  r_DefinitionVersion :: int
  r_DueAt :: time
  r_State :: string
  r_RunnerID :: string
  r_Fence :: int
  r_Attempts :: int
  r_Deadline :: time
  r_CompletionHash :: string
  r_LeaseUntil :: time
  r_RetryAt :: time
  r_ExecutionStatus :: string
  r_Outcome :: string
  r_Severity :: string
  r_DurationMS :: int
  r_CheckRunRef :: string
  r_FailureCode :: string
  r_FinishedAt :: time

record claim =
  c_ClaimID :: string
  c_RunID :: string
  c_Fence :: int
  c_LeaseUntil :: time
  c_Deadline :: time
  c_Definition :: definition_t

record completion =
  f_SourceRevision :: string
  f_SourceFingerprint :: string
  f_ClaimID :: string
  f_RunID :: string
  f_Fence :: int
  f_ExecutionStatus :: string
  f_Outcome :: string
  f_Severity :: string
  f_DurationMS :: int
  f_CheckRunRef :: string
  f_FailureCode :: string

record runner =
  w_TelegramBotID :: string
  w_TelegramBotUsername :: string
  w_Scope :: scope
  w_ID :: string
  w_Capabilities :: "string list"
  w_LastSeen :: time

record notification =
  n_EventID :: string
  n_Scope :: scope
  n_ID :: string
  n_WatchID :: string
  n_RunID :: string
  n_UserID :: string
  n_Title :: string
  n_Event :: string
  n_Link :: string
  n_CreatedAt :: time
  n_ReadAt :: time

record delivery =
  v_TelegramLinkGeneration :: int
  v_TelegramBotID :: string
  v_TelegramChatID :: string
  v_AccountID :: string
  v_Phone :: string
  v_QuotaReserved :: bool
  v_Notification :: notification
  v_Channel :: string
  v_Email :: string
  v_State :: string
  v_Attempts :: int
  v_Fence :: int
  v_LeaseUntil :: time
  v_RetryAt :: time
  v_FailureCode :: string

record audit_event =
  l_ID :: string
  l_Scope :: scope
  l_Actor :: string
  l_Action :: string
  l_ResourceID :: string
  l_At :: time

record operation =
  op_Digest :: string
  op_Definition :: definition_t

record telegram_link =
  k_Generation :: int
  k_FailureCode :: string
  k_Scope :: scope
  k_BotID :: string
  k_UserID :: string
  k_ChatID :: string
  k_At :: time
  k_ExpiresAt :: time

record telegram_request =
  q_Scope :: scope
  q_BotID :: string
  q_UserID :: string
  q_Hash :: string
  q_ExpiresAt :: time
  q_ConsumedChatID :: string

record telegram_provider_t =
  p_Scope :: scope
  p_Generation :: int
  p_BotID :: string
  p_BotUsername :: string

record telegram_poll_lease =
  pl_NextAttemptAt :: time
  pl_BotID :: string
  pl_Fence :: int
  pl_Offset :: int
  pl_LeaseUntil :: time

record telegram_poll_state =
  ps_Scope :: scope
  ps_Lease :: telegram_poll_lease
  ps_RunnerID :: string
  ps_LastProcessedAt :: time

record telegram_provider_status =
  ts_ReconnectRequired :: bool
  ts_ConnectionError :: string
  ts_Connected :: bool
  ts_BotID :: string
  ts_BotUsername :: string

record config =
  MaxWatchesPerUser :: int
  MinIntervalSeconds :: int
  TelegramDailyLimit :: int
  TelegramMinuteLimit :: int
  IsPaidAccount :: "(string \<Rightarrow> bool) option"
  EmailDailyLimit :: int
  SMSDailyLimit :: int
  EmailMinuteLimit :: int
  SMSMinuteLimit :: int
  cfg_Namespace :: string
  LeaseDuration :: duration
  RunnerTTL :: duration
  ExecutionTimeout :: duration
  MaxAttempts :: int
  HistoryLimit :: int

text \<open>What \<open>save\<close> marshals: one case per type the code stores.\<close>

datatype payload =
    P_Event event
  | P_Definition definition_t
  | P_Observation observation
  | P_Run run
  | P_Runner runner
  | P_Subscription subscription
  | P_Notification notification
  | P_Delivery delivery
  | P_Audit audit_event
  | P_Operation operation
  | P_Link telegram_link
  | P_Request telegram_request
  | P_Provider telegram_provider_t
  | P_Poll telegram_poll_state
  | P_Quota int

record watch_env =
  config_of :: config
  stable_hash :: "string list \<Rightarrow> string"
  marshal :: "payload \<Rightarrow> string"
  Format :: "string \<Rightarrow> time \<Rightarrow> string"
  InputValue_Validate :: "string \<Rightarrow> bool"
  ParseAddress :: "string \<Rightarrow> string option"

text \<open>
  One stored row: the indexed columns next to the payload.  A table is the list of its
  rows in storage order under their (hashed) primary keys.
\<close>

record 'a row =
  row_namespace :: string
  row_project :: string
  row_environment :: string
  row_watch :: string
  row_owner :: string
  row_visibility :: string
  row_updated :: time
  row_payload :: 'a

type_synonym 'a table = "(string \<times> 'a row) list"

record store =
  t_events :: "event table"
  t_definitions :: "definition_t table"
  t_observations :: "observation table"
  t_runs :: "run table"
  t_runners :: "runner table"
  t_subscriptions :: "subscription table"
  t_inbox :: "notification table"
  t_outbox :: "delivery table"
  t_audit :: "audit_event table"
  t_operations :: "operation table"
  t_links :: "telegram_link table"
  t_requests :: "telegram_request table"
  t_quotas :: "int table"
  t_providers :: "telegram_provider_t table"
  t_bots :: "telegram_provider_t table"
  t_polls :: "telegram_poll_state table"

definition empty_store :: store where
  "empty_store = \<lparr>t_events = [], t_definitions = [], t_observations = [], t_runs = [],
     t_runners = [], t_subscriptions = [], t_inbox = [], t_outbox = [], t_audit = [],
     t_operations = [], t_links = [], t_requests = [], t_quotas = [], t_providers = [],
     t_bots = [], t_polls = []\<rparr>"

end
