(* ===== verification/Watch_Storage.thy ===== *)
theory Watch_Storage
  imports Watch_Model
begin

text \<open>
  The storage operations of \<^verbatim>\<open>src/pkg/watch/storage.go\<close> for the standalone (SQLite)
  deployment, \<open>NewSQLiteStore\<close>, whose \<open>Store.cloud\<close> is nil: the branches of the code
  under \<open>s.cloud != nil\<close> are not reached there and are left out of the model.  A
  transaction is a function from the store to an error or the result and the new store; on
  an error the store stays as it was, which is the roll-back.  Stored values survive the JSON
  round trip, except that an empty \<open>Inputs\<close> map is read back as nil (the field is
  \<open>omitempty\<close>).  One transaction reads one instant \<open>now\<close> from the clock.
\<close>

section \<open>Keys, scopes and authority\<close>

definition stable :: "watch_env \<Rightarrow> string list \<Rightarrow> string" where
  "stable env parts = stable_hash env parts"

definition key :: "watch_env \<Rightarrow> scope \<Rightarrow> string \<Rightarrow> string" where
  "key env sc rid = stable env [Namespace sc, Project sc, Environment sc, rid]"

definition validScope :: "watch_env \<Rightarrow> scope \<Rightarrow> bool" where
  "validScope env sc \<longleftrightarrow> Namespace sc = cfg_Namespace (config_of env) \<and> Project sc \<noteq> [] \<and>
     Environment sc \<noteq> [] \<and> length (Project sc) \<le> 200 \<and> length (Environment sc) \<le> 100"

definition check_actor :: "watch_env \<Rightarrow> actor \<Rightarrow> watch_error + unit" where
  "check_actor env a = (if a_ID a = [] \<or> \<not> validScope env (a_Scope a) then Inl ErrForbidden else Inr ())"

definition visible :: "actor \<Rightarrow> definition_t \<Rightarrow> bool" where
  "visible a d \<longleftrightarrow> a_Scope a = d_Scope d \<and> d_Lifecycle d \<noteq> ''deleted'' \<and>
     (d_Visibility d = ''shared'' \<or> d_Owner d = a_ID a)"

definition editable :: "actor \<Rightarrow> definition_t \<Rightarrow> bool" where
  "editable a d \<longleftrightarrow> visible a d \<and>
     (d_Owner d = a_ID a \<or> d_Visibility d = ''shared'' \<and> a_SharedEditor a)"


section \<open>Reading and listing\<close>

definition read :: "watch_env \<Rightarrow> 'a table \<Rightarrow> scope \<Rightarrow> string \<Rightarrow> watch_error + 'a" where
  "read env t sc rid =
     (case map_of t (key env sc rid) of None \<Rightarrow> Inl ErrNotFound | Some row \<Rightarrow> Inr (row_payload row))"

definition row_matches :: "scope \<Rightarrow> string \<Rightarrow> 'a row \<Rightarrow> bool" where
  "row_matches sc watchID row \<longleftrightarrow> row_namespace row = Namespace sc \<and>
     (Project sc = [] \<or> row_project row = Project sc) \<and>
     (Environment sc = [] \<or> row_environment row = Environment sc) \<and>
     (watchID = [] \<or> row_watch row = watchID)"

definition list_rows :: "'a table \<Rightarrow> scope \<Rightarrow> string \<Rightarrow> 'a list" where
  "list_rows t sc watchID = map row_payload (filter (row_matches sc watchID) (map snd t))"

definition global_scope :: "watch_env \<Rightarrow> scope" where
  "global_scope env = \<lparr>Namespace = cfg_Namespace (config_of env), Project = [], Environment = []\<rparr>"


section \<open>Saving\<close>

definition maxPayload :: nat where "maxPayload = 128 * 1024"

definition save :: "watch_env \<Rightarrow> time \<Rightarrow> payload \<Rightarrow> scope \<Rightarrow> string \<Rightarrow> string \<Rightarrow> string \<Rightarrow> string \<Rightarrow>
    'a \<Rightarrow> 'a table \<Rightarrow> watch_error + 'a table" where
  "save env updated p sc rid watchID owner visibility value t =
     (if length (marshal env p) > maxPayload then Inl ErrInvalid
      else Inr (AList.update (key env sc rid)
        \<lparr>row_namespace = Namespace sc, row_project = Project sc, row_environment = Environment sc,
         row_watch = watchID, row_owner = owner, row_visibility = visibility,
         row_updated = updated, row_payload = value\<rparr> t))"

definition stored_inputs :: "inputs \<Rightarrow> inputs" where
  "stored_inputs i = (if i = Some [] then None else i)"

definition stored_definition :: "definition_t \<Rightarrow> definition_t" where
  "stored_definition d = d\<lparr>d_Inputs := stored_inputs (d_Inputs d)\<rparr>"

definition save_definition :: "watch_env \<Rightarrow> time \<Rightarrow> string \<Rightarrow> definition_t \<Rightarrow> store \<Rightarrow> watch_error + store" where
  "save_definition env now wid d st =
     rbind (save env now (P_Definition d) (d_Scope d) wid wid (d_Owner d) (d_Visibility d)
       (stored_definition d) (t_definitions st)) (\<lambda>t. Inr (st\<lparr>t_definitions := t\<rparr>))"

definition save_observation ::
    "watch_env \<Rightarrow> time \<Rightarrow> string \<Rightarrow> definition_t \<Rightarrow> observation \<Rightarrow> store \<Rightarrow> watch_error + store" where
  "save_observation env now wid d obs st =
     rbind (save env now (P_Observation obs) (d_Scope d) wid wid (d_Owner d) (d_Visibility d)
       obs (t_observations st)) (\<lambda>t. Inr (st\<lparr>t_observations := t\<rparr>))"

definition save_run :: "watch_env \<Rightarrow> time \<Rightarrow> run \<Rightarrow> store \<Rightarrow> watch_error + store" where
  "save_run env now r st =
     rbind (save env now (P_Run r) (r_Scope r) (r_ID r) (r_WatchID r) [] [] r (t_runs st))
       (\<lambda>t. Inr (st\<lparr>t_runs := t\<rparr>))"

definition save_runner :: "watch_env \<Rightarrow> time \<Rightarrow> scope \<Rightarrow> string \<Rightarrow> runner \<Rightarrow> store \<Rightarrow> watch_error + store" where
  "save_runner env now sc rid w st =
     rbind (save env now (P_Runner w) sc rid [] rid [] w (t_runners st))
       (\<lambda>t. Inr (st\<lparr>t_runners := t\<rparr>))"

definition save_event :: "watch_env \<Rightarrow> definition_t \<Rightarrow> event \<Rightarrow> store \<Rightarrow> watch_error + store" where
  "save_event env d e st =
     rbind (save env (e_OccurredAt e) (P_Event e) (d_Scope d) (e_ID e) (d_ID d) (d_Owner d) (d_Visibility d)
       (e\<lparr>e_Inputs := stored_inputs (e_Inputs e)\<rparr>) (t_events st)) (\<lambda>t. Inr (st\<lparr>t_events := t\<rparr>))"

definition save_outbox :: "watch_env \<Rightarrow> time \<Rightarrow> delivery \<Rightarrow> store \<Rightarrow> watch_error + store" where
  "save_outbox env now v st =
     (let n = v_Notification v in
      rbind (save env now (P_Delivery v) (n_Scope n) (n_ID n) (n_WatchID n) (n_UserID n) [] v (t_outbox st))
        (\<lambda>t. Inr (st\<lparr>t_outbox := t\<rparr>)))"

definition save_inbox :: "watch_env \<Rightarrow> time \<Rightarrow> notification \<Rightarrow> store \<Rightarrow> watch_error + store" where
  "save_inbox env now n st =
     rbind (save env now (P_Notification n) (n_Scope n) (n_ID n) (n_WatchID n) (n_UserID n) [] n (t_inbox st))
       (\<lambda>t. Inr (st\<lparr>t_inbox := t\<rparr>))"

definition save_operation :: "watch_env \<Rightarrow> time \<Rightarrow> string \<Rightarrow> definition_t \<Rightarrow> string \<Rightarrow> string \<Rightarrow> operation \<Rightarrow>
    store \<Rightarrow> watch_error + store" where
  "save_operation env now wid d opID owner op st =
     rbind (save env now (P_Operation op) (d_Scope d) opID wid owner []
       (op\<lparr>op_Definition := stored_definition (op_Definition op)\<rparr>) (t_operations st))
       (\<lambda>t. Inr (st\<lparr>t_operations := t\<rparr>))"

definition time_String :: "watch_env \<Rightarrow> time \<Rightarrow> string" where
  "time_String env t = Format env ''2006-01-02 15:04:05.999999999 -0700 MST'' t"

definition log_event :: "watch_env \<Rightarrow> time \<Rightarrow> scope \<Rightarrow> string \<Rightarrow> string \<Rightarrow> string \<Rightarrow> store \<Rightarrow> watch_error + store" where
  "log_event env now sc who action rid st =
     (let e = \<lparr>l_ID = stable env [who, action, rid, time_String env now], l_Scope = sc, l_Actor = who,
               l_Action = action, l_ResourceID = rid, l_At = now\<rparr> in
      rbind (save env now (P_Audit e) sc (l_ID e) rid who [] e (t_audit st))
        (\<lambda>t. Inr (st\<lparr>t_audit := t\<rparr>)))"

lemmas save_defs = save_definition_def save_observation_def save_run_def save_runner_def save_event_def
  save_outbox_def save_inbox_def save_operation_def log_event_def


section \<open>Configuration\<close>

definition default_if :: "int \<Rightarrow> int \<Rightarrow> int" where
  "default_if v d = (if v \<le> 0 then d else v)"

definition normalizeConfig :: "config \<Rightarrow> watch_error + config" where
  "normalizeConfig c0 =
     (let c1 = c0\<lparr>MaxWatchesPerUser := default_if (MaxWatchesPerUser c0) 100,
                 MinIntervalSeconds := default_if (MinIntervalSeconds c0) 5\<rparr> in
      if MaxWatchesPerUser c1 > 1000 \<or> MinIntervalSeconds c1 < 5 \<or> MinIntervalSeconds c1 > 3600
      then Inl ErrInvalid
      else
        let c2 = c1\<lparr>EmailDailyLimit := default_if (EmailDailyLimit c1) 50,
                    SMSDailyLimit := default_if (SMSDailyLimit c1) 10,
                    EmailMinuteLimit := default_if (EmailMinuteLimit c1) 5,
                    SMSMinuteLimit := default_if (SMSMinuteLimit c1) 2,
                    TelegramDailyLimit := default_if (TelegramDailyLimit c1) 100,
                    TelegramMinuteLimit := default_if (TelegramMinuteLimit c1) 5,
                    LeaseDuration := default_if (LeaseDuration c1) (30 * Second),
                    RunnerTTL := default_if (RunnerTTL c1) (90 * Second),
                    ExecutionTimeout := default_if (ExecutionTimeout c1) (2 * Minute),
                    MaxAttempts := default_if (MaxAttempts c1) 3,
                    HistoryLimit := default_if (HistoryLimit c1) 1000\<rparr> in
        if LeaseDuration c2 > Minute \<or> ExecutionTimeout c2 > 15 * Minute \<or> HistoryLimit c2 > 10000 \<or>
           MaxAttempts c2 > 10
        then Inl ErrInvalid else Inr c2)"

text \<open>What every store's configuration satisfies once \<open>normalizeConfig\<close> accepted it.\<close>

definition good_config :: "config \<Rightarrow> bool" where
  "good_config c \<longleftrightarrow> 0 < MaxWatchesPerUser c \<and> MaxWatchesPerUser c \<le> 1000 \<and>
     5 \<le> MinIntervalSeconds c \<and> MinIntervalSeconds c \<le> 3600 \<and>
     0 < EmailDailyLimit c \<and> 0 < SMSDailyLimit c \<and> 0 < EmailMinuteLimit c \<and> 0 < SMSMinuteLimit c \<and>
     0 < TelegramDailyLimit c \<and> 0 < TelegramMinuteLimit c \<and>
     0 < LeaseDuration c \<and> LeaseDuration c \<le> Minute \<and> 0 < RunnerTTL c \<and>
     0 < ExecutionTimeout c \<and> ExecutionTimeout c \<le> 15 * Minute \<and>
     0 < MaxAttempts c \<and> MaxAttempts c \<le> 10 \<and> 0 < HistoryLimit c \<and> HistoryLimit c \<le> 10000"

lemma default_if_pos: "0 < d \<Longrightarrow> 0 < default_if v d"
  by (simp add: default_if_def)

lemma default_if_id: "0 < v \<Longrightarrow> default_if v d = v"
  by (simp add: default_if_def)

lemma normalizeConfig_good: "normalizeConfig c = Inr c' \<Longrightarrow> good_config c'"
  unfolding normalizeConfig_def Let_def if_Inl_eq_Inr
  by (auto simp: good_config_def not_less Second_def Minute_def intro!: default_if_pos)

lemma normalizeConfig_id: "good_config c \<Longrightarrow> normalizeConfig c = Inr c"
  by (cases c) (simp add: normalizeConfig_def good_config_def Let_def default_if_id)


section \<open>Laws of the typed tables\<close>

lemma read_Inr [res_simps]:
  "read env t sc rid = Inr v \<longleftrightarrow> (\<exists>row. map_of t (key env sc rid) = Some row \<and> row_payload row = v)"
  by (auto simp: read_def split: option.splits)

lemma read_Inl [res_simps]: "read env t sc rid = Inl e \<longleftrightarrow> e = ErrNotFound \<and> map_of t (key env sc rid) = None"
  by (auto simp: read_def split: option.splits)

lemma save_Inr [res_simps]:
  "save env u p sc rid wt ow vi v t = Inr t' \<longleftrightarrow>
     length (marshal env p) \<le> maxPayload \<and>
     t' = AList.update (key env sc rid)
        \<lparr>row_namespace = Namespace sc, row_project = Project sc, row_environment = Environment sc,
         row_watch = wt, row_owner = ow, row_visibility = vi, row_updated = u, row_payload = v\<rparr> t"
  by (auto simp: save_def)

lemma read_save:
  assumes "save env u p sc rid wt ow vi v t = Inr t'"
  shows "read env t' sc' id' = (if key env sc' id' = key env sc rid then Inr v else read env t sc' id')"
  using assms by (auto simp: save_Inr read_def alist.get_put)

lemma save_total: "length (marshal env p) \<le> maxPayload \<Longrightarrow> \<exists>t'. save env u p sc rid wt ow vi v t = Inr t'"
  by (simp add: save_def)

text \<open>A listed value is stored in a row of the scope, under some key.\<close>

lemma list_rows_iff:
  "v \<in> set (list_rows t sc w) \<longleftrightarrow> (\<exists>k row. (k, row) \<in> set t \<and> row_matches sc w row \<and> row_payload row = v)"
  by (auto simp: list_rows_def image_iff) blast

end
