(* ===== verification/Watch_Definitions.thy ===== *)
theory Watch_Definitions
  imports Watch_Storage
begin

text \<open>
  Saved Watch definitions (\<^verbatim>\<open>src/pkg/watch/definitions.go\<close> and the request digest of
  \<^verbatim>\<open>definition_operation_read.go\<close>): validation, creation and edit under an expected
  version and an idempotent operation id, lifecycle changes and the explicit reset of the
  baseline.  Every change of a definition cancels the active runs of its Watch.
\<close>

section \<open>Reading definitions\<close>

definition liveDefinitions :: "store \<Rightarrow> scope \<Rightarrow> definition_t list" where
  "liveDefinitions st sc = list_rows (t_definitions st) sc []"

definition ListDefinitions :: "watch_env \<Rightarrow> actor \<Rightarrow> store \<Rightarrow> watch_error + definition_t list" where
  "ListDefinitions env a st = rbind (check_actor env a) (\<lambda>_.
     Inr (sort_key d_ID (filter (visible a) (liveDefinitions st (a_Scope a)))))"

definition GetDefinition :: "watch_env \<Rightarrow> actor \<Rightarrow> string \<Rightarrow> store \<Rightarrow> watch_error + definition_t" where
  "GetDefinition env a wid st = rbind (check_actor env a) (\<lambda>_.
     rbind (read env (t_definitions st) (a_Scope a) wid) (\<lambda>d.
     if \<not> visible a d then Inl ErrNotFound else Inr d))"


section \<open>Validation\<close>

definition secret_words :: "string list" where
  "secret_words = [''password'', ''secret'', ''token'', ''credential'']"

definition input_ok :: "watch_env \<Rightarrow> string \<times> string \<Rightarrow> bool" where
  "input_ok env kv \<longleftrightarrow> \<not> list_ex (str_contains (ToLower (fst kv))) secret_words \<and>
     InputValue_Validate env (snd kv)"

definition validateDefinition :: "watch_env \<Rightarrow> definition_t \<Rightarrow> watch_error + unit" where
  "validateDefinition env d =
     (if (case ParseInt (d_CheckVersion d) of None \<Rightarrow> True | Some v \<Rightarrow> v \<le> 0) then Inl ErrInvalid
      else if d_ID d = [] \<or> length (d_ID d) > 128 \<or> d_Title d = [] \<or> length (d_Title d) > 200 \<or>
              d_CheckID d = [] \<or> length (d_CheckID d) > 200 \<or> length (d_Requirements d) > 32 then Inl ErrInvalid
      else if d_Visibility d \<noteq> ''personal'' \<and> d_Visibility d \<noteq> ''shared'' then Inl ErrInvalid
      else if d_IntervalSeconds d < 5 \<or> d_IntervalSeconds d > 86400 then Inl ErrInvalid
      else if d_Trigger d \<noteq> ''becomes_true'' \<and> d_Trigger d \<noteq> ''becomes_false'' \<and> d_Trigger d \<noteq> ''changes''
           then Inl ErrInvalid
      else if d_InitialObservation d \<noteq> ''notify'' \<and> d_InitialObservation d \<noteq> ''baseline'' then Inl ErrInvalid
      else if d_Mode d \<noteq> ''one_shot'' \<and> d_Mode d \<noteq> ''continuous'' then Inl ErrInvalid
      else if CooldownSeconds (d_NotificationPolicy d) < 0 \<or> CooldownSeconds (d_NotificationPolicy d) > 86400
           then Inl ErrInvalid
      else let kvs = (case d_Inputs d of None \<Rightarrow> [] | Some kvs \<Rightarrow> kvs) in
           if length kvs > 100 then Inl ErrInvalid
           else if \<not> list_all (input_ok env) kvs then Inl ErrInvalid
           else Inr ())"

definition putDefinitionOperationDigest :: "watch_env \<Rightarrow> definition_t \<Rightarrow> int \<Rightarrow> string" where
  "putDefinitionOperationDigest env d version =
     stable env [marshal env (P_Definition (d\<lparr>d_SourceRevision := []\<rparr>)), show_int version]"


section \<open>Cancelling the active runs of a Watch\<close>

definition active_run :: "run \<Rightarrow> bool" where
  "active_run r \<longleftrightarrow> r_State r = ''running'' \<or> r_State r = ''due'' \<or> r_State r = ''retry''"

definition cancel_run :: "watch_env \<Rightarrow> time \<Rightarrow> run \<Rightarrow> store \<Rightarrow> watch_error + store" where
  "cancel_run env now r st =
     (if active_run r
      then save_run env now (r\<lparr>r_State := ''cancelled'', r_Fence := r_Fence r + 1, r_FinishedAt := now\<rparr>) st
      else Inr st)"

definition cancelRuns :: "watch_env \<Rightarrow> time \<Rightarrow> scope \<Rightarrow> string \<Rightarrow> store \<Rightarrow> watch_error + store" where
  "cancelRuns env now sc wid st = rfold (cancel_run env now) (list_rows (t_runs st) sc wid) st"


section \<open>Creating and editing\<close>

definition fresh_observation :: "string \<Rightarrow> time \<Rightarrow> observation" where
  "fresh_observation wid now = \<lparr>o_LastEventID = [], o_SourceFingerprint = [], o_WatchID = wid,
     o_Value = ''never'', o_LastKnown = ''never'', o_LastRunID = [], o_LastObservedAt = time_zero,
     o_LastNotifiedAt = time_zero, o_NextEvaluation = now, o_Availability = ''waiting''\<rparr>"

definition put_replay :: "watch_env \<Rightarrow> actor \<Rightarrow> string \<Rightarrow> operation \<Rightarrow> store \<Rightarrow> watch_error + definition_t \<times> store" where
  "put_replay env a digest previous st =
     (if op_Digest previous \<noteq> digest then Inl ErrConflict
      else rbind (read env (t_definitions st) (a_Scope a) (d_ID (op_Definition previous))) (\<lambda>current.
        if \<not> visible a current then Inl ErrForbidden else Inr (op_Definition previous, st)))"

definition put_new :: "watch_env \<Rightarrow> time \<Rightarrow> actor \<Rightarrow> definition_t \<Rightarrow> int \<Rightarrow> store \<Rightarrow> watch_error + definition_t" where
  "put_new env now a d expectedVersion st =
     (if d_Lifecycle d \<noteq> [] \<and> d_Lifecycle d \<noteq> ''enabled'' \<and> d_Lifecycle d \<noteq> ''paused'' then Inl ErrInvalid
      else if expectedVersion \<noteq> 0 then Inl ErrConflict
      else if d_Owner d \<noteq> [] \<and> d_Owner d \<noteq> a_ID a then Inl ErrForbidden
      else if d_Visibility d = ''shared'' \<and> \<not> a_SharedEditor a then Inl ErrForbidden
      else let items = liveDefinitions st (global_scope env);
               owned = length (filter (\<lambda>item. d_Owner item = a_ID a \<and> d_Lifecycle item \<noteq> ''deleted'') items) in
           if int owned \<ge> MaxWatchesPerUser (config_of env) then Inl ErrInvalid
           else if length items \<ge> 1000 then Inl ErrInvalid
           else Inr (d\<lparr>d_Owner := a_ID a, d_CreatedAt := now, d_Version := 1\<rparr>))"

definition put_existing :: "actor \<Rightarrow> definition_t \<Rightarrow> definition_t \<Rightarrow> int \<Rightarrow> watch_error + definition_t" where
  "put_existing a existing d expectedVersion =
     (if d_Visibility existing \<noteq> ''shared'' \<and> d_Visibility d = ''shared'' \<and> \<not> a_SharedEditor a then Inl ErrForbidden
      else if \<not> editable a existing then Inl ErrForbidden
      else if d_Version existing \<noteq> expectedVersion then Inl ErrConflict
      else if d_Owner d \<noteq> [] \<and> d_Owner d \<noteq> d_Owner existing then Inl ErrForbidden
      else if d_Visibility existing \<noteq> d_Visibility d \<and> a_ID a \<noteq> d_Owner existing then Inl ErrForbidden
      else Inr (d\<lparr>d_Owner := d_Owner existing, d_CreatedAt := d_CreatedAt existing,
                  d_Version := d_Version existing + 1\<rparr>))"

definition same_check :: "definition_t \<Rightarrow> definition_t \<Rightarrow> bool" where
  "same_check existing d \<longleftrightarrow> d_CheckID existing = d_CheckID d \<and> d_CheckVersion existing = d_CheckVersion d \<and>
     d_SourceRevision existing = d_SourceRevision d \<and> d_Inputs existing = d_Inputs d"

definition put_observation :: "watch_env \<Rightarrow> time \<Rightarrow> definition_t option \<Rightarrow> definition_t \<Rightarrow> store \<Rightarrow>
    watch_error + observation" where
  "put_observation env now existing d st =
     (case existing of
        Some x \<Rightarrow> (if same_check x d then read env (t_observations st) (d_Scope d) (d_ID d)
                   else Inr (fresh_observation (d_ID d) now))
      | None \<Rightarrow> Inr (fresh_observation (d_ID d) now))"

definition put_commit :: "watch_env \<Rightarrow> time \<Rightarrow> actor \<Rightarrow> definition_t option \<Rightarrow> bool \<Rightarrow> definition_t \<Rightarrow> string \<Rightarrow> string \<Rightarrow>
    store \<Rightarrow> watch_error + definition_t \<times> store" where
  "put_commit env now a existing startPaused d0 digest opID st =
     (let d = d0\<lparr>d_UpdatedAt := now, d_SourceFingerprint := [],
                d_Lifecycle := (case existing of Some x \<Rightarrow> d_Lifecycle x
                                | None \<Rightarrow> if startPaused then ''paused'' else ''enabled''),
                d_Enabled := (case existing of Some x \<Rightarrow> d_Enabled x | None \<Rightarrow> \<not> startPaused)\<rparr> in
      rbind (cancelRuns env now (d_Scope d) (d_ID d) st) (\<lambda>st1.
      rbind (save_definition env now (d_ID d) d st1) (\<lambda>st2.
      rbind (put_observation env now existing d st2) (\<lambda>obs.
      rbind (save_observation env now (d_ID d) d obs st2) (\<lambda>st3.
      rbind (log_event env now (d_Scope d) (a_ID a) ''definition.put'' (d_ID d) st3) (\<lambda>st4.
      rbind (save_operation env now (d_ID d) d opID (a_ID a) \<lparr>op_Digest = digest, op_Definition = d\<rparr> st4) (\<lambda>st5.
      Inr (d, st5))))))))"

definition PutDefinition :: "watch_env \<Rightarrow> time \<Rightarrow> actor \<Rightarrow> definition_t \<Rightarrow> string \<Rightarrow> int \<Rightarrow> store \<Rightarrow>
    watch_error + definition_t \<times> store" where
  "PutDefinition env now a d0 operationID expectedVersion st =
     rbind (check_actor env a) (\<lambda>_.
     if d_Scope d0 \<noteq> a_Scope a \<or> operationID = [] \<or> length operationID > 128 then Inl ErrInvalid
     else if d_IntervalSeconds d0 < MinIntervalSeconds (config_of env) then Inl ErrInvalid
     else rbind (validateDefinition env d0) (\<lambda>_.
       let d = d0\<lparr>d_SourceRevision := []\<rparr>;
           startPaused = (d_Lifecycle d = ''paused'');
           digest = putDefinitionOperationDigest env d expectedVersion;
           opID = stable env [a_ID a, operationID] in
       case read env (t_operations st) (a_Scope a) opID of
         Inr previous \<Rightarrow> put_replay env a digest previous st
       | Inl _ \<Rightarrow>
         (case read env (t_definitions st) (a_Scope a) (d_ID d) of
            Inl _ \<Rightarrow> rbind (put_new env now a d expectedVersion st) (\<lambda>d1.
                      put_commit env now a None startPaused d1 digest opID st)
          | Inr existing \<Rightarrow> rbind (put_existing a existing d expectedVersion) (\<lambda>d1.
                      put_commit env now a (Some existing) startPaused d1 digest opID st))))"


section \<open>Lifecycle and baseline\<close>

definition lifecycle_replay :: "watch_env \<Rightarrow> actor \<Rightarrow> string \<Rightarrow> operation \<Rightarrow> store \<Rightarrow> watch_error + definition_t \<times> store" where
  "lifecycle_replay env a digest prev st =
     (if op_Digest prev \<noteq> digest then Inl ErrConflict
      else rbind (read env (t_definitions st) (a_Scope a) (d_ID (op_Definition prev))) (\<lambda>current.
        if d_Lifecycle current \<noteq> ''deleted'' \<and> \<not> visible a current \<or>
           d_Lifecycle current = ''deleted'' \<and> d_Owner current \<noteq> a_ID a
        then Inl ErrForbidden else Inr (op_Definition prev, st)))"

definition lifecycle_commit :: "watch_env \<Rightarrow> time \<Rightarrow> actor \<Rightarrow> string \<Rightarrow> string \<Rightarrow> string \<Rightarrow> string \<Rightarrow> definition_t \<Rightarrow> store \<Rightarrow>
    watch_error + definition_t \<times> store" where
  "lifecycle_commit env now a wid lifecycle digest opID d0 st =
     (let d = d0\<lparr>d_Version := d_Version d0 + 1, d_Lifecycle := lifecycle,
                d_Enabled := (lifecycle = ''enabled''), d_UpdatedAt := now\<rparr> in
      rbind (cancelRuns env now (d_Scope d) wid st) (\<lambda>st1.
      rbind (save_definition env now wid d st1) (\<lambda>st2.
      rbind (if lifecycle = ''enabled''
             then rbind (read env (t_observations st2) (d_Scope d) wid) (\<lambda>obs.
               save_observation env now wid d
                 (obs\<lparr>o_NextEvaluation := now, o_Availability := ''waiting''\<rparr>) st2)
             else Inr st2) (\<lambda>st3.
      rbind (log_event env now (d_Scope d) (a_ID a) (''definition.'' @ lifecycle) wid st3) (\<lambda>st4.
      rbind (save_operation env now wid d opID (a_ID a) \<lparr>op_Digest = digest, op_Definition = d\<rparr> st4) (\<lambda>st5.
      Inr (d, st5)))))))"

definition SetLifecycle :: "watch_env \<Rightarrow> time \<Rightarrow> actor \<Rightarrow> string \<Rightarrow> string \<Rightarrow> string \<Rightarrow> int \<Rightarrow> store \<Rightarrow>
    watch_error + definition_t \<times> store" where
  "SetLifecycle env now a wid lifecycle operationID expectedVersion st =
     rbind (check_actor env a) (\<lambda>_.
     if lifecycle \<noteq> ''enabled'' \<and> lifecycle \<noteq> ''paused'' \<and> lifecycle \<noteq> ''deleted'' \<or> operationID = [] then Inl ErrInvalid
     else
       let opID = stable env [a_ID a, operationID];
           digest = stable env [wid, lifecycle, show_int expectedVersion] in
       case read env (t_operations st) (a_Scope a) opID of
         Inr prev \<Rightarrow> lifecycle_replay env a digest prev st
       | Inl _ \<Rightarrow>
         rbind (read env (t_definitions st) (a_Scope a) wid) (\<lambda>d0.
         if \<not> editable a d0 then Inl ErrForbidden
         else if d_Version d0 \<noteq> expectedVersion then Inl ErrConflict
         else lifecycle_commit env now a wid lifecycle digest opID d0 st))"

definition DeleteDefinition :: "watch_env \<Rightarrow> time \<Rightarrow> actor \<Rightarrow> string \<Rightarrow> string \<Rightarrow> int \<Rightarrow> store \<Rightarrow> watch_error + unit \<times> store" where
  "DeleteDefinition env now a wid operationID expectedVersion st =
     rbind (SetLifecycle env now a wid ''deleted'' operationID expectedVersion st) (\<lambda>(_, st'). Inr ((), st'))"

definition ResetBaseline :: "watch_env \<Rightarrow> time \<Rightarrow> actor \<Rightarrow> string \<Rightarrow> string \<Rightarrow> int \<Rightarrow> store \<Rightarrow>
    watch_error + definition_t \<times> store" where
  "ResetBaseline env now a wid operationID expectedVersion st =
     rbind (check_actor env a) (\<lambda>_.
     if operationID = [] \<or> length operationID > 128 then Inl ErrInvalid
     else
       let opID = stable env [a_ID a, operationID];
           digest = stable env [wid, ''reset-baseline'', show_int expectedVersion] in
       case read env (t_operations st) (a_Scope a) opID of
         Inr op \<Rightarrow>
           (if op_Digest op \<noteq> digest then Inl ErrConflict
            else rbind (read env (t_definitions st) (a_Scope a) wid) (\<lambda>current.
              if \<not> editable a current then Inl ErrForbidden else Inr (op_Definition op, st)))
       | Inl _ \<Rightarrow>
         rbind (read env (t_definitions st) (a_Scope a) wid) (\<lambda>d0.
         if \<not> editable a d0 then Inl ErrForbidden
         else if d_Version d0 \<noteq> expectedVersion then Inl ErrConflict
         else
           let d = d0\<lparr>d_Version := d_Version d0 + 1, d_UpdatedAt := now, d_SourceFingerprint := []\<rparr> in
           rbind (cancelRuns env now (d_Scope d) wid st) (\<lambda>st1.
           rbind (save_definition env now wid d st1) (\<lambda>st2.
           rbind (save_observation env now wid d (fresh_observation wid now) st2) (\<lambda>st3.
           rbind (log_event env now (d_Scope d) (a_ID a) ''definition.reset-baseline'' wid st3) (\<lambda>st4.
           rbind (save_operation env now wid d opID (a_ID a) \<lparr>op_Digest = digest, op_Definition = d\<rparr> st4) (\<lambda>st5.
           Inr (d, st5))))))))"

end
