(* ===== verification/Watch_Telegram.thy ===== *)
theory Watch_Telegram
  imports Watch_Definitions
begin

text \<open>
  Telegram providers, account links and the fenced provider poll
  (\<^verbatim>\<open>src/pkg/watch/telegram.go\<close>, \<^verbatim>\<open>telegram_provider.go\<close>), standalone deployment.
  The three regular expressions are the bool-valued functions \<open>nonceHashPattern\<close>,
  \<open>botIDPattern\<close> and \<open>botUsernamePattern\<close>.
\<close>

section \<open>Patterns\<close>

definition is_lower_hex :: "char \<Rightarrow> bool" where
  "is_lower_hex c \<longleftrightarrow> is_digit c \<or> (97::nat) \<le> of_char c \<and> of_char c \<le> (102::nat)"

definition is_letter :: "char \<Rightarrow> bool" where
  "is_letter c \<longleftrightarrow> (65::nat) \<le> of_char c \<and> of_char c \<le> (90::nat) \<or> (97::nat) \<le> of_char c \<and> of_char c \<le> (122::nat)"

definition nonceHashPattern :: "string \<Rightarrow> bool" where
  "nonceHashPattern s \<longleftrightarrow> length s = 64 \<and> list_all is_lower_hex s"

definition botIDPattern :: "string \<Rightarrow> bool" where
  "botIDPattern s \<longleftrightarrow> s \<noteq> [] \<and> length s \<le> 20 \<and> list_all is_digit s \<and> hd s \<noteq> CHR ''0''"

definition botUsernamePattern :: "string \<Rightarrow> bool" where
  "botUsernamePattern s \<longleftrightarrow> 5 \<le> length s \<and> length s \<le> 32 \<and> is_letter (hd s) \<and>
     list_all (\<lambda>c. is_letter c \<or> is_digit c \<or> c = CHR ''_'') (tl s)"


section \<open>Saving\<close>

definition save_link :: "watch_env \<Rightarrow> time \<Rightarrow> telegram_link \<Rightarrow> store \<Rightarrow> watch_error + store" where
  "save_link env now k st =
     rbind (save env now (P_Link k) (k_Scope k) (k_UserID k) [] (k_UserID k) [] k (t_links st))
       (\<lambda>t. Inr (st\<lparr>t_links := t\<rparr>))"

definition save_request :: "watch_env \<Rightarrow> time \<Rightarrow> telegram_request \<Rightarrow> store \<Rightarrow> watch_error + store" where
  "save_request env now q st =
     rbind (save env now (P_Request q) (q_Scope q) (q_Hash q) [] (q_UserID q) [] q (t_requests st))
       (\<lambda>t. Inr (st\<lparr>t_requests := t\<rparr>))"

definition savePoll :: "watch_env \<Rightarrow> time \<Rightarrow> telegram_poll_state \<Rightarrow> store \<Rightarrow> watch_error + store" where
  "savePoll env now s st =
     rbind (save env now (P_Poll s) (global_scope env) (pl_BotID (ps_Lease s)) [] (ps_RunnerID s) [] s (t_polls st))
       (\<lambda>t. Inr (st\<lparr>t_polls := t\<rparr>))"


section \<open>Providers\<close>

text \<open>A delivery is withdrawn: its state and code are set and every claim on it is fenced off.\<close>

definition revoke_delivery :: "string \<Rightarrow> delivery \<Rightarrow> delivery" where
  "revoke_delivery code v = v\<lparr>v_State := ''cancelled'', v_FailureCode := code, v_Fence := v_Fence v + 1\<rparr>"

definition revoke_where :: "watch_env \<Rightarrow> time \<Rightarrow> string \<Rightarrow> (delivery \<Rightarrow> bool) \<Rightarrow> delivery list \<Rightarrow> store \<Rightarrow> watch_error + store" where
  "revoke_where env now code p items st =
     rfold (\<lambda>v s. if p v then save_outbox env now (revoke_delivery code v) s else Inr s) items st"

definition registerTelegramProvider :: "watch_env \<Rightarrow> time \<Rightarrow> runner_identity \<Rightarrow> store \<Rightarrow> watch_error + store" where
  "registerTelegramProvider env now i st =
     (if i_TelegramBotID i = [] then (if i_TelegramBotUsername i \<noteq> [] then Inl ErrInvalid else Inr st)
      else if \<not> botIDPattern (i_TelegramBotID i) \<or> \<not> botUsernamePattern (i_TelegramBotUsername i) then Inl ErrInvalid
      else if (case read env (t_bots st) (global_scope env) (i_TelegramBotID i) of
                 Inr binding \<Rightarrow> p_Scope binding \<noteq> i_Scope i | Inl _ \<Rightarrow> False) then Inl ErrForbidden
      else if list_ex (\<lambda>r. w_ID r \<noteq> i_ID i \<and> w_TelegramBotID r \<noteq> [] \<and> w_TelegramBotID r \<noteq> i_TelegramBotID i \<and>
                           now - w_LastSeen r < RunnerTTL (config_of env))
                (list_rows (t_runners st) (i_Scope i) []) then Inl ErrConflict
      else
        let previous = read env (t_providers st) (i_Scope i) ''active'';
            replaced = (case previous of Inr p \<Rightarrow> p_BotID p \<noteq> i_TelegramBotID i | Inl _ \<Rightarrow> False);
            generation = (case previous of
                            Inr p \<Rightarrow> if p_BotID p \<noteq> i_TelegramBotID i then p_Generation p + 1 else p_Generation p
                          | Inl _ \<Rightarrow> 1);
            provider = \<lparr>p_Scope = i_Scope i, p_Generation = generation, p_BotID = i_TelegramBotID i,
                        p_BotUsername = i_TelegramBotUsername i\<rparr> in
        rbind (if replaced
               then revoke_where env now ''TELEGRAM_PROVIDER_REPLACED''
                      (\<lambda>v. v_Channel v = ''telegram'' \<and> v_TelegramBotID v \<noteq> i_TelegramBotID i \<and> v_State v \<noteq> ''delivered'')
                      (list_rows (t_outbox st) (i_Scope i) []) st
               else Inr st) (\<lambda>st1.
        rbind (save env now (P_Provider provider) (global_scope env) (i_TelegramBotID i) [] [] [] provider (t_bots st1)) (\<lambda>tb.
        rbind (save env now (P_Provider provider) (i_Scope i) ''active'' [] [] [] provider (t_providers st1)) (\<lambda>tp.
        Inr (st1\<lparr>t_bots := tb, t_providers := tp\<rparr>)))))"

definition telegramProvider :: "watch_env \<Rightarrow> time \<Rightarrow> scope \<Rightarrow> store \<Rightarrow> watch_error + telegram_provider_t" where
  "telegramProvider env now sc st =
     rbind (read env (t_providers st) sc ''active'') (\<lambda>provider.
     if list_ex (\<lambda>w. w_TelegramBotID w = p_BotID provider \<and> w_TelegramBotUsername w = p_BotUsername provider \<and>
                     now - w_LastSeen w < RunnerTTL (config_of env)) (list_rows (t_runners st) sc [])
     then Inr provider else Inl ErrNotFound)"

definition TelegramProviderStatus :: "watch_env \<Rightarrow> time \<Rightarrow> actor \<Rightarrow> store \<Rightarrow> watch_error + telegram_provider_status" where
  "TelegramProviderStatus env now a st =
     rbind (check_actor env a) (\<lambda>_.
     let none = \<lparr>ts_ReconnectRequired = False, ts_ConnectionError = [], ts_Connected = False,
                 ts_BotID = [], ts_BotUsername = []\<rparr> in
     case telegramProvider env now (a_Scope a) st of
       Inl e \<Rightarrow> (if e = ErrNotFound then Inr none else Inl e)
     | Inr provider \<Rightarrow>
       let named = none\<lparr>ts_BotID := p_BotID provider, ts_BotUsername := p_BotUsername provider\<rparr> in
       case read env (t_links st) (a_Scope a) (a_ID a) of
         Inl _ \<Rightarrow> Inr named
       | Inr link \<Rightarrow>
         let same = (k_BotID link = p_BotID provider) in
         Inr (named\<lparr>ts_ReconnectRequired := (same \<and> k_FailureCode link \<noteq> []),
                    ts_ConnectionError := (if same then k_FailureCode link else []),
                    ts_Connected := (same \<and> k_FailureCode link = [] \<and>
                                     (k_ExpiresAt link = time_zero \<or> k_ExpiresAt link > now))\<rparr>))"

definition TelegramStatus :: "watch_env \<Rightarrow> time \<Rightarrow> actor \<Rightarrow> store \<Rightarrow> watch_error + bool" where
  "TelegramStatus env now a st = rbind (TelegramProviderStatus env now a st) (\<lambda>s. Inr (ts_Connected s))"

definition telegramRunner :: "watch_env \<Rightarrow> time \<Rightarrow> runner_identity \<Rightarrow> store \<Rightarrow> watch_error + unit" where
  "telegramRunner env now i st =
     (if i_ID i = [] \<or> \<not> validScope env (i_Scope i) \<or> \<not> botIDPattern (i_TelegramBotID i) then Inl ErrForbidden
      else rbind (telegramProvider env now (i_Scope i) st) (\<lambda>provider.
           rbind (read env (t_runners st) (i_Scope i) (i_ID i)) (\<lambda>worker.
           if p_BotID provider \<noteq> i_TelegramBotID i \<or> w_TelegramBotID worker \<noteq> i_TelegramBotID i \<or>
              now - w_LastSeen worker \<ge> RunnerTTL (config_of env)
           then Inl ErrForbidden else Inr ())))"


section \<open>The fenced poll\<close>

definition poll :: "watch_env \<Rightarrow> time \<Rightarrow> runner_identity \<Rightarrow> int \<Rightarrow> store \<Rightarrow> watch_error + telegram_poll_state" where
  "poll env now i fence st =
     rbind (telegramRunner env now i st) (\<lambda>_.
     case read env (t_polls st) (global_scope env) (i_TelegramBotID i) of
       Inl _ \<Rightarrow> Inl ErrStaleLease
     | Inr s \<Rightarrow>
       if ps_Scope s \<noteq> i_Scope i \<or> ps_RunnerID s \<noteq> i_ID i \<or> pl_Fence (ps_Lease s) \<noteq> fence \<or>
          \<not> pl_LeaseUntil (ps_Lease s) > now
       then Inl ErrStaleLease else Inr s)"

definition renewPoll :: "watch_env \<Rightarrow> time \<Rightarrow> telegram_poll_state \<Rightarrow> telegram_poll_state" where
  "renewPoll env now s =
     (let stale = (pl_Offset (ps_Lease s) > 0 \<and> ps_LastProcessedAt s \<noteq> time_zero \<and>
                   now - ps_LastProcessedAt s \<ge> 7 * 24 * Hour);
          lease = (ps_Lease s)\<lparr>pl_Offset := (if stale then 0 else pl_Offset (ps_Lease s)),
                              pl_LeaseUntil := now + LeaseDuration (config_of env)\<rparr> in
      s\<lparr>ps_Lease := lease, ps_LastProcessedAt := (if stale then time_zero else ps_LastProcessedAt s)\<rparr>)"

definition zero_poll :: "scope \<Rightarrow> telegram_poll_state" where
  "zero_poll sc = \<lparr>ps_Scope = sc, ps_Lease = \<lparr>pl_NextAttemptAt = time_zero, pl_BotID = [], pl_Fence = 0,
     pl_Offset = 0, pl_LeaseUntil = time_zero\<rparr>, ps_RunnerID = [], ps_LastProcessedAt = time_zero\<rparr>"

definition ClaimTelegramPoll :: "watch_env \<Rightarrow> time \<Rightarrow> runner_identity \<Rightarrow> store \<Rightarrow>
    watch_error + telegram_poll_lease option \<times> store" where
  "ClaimTelegramPoll env now i st =
     rbind (telegramRunner env now i st) (\<lambda>_.
     let found = read env (t_polls st) (global_scope env) (i_TelegramBotID i);
         s0 = (case found of Inr s \<Rightarrow> s | Inl _ \<Rightarrow> zero_poll (i_Scope i)) in
     if (case found of Inr s \<Rightarrow> pl_LeaseUntil (ps_Lease s) > now \<or> pl_NextAttemptAt (ps_Lease s) > now | Inl _ \<Rightarrow> False)
     then Inr (None, st)
     else
       let s1 = s0\<lparr>ps_Scope := i_Scope i, ps_RunnerID := i_ID i,
                  ps_Lease := (ps_Lease s0)\<lparr>pl_BotID := i_TelegramBotID i, pl_Fence := pl_Fence (ps_Lease s0) + 1\<rparr>\<rparr>;
           s2 = renewPoll env now s1 in
       rbind (savePoll env now s2 st) (\<lambda>st1. Inr (Some (ps_Lease s2), st1)))"

definition RenewTelegramPoll :: "watch_env \<Rightarrow> time \<Rightarrow> runner_identity \<Rightarrow> int \<Rightarrow> store \<Rightarrow>
    watch_error + telegram_poll_lease \<times> store" where
  "RenewTelegramPoll env now i fence st =
     rbind (poll env now i fence st) (\<lambda>s.
     let s1 = renewPoll env now s in
     rbind (savePoll env now s1 st) (\<lambda>st1. Inr (ps_Lease s1, st1)))"

definition AdvanceTelegramPoll :: "watch_env \<Rightarrow> time \<Rightarrow> runner_identity \<Rightarrow> int \<Rightarrow> int \<Rightarrow> store \<Rightarrow> watch_error + store" where
  "AdvanceTelegramPoll env now i fence offset st =
     (if offset < 0 then Inl ErrInvalid
      else rbind (poll env now i fence st) (\<lambda>s.
        if offset < pl_Offset (ps_Lease s) then Inl ErrInvalid
        else
          let s1 = (if offset > pl_Offset (ps_Lease s)
                    then s\<lparr>ps_Lease := (ps_Lease s)\<lparr>pl_Offset := offset\<rparr>, ps_LastProcessedAt := now\<rparr> else s) in
          savePoll env now (renewPoll env now s1) st))"

definition deferTelegramPoll :: "watch_env \<Rightarrow> time \<Rightarrow> runner_identity \<Rightarrow> int \<Rightarrow> int \<Rightarrow> store \<Rightarrow> watch_error + store" where
  "deferTelegramPoll env now i fence seconds st =
     rbind (poll env now i fence st) (\<lambda>s.
     savePoll env now (s\<lparr>ps_Lease := (ps_Lease s)\<lparr>pl_NextAttemptAt := now + seconds * Second,
       pl_LeaseUntil := now, pl_Fence := pl_Fence (ps_Lease s) + 1\<rparr>\<rparr>) st)"

definition DeferTelegramPoll :: "watch_env \<Rightarrow> time \<Rightarrow> runner_identity \<Rightarrow> int \<Rightarrow> int \<Rightarrow> store \<Rightarrow> watch_error + store" where
  "DeferTelegramPoll env now i fence retryAfterSeconds st =
     (if retryAfterSeconds < 1 \<or> retryAfterSeconds > 86400 then Inl ErrInvalid
      else deferTelegramPoll env now i fence retryAfterSeconds st)"


section \<open>Account links\<close>

definition drop_requests :: "watch_env \<Rightarrow> actor \<Rightarrow> store \<Rightarrow> store" where
  "drop_requests env a st =
     (let requests = filter (\<lambda>q. q_UserID q = a_ID a) (list_rows (t_requests st) (a_Scope a) []) in
      st\<lparr>t_requests := fold (\<lambda>q t. AList.delete (key env (q_Scope q) (q_Hash q)) t) requests (t_requests st)\<rparr>)"

definition BeginTelegramLink :: "watch_env \<Rightarrow> time \<Rightarrow> actor \<Rightarrow> string \<Rightarrow> time \<Rightarrow> store \<Rightarrow> watch_error + store" where
  "BeginTelegramLink env now a nonceHash expiresAt st =
     rbind (check_actor env a) (\<lambda>_.
     if \<not> nonceHashPattern nonceHash \<or> \<not> expiresAt > now \<or> expiresAt > now + 15 * Minute then Inl ErrInvalid
     else rbind (telegramProvider env now (a_Scope a) st) (\<lambda>provider.
       save_request env now \<lparr>q_Scope = a_Scope a, q_BotID = p_BotID provider, q_UserID = a_ID a,
         q_Hash = nonceHash, q_ExpiresAt = expiresAt, q_ConsumedChatID = []\<rparr> (drop_requests env a st)))"

definition CompleteTelegramLinkByRunner :: "watch_env \<Rightarrow> time \<Rightarrow> runner_identity \<Rightarrow> int \<Rightarrow> string \<Rightarrow> string \<Rightarrow> store \<Rightarrow>
    watch_error + store" where
  "CompleteTelegramLinkByRunner env now i pollFence nonceHash chatID st =
     rbind (poll env now i pollFence st) (\<lambda>_.
     if \<not> nonceHashPattern nonceHash then Inl ErrInvalid
     else if (case ParseInt chatID of None \<Rightarrow> True | Some chat \<Rightarrow> chat \<le> 0 \<or> show_int chat \<noteq> chatID) then Inl ErrInvalid
     else rbind (read env (t_requests st) (i_Scope i) nonceHash) (\<lambda>request.
       if q_BotID request \<noteq> i_TelegramBotID i then Inl ErrForbidden
       else if q_ConsumedChatID request \<noteq> [] then
         (if q_ConsumedChatID request = chatID then Inr st else Inl ErrForbidden)
       else if \<not> q_ExpiresAt request > now then Inl ErrForbidden
       else if list_ex (\<lambda>k. k_BotID k = i_TelegramBotID i \<and> k_ChatID k = chatID \<and>
                            (k_Scope k \<noteq> q_Scope request \<or> k_UserID k \<noteq> q_UserID request))
                 (list_rows (t_links st) (global_scope env) []) then Inl ErrForbidden
       else
         let generation = (case read env (t_links st) (q_Scope request) (q_UserID request) of
                             Inr previous \<Rightarrow> k_Generation previous | Inl _ \<Rightarrow> 0) in
         rbind (save_link env now \<lparr>k_Generation = generation + 1, k_FailureCode = [], k_Scope = q_Scope request,
                  k_BotID = i_TelegramBotID i, k_UserID = q_UserID request, k_ChatID = chatID, k_At = now,
                  k_ExpiresAt = time_zero\<rparr> st) (\<lambda>st1.
         save_request env now (request\<lparr>q_ConsumedChatID := chatID\<rparr>) st1)))"

definition DisconnectTelegram :: "watch_env \<Rightarrow> time \<Rightarrow> actor \<Rightarrow> store \<Rightarrow> watch_error + store" where
  "DisconnectTelegram env now a st =
     rbind (check_actor env a) (\<lambda>_.
     let st1 = drop_requests env a (st\<lparr>t_links := AList.delete (key env (a_Scope a) (a_ID a)) (t_links st)\<rparr>) in
     rbind (revoke_where env now ''TELEGRAM_DISCONNECTED''
              (\<lambda>v. n_UserID (v_Notification v) = a_ID a \<and> v_Channel v = ''telegram'' \<and> v_State v \<noteq> ''delivered'')
              (list_rows (t_outbox st1) (a_Scope a) []) st1) (\<lambda>st2.
     log_event env now (a_Scope a) (a_ID a) ''telegram.disconnect'' (a_ID a) st2))"

end
