(* ===== verification/Watch_Notifications.thy ===== *)
theory Watch_Notifications
  imports Watch_Telegram
begin

text \<open>
  Subscriptions, the notification outbox and the in-app inbox
  (\<^verbatim>\<open>src/pkg/watch/notifications.go\<close>; \<open>Subscribe\<close>, \<open>Inbox\<close> and \<open>MarkRead\<close> of
  \<^verbatim>\<open>definitions.go\<close>), standalone deployment: fan-out of one event to the subscribers'
  channels, delivery quotas per account, and the fenced life of one delivery.
\<close>

section \<open>Subscribing\<close>

definition phone_shape :: "string \<Rightarrow> bool" where
  "phone_shape p \<longleftrightarrow> 8 \<le> length p \<and> length p \<le> 16 \<and> hd p = CHR ''+'' \<and> list_all is_digit (tl p)"

primrec subscribe_channels :: "watch_env \<Rightarrow> actor \<Rightarrow> string list \<Rightarrow> string list \<Rightarrow> subscription \<Rightarrow>
    watch_error + subscription" where
  "subscribe_channels env a [] seen sub = Inr sub"
| "subscribe_channels env a (ch # chs) seen sub =
     (if ch \<noteq> ''in_app'' \<and> ch \<noteq> ''email'' \<and> ch \<noteq> ''sms'' \<and> ch \<noteq> ''telegram'' \<or> ch \<in> set seen then Inl ErrInvalid
      else if ch = ''sms'' then
        (if a_Tier a \<noteq> ''paid'' \<or> a_Phone a = [] \<or> s_Phone sub \<noteq> [] \<and> s_Phone sub \<noteq> a_Phone a then Inl ErrForbidden
         else if \<not> phone_shape (a_Phone a) then Inl ErrInvalid
         else subscribe_channels env a chs (ch # seen) (sub\<lparr>s_Phone := a_Phone a\<rparr>))
      else if ch = ''email'' then
        (if a_Email a = [] \<or> s_Email sub \<noteq> [] \<and> s_Email sub \<noteq> a_Email a then Inl ErrForbidden
         else if ParseAddress env (a_Email a) \<noteq> Some (a_Email a) then Inl ErrInvalid
         else subscribe_channels env a chs (ch # seen) (sub\<lparr>s_Email := a_Email a\<rparr>))
      else subscribe_channels env a chs (ch # seen) sub)"

definition Subscribe :: "watch_env \<Rightarrow> time \<Rightarrow> actor \<Rightarrow> subscription \<Rightarrow> store \<Rightarrow> watch_error + store" where
  "Subscribe env now a sub0 st =
     rbind (check_actor env a) (\<lambda>_.
     if s_UserID sub0 \<noteq> [] \<and> s_UserID sub0 \<noteq> a_ID a then Inl ErrForbidden
     else
       let sub1 = sub0\<lparr>s_UserID := a_ID a,
                      s_AccountID := (if a_AccountID a = [] then a_ID a else a_AccountID a), s_Tier := a_Tier a\<rparr> in
       if length (s_Channels sub1) > 4 then Inl ErrInvalid
       else rbind (subscribe_channels env a (s_Channels sub1) [] sub1) (\<lambda>sub2.
         let sub3 = sub2\<lparr>s_Phone := (if ''sms'' \<in> set (s_Channels sub2) then s_Phone sub2 else []),
                        s_Email := (if ''email'' \<in> set (s_Channels sub2) then s_Email sub2 else [])\<rparr> in
         if length (s_NotifyOn sub3) > 3 then Inl ErrInvalid
         else if \<not> list_all (\<lambda>e. e = ''failure'' \<or> e = ''recovery'' \<or> e = ''change'') (s_NotifyOn sub3) then Inl ErrInvalid
         else rbind (read env (t_definitions st) (a_Scope a) (s_WatchID sub3)) (\<lambda>d.
           if \<not> visible a d then Inl ErrNotFound
           else rbind (if ''telegram'' \<in> set (s_Channels sub3) \<and> \<not> s_Unsubscribed sub3
                       then (case (telegramProvider env now (a_Scope a) st, read env (t_links st) (a_Scope a) (a_ID a)) of
                               (Inr provider, Inr link) \<Rightarrow>
                                 if k_BotID link \<noteq> p_BotID provider \<or> k_FailureCode link \<noteq> [] then Inl ErrForbidden
                                 else Inr (p_BotID provider)
                             | _ \<Rightarrow> Inl ErrForbidden)
                       else Inr []) (\<lambda>bot.
             let sub4 = sub3\<lparr>s_TelegramBotID := bot\<rparr> in
             rbind (save env now (P_Subscription sub4) (a_Scope a) (stable env [s_WatchID sub4, a_ID a]) (s_WatchID sub4)
                      (a_ID a) (d_Visibility d) sub4 (t_subscriptions st)) (\<lambda>t.
             log_event env now (a_Scope a) (a_ID a) ''subscription.put'' (s_WatchID sub4) (st\<lparr>t_subscriptions := t\<rparr>))))))"

definition GetSubscription :: "watch_env \<Rightarrow> actor \<Rightarrow> string \<Rightarrow> store \<Rightarrow> watch_error + subscription" where
  "GetSubscription env a watchID st =
     rbind (GetDefinition env a watchID st) (\<lambda>_.
     read env (t_subscriptions st) (a_Scope a) (stable env [watchID, a_ID a]))"


section \<open>The in-app inbox\<close>

definition Inbox :: "watch_env \<Rightarrow> actor \<Rightarrow> store \<Rightarrow> watch_error + notification list" where
  "Inbox env a st =
     rbind (check_actor env a) (\<lambda>_.
     let mine = filter (\<lambda>n. n_UserID n = a_ID a) (list_rows (t_inbox st) (a_Scope a) []);
         readable = filter (\<lambda>n. case GetDefinition env a (n_WatchID n) st of Inr d \<Rightarrow> visible a d | Inl _ \<Rightarrow> False) mine in
     Inr (sort_key (\<lambda>n. - n_CreatedAt n) readable))"

definition MarkRead :: "watch_env \<Rightarrow> time \<Rightarrow> actor \<Rightarrow> string \<Rightarrow> store \<Rightarrow> watch_error + store" where
  "MarkRead env now a nid st =
     rbind (check_actor env a) (\<lambda>_.
     rbind (read env (t_inbox st) (a_Scope a) nid) (\<lambda>n0.
     if n_UserID n0 \<noteq> a_ID a then Inl ErrNotFound
     else rbind (read env (t_definitions st) (a_Scope a) (n_WatchID n0)) (\<lambda>d.
       if \<not> visible a d then Inl ErrNotFound
       else let n = (if n_ReadAt n0 = time_zero then n0\<lparr>n_ReadAt := now\<rparr> else n0) in
            rbind (save env now (P_Notification n) (a_Scope a) nid (n_WatchID n) (a_ID a) [] n (t_inbox st))
              (\<lambda>t. Inr (st\<lparr>t_inbox := t\<rparr>)))))"


section \<open>Fan-out of one event\<close>

text \<open>\<open>url.QueryEscape\<close>, and \<open>url.Values.Encode\<close> of the four keys in key order.\<close>

definition hex_digit :: "nat \<Rightarrow> char" where
  "hex_digit n = (if n < 10 then char_of (48 + n) else char_of (55 + n))"

definition escape_char :: "char \<Rightarrow> string" where
  "escape_char c =
     (if is_letter c \<or> is_digit c \<or> c = CHR ''-'' \<or> c = CHR ''_'' \<or> c = CHR ''.'' \<or> c = CHR ''~'' then [c]
      else if c = CHR '' '' then [CHR ''+'']
      else [CHR ''%'', hex_digit (of_char c div 16), hex_digit (of_char c mod 16)])"

definition QueryEscape :: "string \<Rightarrow> string" where
  "QueryEscape s = concat (map escape_char s)"

definition watch_link :: "definition_t \<Rightarrow> string" where
  "watch_link d = ''/watch?check='' @ QueryEscape (d_CheckID d) @
     ''&environment='' @ QueryEscape (Environment (d_Scope d)) @
     ''&project='' @ QueryEscape (Project (d_Scope d)) @ ''&watch='' @ QueryEscape (d_ID d)"

definition new_delivery :: "watch_env \<Rightarrow> time \<Rightarrow> definition_t \<Rightarrow> run \<Rightarrow> string \<Rightarrow> subscription \<Rightarrow> string \<Rightarrow> delivery" where
  "new_delivery env now d r event sub channel =
     (let sc = d_Scope d;
          nid = stable env [Namespace sc, Project sc, Environment sc, r_EventID r, s_UserID sub, channel, event];
          n = \<lparr>n_EventID = r_EventID r, n_Scope = sc, n_ID = nid, n_WatchID = d_ID d, n_RunID = r_ID r,
               n_UserID = s_UserID sub, n_Title = d_Title d, n_Event = event, n_Link = watch_link d,
               n_CreatedAt = now, n_ReadAt = time_zero\<rparr> in
      \<lparr>v_TelegramLinkGeneration = 0, v_TelegramBotID = [], v_TelegramChatID = [], v_AccountID = s_AccountID sub,
       v_Phone = s_Phone sub, v_QuotaReserved = False, v_Notification = n, v_Channel = channel,
       v_Email = s_Email sub, v_State = ''pending'', v_Attempts = 0, v_Fence = 0, v_LeaseUntil = time_zero,
       v_RetryAt = time_zero, v_FailureCode = []\<rparr>)"

text \<open>The Telegram part: no delivery without a live link to the subscription's bot.\<close>

definition address_delivery :: "watch_env \<Rightarrow> time \<Rightarrow> definition_t \<Rightarrow> subscription \<Rightarrow> delivery \<Rightarrow> store \<Rightarrow> delivery option" where
  "address_delivery env now d sub v st =
     (if v_Channel v \<noteq> ''telegram'' then Some v
      else case read env (t_links st) (d_Scope d) (s_UserID sub) of
        Inl _ \<Rightarrow> None
      | Inr link \<Rightarrow>
        if k_FailureCode link \<noteq> [] then None
        else if k_ExpiresAt link \<noteq> time_zero \<and> \<not> k_ExpiresAt link > now then None
        else if s_TelegramBotID sub = [] \<or> s_TelegramBotID sub \<noteq> k_BotID link then None
        else Some (v\<lparr>v_TelegramChatID := k_ChatID link, v_TelegramBotID := k_BotID link,
                     v_TelegramLinkGeneration := k_Generation link\<rparr>))"

definition notify_channel :: "watch_env \<Rightarrow> time \<Rightarrow> definition_t \<Rightarrow> run \<Rightarrow> string \<Rightarrow> subscription \<Rightarrow> string \<Rightarrow>
    bool \<times> store \<Rightarrow> watch_error + bool \<times> store" where
  "notify_channel env now d r event sub channel acc =
     (case address_delivery env now d sub (new_delivery env now d r event sub channel) (snd acc) of
        None \<Rightarrow> Inr acc
      | Some v \<Rightarrow>
        rbind (save_outbox env now v (snd acc)) (\<lambda>st1.
        if channel = ''in_app'' then
          rbind (save_inbox env now (v_Notification v) st1) (\<lambda>st2.
          rbind (save_outbox env now (v\<lparr>v_State := ''delivered''\<rparr>) st2) (\<lambda>st3. Inr (True, st3)))
        else Inr (True, st1)))"

definition wants_event :: "definition_t \<Rightarrow> string \<Rightarrow> subscription \<Rightarrow> bool" where
  "wants_event d event sub \<longleftrightarrow> \<not> s_Unsubscribed sub \<and>
     \<not> (d_Visibility d = ''personal'' \<and> s_UserID sub \<noteq> d_Owner d) \<and>
     (s_NotifyOn sub = [] \<or> list_ex (\<lambda>e. e = event \<or> e = ''change'') (s_NotifyOn sub))"

definition notify_subscriber :: "watch_env \<Rightarrow> time \<Rightarrow> definition_t \<Rightarrow> run \<Rightarrow> string \<Rightarrow> subscription \<Rightarrow>
    bool \<times> store \<Rightarrow> watch_error + bool \<times> store" where
  "notify_subscriber env now d r event sub acc =
     (if \<not> wants_event d event sub then Inr acc
      else rfold (notify_channel env now d r event sub) (s_Channels sub) acc)"

definition notify :: "watch_env \<Rightarrow> time \<Rightarrow> definition_t \<Rightarrow> run \<Rightarrow> string \<Rightarrow> store \<Rightarrow> watch_error + bool \<times> store" where
  "notify env now d r event st =
     (let subs = list_rows (t_subscriptions st) (d_Scope d) (d_ID d);
          backlog = length (list_rows (t_outbox st) (global_scope env) []) in
      if backlog + length subs * 4 > 10000 then Inl ErrCapacity
      else rfold (notify_subscriber env now d r event) subs (False, st))"

definition ListDeliveries :: "watch_env \<Rightarrow> actor \<Rightarrow> string \<Rightarrow> store \<Rightarrow> watch_error + delivery list" where
  "ListDeliveries env a watchID st =
     rbind (GetDefinition env a watchID st) (\<lambda>_.
     Inr (sort_key (\<lambda>v. - n_CreatedAt (v_Notification v))
       (map (\<lambda>v. v\<lparr>v_Email := [], v_Phone := [], v_TelegramChatID := []\<rparr>)
         (filter (\<lambda>v. n_UserID (v_Notification v) = a_ID a) (list_rows (t_outbox st) (a_Scope a) watchID)))))"


section \<open>Quotas\<close>

definition quota_scope :: "watch_env \<Rightarrow> scope" where
  "quota_scope env = \<lparr>Namespace = cfg_Namespace (config_of env), Project = ''_accounts'', Environment = ''_quota''\<rparr>"

definition daily_limit :: "config \<Rightarrow> string \<Rightarrow> int" where
  "daily_limit c channel = (if channel = ''sms'' then SMSDailyLimit c
     else if channel = ''telegram'' then TelegramDailyLimit c else EmailDailyLimit c)"

definition minute_limit :: "config \<Rightarrow> string \<Rightarrow> int" where
  "minute_limit c channel = (if channel = ''sms'' then SMSMinuteLimit c
     else if channel = ''telegram'' then TelegramMinuteLimit c else EmailMinuteLimit c)"

definition day_quota_id :: "watch_env \<Rightarrow> time \<Rightarrow> delivery \<Rightarrow> string" where
  "day_quota_id env now v = stable env [v_AccountID v, v_Channel v, Format env ''2006-01-02'' now]"

definition minute_quota_id :: "watch_env \<Rightarrow> time \<Rightarrow> delivery \<Rightarrow> string" where
  "minute_quota_id env now v = stable env [v_AccountID v, v_Channel v, Format env ''2006-01-02T15:04'' now]"

definition quota_count :: "watch_env \<Rightarrow> store \<Rightarrow> string \<Rightarrow> int" where
  "quota_count env st qid = (case read env (t_quotas st) (quota_scope env) qid of Inr n \<Rightarrow> n | Inl _ \<Rightarrow> 0)"

definition save_quota :: "watch_env \<Rightarrow> time \<Rightarrow> delivery \<Rightarrow> string \<Rightarrow> int \<Rightarrow> store \<Rightarrow> watch_error + store" where
  "save_quota env now v qid n st =
     rbind (save env now (P_Quota n) (quota_scope env) qid [] (v_AccountID v) (v_Channel v) n (t_quotas st))
       (\<lambda>t. Inr (st\<lparr>t_quotas := t\<rparr>))"

definition Day :: duration where "Day = 24 * Hour"

definition reserveQuota :: "watch_env \<Rightarrow> time \<Rightarrow> delivery \<Rightarrow> store \<Rightarrow> watch_error + bool \<times> delivery \<times> store" where
  "reserveQuota env now v st =
     (if v_QuotaReserved v then Inr (True, v, st)
      else
        let dq = day_quota_id env now v; mq = minute_quota_id env now v;
            dn = quota_count env st dq; mn = quota_count env st mq in
        if dn \<ge> daily_limit (config_of env) (v_Channel v)
        then Inr (False, v\<lparr>v_State := ''rate_limited'', v_RetryAt := (now div Day + 1) * Day\<rparr>, st)
        else if mn \<ge> minute_limit (config_of env) (v_Channel v)
        then Inr (False, v\<lparr>v_State := ''rate_limited'', v_RetryAt := (now div Minute + 1) * Minute\<rparr>, st)
        else rbind (save_quota env now v dq (dn + 1) st) (\<lambda>st1.
             rbind (save_quota env now v mq (mn + 1) st1) (\<lambda>st2.
             Inr (True, v\<lparr>v_QuotaReserved := True\<rparr>, st2))))"


section \<open>The life of a delivery\<close>

text \<open>
  The coordinator's worker (\<open>None\<close>) takes every channel but Telegram; a provider runner
  takes the Telegram deliveries of its scope and bot.
\<close>

definition lane :: "runner_identity option \<Rightarrow> delivery \<Rightarrow> bool" where
  "lane identity v =
     (case identity of
        None \<Rightarrow> v_Channel v \<noteq> ''telegram''
      | Some i \<Rightarrow> v_Channel v = ''telegram'' \<and> n_Scope (v_Notification v) = i_Scope i \<and>
                  v_TelegramBotID v = i_TelegramBotID i)"

definition check_poll :: "watch_env \<Rightarrow> time \<Rightarrow> runner_identity option \<Rightarrow> int \<Rightarrow> store \<Rightarrow> watch_error + unit" where
  "check_poll env now identity pollFence st =
     (case identity of None \<Rightarrow> Inr () | Some i \<Rightarrow> rbind (poll env now i pollFence st) (\<lambda>_. Inr ()))"

definition claimable :: "time \<Rightarrow> delivery \<Rightarrow> bool" where
  "claimable now v \<longleftrightarrow> \<not> (v_State v = ''delivered'' \<or> v_State v = ''cancelled'' \<or> v_State v = ''failed'' \<or>
     v_Channel v = ''in_app'' \<or> v_RetryAt v > now \<or> v_State v = ''sending'' \<and> v_LeaseUntil v > now)"

definition link_valid :: "watch_env \<Rightarrow> time \<Rightarrow> delivery \<Rightarrow> subscription \<Rightarrow> store \<Rightarrow> bool" where
  "link_valid env now v sub st =
     (case read env (t_links st) (n_Scope (v_Notification v)) (n_UserID (v_Notification v)) of
        Inl _ \<Rightarrow> False
      | Inr link \<Rightarrow> k_FailureCode link = [] \<and> k_Generation link = v_TelegramLinkGeneration v \<and>
          k_ChatID link = v_TelegramChatID v \<and> k_BotID link = v_TelegramBotID v \<and>
          s_TelegramBotID sub = v_TelegramBotID v \<and> (k_ExpiresAt link = time_zero \<or> k_ExpiresAt link > now))"

definition delivery_valid :: "watch_env \<Rightarrow> time \<Rightarrow> delivery \<Rightarrow> definition_t \<Rightarrow> store \<Rightarrow> bool" where
  "delivery_valid env now v d st =
     (let n = v_Notification v in
      case read env (t_subscriptions st) (n_Scope n) (stable env [n_WatchID n, n_UserID n]) of
        Inl _ \<Rightarrow> False
      | Inr sub \<Rightarrow>
        \<not> s_Unsubscribed sub \<and> d_Lifecycle d \<noteq> ''deleted'' \<and>
        (d_Visibility d = ''shared'' \<or> d_Owner d = n_UserID n) \<and>
        v_Channel v \<in> set (s_Channels sub) \<and>
        (v_Channel v = ''sms'' \<longrightarrow> s_Phone sub = v_Phone v \<and>
           (case IsPaidAccount (config_of env) of None \<Rightarrow> False | Some paid \<Rightarrow> paid (v_AccountID v))) \<and>
        (v_Channel v = ''email'' \<longrightarrow> s_Email sub = v_Email v) \<and>
        (v_Channel v = ''telegram'' \<longrightarrow> link_valid env now v sub st))"

definition claimed :: "watch_env \<Rightarrow> time \<Rightarrow> delivery \<Rightarrow> delivery" where
  "claimed env now v = v\<lparr>v_Fence := v_Fence v + 1, v_Attempts := v_Attempts v + 1, v_State := ''sending'',
     v_LeaseUntil := now + LeaseDuration (config_of env), v_RetryAt := time_zero\<rparr>"

primrec claim_loop :: "watch_env \<Rightarrow> time \<Rightarrow> runner_identity option \<Rightarrow> delivery list \<Rightarrow> store \<Rightarrow>
    watch_error + delivery option \<times> store" where
  "claim_loop env now identity [] st = Inr (None, st)"
| "claim_loop env now identity (v # vs) st =
     (if \<not> lane identity v \<or> \<not> claimable now v then claim_loop env now identity vs st
      else rbind (read env (t_definitions st) (n_Scope (v_Notification v)) (n_WatchID (v_Notification v))) (\<lambda>d.
        if \<not> delivery_valid env now v d st then
          rbind (save_outbox env now (v\<lparr>v_State := ''cancelled'', v_FailureCode := ''SUBSCRIPTION_REVOKED''\<rparr>) st)
            (claim_loop env now identity vs)
        else if v_Attempts v \<ge> MaxAttempts (config_of env) then
          rbind (save_outbox env now (v\<lparr>v_State := ''failed'', v_FailureCode := ''ATTEMPTS_EXHAUSTED''\<rparr>) st)
            (claim_loop env now identity vs)
        else rbind (reserveQuota env now v st) (\<lambda>(allowed, v1, st1).
          if \<not> allowed then rbind (save_outbox env now v1 st1) (claim_loop env now identity vs)
          else rbind (save_outbox env now (claimed env now v1) st1) (\<lambda>st2.
               Inr (Some (claimed env now v1), st2)))))"

definition claimNotifications :: "watch_env \<Rightarrow> time \<Rightarrow> runner_identity option \<Rightarrow> int \<Rightarrow> store \<Rightarrow>
    watch_error + delivery option \<times> store" where
  "claimNotifications env now identity pollFence st =
     rbind (check_poll env now identity pollFence st) (\<lambda>_.
     claim_loop env now identity
       (sort_key (\<lambda>v. n_CreatedAt (v_Notification v)) (list_rows (t_outbox st) (global_scope env) [])) st)"

definition ClaimNotifications :: "watch_env \<Rightarrow> time \<Rightarrow> store \<Rightarrow> watch_error + delivery option \<times> store" where
  "ClaimNotifications env now st = claimNotifications env now None 0 st"

definition ClaimTelegramNotification :: "watch_env \<Rightarrow> time \<Rightarrow> runner_identity \<Rightarrow> int \<Rightarrow> store \<Rightarrow>
    watch_error + delivery option \<times> store" where
  "ClaimTelegramNotification env now i pollFence st = claimNotifications env now (Some i) pollFence st"

definition invalidateTelegramRecipient :: "watch_env \<Rightarrow> time \<Rightarrow> delivery \<Rightarrow> store \<Rightarrow> watch_error + store" where
  "invalidateTelegramRecipient env now failed st =
     (let n = v_Notification failed in
      rbind (case read env (t_links st) (n_Scope n) (n_UserID n) of
               Inl _ \<Rightarrow> Inr st
             | Inr link \<Rightarrow>
               if k_BotID link = v_TelegramBotID failed \<and> k_ChatID link = v_TelegramChatID failed \<and>
                  k_Generation link = v_TelegramLinkGeneration failed
               then (let dead = link\<lparr>k_FailureCode := ''TELEGRAM_RECIPIENT_UNAVAILABLE''\<rparr> in
                     rbind (save env now (P_Link dead) (n_Scope n) (n_UserID n) [] (n_UserID n) [] dead (t_links st))
                       (\<lambda>t. Inr (st\<lparr>t_links := t\<rparr>)))
               else Inr st) (\<lambda>st1.
      revoke_where env now ''TELEGRAM_RECIPIENT_UNAVAILABLE''
        (\<lambda>v. n_ID (v_Notification v) \<noteq> n_ID n \<and> n_UserID (v_Notification v) = n_UserID n \<and>
             v_Channel v = ''telegram'' \<and> v_TelegramBotID v = v_TelegramBotID failed \<and>
             v_TelegramChatID v = v_TelegramChatID failed \<and>
             v_TelegramLinkGeneration v = v_TelegramLinkGeneration failed \<and> v_State v \<noteq> ''delivered'')
        (list_rows (t_outbox st1) (n_Scope n) []) st1))"

definition settled_before :: "delivery \<Rightarrow> int \<Rightarrow> string \<Rightarrow> bool" where
  "settled_before v fence failureCode \<longleftrightarrow> v_Fence v = fence \<and>
     (v_State v = ''delivered'' \<and> failureCode = [] \<or>
      v_State v = ''failed'' \<and> v_FailureCode v = ''TELEGRAM_RECIPIENT_UNAVAILABLE'' \<and> failureCode = v_FailureCode v)"

definition settled :: "watch_env \<Rightarrow> time \<Rightarrow> string \<Rightarrow> delivery \<Rightarrow> delivery" where
  "settled env now failureCode v =
     (if failureCode = [] then v\<lparr>v_FailureCode := failureCode, v_State := ''delivered''\<rparr>
      else v\<lparr>v_FailureCode := failureCode,
             v_State := (if v_Attempts v \<ge> MaxAttempts (config_of env) then ''failed'' else ''retry''),
             v_RetryAt := now + Second * 2 ^ nat (min (v_Attempts v) 10)\<rparr>)"

definition finish_delivery :: "watch_env \<Rightarrow> time \<Rightarrow> runner_identity option \<Rightarrow> int \<Rightarrow> int \<Rightarrow> string \<Rightarrow> int \<Rightarrow> delivery \<Rightarrow>
    store \<Rightarrow> watch_error + store" where
  "finish_delivery env now identity pollFence fence failureCode retryAfterSeconds v st =
     (if settled_before v fence failureCode then Inr st
      else if v_Fence v \<noteq> fence \<or> v_State v \<noteq> ''sending'' \<or> \<not> v_LeaseUntil v > now then Inl ErrStaleLease
      else case identity of
        None \<Rightarrow> save_outbox env now (settled env now failureCode v) st
      | Some i \<Rightarrow>
        if failureCode = ''TELEGRAM_RECIPIENT_UNAVAILABLE'' then
          rbind (invalidateTelegramRecipient env now (v\<lparr>v_FailureCode := failureCode\<rparr>) st) (\<lambda>st1.
          save_outbox env now (v\<lparr>v_FailureCode := failureCode, v_State := ''failed'', v_RetryAt := time_zero\<rparr>) st1)
        else
          let v1 = settled env now failureCode v in
          if failureCode = ''TELEGRAM_RATE_LIMITED'' then
            rbind (deferTelegramPoll env now i pollFence retryAfterSeconds st) (\<lambda>st1.
            save_outbox env now (v1\<lparr>v_RetryAt := maxTime (v_RetryAt v1) (now + retryAfterSeconds * Second)\<rparr>) st1)
          else save_outbox env now v1 st)"

definition finishNotification :: "watch_env \<Rightarrow> time \<Rightarrow> runner_identity option \<Rightarrow> int \<Rightarrow> string \<Rightarrow> int \<Rightarrow> string \<Rightarrow> int \<Rightarrow>
    store \<Rightarrow> watch_error + store" where
  "finishNotification env now identity pollFence nid fence failureCode retryAfterSeconds st =
     (if length failureCode > 64 then Inl ErrInvalid
      else rbind (check_poll env now identity pollFence st) (\<lambda>_.
        case filter (\<lambda>v. lane identity v \<and> n_ID (v_Notification v) = nid)
               (list_rows (t_outbox st) (global_scope env) []) of
          [] \<Rightarrow> Inl ErrNotFound
        | v # _ \<Rightarrow> finish_delivery env now identity pollFence fence failureCode retryAfterSeconds v st))"

definition FinishNotification :: "watch_env \<Rightarrow> time \<Rightarrow> string \<Rightarrow> int \<Rightarrow> string \<Rightarrow> store \<Rightarrow> watch_error + store" where
  "FinishNotification env now nid fence failureCode st =
     finishNotification env now None 0 nid fence failureCode 0 st"

definition FinishTelegramNotification :: "watch_env \<Rightarrow> time \<Rightarrow> runner_identity \<Rightarrow> int \<Rightarrow> string \<Rightarrow> int \<Rightarrow> string \<Rightarrow>
    int list \<Rightarrow> store \<Rightarrow> watch_error + store" where
  "FinishTelegramNotification env now i pollFence nid fence failureCode retryAfterSeconds st =
     (if length retryAfterSeconds > 1 then Inl ErrInvalid
      else let seconds = (case retryAfterSeconds of [] \<Rightarrow> 0 | s # _ \<Rightarrow> s) in
        if failureCode = ''TELEGRAM_RATE_LIMITED'' \<and> (seconds < 1 \<or> seconds > 86400) then Inl ErrInvalid
        else if failureCode \<noteq> ''TELEGRAM_RATE_LIMITED'' \<and> seconds \<noteq> 0 then Inl ErrInvalid
        else finishNotification env now (Some i) pollFence nid fence failureCode seconds st)"

definition RetryNotification :: "watch_env \<Rightarrow> time \<Rightarrow> actor \<Rightarrow> string \<Rightarrow> store \<Rightarrow> watch_error + store" where
  "RetryNotification env now a nid st =
     rbind (check_actor env a) (\<lambda>_.
     rbind (read env (t_outbox st) (a_Scope a) nid) (\<lambda>item.
     if n_UserID (v_Notification item) \<noteq> a_ID a then Inl ErrNotFound
     else rbind (read env (t_definitions st) (a_Scope a) (n_WatchID (v_Notification item))) (\<lambda>d.
       if \<not> visible a d then Inl ErrNotFound
       else if v_State item \<noteq> ''failed'' then Inl ErrConflict
       else if v_FailureCode item = ''TELEGRAM_RECIPIENT_UNAVAILABLE'' then Inl ErrForbidden
       else
         let v = item\<lparr>v_State := ''pending'', v_Attempts := 0, v_RetryAt := time_zero, v_Fence := v_Fence item + 1\<rparr> in
         rbind (save env now (P_Delivery v) (n_Scope (v_Notification v)) nid (n_WatchID (v_Notification v)) (a_ID a) []
                  v (t_outbox st)) (\<lambda>t.
         log_event env now (a_Scope a) (a_ID a) ''notification.retry'' nid (st\<lparr>t_outbox := t\<rparr>)))))"

end
