(* ===== verification/Watch_Events.thy ===== *)
theory Watch_Events
  imports Watch_Notifications "HOL-Library.Product_Lexorder"
begin

text \<open>
  Immutable events (\<^verbatim>\<open>src/pkg/watch/events.go\<close>): which accepted result is an event, who
  may read it, and the newest-first pages of a Watch's history.  The page query's WHERE,
  ORDER BY and LIMIT are written out over the rows of the table.
\<close>

definition is_target :: "definition_t \<Rightarrow> string \<Rightarrow> bool" where
  "is_target d value \<longleftrightarrow> d_Trigger d = ''changes'' \<or> d_Trigger d = ''becomes_true'' \<and> value = ''true'' \<or>
     d_Trigger d = ''becomes_false'' \<and> value = ''false''"

definition event_kind :: "definition_t \<Rightarrow> string \<Rightarrow> string \<Rightarrow> string" where
  "event_kind d previous value =
     (if previous = ''never'' then
        (if d_InitialObservation d = ''notify'' \<and> is_target d value then ''trigger'' else [])
      else if previous = value then []
      else if previous = ''false'' \<and> value = ''true'' then ''recovery''
      else if is_target d value then ''trigger'' else [])"

definition recordEvent :: "watch_env \<Rightarrow> time \<Rightarrow> definition_t \<Rightarrow> run \<Rightarrow> string \<Rightarrow> string \<Rightarrow> store \<Rightarrow>
    watch_error + event option \<times> store" where
  "recordEvent env now d r previous value st =
     (let kind = event_kind d previous value; sc = d_Scope d in
      if kind = [] then Inr (None, st)
      else
        let e = \<lparr>e_Scope = sc,
                 e_ID = stable env [Namespace sc, Project sc, Environment sc, r_ID r, kind],
                 e_WatchID = d_ID d, e_RunID = r_ID r, e_DefinitionVersion = r_DefinitionVersion r,
                 e_Title = d_Title d, e_Kind = kind, e_Previous = previous, e_Outcome = r_Outcome r,
                 e_OccurredAt = now, e_CheckID = d_CheckID d, e_CheckVersion = d_CheckVersion d,
                 e_SourceFingerprint = d_SourceFingerprint d, e_CheckRunRef = r_CheckRunRef r,
                 e_Inputs = d_Inputs d, e_Owner = d_Owner d, e_Visibility = d_Visibility d\<rparr> in
        rbind (save_event env d e st) (\<lambda>st1. Inr (Some e, st1)))"

definition visibleEvent :: "actor \<Rightarrow> event \<Rightarrow> bool" where
  "visibleEvent a e \<longleftrightarrow> e_Scope e = a_Scope a \<and> (e_Visibility e = ''shared'' \<or> e_Owner e = a_ID a)"

definition GetEvent :: "watch_env \<Rightarrow> actor \<Rightarrow> string \<Rightarrow> store \<Rightarrow> watch_error + event" where
  "GetEvent env a eid st =
     rbind (check_actor env a) (\<lambda>_.
     if eid = [] \<or> length eid > 128 then Inl ErrInvalid
     else rbind (read env (t_events st) (a_Scope a) eid) (\<lambda>e.
       rbind (read env (t_definitions st) (a_Scope a) (e_WatchID e)) (\<lambda>d.
       if \<not> visible a d \<or> \<not> visibleEvent a e then Inl ErrNotFound else Inr e)))"

definition MaxEventPageSize :: int where "MaxEventPageSize = 1000"

text \<open>The rows the page query may return, newest first (\<open>updated\<close>, then key).\<close>

definition event_row_ok :: "actor \<Rightarrow> string \<Rightarrow> string \<times> event row \<Rightarrow> bool" where
  "event_row_ok a watchID kr \<longleftrightarrow> row_namespace (snd kr) = Namespace (a_Scope a) \<and>
     row_project (snd kr) = Project (a_Scope a) \<and> row_environment (snd kr) = Environment (a_Scope a) \<and>
     row_watch (snd kr) = watchID \<and> (row_visibility (snd kr) = ''shared'' \<or> row_owner (snd kr) = a_ID a)"

definition event_order :: "string \<times> event row \<Rightarrow> time \<times> string" where
  "event_order kr = (row_updated (snd kr), fst kr)"

definition history :: "actor \<Rightarrow> string \<Rightarrow> store \<Rightarrow> (string \<times> event row) list" where
  "history a watchID st = rev (sort_key event_order (filter (event_row_ok a watchID) (t_events st)))"

definition ListEventPage :: "watch_env \<Rightarrow> actor \<Rightarrow> string \<Rightarrow> string \<Rightarrow> int \<Rightarrow> store \<Rightarrow>
    watch_error + event list \<times> string" where
  "ListEventPage env a watchID before limit st =
     rbind (check_actor env a) (\<lambda>_.
     if watchID = [] \<or> length watchID > 128 \<or> length before > 128 \<or> limit < 1 \<or> limit > MaxEventPageSize
     then Inl ErrInvalid
     else rbind (read env (t_definitions st) (a_Scope a) watchID) (\<lambda>d.
       if \<not> visible a d then Inl ErrNotFound
       else rbind (if before = [] then Inr (history a watchID st)
                   else rbind (read env (t_events st) (a_Scope a) before) (\<lambda>cursor.
                     if e_WatchID cursor \<noteq> watchID \<or> \<not> visibleEvent a cursor then Inl ErrNotFound
                     else Inr (filter (\<lambda>kr. event_order kr < (e_OccurredAt cursor, key env (a_Scope a) before))
                            (history a watchID st)))) (\<lambda>rows.
         let found = map (\<lambda>kr. row_payload (snd kr)) (take (nat (limit + 1)) rows) in
         if \<not> list_all (\<lambda>e. visibleEvent a e \<and> e_WatchID e = watchID) found then Inl ErrInvalid
         else if int (length found) > limit
              then Inr (take (nat limit) found, e_ID (last (take (nat limit) found)))
              else Inr (found, []))))"

definition ListEvents :: "watch_env \<Rightarrow> actor \<Rightarrow> string \<Rightarrow> store \<Rightarrow> watch_error + event list" where
  "ListEvents env a watchID st =
     rbind (ListEventPage env a watchID [] MaxEventPageSize st) (\<lambda>(es, _). Inr es)"

end
