(* ===== verification/Watch_Scheduler.thy ===== *)
theory Watch_Scheduler
  imports Watch_Events
begin

text \<open>
  The scheduler (\<^verbatim>\<open>src/pkg/watch/scheduler.go\<close>, \<^verbatim>\<open>retention.go\<close>,
  \<^verbatim>\<open>claim_deadline.go\<close>, the status views of \<^verbatim>\<open>definitions.go\<close>), standalone
  deployment: registered runners, one due run per Watch, fenced claims with leases and
  deadlines, completion with retry, transition events and notifications, and pruning.
\<close>

section \<open>Runners\<close>

definition RegisterRunner :: "watch_env \<Rightarrow> time \<Rightarrow> runner_identity \<Rightarrow> store \<Rightarrow> watch_error + store" where
  "RegisterRunner env now i st =
     (if i_ID i = [] \<or> length (i_ID i) > 128 \<or> \<not> validScope env (i_Scope i) \<or> length (i_Capabilities i) > 32
      then Inl ErrForbidden
      else rbind (registerTelegramProvider env now i st) (\<lambda>st1.
        let r = \<lparr>w_TelegramBotID = i_TelegramBotID i, w_TelegramBotUsername = i_TelegramBotUsername i,
                 w_Scope = i_Scope i, w_ID = i_ID i, w_Capabilities = i_Capabilities i, w_LastSeen = now\<rparr> in
        rbind (save_runner env now (w_Scope r) (w_ID r) r st1) (\<lambda>st2.
        log_event env now (w_Scope r) (w_ID r) ''runner.register'' (w_ID r) st2)))"

definition eligible :: "runner_identity \<Rightarrow> definition_t \<Rightarrow> bool" where
  "eligible i d \<longleftrightarrow> i_Scope i = d_Scope d \<and> list_all (\<lambda>q. q \<in> set (i_Capabilities i)) (d_Requirements d)"


section \<open>Due runs\<close>

definition RFC3339Nano :: string where "RFC3339Nano = ''2006-01-02T15:04:05.999999999Z07:00''"

definition run_id :: "watch_env \<Rightarrow> definition_t \<Rightarrow> time \<Rightarrow> string" where
  "run_id env d t = stable env [Namespace (d_Scope d), Project (d_Scope d), Environment (d_Scope d), d_ID d,
     show_int (d_Version d), Format env RFC3339Nano t]"

definition due_run :: "watch_env \<Rightarrow> definition_t \<Rightarrow> time \<Rightarrow> run" where
  "due_run env d t = \<lparr>r_EventID = [], r_Scope = d_Scope d, r_ID = run_id env d t, r_WatchID = d_ID d,
     r_DefinitionVersion = d_Version d, r_DueAt = t, r_State = ''due'', r_RunnerID = [], r_Fence = 0,
     r_Attempts = 0, r_Deadline = time_zero, r_CompletionHash = [], r_LeaseUntil = time_zero,
     r_RetryAt = time_zero, r_ExecutionStatus = [], r_Outcome = [], r_Severity = [], r_DurationMS = 0,
     r_CheckRunRef = [], r_FailureCode = [], r_FinishedAt = time_zero\<rparr>"

definition reconcileDefinition :: "watch_env \<Rightarrow> time \<Rightarrow> definition_t \<Rightarrow> store \<Rightarrow> watch_error + store" where
  "reconcileDefinition env now d st =
     (if d_Lifecycle d \<noteq> ''enabled'' then Inr st
      else rbind (read env (t_observations st) (d_Scope d) (d_ID d)) (\<lambda>obs.
        if o_NextEvaluation obs > now then Inr st
        else if list_ex active_run (list_rows (t_runs st) (d_Scope d) (d_ID d)) then Inr st
        else rbind (save_run env now (due_run env d (o_NextEvaluation obs)) st) (\<lambda>st1.
          save_observation env now (d_ID d) d
            (obs\<lparr>o_NextEvaluation := now + d_IntervalSeconds d * Second, o_Availability := ''waiting''\<rparr>) st1)))"


section \<open>Retention\<close>

definition prune_table :: "watch_env \<Rightarrow> nat \<Rightarrow> ('a row \<Rightarrow> bool) \<Rightarrow> 'a table \<Rightarrow> 'a table" where
  "prune_table env keep prunable t =
     (let rows = filter (\<lambda>kr. row_namespace (snd kr) = cfg_Namespace (config_of env) \<and> prunable (snd kr)) t;
          newest_first = sort_key (\<lambda>kr. - row_updated (snd kr)) rows in
      fold (\<lambda>kr. AList.delete (fst kr)) (drop keep newest_first) t)"

definition terminal_run :: "run \<Rightarrow> bool" where
  "terminal_run r \<longleftrightarrow> r_State r = ''completed'' \<or> r_State r = ''cancelled'' \<or> r_State r = ''failed''"

definition terminal_delivery :: "delivery \<Rightarrow> bool" where
  "terminal_delivery v \<longleftrightarrow> v_State v = ''delivered'' \<or> v_State v = ''cancelled'' \<or> v_State v = ''failed''"

definition prune :: "watch_env \<Rightarrow> time \<Rightarrow> store \<Rightarrow> store" where
  "prune env now st =
     (let keep = nat (HistoryLimit (config_of env)) in
      st\<lparr>t_runs := prune_table env keep (\<lambda>row. terminal_run (row_payload row)) (t_runs st),
         t_inbox := prune_table env keep (\<lambda>row. True) (t_inbox st),
         t_outbox := prune_table env keep (\<lambda>row. terminal_delivery (row_payload row)) (t_outbox st),
         t_audit := prune_table env keep (\<lambda>row. True) (t_audit st),
         t_operations := prune_table env keep (\<lambda>row. True) (t_operations st),
         t_runners := prune_table env 0 (\<lambda>row. \<not> row_updated row + 24 * Hour > now) (t_runners st),
         t_requests := prune_table env 0 (\<lambda>row. \<not> q_ExpiresAt (row_payload row) > now) (t_requests st),
         t_quotas := prune_table env 0 (\<lambda>row. \<not> row_updated row + 48 * Hour > now) (t_quotas st)\<rparr>)"

definition Reconcile :: "watch_env \<Rightarrow> time \<Rightarrow> store \<Rightarrow> watch_error + store" where
  "Reconcile env now st =
     rbind (rfold (reconcileDefinition env now) (list_rows (t_definitions st) (global_scope env) []) st) (\<lambda>st1.
     Inr (prune env now st1))"


section \<open>Claiming a run\<close>

definition claimed_run :: "watch_env \<Rightarrow> time \<Rightarrow> runner_identity \<Rightarrow> run \<Rightarrow> run" where
  "claimed_run env now i r =
     (let deadline = now + ExecutionTimeout (config_of env);
          lease = now + LeaseDuration (config_of env) in
      r\<lparr>r_EventID := [], r_CompletionHash := [], r_ExecutionStatus := [], r_Outcome := [], r_Severity := [],
        r_FailureCode := [], r_CheckRunRef := [], r_DurationMS := 0, r_FinishedAt := time_zero,
        r_Attempts := r_Attempts r + 1, r_Fence := r_Fence r + 1, r_RunnerID := i_ID i, r_State := ''running'',
        r_Deadline := deadline, r_LeaseUntil := (if lease > deadline then deadline else lease),
        r_RetryAt := time_zero\<rparr>)"

definition exhausted_run :: "time \<Rightarrow> run \<Rightarrow> run" where
  "exhausted_run now r = r\<lparr>r_State := ''failed'', r_ExecutionStatus := ''error'', r_Outcome := ''unknown'',
     r_FailureCode := ''ATTEMPTS_EXHAUSTED'', r_FinishedAt := now\<rparr>"

definition skip_job :: "time \<Rightarrow> run \<Rightarrow> bool" where
  "skip_job now r \<longleftrightarrow> \<not> active_run r \<or> r_DueAt r > now \<or> r_RetryAt r > now \<or>
     r_State r = ''running'' \<and> r_LeaseUntil r > now"

definition claim_of :: "run \<Rightarrow> definition_t \<Rightarrow> observation \<Rightarrow> claim" where
  "claim_of r d obs = \<lparr>c_ClaimID = r_ID r, c_RunID = r_ID r, c_Fence = r_Fence r, c_LeaseUntil = r_LeaseUntil r,
     c_Deadline = r_Deadline r, c_Definition = d\<lparr>d_SourceFingerprint := o_SourceFingerprint obs\<rparr>\<rparr>"

primrec claim_jobs :: "watch_env \<Rightarrow> time \<Rightarrow> runner_identity \<Rightarrow> run list \<Rightarrow> store \<Rightarrow>
    watch_error + claim option \<times> store" where
  "claim_jobs env now i [] st = Inr (None, st)"
| "claim_jobs env now i (r # rs) st =
     (if skip_job now r then claim_jobs env now i rs st
      else rbind (read env (t_definitions st) (r_Scope r) (r_WatchID r)) (\<lambda>d.
        if d_Lifecycle d \<noteq> ''enabled'' \<or> d_Version d \<noteq> r_DefinitionVersion r then
          rbind (save_run env now (r\<lparr>r_State := ''cancelled'', r_FinishedAt := now\<rparr>) st) (claim_jobs env now i rs)
        else if \<not> eligible i d then claim_jobs env now i rs st
        else if r_Attempts r \<ge> MaxAttempts (config_of env) then
          rbind (save_run env now (exhausted_run now r) st) (\<lambda>st1.
          rbind (read env (t_observations st1) (d_Scope d) (d_ID d)) (\<lambda>obs.
          rbind (save_observation env now (d_ID d) d
                   (obs\<lparr>o_Value := ''unknown'', o_Availability := ''error''\<rparr>) st1) (claim_jobs env now i rs)))
        else
          let r1 = claimed_run env now i r in
          rbind (save_run env now r1 st) (\<lambda>st1.
          rbind (read env (t_observations st1) (d_Scope d) (d_ID d)) (\<lambda>obs.
          rbind (log_event env now (r_Scope r1) (i_ID i) ''run.claim'' (r_ID r1) st1) (\<lambda>st2.
          Inr (Some (claim_of r1 d obs), st2))))))"

definition ClaimDue :: "watch_env \<Rightarrow> time \<Rightarrow> runner_identity \<Rightarrow> store \<Rightarrow> watch_error + claim option \<times> store" where
  "ClaimDue env now i st =
     (if i_ID i = [] \<or> \<not> validScope env (i_Scope i) then Inl ErrForbidden
      else case read env (t_runners st) (i_Scope i) (i_ID i) of
        Inl _ \<Rightarrow> Inl ErrForbidden
      | Inr registered \<Rightarrow>
        if now - w_LastSeen registered > RunnerTTL (config_of env) then Inl ErrForbidden
        else rbind (save_runner env now (i_Scope i) (i_ID i)
                      (registered\<lparr>w_LastSeen := now, w_Capabilities := i_Capabilities i\<rparr>) st) (\<lambda>st1.
          claim_jobs env now i (sort_key r_DueAt (list_rows (t_runs st1) (i_Scope i) [])) st1))"


section \<open>The lease\<close>

definition lease_held :: "time \<Rightarrow> runner_identity \<Rightarrow> int \<Rightarrow> run \<Rightarrow> definition_t \<Rightarrow> bool" where
  "lease_held now i fence r d \<longleftrightarrow> d_Lifecycle d = ''enabled'' \<and> d_Version d = r_DefinitionVersion r \<and>
     eligible i d \<and> r_State r = ''running'' \<and> r_RunnerID r = i_ID i \<and> r_Fence r = fence \<and>
     r_LeaseUntil r > now \<and> r_Deadline r > now"

definition leased :: "watch_env \<Rightarrow> time \<Rightarrow> runner_identity \<Rightarrow> string \<Rightarrow> int \<Rightarrow> store \<Rightarrow>
    watch_error + run \<times> definition_t" where
  "leased env now i rid fence st =
     (if i_ID i = [] \<or> \<not> validScope env (i_Scope i) then Inl ErrForbidden
      else case read env (t_runs st) (i_Scope i) rid of
        Inl _ \<Rightarrow> Inl ErrStaleLease
      | Inr r \<Rightarrow> rbind (read env (t_definitions st) (i_Scope i) (r_WatchID r)) (\<lambda>d.
          if \<not> lease_held now i fence r d then Inl ErrStaleLease else Inr (r, d)))"

definition Heartbeat :: "watch_env \<Rightarrow> time \<Rightarrow> runner_identity \<Rightarrow> string \<Rightarrow> int \<Rightarrow> store \<Rightarrow> watch_error + store" where
  "Heartbeat env now i rid fence st =
     rbind (leased env now i rid fence st) (\<lambda>(r, _).
     let lease = now + LeaseDuration (config_of env) in
     rbind (save_run env now (r\<lparr>r_LeaseUntil := (if lease > r_Deadline r then r_Deadline r else lease)\<rparr>) st) (\<lambda>st1.
     rbind (read env (t_runners st1) (i_Scope i) (i_ID i)) (\<lambda>registered.
     save_runner env now (i_Scope i) (i_ID i) (registered\<lparr>w_LastSeen := now\<rparr>) st1)))"

definition GetClaim :: "watch_env \<Rightarrow> time \<Rightarrow> runner_identity \<Rightarrow> string \<Rightarrow> int \<Rightarrow> store \<Rightarrow> watch_error + claim" where
  "GetClaim env now i rid fence st =
     rbind (leased env now i rid fence st) (\<lambda>(r, d).
     rbind (read env (t_observations st) (d_Scope d) (d_ID d)) (\<lambda>obs. Inr (claim_of r d obs)))"

text \<open>\<open>Claim.ExecutionCeiling\<close>: the loop over the bounds is the fold.\<close>

definition ExecutionCeiling :: "claim \<Rightarrow> time \<Rightarrow> time list \<Rightarrow> watch_error + time" where
  "ExecutionCeiling c at bounds =
     (if at = time_zero \<or> \<not> c_Deadline c > at \<or> \<not> c_LeaseUntil c > at \<or> c_LeaseUntil c > c_Deadline c
      then Inl ErrStaleLease
      else rfold (\<lambda>b ceiling. if b = time_zero \<or> \<not> b > at then Inl ErrStaleLease
                              else Inr (if b < ceiling then b else ceiling)) bounds (c_Deadline c))"


section \<open>Completion\<close>

definition completionDigest :: "watch_env \<Rightarrow> completion \<Rightarrow> string" where
  "completionDigest env c =
     stable env ([f_ClaimID c, f_RunID c, show_int (f_Fence c), f_ExecutionStatus c, f_Outcome c, f_Severity c,
       show_int (f_DurationMS c), f_CheckRunRef c, f_FailureCode c, f_SourceFingerprint c] @
       (if f_SourceRevision c = [] then [] else [f_SourceRevision c]))"

definition completion_ok :: "completion \<Rightarrow> bool" where
  "completion_ok c \<longleftrightarrow>
     \<not> (f_ClaimID c = [] \<or> f_ClaimID c \<noteq> f_RunID c \<or> f_DurationMS c < 0 \<or> f_DurationMS c > 900000 \<or>
        length (f_CheckRunRef c) > 256 \<or> length (f_SourceFingerprint c) > 128 \<or> length (f_FailureCode c) > 64) \<and>
     \<not> (f_ExecutionStatus c = ''completed'' \<and> f_Outcome c \<noteq> ''unknown'' \<and> f_SourceFingerprint c = []) \<and>
     \<not> (f_ExecutionStatus c = ''error'' \<and> f_Outcome c \<noteq> ''unknown'') \<and>
     (f_ExecutionStatus c = ''completed'' \<or> f_ExecutionStatus c = ''error'') \<and>
     (f_Outcome c = ''pass'' \<or> f_Outcome c = ''fail'' \<or> f_Outcome c = ''unknown'') \<and>
     (f_Severity c = [] \<or> f_Severity c = ''info'' \<or> f_Severity c = ''warning'' \<or> f_Severity c = ''error'' \<or>
      f_Severity c = ''critical'')"

definition source_changed :: "completion \<Rightarrow> observation \<Rightarrow> bool" where
  "source_changed c obs \<longleftrightarrow> o_SourceFingerprint obs \<noteq> [] \<and> f_SourceFingerprint c \<noteq> [] \<and>
     f_SourceFingerprint c \<noteq> o_SourceFingerprint obs"

definition accepted_run :: "watch_env \<Rightarrow> time \<Rightarrow> completion \<Rightarrow> observation \<Rightarrow> run \<Rightarrow> run" where
  "accepted_run env now c obs r =
     (let r1 = r\<lparr>r_CompletionHash := completionDigest env c, r_ExecutionStatus := f_ExecutionStatus c,
                r_Outcome := f_Outcome c, r_DurationMS := f_DurationMS c, r_Severity := f_Severity c,
                r_CheckRunRef := f_CheckRunRef c, r_FailureCode := f_FailureCode c, r_FinishedAt := now,
                r_State := ''completed''\<rparr> in
      if source_changed c obs
      then r1\<lparr>r_ExecutionStatus := ''error'', r_Outcome := ''unknown'', r_FailureCode := ''SOURCE_CHANGED''\<rparr>
      else r1)"

definition accepted_observation :: "time \<Rightarrow> completion \<Rightarrow> run \<Rightarrow> observation \<Rightarrow> observation" where
  "accepted_observation now c r obs =
     obs\<lparr>o_SourceFingerprint :=
          (if \<not> source_changed c obs \<and> f_ExecutionStatus c = ''completed'' \<and> f_Outcome c \<noteq> ''unknown''
           then f_SourceFingerprint c else o_SourceFingerprint obs),
        o_LastObservedAt := now, o_LastRunID := r_ID r\<rparr>"

definition retry_run :: "watch_env \<Rightarrow> time \<Rightarrow> run \<Rightarrow> run" where
  "retry_run env now r =
     (if r_Attempts r < MaxAttempts (config_of env)
      then r\<lparr>r_State := ''retry'', r_RetryAt := now + 2 ^ nat (r_Attempts r) * Second\<rparr>
      else r\<lparr>r_State := ''failed''\<rparr>)"

text \<open>Which notification an accepted value asks for ("" for none).\<close>

definition notification_event :: "definition_t \<Rightarrow> string \<Rightarrow> string \<Rightarrow> string" where
  "notification_event d previous value =
     (if previous = ''never'' \<or> previous = [] then
        (if d_InitialObservation d = ''notify'' \<and> is_target d value
         then (if value = ''false'' then ''failure'' else ''change'') else [])
      else if previous \<noteq> value then
        (if value = ''true'' \<and> previous = ''false'' \<and> Recovery (d_NotificationPolicy d) \<and> d_Mode d = ''continuous''
         then ''recovery''
         else if value = ''false'' \<and> is_target d value then ''failure''
         else if is_target d value then ''change'' else [])
      else [])"

definition cooled_down :: "time \<Rightarrow> definition_t \<Rightarrow> observation \<Rightarrow> bool" where
  "cooled_down now d obs \<longleftrightarrow> o_LastNotifiedAt obs = time_zero \<or>
     \<not> now < o_LastNotifiedAt obs + CooldownSeconds (d_NotificationPolicy d) * Second"

definition finish_known :: "watch_env \<Rightarrow> time \<Rightarrow> definition_t \<Rightarrow> run \<Rightarrow> observation \<Rightarrow> store \<Rightarrow>
    watch_error + run \<times> observation \<times> store" where
  "finish_known env now d r obs st =
     (let value = (if r_Outcome r = ''pass'' then ''true'' else ''false'');
          previous = (if o_LastKnown obs = [] then ''never'' else o_LastKnown obs) in
      rbind (recordEvent env now (d\<lparr>d_SourceFingerprint := o_SourceFingerprint obs\<rparr>) r previous value st)
        (\<lambda>(canonical, st1).
      let r1 = (case canonical of None \<Rightarrow> r | Some e \<Rightarrow> r\<lparr>r_EventID := e_ID e\<rparr>);
          obs1 = obs\<lparr>o_LastEventID := (case canonical of None \<Rightarrow> o_LastEventID obs | Some e \<Rightarrow> e_ID e),
                    o_Value := value, o_LastKnown := value, o_Availability := ''available''\<rparr>;
          event = notification_event d previous value in
      rbind (if event \<noteq> [] \<and> cooled_down now d obs then notify env now d r1 event st1 else Inr (False, st1))
        (\<lambda>(recorded, st2).
      let obs2 = (if recorded then obs1\<lparr>o_LastNotifiedAt := now\<rparr> else obs1) in
      rbind (if canonical \<noteq> None \<and> d_Mode d = ''one_shot'' \<and> is_target d value
             then save_definition env now (d_ID d)
                    (d\<lparr>d_Lifecycle := ''completed'', d_Enabled := False, d_UpdatedAt := now\<rparr>) st2
             else Inr st2) (\<lambda>st3.
      Inr (r1, obs2, st3)))))"

definition finish_accept :: "watch_env \<Rightarrow> time \<Rightarrow> runner_identity \<Rightarrow> completion \<Rightarrow> run \<Rightarrow> definition_t \<Rightarrow> store \<Rightarrow>
    watch_error + run \<times> store" where
  "finish_accept env now i c r d st =
     rbind (read env (t_observations st) (d_Scope d) (d_ID d)) (\<lambda>obs.
     let r1 = accepted_run env now c obs r; obs1 = accepted_observation now c r1 obs in
     rbind (if r_ExecutionStatus r1 \<noteq> ''completed'' \<or> r_Outcome r1 = ''unknown''
            then Inr (retry_run env now r1, obs1\<lparr>o_Value := ''unknown'', o_Availability := ''error''\<rparr>, st)
            else finish_known env now d r1 obs1 st) (\<lambda>(r2, obs2, st1).
     rbind (save_observation env now (d_ID d) d obs2 st1) (\<lambda>st2.
     rbind (save_run env now r2 st2) (\<lambda>st3.
     rbind (log_event env now (r_Scope r2) (i_ID i) ''run.finish'' (r_ID r2) st3) (\<lambda>st4.
     Inr (r2, st4))))))"

definition FinishRun :: "watch_env \<Rightarrow> time \<Rightarrow> runner_identity \<Rightarrow> completion \<Rightarrow> store \<Rightarrow> watch_error + run \<times> store" where
  "FinishRun env now i c st =
     (if i_ID i = [] \<or> \<not> validScope env (i_Scope i) then Inl ErrForbidden
      else if \<not> completion_ok c then Inl ErrInvalid
      else rbind (read env (t_runs st) (i_Scope i) (f_ClaimID c)) (\<lambda>existing.
        if r_CompletionHash existing \<noteq> [] \<and> r_Fence existing = f_Fence c \<and> r_RunnerID existing = i_ID i then
          (if r_CompletionHash existing \<noteq> completionDigest env c then Inl ErrConflict else Inr (existing, st))
        else rbind (leased env now i (f_ClaimID c) (f_Fence c) st) (\<lambda>(r, d).
          finish_accept env now i c r d st)))"


section \<open>Status views\<close>

definition hasEligible :: "runner list \<Rightarrow> definition_t \<Rightarrow> bool" where
  "hasEligible items d \<longleftrightarrow> list_ex (\<lambda>r. eligible \<lparr>i_TelegramBotID = [], i_TelegramBotUsername = [], i_ID = w_ID r,
     i_Scope = w_Scope r, i_Capabilities = w_Capabilities r\<rparr> d) items"

definition status_availability :: "time \<Rightarrow> runner list \<Rightarrow> definition_t \<Rightarrow> observation \<Rightarrow> string" where
  "status_availability now live d obs =
     (if d_Lifecycle d \<noteq> ''enabled'' then d_Lifecycle d
      else if o_Availability obs = ''source_changed'' \<or> o_Availability obs = ''source_unavailable'' then o_Availability obs
      else if \<not> hasEligible live d then ''no_runner''
      else if o_NextEvaluation obs < now - d_IntervalSeconds d * Second then ''delayed''
      else o_Availability obs)"

definition Status :: "watch_env \<Rightarrow> time \<Rightarrow> actor \<Rightarrow> store \<Rightarrow> watch_error + runner list \<times> observation list" where
  "Status env now a st =
     rbind (ListDefinitions env a st) (\<lambda>defs.
     let live = filter (\<lambda>r. now - w_LastSeen r < RunnerTTL (config_of env)) (list_rows (t_runners st) (a_Scope a) []) in
     rbind (rmapl (\<lambda>d. rbind (read env (t_observations st) (a_Scope a) (d_ID d)) (\<lambda>obs.
              Inr (obs\<lparr>o_Availability := status_availability now live d obs\<rparr>))) defs) (\<lambda>observations.
     Inr (live, observations)))"

definition ListRuns :: "watch_env \<Rightarrow> actor \<Rightarrow> string \<Rightarrow> store \<Rightarrow> watch_error + run list" where
  "ListRuns env a watchID st =
     rbind (GetDefinition env a watchID st) (\<lambda>_.
     Inr (sort_key (\<lambda>r. - r_DueAt r) (list_rows (t_runs st) (a_Scope a) watchID)))"

definition Audit_log :: "watch_env \<Rightarrow> actor \<Rightarrow> string \<Rightarrow> store \<Rightarrow> watch_error + audit_event list" where
  "Audit_log env a watchID st =
     rbind (GetDefinition env a watchID st) (\<lambda>_. Inr (list_rows (t_audit st) (a_Scope a) watchID))"

definition Health :: "watch_env \<Rightarrow> store \<Rightarrow> watch_error + unit" where
  "Health env st = (let items = list_rows (t_runners st) (global_scope env) [] in Inr ())"

end
