(* ===== verification/Watch_Frames.thy ===== *)
theory Watch_Frames
  imports Watch_Scheduler
begin

text \<open>
  What each operation of the coordinator leaves alone.  The scheduling invariants read three
  tables (definitions, observations, runs); every operation outside definitions and
  scheduler keeps all three, so an invariant of them is kept by it at once.
\<close>

named_theorems frames \<open>the scheduling tables an operation leaves alone\<close>

definition sched :: "store \<Rightarrow> definition_t table \<times> observation table \<times> run table" where
  "sched st = (t_definitions st, t_observations st, t_runs st)"

lemma sched_simps [simp]:
  "sched (st\<lparr>t_events := a\<rparr>) = sched st" "sched (st\<lparr>t_runners := b\<rparr>) = sched st"
  "sched (st\<lparr>t_subscriptions := c\<rparr>) = sched st" "sched (st\<lparr>t_inbox := d\<rparr>) = sched st"
  "sched (st\<lparr>t_outbox := e\<rparr>) = sched st" "sched (st\<lparr>t_audit := f\<rparr>) = sched st"
  "sched (st\<lparr>t_operations := g\<rparr>) = sched st" "sched (st\<lparr>t_links := h\<rparr>) = sched st"
  "sched (st\<lparr>t_requests := i\<rparr>) = sched st" "sched (st\<lparr>t_quotas := j\<rparr>) = sched st"
  "sched (st\<lparr>t_providers := k\<rparr>) = sched st" "sched (st\<lparr>t_bots := l\<rparr>) = sched st"
  "sched (st\<lparr>t_polls := m\<rparr>) = sched st"
  by (simp_all add: sched_def)

lemma save_runner_frame [frames]: "save_runner env now sc rid w st = Inr st' \<Longrightarrow> sched st' = sched st"
  by (auto simp: save_runner_def res_simps)
lemma save_event_frame [frames]: "save_event env d e st = Inr st' \<Longrightarrow> sched st' = sched st"
  by (auto simp: save_event_def res_simps)
lemma save_outbox_frame [frames]: "save_outbox env now v st = Inr st' \<Longrightarrow> sched st' = sched st"
  by (auto simp: save_outbox_def res_simps Let_def)
lemma save_inbox_frame [frames]: "save_inbox env now v st = Inr st' \<Longrightarrow> sched st' = sched st"
  by (auto simp: save_inbox_def res_simps)
lemma save_operation_frame [frames]: "save_operation env now wid d rid ow v st = Inr st' \<Longrightarrow> sched st' = sched st"
  by (auto simp: save_operation_def res_simps)
lemma log_event_frame [frames]: "log_event env now sc who act rid st = Inr st' \<Longrightarrow> sched st' = sched st"
  by (auto simp: log_event_def res_simps Let_def)
lemma save_link_frame [frames]: "save_link env now k st = Inr st' \<Longrightarrow> sched st' = sched st"
  by (auto simp: save_link_def res_simps)
lemma save_request_frame [frames]: "save_request env now k st = Inr st' \<Longrightarrow> sched st' = sched st"
  by (auto simp: save_request_def res_simps)
lemma savePoll_frame [frames]: "savePoll env now k st = Inr st' \<Longrightarrow> sched st' = sched st"
  by (auto simp: savePoll_def res_simps)
lemma save_quota_frame [frames]: "save_quota env now v qid n st = Inr st' \<Longrightarrow> sched st' = sched st"
  by (auto simp: save_quota_def res_simps)
lemma drop_requests_frame [simp]: "sched (drop_requests env a st) = sched st"
  by (simp add: drop_requests_def Let_def)

lemma rfold_frame:
  assumes "rfold f xs st = Inr st'" and "\<And>x s s'. f x s = Inr s' \<Longrightarrow> sched s' = sched s"
  shows "sched st' = sched st"
  by (rule rfold_invariant [where P = "\<lambda>s. sched s = sched st", OF assms(1)]) (auto dest: assms(2))

lemma revoke_where_frame [frames]: "revoke_where env now code p items st = Inr st' \<Longrightarrow> sched st' = sched st"
  unfolding revoke_where_def by (erule rfold_frame) (auto split: if_splits dest: frames)

lemma registerTelegramProvider_frame [frames]:
  "registerTelegramProvider env now i st = Inr st' \<Longrightarrow> sched st' = sched st"
  by (auto simp: registerTelegramProvider_def res_simps Let_def split: if_splits dest!: frames)

lemma RegisterRunner_frame [frames]: "RegisterRunner env now i st = Inr st' \<Longrightarrow> sched st' = sched st"
  by (auto simp: RegisterRunner_def rbind_eq_Inr if_Inl_eq_Inr Let_def dest!: frames)

lemma ClaimTelegramPoll_frame [frames]: "ClaimTelegramPoll env now i st = Inr (x, st') \<Longrightarrow> sched st' = sched st"
  by (auto simp: ClaimTelegramPoll_def rbind_eq_Inr Let_def split: if_splits dest!: frames)
lemma RenewTelegramPoll_frame [frames]: "RenewTelegramPoll env now i f st = Inr (x, st') \<Longrightarrow> sched st' = sched st"
  by (auto simp: RenewTelegramPoll_def rbind_eq_Inr Let_def dest!: frames)
lemma AdvanceTelegramPoll_frame [frames]: "AdvanceTelegramPoll env now i f n st = Inr st' \<Longrightarrow> sched st' = sched st"
  by (auto simp: AdvanceTelegramPoll_def rbind_eq_Inr if_Inl_eq_Inr Let_def dest!: frames)
lemma deferTelegramPoll_frame [frames]: "deferTelegramPoll env now i f n st = Inr st' \<Longrightarrow> sched st' = sched st"
  by (auto simp: deferTelegramPoll_def rbind_eq_Inr dest!: frames)
lemma DeferTelegramPoll_frame [frames]: "DeferTelegramPoll env now i f n st = Inr st' \<Longrightarrow> sched st' = sched st"
  by (auto simp: DeferTelegramPoll_def if_Inl_eq_Inr dest!: frames)
lemma BeginTelegramLink_frame [frames]: "BeginTelegramLink env now a h e st = Inr st' \<Longrightarrow> sched st' = sched st"
  by (auto simp: BeginTelegramLink_def rbind_eq_Inr if_Inl_eq_Inr dest!: frames)
lemma CompleteTelegramLinkByRunner_frame [frames]:
  "CompleteTelegramLinkByRunner env now i f h c st = Inr st' \<Longrightarrow> sched st' = sched st"
  unfolding CompleteTelegramLinkByRunner_def rbind_eq_Inr if_Inl_eq_Inr Let_def
  by (auto simp: rbind_eq_Inr split: if_splits dest!: frames)
lemma DisconnectTelegram_frame [frames]: "DisconnectTelegram env now a st = Inr st' \<Longrightarrow> sched st' = sched st"
  by (auto simp: DisconnectTelegram_def rbind_eq_Inr Let_def dest!: frames)

lemma Subscribe_frame [frames]: "Subscribe env now a sub st = Inr st' \<Longrightarrow> sched st' = sched st"
  unfolding Subscribe_def rbind_eq_Inr if_Inl_eq_Inr Let_def by (auto dest!: frames)
lemma MarkRead_frame [frames]: "MarkRead env now a nid st = Inr st' \<Longrightarrow> sched st' = sched st"
  unfolding MarkRead_def rbind_eq_Inr if_Inl_eq_Inr Let_def by auto

lemma reserveQuota_frame [frames]: "reserveQuota env now v st = Inr (ok, v', st') \<Longrightarrow> sched st' = sched st"
  by (auto simp: reserveQuota_def rbind_eq_Inr Let_def split: if_splits dest!: frames)
lemma claim_loop_frame [frames]: "claim_loop env now who vs st = Inr (x, st') \<Longrightarrow> sched st' = sched st"
proof (induction vs arbitrary: st)
  case (Cons v vs)
  from Cons.prems show ?case
    by (auto simp: rbind_eq_Inr split: if_splits dest!: frames Cons.IH)
qed simp
lemma claimNotifications_frame [frames]: "claimNotifications env now who f st = Inr (x, st') \<Longrightarrow> sched st' = sched st"
  by (auto simp: claimNotifications_def rbind_eq_Inr dest!: frames)
lemma invalidateTelegramRecipient_frame [frames]:
  "invalidateTelegramRecipient env now v st = Inr st' \<Longrightarrow> sched st' = sched st"
  by (auto simp: invalidateTelegramRecipient_def rbind_eq_Inr Let_def split: if_splits sum.splits dest!: frames)
lemma finish_delivery_frame [frames]:
  "finish_delivery env now who pf f code secs v st = Inr st' \<Longrightarrow> sched st' = sched st"
  by (auto simp: finish_delivery_def rbind_eq_Inr Let_def split: if_splits option.splits dest!: frames)
lemma finishNotification_frame [frames]:
  "finishNotification env now who pf nid f code secs st = Inr st' \<Longrightarrow> sched st' = sched st"
  by (auto simp: finishNotification_def rbind_eq_Inr if_Inl_eq_Inr split: list.splits dest!: frames)
lemma RetryNotification_frame [frames]: "RetryNotification env now a nid st = Inr st' \<Longrightarrow> sched st' = sched st"
  unfolding RetryNotification_def rbind_eq_Inr if_Inl_eq_Inr Let_def by (auto dest!: frames)

lemma notify_channel_frame:
  assumes "notify_channel env now d r ev sub ch acc = Inr acc'"
  shows "sched (snd acc') = sched (snd acc)"
proof (cases "address_delivery env now d sub (new_delivery env now d r ev sub ch) (snd acc)")
  case None
  with assms show ?thesis by (simp add: notify_channel_def)
next
  case (Some v)
  with assms obtain st1 where "save_outbox env now v (snd acc) = Inr st1"
    and rest: "(if ch = ''in_app'' then rbind (save_inbox env now (v_Notification v) st1) (\<lambda>st2.
          rbind (save_outbox env now (v\<lparr>v_State := ''delivered''\<rparr>) st2) (\<lambda>st3. Inr (True, st3)))
        else Inr (True, st1)) = Inr acc'"
    by (auto simp: notify_channel_def rbind_eq_Inr)
  moreover from rest have "sched (snd acc') = sched st1"
    by (cases "ch = ''in_app''") (auto simp: rbind_eq_Inr dest!: frames)
  ultimately show ?thesis by (simp add: save_outbox_frame)
qed

lemma rfold_frame_snd:
  assumes "rfold f xs acc = Inr acc'" and "\<And>x s s'. f x s = Inr s' \<Longrightarrow> sched (snd s') = sched (snd s)"
  shows "sched (snd acc') = sched (snd acc)"
  by (rule rfold_invariant [where P = "\<lambda>s. sched (snd s) = sched (snd acc)", OF assms(1)]) (auto dest: assms(2))

lemma notify_subscriber_frame:
  "notify_subscriber env now d r ev sub acc = Inr acc' \<Longrightarrow> sched (snd acc') = sched (snd acc)"
  by (auto simp: notify_subscriber_def split: if_splits elim!: rfold_frame_snd dest!: notify_channel_frame)
lemma notify_frame [frames]: "notify env now d r ev st = Inr (b, st') \<Longrightarrow> sched st' = sched st"
  by (auto simp: notify_def Let_def if_Inl_eq_Inr dest!: rfold_frame_snd notify_subscriber_frame)
lemma recordEvent_frame [frames]: "recordEvent env now d r p v st = Inr (e, st') \<Longrightarrow> sched st' = sched st"
  by (auto simp: recordEvent_def rbind_eq_Inr Let_def split: if_splits dest!: frames)

end
