(* ===== verification/Watch_Schedule.thy ===== *)
theory Watch_Schedule
  imports Watch_Scheduler
begin

text \<open>
  An abstract specification of the scheduler: a schedule is three finite maps (definitions,
  observations, runs), one run moves by \<open>run_step\<close>, and the schedule moves by the actions
  of \<open>act\<close>.  The theory proves what every sequence of actions keeps: at most one active run
  per Watch, attempts and leases within their bounds, final states that stay final, and that a
  fenced-off claim is never honoured again.  That the coordinator's operations do nothing
  but such actions is the subject of \<open>Watch_Refinement\<close>.
\<close>

section \<open>Transition systems with an invariant\<close>

locale kept_invariant =
  fixes init :: "'s \<Rightarrow> bool" and step :: "'s \<Rightarrow> 's \<Rightarrow> bool" and inv :: "'s \<Rightarrow> bool"
  assumes base: "init s \<Longrightarrow> inv s"
    and keep: "inv s \<Longrightarrow> step s s' \<Longrightarrow> inv s'"
begin

lemma steps_inv: "step\<^sup>*\<^sup>* s s' \<Longrightarrow> inv s \<Longrightarrow> inv s'"
  by (induction rule: rtranclp_induct) (auto intro: keep)

lemma reachable_inv: "init s \<Longrightarrow> step\<^sup>*\<^sup>* s s' \<Longrightarrow> inv s'"
  by (blast intro: base steps_inv)

text \<open>A second property that steps from invariant states keep.\<close>

lemma steps_stable:
  assumes "step\<^sup>*\<^sup>* s s'" and "inv s" and "P s" and "\<And>t t'. inv t \<Longrightarrow> P t \<Longrightarrow> step t t' \<Longrightarrow> P t'"
  shows "P s'"
proof -
  from assms(1) have "inv s' \<and> P s'"
    by (induction rule: rtranclp_induct) (auto intro: keep assms)
  then show ?thesis ..
qed

end

locale refined_by = kept_invariant ainit astep ainv
  for ainit :: "'a \<Rightarrow> bool" and astep :: "'a \<Rightarrow> 'a \<Rightarrow> bool" and ainv :: "'a \<Rightarrow> bool" +
  fixes view :: "'c \<Rightarrow> 'a" and cinit :: "'c \<Rightarrow> bool" and cstep :: "'c \<Rightarrow> 'c \<Rightarrow> bool" and cinv :: "'c \<Rightarrow> bool"
  assumes init_sim: "cinit c \<Longrightarrow> cinv c \<and> ainit (view c)"
    and step_sim: "cinv c \<Longrightarrow> ainv (view c) \<Longrightarrow> cstep c c' \<Longrightarrow> cinv c' \<and> astep\<^sup>*\<^sup>* (view c) (view c')"
begin

lemma steps_sim: "cstep\<^sup>*\<^sup>* c c' \<Longrightarrow> cinv c \<Longrightarrow> ainv (view c) \<Longrightarrow>
    cinv c' \<and> ainv (view c') \<and> astep\<^sup>*\<^sup>* (view c) (view c')"
proof (induction rule: rtranclp_induct)
  case (step c1 c2)
  then have c1: "cinv c1" "ainv (view c1)" "astep\<^sup>*\<^sup>* (view c) (view c1)" by auto
  with step_sim [OF c1(1,2) step.hyps(2)] show ?case
    by (auto intro: steps_inv rtranclp_trans)
qed simp

lemma reachable_sim: "cinit c \<Longrightarrow> cstep\<^sup>*\<^sup>* c c' \<Longrightarrow> cinv c' \<and> ainv (view c')"
  using init_sim [of c] steps_sim [of c c'] base [of "view c"] by blast

end


section \<open>Schedules\<close>

record schedule =
  defs :: "string \<rightharpoonup> definition_t"
  obs :: "string \<rightharpoonup> observation"
  runs :: "string \<rightharpoonup> run"

definition empty_schedule :: schedule where
  "empty_schedule = \<lparr>defs = Map.empty, obs = Map.empty, runs = Map.empty\<rparr>"

text \<open>
  What the scheduler needs of the libraries it calls: the hash has no collisions on the
  keys it is given and the nanosecond time format tells instants apart; and the
  configuration was accepted by \<open>normalizeConfig\<close>.
\<close>

definition sound_env :: "watch_env \<Rightarrow> bool" where
  "sound_env env \<longleftrightarrow> inj (stable_hash env) \<and> inj (Format env RFC3339Nano) \<and> good_config (config_of env)"

definition run_key :: "watch_env \<Rightarrow> scope \<Rightarrow> string \<Rightarrow> int \<Rightarrow> time \<Rightarrow> string" where
  "run_key env sc wid ver t = stable env [Namespace sc, Project sc, Environment sc, wid,
     show_int ver, Format env RFC3339Nano t]"

lemma run_id_run_key: "run_id env d t = run_key env (d_Scope d) (d_ID d) (d_Version d) t"
  by (simp add: run_id_def run_key_def)

lemma key_inj:
  assumes "sound_env env"
  shows "key env sc rid = key env sc' rid' \<longleftrightarrow> sc = sc' \<and> rid = rid'"
  using assms by (cases sc; cases sc') (auto simp: sound_env_def key_def stable_def inj_eq)

lemma run_key_inj:
  assumes "sound_env env"
  shows "run_key env sc wid ver t = run_key env sc' wid' ver' t' \<longleftrightarrow> sc = sc' \<and> wid = wid' \<and> ver = ver' \<and> t = t'"
  using assms by (cases sc; cases sc') (auto simp: sound_env_def run_key_def stable_def inj_eq show_int_inj)

definition same_ids :: "run \<Rightarrow> run \<Rightarrow> bool" where
  "same_ids r r' \<longleftrightarrow> r_Scope r = r_Scope r' \<and> r_ID r = r_ID r' \<and> r_WatchID r = r_WatchID r' \<and>
     r_DefinitionVersion r = r_DefinitionVersion r' \<and> r_DueAt r = r_DueAt r'"

text \<open>The life of one run.\<close>

inductive run_step :: "watch_env \<Rightarrow> run \<Rightarrow> run \<Rightarrow> bool" for env where
  claim_it: "active_run r \<Longrightarrow> r_State r = ''running'' \<longrightarrow> r_LeaseUntil r \<le> now \<Longrightarrow>
     r_Attempts r < MaxAttempts (config_of env) \<Longrightarrow> run_step env r (claimed_run env now i r)"
| extend_it: "r_State r = ''running'' \<Longrightarrow> lease \<le> r_Deadline r \<Longrightarrow> run_step env r (r\<lparr>r_LeaseUntil := lease\<rparr>)"
| settle_it: "r_State r = ''running'' \<Longrightarrow> same_ids r r' \<Longrightarrow> r_Fence r' = r_Fence r \<Longrightarrow>
     r_Attempts r' = r_Attempts r \<Longrightarrow> terminal_run r' \<or> r_State r' = ''retry'' \<Longrightarrow> run_step env r r'"
| exhaust_it: "active_run r \<Longrightarrow> MaxAttempts (config_of env) \<le> r_Attempts r \<Longrightarrow> run_step env r (exhausted_run now r)"
| cancel_it: "active_run r \<Longrightarrow> r_Fence r \<le> f \<Longrightarrow>
     run_step env r (r\<lparr>r_State := ''cancelled'', r_Fence := f, r_FinishedAt := now\<rparr>)"

inductive_cases run_stepE: "run_step env r r'"

definition idle :: "schedule \<Rightarrow> scope \<Rightarrow> string \<Rightarrow> bool" where
  "idle s sc wid \<longleftrightarrow> (\<forall>k r. runs s k = Some r \<longrightarrow> r_Scope r = sc \<longrightarrow> r_WatchID r = wid \<longrightarrow> \<not> active_run r)"

text \<open>
  The actions on a schedule: a definition is written with a higher version once no run of it
  is active (and its observation restarts); an observation moves on, its definition keeping
  its version; a due run is added and the next evaluation moves past it; a run makes a
  step; runs that are not active are dropped.
\<close>

inductive act :: "watch_env \<Rightarrow> schedule \<Rightarrow> schedule \<Rightarrow> bool" for env where
  define_it: "k = key env (d_Scope d) (d_ID d) \<Longrightarrow> 0 < d_IntervalSeconds d \<Longrightarrow>
     (\<And>d0. defs s k = Some d0 \<Longrightarrow> d_Version d0 < d_Version d) \<Longrightarrow> idle s (d_Scope d) (d_ID d) \<Longrightarrow>
     act env s (s\<lparr>defs := (defs s)(k \<mapsto> d), obs := (obs s)(k \<mapsto> ob)\<rparr>)"
| observe_it: "defs s k = Some d \<Longrightarrow> d_Scope d' = d_Scope d \<Longrightarrow> d_ID d' = d_ID d \<Longrightarrow> d_Version d' = d_Version d \<Longrightarrow>
     d_IntervalSeconds d' = d_IntervalSeconds d \<Longrightarrow> obs s k = Some ob \<Longrightarrow>
     o_NextEvaluation ob \<le> o_NextEvaluation ob' \<Longrightarrow>
     act env s (s\<lparr>defs := (defs s)(k \<mapsto> d'), obs := (obs s)(k \<mapsto> ob')\<rparr>)"
| schedule_it: "defs s k = Some d \<Longrightarrow> d_Lifecycle d = ''enabled'' \<Longrightarrow> obs s k = Some ob \<Longrightarrow>
     idle s (d_Scope d) (d_ID d) \<Longrightarrow> o_NextEvaluation ob < o_NextEvaluation ob' \<Longrightarrow>
     r = due_run env d (o_NextEvaluation ob) \<Longrightarrow>
     act env s (s\<lparr>runs := (runs s)(key env (r_Scope r) (r_ID r) \<mapsto> r), obs := (obs s)(k \<mapsto> ob')\<rparr>)"
| run_it: "runs s k = Some r \<Longrightarrow> run_step env r r' \<Longrightarrow> act env s (s\<lparr>runs := (runs s)(k \<mapsto> r')\<rparr>)"
| forget_it: "rs \<subseteq>\<^sub>m runs s \<Longrightarrow> (\<And>k r. runs s k = Some r \<Longrightarrow> active_run r \<Longrightarrow> rs k = Some r) \<Longrightarrow>
     act env s (s\<lparr>runs := rs\<rparr>)"


section \<open>One run\<close>

lemma state_distinct: "active_run r \<Longrightarrow> \<not> terminal_run r"
  by (auto simp: active_run_def terminal_run_def)

definition run_ok :: "watch_env \<Rightarrow> run \<Rightarrow> bool" where
  "run_ok env r \<longleftrightarrow> (active_run r \<or> terminal_run r) \<and> 0 \<le> r_Attempts r \<and> r_Attempts r \<le> r_Fence r \<and>
     r_Attempts r \<le> MaxAttempts (config_of env) \<and>
     (r_State r = ''running'' \<longrightarrow> r_LeaseUntil r \<le> r_Deadline r \<and> 0 < r_Fence r)"

lemma run_step_active: "run_step env r r' \<Longrightarrow> active_run r"
  by (erule run_stepE) (auto simp: active_run_def)

lemma run_step_ids: "run_step env r r' \<Longrightarrow> same_ids r r'"
  by (erule run_stepE) (auto simp: same_ids_def claimed_run_def exhausted_run_def Let_def)

lemma run_step_fence: "run_step env r r' \<Longrightarrow> r_Fence r \<le> r_Fence r'"
  by (erule run_stepE) (auto simp: claimed_run_def exhausted_run_def Let_def)

lemma run_step_ok: "run_step env r r' \<Longrightarrow> run_ok env r \<Longrightarrow> run_ok env r'"
proof (erule run_stepE)
  fix now i assume "r' = claimed_run env now i r" "r_Attempts r < MaxAttempts (config_of env)" "run_ok env r"
  then show ?thesis by (auto simp: run_ok_def claimed_run_def Let_def active_run_def)
next
  assume "run_ok env r" "r_Fence r' = r_Fence r" "r_Attempts r' = r_Attempts r"
    "terminal_run r' \<or> r_State r' = ''retry''"
  then show ?thesis by (auto simp: run_ok_def active_run_def terminal_run_def)
qed (auto simp: run_ok_def exhausted_run_def active_run_def terminal_run_def)

lemma due_run_ok: "good_config (config_of env) \<Longrightarrow> run_ok env (due_run env d t)"
  by (simp add: run_ok_def due_run_def active_run_def good_config_def)

text \<open>A claim is the only step that hands a run to a runner, and it moves the fence.\<close>

lemma run_step_new_holder:
  assumes "run_step env r r'" and "r_State r' = ''running''" and "r_RunnerID r' \<noteq> r_RunnerID r \<or> r_State r \<noteq> ''running''"
  shows "r_Fence r' = r_Fence r + 1"
  using assms
  by (cases rule: run_stepE) (auto simp: claimed_run_def exhausted_run_def Let_def terminal_run_def)


section \<open>The invariant\<close>

definition sched_inv :: "watch_env \<Rightarrow> schedule \<Rightarrow> bool" where
  "sched_inv env s \<longleftrightarrow> sound_env env \<and>
     (\<forall>k d. defs s k = Some d \<longrightarrow> k = key env (d_Scope d) (d_ID d) \<and> 0 < d_IntervalSeconds d \<and> obs s k \<noteq> None) \<and>
     (\<forall>k r. runs s k = Some r \<longrightarrow> k = key env (r_Scope r) (r_ID r) \<and> run_ok env r \<and>
        r_ID r = run_key env (r_Scope r) (r_WatchID r) (r_DefinitionVersion r) (r_DueAt r) \<and>
        (\<exists>d ob. defs s (key env (r_Scope r) (r_WatchID r)) = Some d \<and>
           obs s (key env (r_Scope r) (r_WatchID r)) = Some ob \<and>
           (r_DefinitionVersion r < d_Version d \<or>
            r_DefinitionVersion r = d_Version d \<and> r_DueAt r < o_NextEvaluation ob))) \<and>
     (\<forall>k r k' r'. runs s k = Some r \<longrightarrow> runs s k' = Some r' \<longrightarrow> active_run r \<longrightarrow> active_run r' \<longrightarrow>
        r_Scope r = r_Scope r' \<longrightarrow> r_WatchID r = r_WatchID r' \<longrightarrow> k = k')"

lemma sched_inv_sound: "sched_inv env s \<Longrightarrow> sound_env env"
  by (simp add: sched_inv_def)

lemma sched_inv_def_D:
  "sched_inv env s \<Longrightarrow> defs s k = Some d \<Longrightarrow> k = key env (d_Scope d) (d_ID d) \<and> 0 < d_IntervalSeconds d"
  by (simp add: sched_inv_def)

lemma sched_inv_obs: "sched_inv env s \<Longrightarrow> defs s k = Some d \<Longrightarrow> \<exists>ob. obs s k = Some ob"
  by (simp add: sched_inv_def)

lemma sched_inv_run:
  assumes "sched_inv env s" and "runs s k = Some r"
  shows "k = key env (r_Scope r) (r_ID r)" and "run_ok env r"
    and "r_ID r = run_key env (r_Scope r) (r_WatchID r) (r_DefinitionVersion r) (r_DueAt r)"
    and "\<exists>d ob. defs s (key env (r_Scope r) (r_WatchID r)) = Some d \<and>
           obs s (key env (r_Scope r) (r_WatchID r)) = Some ob \<and>
           (r_DefinitionVersion r < d_Version d \<or>
            r_DefinitionVersion r = d_Version d \<and> r_DueAt r < o_NextEvaluation ob)"
  using assms unfolding sched_inv_def by blast+

lemma sched_inv_single:
  "sched_inv env s \<Longrightarrow> runs s k = Some r \<Longrightarrow> runs s k' = Some r' \<Longrightarrow> active_run r \<Longrightarrow> active_run r' \<Longrightarrow>
     r_Scope r = r_Scope r' \<Longrightarrow> r_WatchID r = r_WatchID r' \<Longrightarrow> k = k'"
  by (simp add: sched_inv_def)

lemma sched_inv_empty: "sound_env env \<Longrightarrow> sched_inv env empty_schedule"
  by (simp add: sched_inv_def empty_schedule_def)

lemma sched_invI:
  assumes "sound_env env"
    and "\<And>k d. defs s k = Some d \<Longrightarrow> k = key env (d_Scope d) (d_ID d) \<and> 0 < d_IntervalSeconds d \<and> obs s k \<noteq> None"
    and "\<And>k r. runs s k = Some r \<Longrightarrow> k = key env (r_Scope r) (r_ID r) \<and> run_ok env r \<and>
        r_ID r = run_key env (r_Scope r) (r_WatchID r) (r_DefinitionVersion r) (r_DueAt r)"
    and "\<And>k r. runs s k = Some r \<Longrightarrow> \<exists>d ob. defs s (key env (r_Scope r) (r_WatchID r)) = Some d \<and>
           obs s (key env (r_Scope r) (r_WatchID r)) = Some ob \<and>
           (r_DefinitionVersion r < d_Version d \<or>
            r_DefinitionVersion r = d_Version d \<and> r_DueAt r < o_NextEvaluation ob)"
    and "\<And>k r k' r'. runs s k = Some r \<Longrightarrow> runs s k' = Some r' \<Longrightarrow> active_run r \<Longrightarrow> active_run r' \<Longrightarrow>
        r_Scope r = r_Scope r' \<Longrightarrow> r_WatchID r = r_WatchID r' \<Longrightarrow> k = k'"
  shows "sched_inv env s"
  unfolding sched_inv_def using assms by meson

text \<open>
  A run lies in the past of its Watch: an older version, or an instant before the next
  evaluation.  Moving the version, or the next evaluation within a version, keeps it so.
\<close>

definition past :: "watch_env \<Rightarrow> schedule \<Rightarrow> scope \<Rightarrow> string \<Rightarrow> int \<Rightarrow> time \<Rightarrow> bool" where
  "past env s sc wid ver t \<longleftrightarrow> (\<exists>d ob. defs s (key env sc wid) = Some d \<and> obs s (key env sc wid) = Some ob \<and>
     (ver < d_Version d \<or> ver = d_Version d \<and> t < o_NextEvaluation ob))"

lemma sched_inv_past:
  "sched_inv env s \<Longrightarrow> runs s k = Some r \<Longrightarrow> past env s (r_Scope r) (r_WatchID r) (r_DefinitionVersion r) (r_DueAt r)"
  unfolding past_def by (rule sched_inv_run(4))

lemma act_past: "act env s s' \<Longrightarrow> past env s sc wid ver t \<Longrightarrow> past env s' sc wid ver t"
proof (induction rule: act.induct)
  case (define_it k d s ob)
  from define_it.prems obtain d0 where d0: "defs s (key env sc wid) = Some d0" "ver \<le> d_Version d0"
    unfolding past_def by auto
  show ?case
  proof (cases "key env sc wid = k")
    case True
    with d0 define_it.hyps(3) [of d0] show ?thesis by (simp add: past_def)
  next
    case False
    with define_it.prems show ?thesis by (simp add: past_def)
  qed
next
  case (observe_it s k d d' ob ob')
  then show ?case by (cases "key env sc wid = k") (auto simp: past_def)
next
  case (schedule_it s k d ob ob' r)
  then show ?case by (cases "key env sc wid = k") (auto simp: past_def)
qed (auto simp: past_def)

text \<open>What an action does to the runs: it keeps one, moves one, or adds a due one.\<close>

lemma act_runs:
  assumes "act env s s'" and "runs s' k = Some r'"
  obtains (kept) "runs s k = Some r'"
  | (moved) r where "runs s k = Some r" "run_step env r r'"
  | (due) kd d ob where "defs s kd = Some d" "obs s kd = Some ob" "idle s (d_Scope d) (d_ID d)"
      "r' = due_run env d (o_NextEvaluation ob)" "k = key env (r_Scope r') (r_ID r')"
      "past env s' (d_Scope d) (d_ID d) (d_Version d) (o_NextEvaluation ob) \<or> kd \<noteq> key env (d_Scope d) (d_ID d)"
  using assms
proof (induction rule: act.induct)
  case (schedule_it s kd d ob ob' r)
  show ?case
  proof (cases "k = key env (r_Scope r) (r_ID r)")
    case True
    then have "r' = r" using schedule_it.prems(4) by simp
    with True show ?thesis using schedule_it.hyps by (intro schedule_it.prems(3)) (auto simp: past_def)
  next
    case False
    then show ?thesis using schedule_it.prems(1,4) by simp
  qed
next
  case (run_it s k0 r0 r1)
  then show ?case by (cases "k = k0") auto
next
  case (forget_it rs s)
  then show ?case by (metis domI map_le_def schedule.select_convs(3) schedule.surjective schedule.update_convs(3))
qed auto

text \<open>What an action does to the definitions: each stays where it is stored, with its observation.\<close>

lemma act_defs:
  assumes "act env s s'" and "defs s' k = Some d'" and "sched_inv env s"
  shows "k = key env (d_Scope d') (d_ID d') \<and> 0 < d_IntervalSeconds d' \<and> obs s' k \<noteq> None"
  using assms
proof (induction rule: act.induct)
  case (define_it k0 d s ob)
  then show ?case
    using sched_inv_def_D [of env s k d'] sched_inv_obs [of env s k d'] by (cases "k = k0") auto
next
  case (observe_it s k0 d d1 ob ob')
  show ?case
  proof (cases "k = k0")
    case True
    then show ?thesis using observe_it sched_inv_def_D [OF observe_it.prems(2) observe_it.hyps(1)] by simp
  next
    case False
    then show ?thesis
      using observe_it.prems sched_inv_def_D [of env s k d'] sched_inv_obs [of env s k d'] by simp
  qed
next
  case (schedule_it s k0 d ob ob' r)
  then show ?case
    using sched_inv_def_D [of env s k d'] sched_inv_obs [of env s k d'] by auto
qed (auto simp: sched_inv_def)

lemma act_run_facts:
  assumes "act env s s'" and "sched_inv env s" and "runs s' k = Some r"
  shows "k = key env (r_Scope r) (r_ID r) \<and> run_ok env r \<and>
      r_ID r = run_key env (r_Scope r) (r_WatchID r) (r_DefinitionVersion r) (r_DueAt r) \<and>
      past env s' (r_Scope r) (r_WatchID r) (r_DefinitionVersion r) (r_DueAt r)"
  using assms(1,3)
proof (cases rule: act_runs)
  case kept
  then show ?thesis
    using sched_inv_run(1-3) [OF assms(2) kept] act_past [OF assms(1) sched_inv_past [OF assms(2) kept]] by blast
next
  case (moved r0)
  then have "same_ids r0 r" "run_ok env r" using run_step_ids run_step_ok sched_inv_run(2) [OF assms(2)] by blast+
  then show ?thesis
    using sched_inv_run(1,3) [OF assms(2) moved(1)] act_past [OF assms(1) sched_inv_past [OF assms(2) moved(1)]]
    unfolding same_ids_def by metis
next
  case (due kd d ob)
  have "good_config (config_of env)" using sched_inv_sound [OF assms(2)] by (simp add: sound_env_def)
  moreover have "past env s' (d_Scope d) (d_ID d) (d_Version d) (o_NextEvaluation ob)"
    using due(6) sched_inv_def_D [OF assms(2) due(1)] by blast
  ultimately show ?thesis
    using due(4,5) due_run_ok by (simp add: due_run_def run_id_run_key)
qed

lemma same_ids_refl [simp]: "same_ids r r"
  by (simp add: same_ids_def)

lemma act_active:
  assumes "act env s s'" and "runs s' k = Some r'" and "active_run r'"
  obtains (old) r where "runs s k = Some r" "active_run r" "same_ids r r'"
  | (due) kd d ob where "defs s kd = Some d" "obs s kd = Some ob" "idle s (r_Scope r') (r_WatchID r')"
      "d_Scope d = r_Scope r'" "d_ID d = r_WatchID r'"
      "k = key env (r_Scope r') (run_id env d (o_NextEvaluation ob))"
  using assms(1,2)
proof (cases rule: act_runs)
  case kept
  then show ?thesis using old assms(3) same_ids_refl by blast
next
  case (moved r)
  then show ?thesis using old run_step_active run_step_ids by blast
next
  case (due kd d ob)
  have r': "r_Scope r' = d_Scope d" "r_WatchID r' = d_ID d" "r_ID r' = run_id env d (o_NextEvaluation ob)"
    by (simp_all add: due(4) due_run_def)
  show ?thesis by (rule that(2) [OF due(1,2)]) (simp_all add: r' due(3,5))
qed

lemma act_single:
  assumes "act env s s'" and inv: "sched_inv env s" and "runs s' k = Some r" and "runs s' k' = Some r'"
    and "active_run r" and "active_run r'" and sc: "r_Scope r = r_Scope r'" and w: "r_WatchID r = r_WatchID r'"
  shows "k = k'"
  using assms(1,3,5)
proof (cases rule: act_active)
  case old1: (old r0)
  show ?thesis using assms(1,4,6)
  proof (cases rule: act_active)
    case (old r1)
    then show ?thesis using sched_inv_single [OF inv old1(1) old(1) old1(2) old(2)] old1(3) old(3) sc w
      by (simp add: same_ids_def)
  next
    case (due kd d ob)
    have "r_Scope r0 = r_Scope r'" "r_WatchID r0 = r_WatchID r'" using old1(3) sc w by (simp_all add: same_ids_def)
    then show ?thesis using old1(1,2) due(3) by (auto simp: idle_def)
  qed
next
  case due1: (due kd1 d1 ob1)
  show ?thesis using assms(1,4,6)
  proof (cases rule: act_active)
    case (old r1)
    have "r_Scope r1 = r_Scope r" "r_WatchID r1 = r_WatchID r" using old(3) sc w by (simp_all add: same_ids_def)
    then show ?thesis using old(1,2) due1(3) by (auto simp: idle_def)
  next
    case (due kd d ob)
    have "kd1 = kd"
      using sched_inv_def_D [OF inv due1(1)] sched_inv_def_D [OF inv due(1)] due1(4,5) due(4,5) sc w by simp
    then show ?thesis using due due1 sc by simp
  qed
qed

lemma act_inv: "act env s s' \<Longrightarrow> sched_inv env s \<Longrightarrow> sched_inv env s'"
proof (rule sched_invI, goal_cases)
  case 1 then show ?case by (blast intro: sched_inv_sound)
next
  case (2 k d) then show ?case by (blast dest: act_defs)
next
  case (3 k r) then show ?case by (blast dest: act_run_facts)
next
  case (4 k r)
  then have "past env s' (r_Scope r) (r_WatchID r) (r_DefinitionVersion r) (r_DueAt r)" by (blast dest: act_run_facts)
  then show ?case unfolding past_def .
next
  case (5 k r k' r') then show ?case by (rule act_single [of env s s'])
qed


section \<open>A run id is never used twice, and a fenced-off claim stays fenced off\<close>

definition spent :: "watch_env \<Rightarrow> schedule \<Rightarrow> string \<Rightarrow> bool" where
  "spent env s rid \<longleftrightarrow> (\<exists>sc wid ver t. rid = run_key env sc wid ver t \<and> past env s sc wid ver t)"

definition stale :: "watch_env \<Rightarrow> scope \<Rightarrow> string \<Rightarrow> int \<Rightarrow> schedule \<Rightarrow> bool" where
  "stale env sc rid fence s =
     (case runs s (key env sc rid) of Some r \<Rightarrow> fence < r_Fence r | None \<Rightarrow> spent env s rid)"

lemma run_spent: "sched_inv env s \<Longrightarrow> runs s k = Some r \<Longrightarrow> spent env s (r_ID r)"
  unfolding spent_def using sched_inv_run(3) sched_inv_past by blast

lemma due_not_spent:
  assumes "sched_inv env s" and "defs s k = Some d" and "obs s k = Some ob"
  shows "\<not> spent env s (run_id env d (o_NextEvaluation ob))"
proof
  assume "spent env s (run_id env d (o_NextEvaluation ob))"
  then obtain d' ob' where "defs s (key env (d_Scope d) (d_ID d)) = Some d'"
    "obs s (key env (d_Scope d) (d_ID d)) = Some ob'"
    "d_Version d < d_Version d' \<or> d_Version d = d_Version d' \<and> o_NextEvaluation ob < o_NextEvaluation ob'"
    using sched_inv_sound [OF assms(1)] by (auto simp: spent_def past_def run_id_run_key run_key_inj)
  then show False using assms sched_inv_def_D [OF assms(1,2)] by auto
qed

lemma act_spent: "act env s s' \<Longrightarrow> spent env s rid \<Longrightarrow> spent env s' rid"
  unfolding spent_def using act_past by blast

lemma run_id_new:
  assumes "sched_inv env s" and "runs s (key env sc rid) = Some r"
  shows "rid = r_ID r" and "spent env s rid"
  using sched_inv_run(1) [OF assms] key_inj [OF sched_inv_sound [OF assms(1)]] run_spent [OF assms] by simp_all

lemma act_stale:
  assumes "act env s s'" and "sched_inv env s" and "stale env sc rid fence s"
  shows "stale env sc rid fence s'"
proof (cases "runs s' (key env sc rid)")
  case None
  have "spent env s rid"
    using assms(3) run_id_new(2) [OF assms(2)] by (auto simp: stale_def split: option.splits)
  with None show ?thesis using act_spent [OF assms(1)] by (simp add: stale_def)
next
  case (Some r')
  from assms(1) Some have "fence < r_Fence r'"
  proof (cases rule: act_runs)
    case kept
    then show ?thesis using assms(3) by (simp add: stale_def)
  next
    case (moved r)
    then show ?thesis using assms(3) run_step_fence [OF moved(2)] by (simp add: stale_def)
  next
    case (due kd d ob)
    then have rid: "rid = run_id env d (o_NextEvaluation ob)"
      using key_inj [OF sched_inv_sound [OF assms(2)]] by (simp add: due_run_def)
    have "spent env s rid"
      using assms(3) run_id_new(2) [OF assms(2)] by (auto simp: stale_def split: option.splits)
    with rid due_not_spent [OF assms(2) due(1,2)] show ?thesis by simp
  qed
  with Some show ?thesis by (simp add: stale_def)
qed

text \<open>A run that reached a final state is kept as it is until it is pruned.\<close>

definition final_run :: "watch_env \<Rightarrow> scope \<Rightarrow> run \<Rightarrow> schedule \<Rightarrow> bool" where
  "final_run env sc r s \<longleftrightarrow> terminal_run r \<and> spent env s (r_ID r) \<and>
     (runs s (key env sc (r_ID r)) = Some r \<or> runs s (key env sc (r_ID r)) = None)"

lemma act_final:
  assumes "act env s s'" and "sched_inv env s" and "final_run env sc r s"
  shows "final_run env sc r s'"
proof (cases "runs s' (key env sc (r_ID r))")
  case None
  with assms(3) show ?thesis by (simp add: final_run_def act_spent [OF assms(1)])
next
  case (Some r')
  from assms(1) Some have "r' = r"
  proof (cases rule: act_runs)
    case kept
    then show ?thesis using assms(3) by (simp add: final_run_def)
  next
    case (moved r0)
    then show ?thesis
      using assms(3) run_step_active [OF moved(2)] state_distinct by (auto simp: final_run_def)
  next
    case (due kd d ob)
    then have "r_ID r = run_id env d (o_NextEvaluation ob)"
      using key_inj [OF sched_inv_sound [OF assms(2)]] by (simp add: due_run_def)
    with due_not_spent [OF assms(2) due(1,2)] assms(3) show ?thesis by (simp add: final_run_def)
  qed
  with Some assms(3) show ?thesis by (simp add: final_run_def act_spent [OF assms(1)])
qed

interpretation sch: kept_invariant "\<lambda>s. sound_env env \<and> s = empty_schedule" "act env" "sched_inv env" for env
  by unfold_locales (auto simp: sched_inv_empty intro: act_inv)

end
