(* ===== verification/Watch_Refinement.thy ===== *)
theory Watch_Refinement
  imports Watch_Frames Watch_Schedule
begin

text \<open>
  The coordinator's operations refine the abstract schedule: the stored tables are viewed as
  the three maps of a schedule, and every operation that succeeds is a sequence of the
  actions of \<open>act\<close> on that view.
\<close>

section \<open>The view of a store\<close>

definition payloads :: "'a table \<Rightarrow> string \<rightharpoonup> 'a" where
  "payloads t k = map_option row_payload (map_of t k)"

definition view :: "store \<Rightarrow> schedule" where
  "view st = \<lparr>defs = payloads (t_definitions st), obs = payloads (t_observations st), runs = payloads (t_runs st)\<rparr>"

definition row_scope :: "'a row \<Rightarrow> scope" where
  "row_scope row = \<lparr>Namespace = row_namespace row, Project = row_project row, Environment = row_environment row\<rparr>"

lemma row_matches_scope: "row_matches sc w row \<longleftrightarrow> Namespace (row_scope row) = Namespace sc \<and>
    (Project sc = [] \<or> Project (row_scope row) = Project sc) \<and>
    (Environment sc = [] \<or> Environment (row_scope row) = Environment sc) \<and> (w = [] \<or> row_watch row = w)"
  by (simp add: row_matches_def row_scope_def)

text \<open>The indexed columns of a table agree with its payloads, and its keys are distinct.\<close>

definition rows_ok :: "('a \<Rightarrow> scope) \<Rightarrow> ('a \<Rightarrow> string) \<Rightarrow> ('a \<Rightarrow> string) \<Rightarrow> watch_env \<Rightarrow> 'a table \<Rightarrow> bool" where
  "rows_ok sc_of id_of watch_of env t \<longleftrightarrow> distinct (map fst t) \<and>
     (\<forall>(k, row) \<in> set t. k = key env (sc_of (row_payload row)) (id_of (row_payload row)) \<and>
        row_scope row = sc_of (row_payload row) \<and> row_watch row = watch_of (row_payload row))"

definition rep_ok :: "watch_env \<Rightarrow> store \<Rightarrow> bool" where
  "rep_ok env st \<longleftrightarrow> rows_ok r_Scope r_ID r_WatchID env (t_runs st) \<and>
     rows_ok d_Scope d_ID d_ID env (t_definitions st)"

lemma read_payloads: "read env t sc rid = Inr v \<longleftrightarrow> payloads t (key env sc rid) = Some v"
  by (auto simp: read_Inr payloads_def)

lemma payloads_update [simp]: "payloads (AList.update k row t) = (payloads t)(k \<mapsto> row_payload row)"
  by (auto simp: payloads_def fun_eq_iff update_conv')

lemma rows_ok_update:
  assumes "rows_ok sc_of id_of watch_of env t"
    and "k = key env (sc_of (row_payload row)) (id_of (row_payload row))"
    and "row_scope row = sc_of (row_payload row)" and "row_watch row = watch_of (row_payload row)"
  shows "rows_ok sc_of id_of watch_of env (AList.update k row t)"
proof -
  have d: "distinct (map fst t)" "distinct (map fst (AList.update k row t))"
    using assms(1) by (simp_all add: rows_ok_def distinct_update)
  have "(k', row') \<in> set t \<or> k' = k \<and> row' = row" if "(k', row') \<in> set (AList.update k row t)" for k' row'
    using that map_of_eq_Some_iff [OF d(1)] map_of_eq_Some_iff [OF d(2)]
    by (metis alist.get_put option.inject)
  then show ?thesis
    using d(2) assms(1) by (simp add: rows_ok_def) (use assms(2-4) in blast)
qed

lemma rows_ok_listed:
  assumes "rows_ok sc_of id_of watch_of env t" and "v \<in> set (list_rows t sc w)"
  shows "payloads t (key env (sc_of v) (id_of v)) = Some v"
    and "Namespace (sc_of v) = Namespace sc" and "w \<noteq> [] \<Longrightarrow> watch_of v = w"
proof -
  from assms(2) obtain k row where kr: "(k, row) \<in> set t" "row_matches sc w row" "row_payload row = v"
    by (auto simp: list_rows_iff)
  with assms(1) have "k = key env (sc_of v) (id_of v)" "row_scope row = sc_of v" "row_watch row = watch_of v"
    "map_of t k = Some row"
    by (auto simp: rows_ok_def)
  with kr show "payloads t (key env (sc_of v) (id_of v)) = Some v" "Namespace (sc_of v) = Namespace sc"
    "w \<noteq> [] \<Longrightarrow> watch_of v = w"
    by (auto simp: payloads_def row_matches_scope)
qed

lemma rows_ok_list:
  assumes "rows_ok sc_of id_of watch_of env t" and "payloads t k = Some v"
    and "Namespace (sc_of v) = Namespace sc" and "Project sc = [] \<or> Project (sc_of v) = Project sc"
    and "Environment sc = [] \<or> Environment (sc_of v) = Environment sc" and "w = [] \<or> watch_of v = w"
  shows "v \<in> set (list_rows t sc w)"
proof -
  from assms(2) obtain row where row: "map_of t k = Some row" "row_payload row = v"
    by (auto simp: payloads_def)
  then have "(k, row) \<in> set t" by (simp add: map_of_SomeD)
  with assms(1) row have "row_scope row = sc_of v" "row_watch row = watch_of v" by (auto simp: rows_ok_def)
  then have "row_matches sc w row" using assms(3-6) by (simp add: row_matches_scope)
  with \<open>(k, row) \<in> set t\<close> row show ?thesis by (auto simp: list_rows_iff)
qed

lemma rows_ok_distinct:
  assumes "rows_ok sc_of id_of watch_of env t"
  shows "distinct (map (\<lambda>v. key env (sc_of v) (id_of v)) (list_rows t sc w))"
proof -
  have "map (\<lambda>v. key env (sc_of v) (id_of v)) (list_rows t sc w) =
      map fst (filter (\<lambda>kr. row_matches sc w (snd kr)) t)"
    using assms by (auto simp: list_rows_def rows_ok_def filter_map comp_def)
  moreover have "distinct (map fst (filter Q t))" for Q
    using assms by (simp add: rows_ok_def distinct_map_filter)
  ultimately show ?thesis by simp
qed

text \<open>\<open>refines\<close>: the new store is well formed and seen through the view only actions happened.\<close>

definition refines :: "watch_env \<Rightarrow> store \<Rightarrow> store \<Rightarrow> bool" where
  "refines env st st' \<longleftrightarrow> rep_ok env st' \<and> (act env)\<^sup>*\<^sup>* (view st) (view st')"

definition good :: "watch_env \<Rightarrow> store \<Rightarrow> bool" where
  "good env st \<longleftrightarrow> rep_ok env st \<and> sched_inv env (view st)"

lemma refines_good: "good env st \<Longrightarrow> refines env st st' \<Longrightarrow> good env st'"
  by (auto simp: good_def refines_def intro: sch.steps_inv)

lemma refines_refl: "good env st \<Longrightarrow> refines env st st"
  by (simp add: good_def refines_def)

lemma refines_trans: "refines env st st1 \<Longrightarrow> refines env st1 st2 \<Longrightarrow> refines env st st2"
  by (auto simp: refines_def)

lemma sched_view: "sched st' = sched st \<Longrightarrow> view st' = view st"
  by (simp add: sched_def view_def)

lemma sched_rep_ok: "sched st' = sched st \<Longrightarrow> rep_ok env st' = rep_ok env st"
  by (simp add: sched_def rep_ok_def)

lemma refines_frame: "good env st \<Longrightarrow> sched st' = sched st \<Longrightarrow> refines env st st'"
  unfolding refines_def good_def by (metis rtranclp.rtrancl_refl sched_rep_ok sched_view)

lemma refines_then_frame: "refines env st st1 \<Longrightarrow> sched st2 = sched st1 \<Longrightarrow> refines env st st2"
  unfolding refines_def by (metis sched_rep_ok sched_view)

lemma refines_act: "rep_ok env st' \<Longrightarrow> act env (view st) (view st') \<Longrightarrow> refines env st st'"
  by (auto simp: refines_def)


section \<open>Writing the three tables\<close>

lemma save_run_view:
  assumes "save_run env now r st = Inr st'"
  shows "view st' = (view st)\<lparr>runs := (runs (view st))(key env (r_Scope r) (r_ID r) \<mapsto> r)\<rparr>"
    and "rep_ok env st \<Longrightarrow> rep_ok env st'"
    and "t_definitions st' = t_definitions st" and "t_observations st' = t_observations st"
  using assms by (auto simp: save_run_def res_simps view_def rep_ok_def row_scope_def intro!: rows_ok_update)

lemma save_definition_view:
  assumes "save_definition env now wid d st = Inr st'"
  shows "view st' = (view st)\<lparr>defs := (defs (view st))(key env (d_Scope d) wid \<mapsto> stored_definition d)\<rparr>"
    and "rep_ok env st \<Longrightarrow> wid = d_ID d \<Longrightarrow> rep_ok env st'"
    and "t_observations st' = t_observations st" and "t_runs st' = t_runs st"
  using assms
  by (auto simp: save_definition_def res_simps view_def rep_ok_def row_scope_def stored_definition_def intro!: rows_ok_update)

lemma save_observation_view:
  assumes "save_observation env now wid d ob st = Inr st'"
  shows "view st' = (view st)\<lparr>obs := (obs (view st))(key env (d_Scope d) wid \<mapsto> ob)\<rparr>"
    and "rep_ok env st' = rep_ok env st"
    and "t_definitions st' = t_definitions st" and "t_runs st' = t_runs st"
  using assms by (auto simp: save_observation_def res_simps view_def rep_ok_def)

lemma read_view:
  "read env (t_definitions st) sc wid = Inr d \<longleftrightarrow> defs (view st) (key env sc wid) = Some d"
  "read env (t_observations st) sc wid = Inr ob \<longleftrightarrow> obs (view st) (key env sc wid) = Some ob"
  "read env (t_runs st) sc wid = Inr r \<longleftrightarrow> runs (view st) (key env sc wid) = Some r"
  by (simp_all add: read_payloads view_def)

text \<open>A run is written after one of its own steps.\<close>

lemma save_run_refines:
  assumes "good env st" and "save_run env now r' st = Inr st'"
    and "runs (view st) k = Some r" and "run_step env r r'"
  shows "refines env st st'" and "view st' = (view st)\<lparr>runs := (runs (view st))(k \<mapsto> r')\<rparr>"
proof -
  have k: "key env (r_Scope r') (r_ID r') = k"
    using run_step_ids [OF assms(4)] sched_inv_run(1) [of env "view st" k r] assms(1,3)
    by (simp add: good_def same_ids_def)
  show v: "view st' = (view st)\<lparr>runs := (runs (view st))(k \<mapsto> r')\<rparr>"
    using save_run_view(1) [OF assms(2)] k by simp
  show "refines env st st'"
    using save_run_view(2) [OF assms(2)] assms(1) act.run_it [OF assms(3,4)]
    by (intro refines_act) (simp_all add: good_def v)
qed

lemma listed_run:
  assumes "good env st" and "r \<in> set (list_rows (t_runs st) sc w)"
  shows "runs (view st) (key env (r_Scope r) (r_ID r)) = Some r"
  using assms rows_ok_listed(1) [of r_Scope r_ID r_WatchID env "t_runs st" r sc w]
  by (simp add: good_def rep_ok_def view_def)

abbreviation rkey :: "watch_env \<Rightarrow> run \<Rightarrow> string" where
  "rkey env r \<equiv> key env (r_Scope r) (r_ID r)"

lemma listed_runs_distinct: "good env st \<Longrightarrow> distinct (map (rkey env) (list_rows (t_runs st) sc w))"
  by (rule rows_ok_distinct [where watch_of = r_WatchID]) (simp add: good_def rep_ok_def)


section \<open>Cancelling the runs of a Watch\<close>

lemma cancel_run_refines:
  assumes "good env st" and "cancel_run env now r st = Inr st'" and "runs (view st) (rkey env r) = Some r"
  shows "refines env st st'" and "defs (view st') = defs (view st)" and "obs (view st') = obs (view st)"
    and "\<And>k. k \<noteq> rkey env r \<Longrightarrow> runs (view st') k = runs (view st) k"
    and "\<exists>r'. runs (view st') (rkey env r) = Some r' \<and> \<not> active_run r'"
proof -
  have step: "run_step env r (r\<lparr>r_State := ''cancelled'', r_Fence := r_Fence r + 1, r_FinishedAt := now\<rparr>)"
    if "active_run r" using that by (intro run_step.cancel_it) auto
  have saved: "active_run r \<Longrightarrow> refines env st st' \<and> view st' = (view st)\<lparr>runs := (runs (view st))(rkey env r \<mapsto>
      r\<lparr>r_State := ''cancelled'', r_Fence := r_Fence r + 1, r_FinishedAt := now\<rparr>)\<rparr>"
    using save_run_refines [OF assms(1) _ assms(3) step] assms(2) by (simp add: cancel_run_def)
  have same: "\<not> active_run r \<Longrightarrow> st' = st" using assms(2) by (simp add: cancel_run_def)
  show "refines env st st'" "defs (view st') = defs (view st)" "obs (view st') = obs (view st)"
    using saved same refines_refl [OF assms(1)] by (cases "active_run r"; simp)+
  show "\<And>k. k \<noteq> rkey env r \<Longrightarrow> runs (view st') k = runs (view st) k"
    using saved same by (cases "active_run r") auto
  show "\<exists>r'. runs (view st') (rkey env r) = Some r' \<and> \<not> active_run r'"
    using saved same assms(3) by (cases "active_run r") (auto simp: active_run_def)
qed

lemma cancel_all_refines:
  assumes "good env st" and "rfold (cancel_run env now) rs st = Inr st'"
    and "distinct (map (rkey env) rs)" and "\<And>r. r \<in> set rs \<Longrightarrow> runs (view st) (rkey env r) = Some r"
  shows "refines env st st' \<and> defs (view st') = defs (view st) \<and> obs (view st') = obs (view st) \<and>
    (\<forall>k. k \<notin> rkey env ` set rs \<longrightarrow> runs (view st') k = runs (view st) k) \<and>
    (\<forall>r \<in> set rs. \<exists>r'. runs (view st') (rkey env r) = Some r' \<and> \<not> active_run r')"
  using assms
proof (induction rs arbitrary: st)
  case Nil
  then show ?case by (simp add: refines_refl)
next
  case (Cons r rs)
  from Cons.prems(2) obtain st1 where c: "cancel_run env now r st = Inr st1"
    and rest: "rfold (cancel_run env now) rs st1 = Inr st'" by (auto simp: rbind_eq_Inr)
  note R = cancel_run_refines [OF Cons.prems(1) c Cons.prems(4) [of r], simplified]
  have g1: "good env st1" by (rule refines_good [OF Cons.prems(1) R(1)])
  have d1: "distinct (map (rkey env) rs)" using Cons.prems(3) by simp
  have s1: "runs (view st1) (rkey env x) = Some x" if "x \<in> set rs" for x
  proof -
    have "rkey env x \<noteq> rkey env r"
      using imageI [OF that, of "rkey env"] Cons.prems(3) by (auto simp del: imageI)
    then show ?thesis using R(4) Cons.prems(4) [of x] that by simp
  qed
  note IH = Cons.IH [OF g1 rest d1 s1]
  have "runs (view st') (rkey env r) = runs (view st1) (rkey env r)"
    using IH Cons.prems(3) by auto
  then have head: "\<exists>r'. runs (view st') (rkey env r) = Some r' \<and> \<not> active_run r'" using R(5) by simp
  have "runs (view st') k = runs (view st) k" if "k \<notin> rkey env ` set (r # rs)" for k
    using IH R(4) [of k] that by simp
  then show ?case using IH R(2,3) head refines_trans [OF R(1)] by simp
qed

lemma cancelRuns_refines:
  assumes "good env st" and "cancelRuns env now sc wid st = Inr st'"
  shows "refines env st st'" and "defs (view st') = defs (view st)" and "obs (view st') = obs (view st)"
    and "idle (view st') sc wid"
proof -
  let ?rs = "list_rows (t_runs st) sc wid"
  have all: "refines env st st' \<and> defs (view st') = defs (view st) \<and> obs (view st') = obs (view st) \<and>
    (\<forall>k. k \<notin> rkey env ` set ?rs \<longrightarrow> runs (view st') k = runs (view st) k) \<and>
    (\<forall>r \<in> set ?rs. \<exists>r'. runs (view st') (rkey env r) = Some r' \<and> \<not> active_run r')"
    using assms listed_runs_distinct listed_run unfolding cancelRuns_def by (intro cancel_all_refines) auto
  then show "refines env st st'" "defs (view st') = defs (view st)" "obs (view st') = obs (view st)" by auto
  show "idle (view st') sc wid"
    unfolding idle_def
  proof (intro allI impI notI)
    fix k r assume r: "runs (view st') k = Some r" "r_Scope r = sc" "r_WatchID r = wid" "active_run r"
    with all have "k \<notin> rkey env ` set ?rs" by auto
    with all r(1) have "runs (view st) k = Some r" by simp
    then have "r \<in> set ?rs"
      using assms(1) r(2,3)
      by (intro rows_ok_list [where k = k and sc_of = r_Scope and id_of = r_ID and watch_of = r_WatchID and env = env])
        (auto simp: good_def rep_ok_def view_def)
    then show False
      using \<open>k \<notin> rkey env ` set ?rs\<close> sched_inv_run(1) [of env "view st" k r] assms(1) \<open>runs (view st) k = Some r\<close>
      by (auto simp: good_def)
  qed
qed


section \<open>Writing a definition\<close>

lemma stored_definition_sel [simp]:
  "d_Scope (stored_definition d) = d_Scope d" "d_ID (stored_definition d) = d_ID d"
  "d_Version (stored_definition d) = d_Version d" "d_IntervalSeconds (stored_definition d) = d_IntervalSeconds d"
  "d_Lifecycle (stored_definition d) = d_Lifecycle d" "d_Owner (stored_definition d) = d_Owner d"
  "d_Visibility (stored_definition d) = d_Visibility d"
  by (simp_all add: stored_definition_def)

lemma redefine_refines:
  assumes "good env st" and "save_definition env now (d_ID d) d st = Inr st1"
    and "0 < d_IntervalSeconds d" and "idle (view st) (d_Scope d) (d_ID d)"
    and "\<And>d0. defs (view st) (key env (d_Scope d) (d_ID d)) = Some d0 \<Longrightarrow> d_Version d0 < d_Version d"
    and "save_observation env now (d_ID d) d ob st1 = Inr st' \<or>
         st' = st1 \<and> obs (view st) (key env (d_Scope d) (d_ID d)) = Some ob"
  shows "refines env st st'"
proof -
  let ?k = "key env (d_Scope d) (d_ID d)"
  note D = save_definition_view [OF assms(2)]
  have rep: "rep_ok env st1" using D(2) assms(1) by (simp add: good_def)
  have "view st' = (view st)\<lparr>defs := (defs (view st))(?k \<mapsto> stored_definition d), obs := (obs (view st))(?k \<mapsto> ob)\<rparr>"
    using assms(6)
  proof
    assume "save_observation env now (d_ID d) d ob st1 = Inr st'"
    from save_observation_view(1) [OF this] D(1) show ?thesis by simp
  next
    assume "st' = st1 \<and> obs (view st) ?k = Some ob"
    with D(1) show ?thesis by (cases "view st") (simp add: fun_upd_idem)
  qed
  moreover have "rep_ok env st'" using assms(6) rep save_observation_view(2) by blast
  ultimately show ?thesis
    using assms(3-5) act.define_it [of ?k env "stored_definition d" "view st" ob]
    by (intro refines_act) (simp_all add: comp_def)
qed

text \<open>How \<open>PutDefinition\<close> succeeds: it replays, creates, or edits.\<close>

lemma PutDefinition_Inr:
  assumes "PutDefinition env now a d0 opid ver st = Inr (d', st')"
  obtains (replay) op where
      "read env (t_operations st) (a_Scope a) (stable env [a_ID a, opid]) = Inr op"
      "op_Digest op = putDefinitionOperationDigest env (d0\<lparr>d_SourceRevision := []\<rparr>) ver"
      "st' = st" "d' = op_Definition op"
  | (create) d1 where
      "read env (t_operations st) (a_Scope a) (stable env [a_ID a, opid]) = Inl ErrNotFound"
      "read env (t_definitions st) (a_Scope a) (d_ID d0) = Inl ErrNotFound"
      "put_new env now a (d0\<lparr>d_SourceRevision := []\<rparr>) ver st = Inr d1"
      "put_commit env now a None (d_Lifecycle d0 = ''paused'') d1
         (putDefinitionOperationDigest env (d0\<lparr>d_SourceRevision := []\<rparr>) ver) (stable env [a_ID a, opid]) st = Inr (d', st')"
      "d_Scope d0 = a_Scope a" "validateDefinition env d0 = Inr ()"
  | (edit) existing d1 where
      "read env (t_operations st) (a_Scope a) (stable env [a_ID a, opid]) = Inl ErrNotFound"
      "read env (t_definitions st) (a_Scope a) (d_ID d0) = Inr existing"
      "put_existing a existing (d0\<lparr>d_SourceRevision := []\<rparr>) ver = Inr d1"
      "put_commit env now a (Some existing) (d_Lifecycle d0 = ''paused'') d1
         (putDefinitionOperationDigest env (d0\<lparr>d_SourceRevision := []\<rparr>) ver) (stable env [a_ID a, opid]) st = Inr (d', st')"
      "d_Scope d0 = a_Scope a" "validateDefinition env d0 = Inr ()"
proof (cases "read env (t_operations st) (a_Scope a) (stable env [a_ID a, opid])")
  case (Inr op)
  with assms replay show ?thesis
    by (auto simp: PutDefinition_def rbind_eq_Inr if_Inl_eq_Inr Let_def put_replay_def)
next
  case (Inl e)
  then have e: "e = ErrNotFound" by (simp add: read_Inl)
  show ?thesis
  proof (cases "read env (t_definitions st) (a_Scope a) (d_ID d0)")
    case (Inl e')
    with assms Inl e \<open>read env (t_operations st) _ _ = Inl e\<close> create show ?thesis
      by (auto simp: PutDefinition_def rbind_eq_Inr if_Inl_eq_Inr Let_def read_Inl)
  next
    case (Inr existing)
    with assms e \<open>read env (t_operations st) _ _ = Inl e\<close> edit show ?thesis
      by (auto simp: PutDefinition_def rbind_eq_Inr if_Inl_eq_Inr Let_def)
  qed
qed

lemma validateDefinition_interval: "validateDefinition env d = Inr () \<Longrightarrow> 5 \<le> d_IntervalSeconds d"
  unfolding validateDefinition_def Let_def if_Inl_eq_Inr by simp

lemma put_new_Inr:
  "put_new env now a d ver st = Inr d1 \<Longrightarrow>
     ver = 0 \<and> d1 = d\<lparr>d_Owner := a_ID a, d_CreatedAt := now, d_Version := 1\<rparr> \<and>
     (d_Visibility d = ''shared'' \<longrightarrow> a_SharedEditor a)"
  unfolding put_new_def Let_def if_Inl_eq_Inr by auto

lemma put_existing_Inr:
  "put_existing a existing d ver = Inr d1 \<Longrightarrow>
     editable a existing \<and> d_Version existing = ver \<and>
     d1 = d\<lparr>d_Owner := d_Owner existing, d_CreatedAt := d_CreatedAt existing, d_Version := ver + 1\<rparr> \<and>
     (d_Visibility existing \<noteq> d_Visibility d \<longrightarrow> a_ID a = d_Owner existing)"
  unfolding put_existing_def if_Inl_eq_Inr by auto

text \<open>What \<open>put_commit\<close> writes.\<close>

lemma put_commit_Inr:
  assumes "put_commit env now a ex startPaused d1 digest opID st = Inr (d', st')"
  obtains st1 st2 st3 st4 ob where
    "d' = d1\<lparr>d_UpdatedAt := now, d_SourceFingerprint := [],
                d_Lifecycle := (case ex of Some x \<Rightarrow> d_Lifecycle x | None \<Rightarrow> if startPaused then ''paused'' else ''enabled''),
                d_Enabled := (case ex of Some x \<Rightarrow> d_Enabled x | None \<Rightarrow> \<not> startPaused)\<rparr>"
    "cancelRuns env now (d_Scope d') (d_ID d') st = Inr st1"
    "save_definition env now (d_ID d') d' st1 = Inr st2"
    "put_observation env now ex d' st2 = Inr ob"
    "save_observation env now (d_ID d') d' ob st2 = Inr st3"
    "log_event env now (d_Scope d') (a_ID a) ''definition.put'' (d_ID d') st3 = Inr st4"
    "save_operation env now (d_ID d') d' opID (a_ID a) \<lparr>op_Digest = digest, op_Definition = d'\<rparr> st4 = Inr st'"
  using assms that unfolding put_commit_def Let_def rbind_eq_Inr by auto

lemma put_commit_refines:
  assumes "good env st" and "put_commit env now a ex startPaused d1 digest opID st = Inr (d', st')"
    and "0 < d_IntervalSeconds d1"
    and "\<And>x. defs (view st) (key env (d_Scope d1) (d_ID d1)) = Some x \<Longrightarrow> d_Version x < d_Version d1"
  shows "refines env st st'" and "defs (view st') (key env (d_Scope d1) (d_ID d1)) = Some (stored_definition d')"
    and "idle (view st') (d_Scope d1) (d_ID d1)"
proof -
  from assms(2) obtain st1 st2 st3 st4 ob where
    d': "d_Scope d' = d_Scope d1" "d_ID d' = d_ID d1" "d_Version d' = d_Version d1" "d_IntervalSeconds d' = d_IntervalSeconds d1"
    and c: "cancelRuns env now (d_Scope d') (d_ID d') st = Inr st1"
    and s: "save_definition env now (d_ID d') d' st1 = Inr st2"
    and o: "save_observation env now (d_ID d') d' ob st2 = Inr st3"
    and f: "log_event env now (d_Scope d') (a_ID a) ''definition.put'' (d_ID d') st3 = Inr st4"
      "save_operation env now (d_ID d') d' opID (a_ID a) \<lparr>op_Digest = digest, op_Definition = d'\<rparr> st4 = Inr st'"
    by (rule put_commit_Inr) simp
  note C = cancelRuns_refines [OF assms(1) c]
  have g1: "good env st1" by (rule refines_good [OF assms(1) C(1)])
  have fr: "sched st' = sched st3" using f by (auto dest!: frames)
  have "refines env st1 st3"
    using d' assms(3,4) C(2,4) o by (intro redefine_refines [OF g1 s]) auto
  with C(1) fr show "refines env st st'" by (blast intro: refines_trans refines_then_frame)
  have v: "view st' = (view st1)\<lparr>defs := (defs (view st1))(key env (d_Scope d1) (d_ID d1) \<mapsto> stored_definition d'),
      obs := (obs (view st1))(key env (d_Scope d1) (d_ID d1) \<mapsto> ob)\<rparr>"
    using sched_view [OF fr] save_observation_view(1) [OF o] save_definition_view(1) [OF s] d' by simp
  then show "defs (view st') (key env (d_Scope d1) (d_ID d1)) = Some (stored_definition d')" by simp
  show "idle (view st') (d_Scope d1) (d_ID d1)" using C(4) d' by (simp add: v idle_def)
qed

lemma PutDefinition_refines:
  assumes "good env st" and "PutDefinition env now a d0 opid ver st = Inr (d', st')"
  shows "refines env st st'"
  using assms(2)
proof (cases rule: PutDefinition_Inr)
  case (replay op)
  then show ?thesis using refines_refl [OF assms(1)] by simp
next
  case (create d1)
  then show ?thesis
    using put_new_Inr [OF create(3)] validateDefinition_interval [OF create(6)]
    by (intro put_commit_refines(1) [OF assms(1) create(4)]) (auto simp: read_Inl view_def payloads_def)
next
  case (edit existing d1)
  then show ?thesis
    using put_existing_Inr [OF edit(3)] validateDefinition_interval [OF edit(6)]
    by (intro put_commit_refines(1) [OF assms(1) edit(4)]) (auto simp: read_view)
qed


text \<open>How a lifecycle change and a baseline reset succeed: they replay, or write the next version.\<close>

definition moved_definition :: "definition_t \<Rightarrow> definition_t \<Rightarrow> bool" where
  "moved_definition d d' \<longleftrightarrow> d_Scope d' = d_Scope d \<and> d_ID d' = d_ID d \<and> d_Version d' = d_Version d + 1 \<and>
     d_IntervalSeconds d' = d_IntervalSeconds d \<and> d_Owner d' = d_Owner d \<and> d_Visibility d' = d_Visibility d"

lemma rewrite_refines:
  assumes "good env st" and "defs (view st) (key env (a_Scope a) wid) = Some d" and "moved_definition d d'"
    and "cancelRuns env now (d_Scope d') wid st = Inr st1" and "save_definition env now wid d' st1 = Inr st2"
    and "save_observation env now wid d' ob st2 = Inr st3 \<or>
         st3 = st2 \<and> obs (view st) (key env (d_Scope d') wid) = Some ob"
    and "sched st' = sched st3"
  shows "refines env st st'" and "d_ID d = wid" and "idle (view st') (a_Scope a) wid"
    and "defs (view st') (key env (a_Scope a) wid) = Some (stored_definition d')"
proof -
  have inv: "sched_inv env (view st)" using assms(1) by (simp add: good_def)
  have d: "d_Scope d = a_Scope a" "d_ID d = wid" "0 < d_IntervalSeconds d"
    using sched_inv_def_D [OF inv assms(2)] key_inj [OF sched_inv_sound [OF inv]] by auto
  then show "d_ID d = wid" by simp
  have d': "d_Scope d' = a_Scope a" "wid = d_ID d'" "0 < d_IntervalSeconds d'" "d_Version d' = d_Version d + 1"
    using assms(3) d by (auto simp: moved_definition_def)
  note C = cancelRuns_refines [OF assms(1) assms(4)]
  have g1: "good env st1" by (rule refines_good [OF assms(1) C(1)])
  have "refines env st1 st3"
    using d' assms(2,6) C(2-4) by (intro redefine_refines [OF g1 assms(5) [unfolded d'(2)], of ob]) auto
  with C(1) assms(7) show "refines env st st'" by (blast intro: refines_trans refines_then_frame)
  have v: "defs (view st') = (defs (view st1))(key env (a_Scope a) wid \<mapsto> stored_definition d') \<and>
      runs (view st') = runs (view st1)"
    using sched_view [OF assms(7)] save_definition_view(1) [OF assms(5)] d'(1) assms(6)
      save_observation_view(1) [of env now wid d' ob st2 st3] by auto
  then show "defs (view st') (key env (a_Scope a) wid) = Some (stored_definition d')" by simp
  show "idle (view st') (a_Scope a) wid" using C(4) v d'(1) by (simp add: idle_def)
qed

lemma SetLifecycle_Inr:
  assumes "SetLifecycle env now a wid lc opid ver st = Inr (d', st')"
  obtains (replay) op where
      "read env (t_operations st) (a_Scope a) (stable env [a_ID a, opid]) = Inr op"
      "op_Digest op = stable env [wid, lc, show_int ver]" "st' = st" "d' = op_Definition op"
  | (moved) d st1 st2 st3 st4 ob where
      "read env (t_operations st) (a_Scope a) (stable env [a_ID a, opid]) = Inl ErrNotFound"
      "defs (view st) (key env (a_Scope a) wid) = Some d" "editable a d" "d_Version d = ver"
      "d' = d\<lparr>d_Version := d_Version d + 1, d_Lifecycle := lc, d_Enabled := (lc = ''enabled''), d_UpdatedAt := now\<rparr>"
      "cancelRuns env now (d_Scope d') wid st = Inr st1" "save_definition env now wid d' st1 = Inr st2"
      "lc = ''enabled'' \<and> save_observation env now wid d' ob st2 = Inr st3 \<or> lc \<noteq> ''enabled'' \<and> st3 = st2"
      "log_event env now (d_Scope d') (a_ID a) (''definition.'' @ lc) wid st3 = Inr st4"
      "save_operation env now wid d' (stable env [a_ID a, opid]) (a_ID a)
         \<lparr>op_Digest = stable env [wid, lc, show_int ver], op_Definition = d'\<rparr> st4 = Inr st'"
proof (cases "read env (t_operations st) (a_Scope a) (stable env [a_ID a, opid])")
  case (Inr op)
  with assms replay show ?thesis
    unfolding SetLifecycle_def rbind_eq_Inr if_Inl_eq_Inr Let_def lifecycle_replay_def
    by (auto simp: if_Inl_eq_Inr rbind_eq_Inr)
next
  case (Inl e)
  then have "e = ErrNotFound" by (simp add: read_Inl)
  with Inl assms obtain d where D: "defs (view st) (key env (a_Scope a) wid) = Some d" "editable a d" "d_Version d = ver"
    and C: "lifecycle_commit env now a wid lc (stable env [wid, lc, show_int ver]) (stable env [a_ID a, opid]) d st = Inr (d', st')"
    unfolding SetLifecycle_def rbind_eq_Inr if_Inl_eq_Inr Let_def by (auto simp: read_view if_Inl_eq_Inr rbind_eq_Inr)
  from C obtain st1 st2 st3 st4 where
    d': "d' = d\<lparr>d_Version := d_Version d + 1, d_Lifecycle := lc, d_Enabled := (lc = ''enabled''), d_UpdatedAt := now\<rparr>"
    and S: "cancelRuns env now (d_Scope d') wid st = Inr st1" "save_definition env now wid d' st1 = Inr st2"
    and O: "(if lc = ''enabled'' then rbind (read env (t_observations st2) (d_Scope d') wid) (\<lambda>obs.
              save_observation env now wid d' (obs\<lparr>o_NextEvaluation := now, o_Availability := ''waiting''\<rparr>) st2)
             else Inr st2) = Inr st3"
    and L: "log_event env now (d_Scope d') (a_ID a) (''definition.'' @ lc) wid st3 = Inr st4"
      "save_operation env now wid d' (stable env [a_ID a, opid]) (a_ID a)
         \<lparr>op_Digest = stable env [wid, lc, show_int ver], op_Definition = d'\<rparr> st4 = Inr st'"
    unfolding lifecycle_commit_def Let_def rbind_eq_Inr by auto
  from O obtain ob where
    "lc = ''enabled'' \<and> save_observation env now wid d' ob st2 = Inr st3 \<or> lc \<noteq> ''enabled'' \<and> st3 = st2"
    by (cases "lc = ''enabled''") (auto simp: rbind_eq_Inr)
  then show ?thesis
    using moved [OF _ D d' S _ L] Inl \<open>e = ErrNotFound\<close> by blast
qed

lemma SetLifecycle_refines:
  assumes "good env st" and "SetLifecycle env now a wid lc opid ver st = Inr (d', st')"
  shows "refines env st st'"
  using assms(2)
proof (cases rule: SetLifecycle_Inr)
  case (replay op)
  then show ?thesis using refines_refl [OF assms(1)] by simp
next
  case (moved d st1 st2 st3 st4 ob)
  have "moved_definition d d'" using moved(5) by (simp add: moved_definition_def)
  moreover obtain ob0 where ob0: "obs (view st) (key env (a_Scope a) wid) = Some ob0"
    using sched_inv_obs [of env "view st"] assms(1) moved(2) by (auto simp: good_def)
  moreover have "d_Scope d' = a_Scope a" using moved(3,5) by (simp add: editable_def visible_def)
  moreover have "sched st' = sched st3" using moved(9,10) by (auto dest!: frames)
  ultimately show ?thesis
    using rewrite_refines(1) [OF assms(1) moved(2) _ moved(6,7)] moved(8) by metis
qed

lemma ResetBaseline_Inr:
  assumes "ResetBaseline env now a wid opid ver st = Inr (d', st')"
  obtains (replay) op where
      "read env (t_operations st) (a_Scope a) (stable env [a_ID a, opid]) = Inr op"
      "op_Digest op = stable env [wid, ''reset-baseline'', show_int ver]" "st' = st" "d' = op_Definition op"
  | (moved) d st1 st2 st3 st4 where
      "read env (t_operations st) (a_Scope a) (stable env [a_ID a, opid]) = Inl ErrNotFound"
      "defs (view st) (key env (a_Scope a) wid) = Some d" "editable a d" "d_Version d = ver"
      "d' = d\<lparr>d_Version := d_Version d + 1, d_UpdatedAt := now, d_SourceFingerprint := []\<rparr>"
      "cancelRuns env now (d_Scope d') wid st = Inr st1" "save_definition env now wid d' st1 = Inr st2"
      "save_observation env now wid d' (fresh_observation wid now) st2 = Inr st3"
      "log_event env now (d_Scope d') (a_ID a) ''definition.reset-baseline'' wid st3 = Inr st4"
      "save_operation env now wid d' (stable env [a_ID a, opid]) (a_ID a)
         \<lparr>op_Digest = stable env [wid, ''reset-baseline'', show_int ver], op_Definition = d'\<rparr> st4 = Inr st'"
proof (cases "read env (t_operations st) (a_Scope a) (stable env [a_ID a, opid])")
  case (Inr op)
  with assms replay show ?thesis
    unfolding ResetBaseline_def rbind_eq_Inr if_Inl_eq_Inr Let_def
    by (auto simp: rbind_eq_Inr if_Inl_eq_Inr)
next
  case (Inl e)
  then have "e = ErrNotFound" by (simp add: read_Inl)
  with Inl assms moved show ?thesis
    unfolding ResetBaseline_def rbind_eq_Inr if_Inl_eq_Inr Let_def by (auto simp: read_view rbind_eq_Inr if_Inl_eq_Inr)
qed

lemma ResetBaseline_refines:
  assumes "good env st" and "ResetBaseline env now a wid opid ver st = Inr (d', st')"
  shows "refines env st st'"
  using assms(2)
proof (cases rule: ResetBaseline_Inr)
  case (replay op)
  then show ?thesis using refines_refl [OF assms(1)] by simp
next
  case (moved d st1 st2 st3 st4)
  have "moved_definition d d'" using moved(5) by (simp add: moved_definition_def)
  moreover have "sched st' = sched st3" using moved(9,10) by (auto dest!: frames)
  ultimately show ?thesis
    using rewrite_refines(1) [OF assms(1) moved(2) _ moved(6,7)] moved(8) by blast
qed

end
