(* ===== verification/Watch_System.thy ===== *)
theory Watch_System
  imports Watch_Refinement
begin

text \<open>
  The scheduler's operations refine the abstract schedule, and the coordinator as one
  transition system: every operation a caller can make is a step of \<open>step\<close>, and every
  store reachable from the empty one satisfies the schedule's invariant.
\<close>

section \<open>Reconciling\<close>

lemma observe_refines:
  assumes "good env st" and "save_observation env now (d_ID d) d ob' st = Inr st'"
    and "defs (view st) (key env (d_Scope d) (d_ID d)) = Some d0" and "d_Scope d0 = d_Scope d" and "d_ID d0 = d_ID d"
    and "obs (view st) (key env (d_Scope d) (d_ID d)) = Some ob"
    and "o_NextEvaluation ob \<le> o_NextEvaluation ob'"
  shows "refines env st st'"
proof -
  have "act env (view st) ((view st)\<lparr>defs := (defs (view st))(key env (d_Scope d) (d_ID d) \<mapsto> d0),
      obs := (obs (view st))(key env (d_Scope d) (d_ID d) \<mapsto> ob')\<rparr>)"
    by (rule act.observe_it [OF assms(3) _ _ _ _ assms(6)]) (simp_all add: assms(7))
  moreover have "(view st)\<lparr>defs := (defs (view st))(key env (d_Scope d) (d_ID d) \<mapsto> d0),
      obs := (obs (view st))(key env (d_Scope d) (d_ID d) \<mapsto> ob')\<rparr> = view st'"
    using assms(3) save_observation_view(1) [OF assms(2)] by (cases "view st") (simp add: fun_upd_idem)
  ultimately show ?thesis
    using save_observation_view(2) [OF assms(2)] assms(1) by (intro refines_act) (simp_all add: good_def)
qed

lemma idle_listed:
  assumes "good env st" and "\<not> list_ex active_run (list_rows (t_runs st) sc wid)"
  shows "idle (view st) sc wid"
  unfolding idle_def
proof (intro allI impI)
  fix k r assume "runs (view st) k = Some r" "r_Scope r = sc" "r_WatchID r = wid"
  then have "r \<in> set (list_rows (t_runs st) sc wid)"
    using assms(1)
    by (intro rows_ok_list [where k = k and sc_of = r_Scope and id_of = r_ID and watch_of = r_WatchID and env = env])
      (auto simp: good_def rep_ok_def view_def)
  with assms(2) show "\<not> active_run r" by (auto simp: list_ex_iff)
qed

lemma reconcileDefinition_refines:
  assumes "good env st" and "reconcileDefinition env now d st = Inr st'"
    and "defs (view st) (key env (d_Scope d) (d_ID d)) = Some d"
  shows "refines env st st' \<and> defs (view st') = defs (view st)"
proof (cases "st' = st")
  case True
  then show ?thesis using refines_refl [OF assms(1)] by simp
next
  case False
  let ?k = "key env (d_Scope d) (d_ID d)"
  from assms(2) False obtain ob st1 where ob: "obs (view st) ?k = Some ob" "o_NextEvaluation ob \<le> now"
    and en: "d_Lifecycle d = ''enabled''"
    and none: "\<not> list_ex active_run (list_rows (t_runs st) (d_Scope d) (d_ID d))"
    and s: "save_run env now (due_run env d (o_NextEvaluation ob)) st = Inr st1"
    and o: "save_observation env now (d_ID d) d
            (ob\<lparr>o_NextEvaluation := now + d_IntervalSeconds d * Second, o_Availability := ''waiting''\<rparr>) st1 = Inr st'"
    by (auto simp: reconcileDefinition_def rbind_eq_Inr read_view split: if_splits)
  have pos: "0 < d_IntervalSeconds d"
    using sched_inv_def_D [of env "view st"] assms(1,3) by (simp add: good_def)
  have v: "view st' = (view st)\<lparr>runs := (runs (view st))(key env (r_Scope (due_run env d (o_NextEvaluation ob)))
        (r_ID (due_run env d (o_NextEvaluation ob))) \<mapsto> due_run env d (o_NextEvaluation ob)),
      obs := (obs (view st))(?k \<mapsto> ob\<lparr>o_NextEvaluation := now + d_IntervalSeconds d * Second,
        o_Availability := ''waiting''\<rparr>)\<rparr>"
    using save_observation_view(1) [OF o] save_run_view(1) [OF s] by simp
  have "rep_ok env st'"
    using save_observation_view(2) [OF o] save_run_view(2) [OF s] assms(1) by (simp add: good_def)
  moreover have "act env (view st) (view st')"
    unfolding v
    by (rule act.schedule_it [OF assms(3) en ob(1) idle_listed [OF assms(1) none]])
      (use ob(2) pos in \<open>simp_all add: Second_def\<close>)
  ultimately show ?thesis using v by (auto intro: refines_act)
qed

lemma reconcile_all_refines:
  assumes "good env st" and "rfold (reconcileDefinition env now) ds st = Inr st'"
    and "\<And>d. d \<in> set ds \<Longrightarrow> defs (view st) (key env (d_Scope d) (d_ID d)) = Some d"
  shows "refines env st st' \<and> defs (view st') = defs (view st)"
proof (rule rfold_invariant [where P = "\<lambda>s. refines env st s \<and> defs (view s) = defs (view st)", OF assms(2)])
  show "refines env st st \<and> defs (view st) = defs (view st)" using refines_refl [OF assms(1)] by simp
next
  fix d t t' assume d: "d \<in> set ds" and t: "refines env st t \<and> defs (view t) = defs (view st)"
    and r: "reconcileDefinition env now d t = Inr t'"
  have "good env t" using refines_good [OF assms(1)] t by blast
  from reconcileDefinition_refines [OF this r] assms(3) [OF d] t
  show "refines env st t' \<and> defs (view t') = defs (view st)" by (auto intro: refines_trans)
qed

lemma listed_definition:
  assumes "good env st" and "d \<in> set (list_rows (t_definitions st) sc w)"
  shows "defs (view st) (key env (d_Scope d) (d_ID d)) = Some d"
  using assms rows_ok_listed(1) [of d_Scope d_ID d_ID env "t_definitions st" d sc w]
  by (simp add: good_def rep_ok_def view_def)


section \<open>Pruning\<close>

lemma map_of_fold_delete:
  "map_of (fold (\<lambda>kr. AList.delete (fst kr)) xs t) k = (if k \<in> fst ` set xs then None else map_of t k)"
  by (induction xs arbitrary: t) (auto simp: alist.get_del)

lemma set_fold_delete: "set (fold (\<lambda>kr. AList.delete (fst kr)) xs t) \<subseteq> set t"
proof (induction xs arbitrary: t)
  case (Cons x xs)
  have "set (AList.delete (fst x) t) \<subseteq> set t" by (auto simp: AList.delete_eq)
  with Cons [of "AList.delete (fst x) t"] show ?case by simp
qed simp

lemma distinct_fold_delete: "distinct (map fst t) \<Longrightarrow> distinct (map fst (fold (\<lambda>kr. AList.delete (fst kr)) xs t))"
  by (induction xs arbitrary: t) (simp_all add: distinct_delete)

text \<open>
  Pruning deletes only prunable rows of the namespace, keeps the columns of every other
  row, and leaves at most \<open>keep\<close> prunable rows.
\<close>

lemma prune_table_le: "map_of (prune_table env keep p t) k = Some row \<Longrightarrow> map_of t k = Some row"
  by (simp add: prune_table_def Let_def map_of_fold_delete split: if_splits)

lemma prune_table_kept:
  assumes "distinct (map fst t)" and "map_of t k = Some row"
    and "\<not> (p row \<and> row_namespace row = cfg_Namespace (config_of env))"
  shows "map_of (prune_table env keep p t) k = Some row"
proof -
  let ?rows = "filter (\<lambda>kr. row_namespace (snd kr) = cfg_Namespace (config_of env) \<and> p (snd kr)) t"
  have "k \<notin> fst ` set (drop keep (sort_key (\<lambda>kr. - row_updated (snd kr)) ?rows))"
  proof
    assume "k \<in> fst ` set (drop keep (sort_key (\<lambda>kr. - row_updated (snd kr)) ?rows))"
    then obtain row' where "(k, row') \<in> set (sort_key (\<lambda>kr. - row_updated (snd kr)) ?rows)"
      by (auto dest: in_set_dropD)
    then have "(k, row') \<in> set t" "row_namespace row' = cfg_Namespace (config_of env) \<and> p row'" by auto
    with map_of_is_SomeI [OF assms(1)] have "row' = row" using assms(2) by fastforce
    with \<open>_ \<and> p row'\<close> assms(3) show False by simp
  qed
  with assms(2) show ?thesis by (simp add: prune_table_def Let_def map_of_fold_delete)
qed

lemma rows_ok_prune:
  assumes "rows_ok sc_of id_of watch_of env t"
  shows "rows_ok sc_of id_of watch_of env (prune_table env keep p t)"
proof -
  have "set (prune_table env keep p t) \<subseteq> set t" by (simp add: prune_table_def Let_def set_fold_delete)
  moreover have "distinct (map fst (prune_table env keep p t))"
    using assms by (simp add: prune_table_def Let_def distinct_fold_delete rows_ok_def)
  ultimately show ?thesis using assms unfolding rows_ok_def by auto
qed

lemma prune_keeps_active:
  assumes "good env st" and "runs (view st) k = Some r" and "active_run r"
  shows "runs (view (prune env now st)) k = Some r"
proof -
  from assms(2) obtain row where row: "map_of (t_runs st) k = Some row" "row_payload row = r"
    by (auto simp: view_def payloads_def)
  have "map_of (prune_table env n (\<lambda>row. terminal_run (row_payload row)) (t_runs st)) k = Some row" for n
    using assms(1,3) row state_distinct by (intro prune_table_kept) (auto simp: good_def rep_ok_def rows_ok_def)
  with row show ?thesis by (simp add: view_def prune_def Let_def payloads_def)
qed

lemma prune_refines:
  assumes "good env st"
  shows "refines env st (prune env now st)"
proof (rule refines_act)
  show "rep_ok env (prune env now st)"
    using assms by (simp add: good_def rep_ok_def prune_def Let_def rows_ok_prune)
  have v: "view (prune env now st) = (view st)\<lparr>runs := runs (view (prune env now st))\<rparr>"
    by (simp add: view_def prune_def Let_def)
  have "runs (view (prune env now st)) \<subseteq>\<^sub>m runs (view st)"
    unfolding map_le_def
  proof
    fix k assume "k \<in> dom (runs (view (prune env now st)))"
    then obtain row where "map_of (t_runs (prune env now st)) k = Some row" by (auto simp: view_def payloads_def)
    with prune_table_le [of env _ _ "t_runs st" k row] show "runs (view (prune env now st)) k = runs (view st) k"
      by (simp add: payloads_def view_def prune_def Let_def)
  qed
  then show "act env (view st) (view (prune env now st))"
    by (subst v, intro act.forget_it) (use prune_keeps_active [OF assms] in blast)+
qed

lemma Reconcile_refines:
  assumes "good env st" and "Reconcile env now st = Inr st'"
  shows "refines env st st'"
proof -
  from assms(2) obtain st1 where
    r: "rfold (reconcileDefinition env now) (list_rows (t_definitions st) (global_scope env) []) st = Inr st1"
    and st': "st' = prune env now st1" by (auto simp: Reconcile_def rbind_eq_Inr)
  have "refines env st st1"
    using reconcile_all_refines [OF assms(1) r] listed_definition [OF assms(1)] by blast
  moreover have "refines env st1 st'"
    using prune_refines refines_good [OF assms(1) \<open>refines env st st1\<close>] st' by simp
  ultimately show ?thesis by (rule refines_trans)
qed


section \<open>Claiming\<close>

lemma job_step:
  assumes "\<not> skip_job now r"
  shows "active_run r" and "r_State r = ''running'' \<longrightarrow> r_LeaseUntil r \<le> now"
  using assms by (auto simp: skip_job_def)

text \<open>One job of the scan is cancelled, exhausted, or claimed; each is a step of its run.\<close>

lemma claim_jobs_Cons:
  assumes "claim_jobs env now i (r # rs) st = Inr (c, st')" and "\<not> skip_job now r"
  obtains (cancelled) st1 where "save_run env now (r\<lparr>r_State := ''cancelled'', r_FinishedAt := now\<rparr>) st = Inr st1"
      "claim_jobs env now i rs st1 = Inr (c, st')"
  | (ineligible) "claim_jobs env now i rs st = Inr (c, st')"
  | (exhausted) d ob st1 st2 where "read env (t_definitions st) (r_Scope r) (r_WatchID r) = Inr d"
      "MaxAttempts (config_of env) \<le> r_Attempts r" "save_run env now (exhausted_run now r) st = Inr st1"
      "read env (t_observations st1) (d_Scope d) (d_ID d) = Inr ob"
      "save_observation env now (d_ID d) d (ob\<lparr>o_Value := ''unknown'', o_Availability := ''error''\<rparr>) st1 = Inr st2"
      "claim_jobs env now i rs st2 = Inr (c, st')"
  | (claimed) d ob st1 where "read env (t_definitions st) (r_Scope r) (r_WatchID r) = Inr d"
      "d_Lifecycle d = ''enabled''" "d_Version d = r_DefinitionVersion r" "eligible i d"
      "r_Attempts r < MaxAttempts (config_of env)" "save_run env now (claimed_run env now i r) st = Inr st1"
      "read env (t_observations st1) (d_Scope d) (d_ID d) = Inr ob"
      "log_event env now (r_Scope (claimed_run env now i r)) (i_ID i) ''run.claim'' (r_ID (claimed_run env now i r)) st1 = Inr st'"
      "c = Some (claim_of (claimed_run env now i r) d ob)"
proof -
  from assms obtain d where d: "read env (t_definitions st) (r_Scope r) (r_WatchID r) = Inr d"
    and body: "(if d_Lifecycle d \<noteq> ''enabled'' \<or> d_Version d \<noteq> r_DefinitionVersion r then
          rbind (save_run env now (r\<lparr>r_State := ''cancelled'', r_FinishedAt := now\<rparr>) st) (claim_jobs env now i rs)
        else if \<not> eligible i d then claim_jobs env now i rs st
        else if r_Attempts r \<ge> MaxAttempts (config_of env) then
          rbind (save_run env now (exhausted_run now r) st) (\<lambda>st1.
          rbind (read env (t_observations st1) (d_Scope d) (d_ID d)) (\<lambda>obs.
          rbind (save_observation env now (d_ID d) d
                   (obs\<lparr>o_Value := ''unknown'', o_Availability := ''error''\<rparr>) st1) (claim_jobs env now i rs)))
        else
          let r1 = claimed_run env now i r in
          rbind (save_run env now r1 st) (\<lambda>st1.
          rbind (read env (t_observations st1) (d_Scope d) (d_ID d)) (\<lambda>obs.
          rbind (log_event env now (r_Scope r1) (i_ID i) ''run.claim'' (r_ID r1) st1) (\<lambda>st2.
          Inr (Some (claim_of r1 d obs), st2))))) = Inr (c, st')"
    by (auto simp: rbind_eq_Inr)
  consider "d_Lifecycle d \<noteq> ''enabled'' \<or> d_Version d \<noteq> r_DefinitionVersion r"
    | "d_Lifecycle d = ''enabled''" "d_Version d = r_DefinitionVersion r" "\<not> eligible i d"
    | "d_Lifecycle d = ''enabled''" "d_Version d = r_DefinitionVersion r" "eligible i d"
        "MaxAttempts (config_of env) \<le> r_Attempts r"
    | "d_Lifecycle d = ''enabled''" "d_Version d = r_DefinitionVersion r" "eligible i d"
        "r_Attempts r < MaxAttempts (config_of env)"
    by linarith
  then show ?thesis
  proof cases
    case 1 with body cancelled show ?thesis by (auto simp: rbind_eq_Inr)
  next
    case 2 with body ineligible show ?thesis by simp
  next
    case 3 with body exhausted [OF d] show ?thesis by (auto simp: rbind_eq_Inr)
  next
    case 4 with body claimed [OF d] show ?thesis by (auto simp: rbind_eq_Inr Let_def)
  qed
qed

definition all_stored :: "watch_env \<Rightarrow> run list \<Rightarrow> store \<Rightarrow> bool" where
  "all_stored env rs st \<longleftrightarrow> distinct (map (rkey env) rs) \<and> (\<forall>r \<in> set rs. runs (view st) (rkey env r) = Some r)"

lemma all_stored_tl:
  assumes "all_stored env (r # rs) st" and "\<And>k. k \<noteq> rkey env r \<Longrightarrow> runs (view st') k = runs (view st) k"
  shows "all_stored env rs st'"
proof -
  have d: "distinct (map (rkey env) (r # rs))" using assms(1) unfolding all_stored_def by (rule conjunct1)
  have s: "runs (view st) (rkey env x) = Some x" if "x \<in> set rs" for x
    using assms(1) that unfolding all_stored_def by (meson list.set_intros(2))
  have n: "rkey env r \<notin> rkey env ` set rs" using d by simp
  have "rkey env x \<noteq> rkey env r" if "x \<in> set rs" for x
  proof
    assume "rkey env x = rkey env r"
    with imageI [OF that, of "rkey env"] n show False by (simp only:)
  qed
  then have "runs (view st') (rkey env x) = Some x" if "x \<in> set rs" for x
    using assms(2) [of "rkey env x"] s [of x] that by metis
  then show ?thesis using d unfolding all_stored_def by auto
qed

lemma cancel_plain: "active_run r \<Longrightarrow> run_step env r (r\<lparr>r_State := ''cancelled'', r_FinishedAt := now\<rparr>)"
  using run_step.cancel_it [of r "r_Fence r" env now] by simp

lemma watch_of_run:
  assumes "good env st" and "read env (t_definitions st) (r_Scope r) (r_WatchID r) = Inr d"
  shows "d_Scope d = r_Scope r" and "d_ID d = r_WatchID r"
    and "defs (view st) (key env (d_Scope d) (d_ID d)) = Some d"
proof -
  have inv: "sched_inv env (view st)" and d: "defs (view st) (key env (r_Scope r) (r_WatchID r)) = Some d"
    using assms by (simp_all add: good_def read_view)
  have k: "key env (r_Scope r) (r_WatchID r) = key env (d_Scope d) (d_ID d)"
    using sched_inv_def_D [OF inv d] by blast
  then show "d_Scope d = r_Scope r" "d_ID d = r_WatchID r"
    using key_inj [OF sched_inv_sound [OF inv]] by simp_all
  show "defs (view st) (key env (d_Scope d) (d_ID d)) = Some d" using d k by simp
qed

lemma claim_jobs_refines:
  assumes "good env st" and "claim_jobs env now i rs st = Inr (c, st')" and "all_stored env rs st"
  shows "refines env st st'"
  using assms
proof (induction rs arbitrary: st)
  case Nil
  then show ?case using refines_refl by auto
next
  case (Cons r rs)
  have r: "runs (view st) (rkey env r) = Some r" using Cons.prems(3) by (simp add: all_stored_def)
  show ?case
  proof (cases "skip_job now r")
    case True
    then show ?thesis using Cons all_stored_tl [OF Cons.prems(3)] by simp
  next
    case False
    note S = save_run_refines [OF Cons.prems(1) _ r]
    note act = job_step [OF False]
    from Cons.prems(2) False show ?thesis
    proof (cases rule: claim_jobs_Cons)
      case (cancelled st1)
      note S1 = S [OF cancelled(1) cancel_plain [OF act(1)]]
      show ?thesis
        using Cons.IH [OF refines_good [OF Cons.prems(1) S1(1)] cancelled(2)] S1 all_stored_tl [OF Cons.prems(3)]
        by (auto intro: refines_trans)
    next
      case ineligible
      then show ?thesis using Cons.IH [OF Cons.prems(1)] all_stored_tl [OF Cons.prems(3)] by simp
    next
      case (exhausted d ob st1 st2)
      note S1 = S [OF exhausted(3) run_step.exhaust_it [OF act(1) exhausted(2)]]
      have g1: "good env st1" by (rule refines_good [OF Cons.prems(1) S1(1)])
      have "refines env st1 st2"
        using watch_of_run [OF Cons.prems(1) exhausted(1)] S1(2) exhausted(4)
        by (intro observe_refines [OF g1 exhausted(5)]) (auto simp: read_view)
      moreover have "all_stored env rs st2"
        using S1(2) save_observation_view(1) [OF exhausted(5)] by (intro all_stored_tl [OF Cons.prems(3)]) simp
      ultimately show ?thesis
        using Cons.IH [OF refines_good [OF g1] exhausted(6)] S1(1) by (blast intro: refines_trans)
    next
      case (claimed d ob st1)
      have "refines env st st1"
        by (rule S [OF claimed(6) run_step.claim_it [OF act claimed(5)]])
      then show ?thesis using claimed(8) by (blast intro: refines_then_frame dest: frames)
    qed
  qed
qed

lemma all_stored_sorted:
  assumes "good env st"
  shows "all_stored env (sort_key f (list_rows (t_runs st) sc w)) st"
proof -
  let ?xs = "list_rows (t_runs st) sc w"
  have "inj_on (rkey env) (set ?xs)" "distinct ?xs"
    using listed_runs_distinct [OF assms, of sc w] by (simp_all add: distinct_map)
  then have "distinct (map (rkey env) (sort_key f ?xs))" by (simp add: distinct_map)
  then show ?thesis using listed_run [OF assms] by (simp add: all_stored_def)
qed

lemma ClaimDue_refines:
  assumes "good env st" and "ClaimDue env now i st = Inr (c, st')"
  shows "refines env st st'"
proof -
  from assms(2) obtain w st1 where s: "save_runner env now (i_Scope i) (i_ID i) w st = Inr st1"
    and c: "claim_jobs env now i (sort_key r_DueAt (list_rows (t_runs st1) (i_Scope i) [])) st1 = Inr (c, st')"
    by (auto simp: ClaimDue_def rbind_eq_Inr split: if_splits sum.splits)
  have R: "refines env st st1" by (rule refines_frame [OF assms(1) save_runner_frame [OF s]])
  have g1: "good env st1" by (rule refines_good [OF assms(1) R])
  show ?thesis using claim_jobs_refines [OF g1 c all_stored_sorted [OF g1]] R by (blast intro: refines_trans)
qed


section \<open>Heartbeat and completion\<close>

lemma leased_Inr:
  assumes "good env st" and "leased env now i rid fence st = Inr (r, d)"
  shows "runs (view st) (key env (i_Scope i) rid) = Some r" and "lease_held now i fence r d"
    and "r_Scope r = i_Scope i" and "r_ID r = rid"
    and "d_Scope d = r_Scope r" and "d_ID d = r_WatchID r" and "defs (view st) (key env (d_Scope d) (d_ID d)) = Some d"
proof -
  from assms(2) have r: "runs (view st) (key env (i_Scope i) rid) = Some r" and h: "lease_held now i fence r d"
    and d: "read env (t_definitions st) (i_Scope i) (r_WatchID r) = Inr d"
    by (auto simp: leased_def rbind_eq_Inr read_view split: if_splits sum.splits)
  show "runs (view st) (key env (i_Scope i) rid) = Some r" "lease_held now i fence r d" by fact+
  show s: "r_Scope r = i_Scope i" "r_ID r = rid"
    using sched_inv_run(1) [of env "view st", OF _ r] key_inj [OF sched_inv_sound [of env "view st"]] assms(1)
    by (auto simp: good_def)
  show "d_Scope d = r_Scope r" "d_ID d = r_WatchID r" "defs (view st) (key env (d_Scope d) (d_ID d)) = Some d"
    using watch_of_run [OF assms(1), of r d] d s by auto
qed

lemma Heartbeat_refines:
  assumes "good env st" and "Heartbeat env now i rid fence st = Inr st'"
  shows "refines env st st'"
proof -
  from assms(2) obtain r d st1 w where l: "leased env now i rid fence st = Inr (r, d)"
    and s: "save_run env now (r\<lparr>r_LeaseUntil := (if now + LeaseDuration (config_of env) > r_Deadline r
              then r_Deadline r else now + LeaseDuration (config_of env))\<rparr>) st = Inr st1"
    and f: "save_runner env now (i_Scope i) (i_ID i) w st1 = Inr st'"
    by (auto simp: Heartbeat_def rbind_eq_Inr Let_def)
  have "r_State r = ''running''" using leased_Inr(2) [OF assms(1) l] by (simp add: lease_held_def)
  then have "run_step env r (r\<lparr>r_LeaseUntil := (if now + LeaseDuration (config_of env) > r_Deadline r
              then r_Deadline r else now + LeaseDuration (config_of env))\<rparr>)"
    by (intro run_step.extend_it) auto
  from save_run_refines(1) [OF assms(1) s leased_Inr(1) [OF assms(1) l] this] show ?thesis
    using f by (blast intro: refines_then_frame dest: frames)
qed


text \<open>The run that a completion writes.\<close>

lemma accepted_run_sel [simp]:
  "same_ids r (accepted_run env now c ob r)" "r_Fence (accepted_run env now c ob r) = r_Fence r"
  "r_Attempts (accepted_run env now c ob r) = r_Attempts r" "r_State (accepted_run env now c ob r) = ''completed''"
  "r_CompletionHash (accepted_run env now c ob r) = completionDigest env c"
  by (simp_all add: accepted_run_def Let_def same_ids_def)

lemma retry_run_settles:
  "same_ids r r' \<Longrightarrow> r_State r = ''running'' \<Longrightarrow> r_Fence r' = r_Fence r \<Longrightarrow> r_Attempts r' = r_Attempts r \<Longrightarrow>
    run_step env r (retry_run env now r')"
  by (rule run_step.settle_it) (auto simp: retry_run_def same_ids_def terminal_run_def)

text \<open>The parts of \<open>finish_known\<close>: the value, the event, the notification, the completed one-shot.\<close>

definition known_value :: "run \<Rightarrow> string" where
  "known_value r = (if r_Outcome r = ''pass'' then ''true'' else ''false'')"

definition known_before :: "observation \<Rightarrow> string" where
  "known_before ob = (if o_LastKnown ob = [] then ''never'' else o_LastKnown ob)"

lemma finish_known_parts:
  assumes "finish_known env now d r ob st = Inr (r2, ob2, st')"
  obtains canonical st1 recorded st2 where
    "recordEvent env now (d\<lparr>d_SourceFingerprint := o_SourceFingerprint ob\<rparr>) r (known_before ob) (known_value r) st = Inr (canonical, st1)"
    "r2 = r\<lparr>r_EventID := (case canonical of None \<Rightarrow> r_EventID r | Some e \<Rightarrow> e_ID e)\<rparr>"
    "(if notification_event d (known_before ob) (known_value r) \<noteq> [] \<and> cooled_down now d ob
      then notify env now d r2 (notification_event d (known_before ob) (known_value r)) st1
      else Inr (False, st1)) = Inr (recorded, st2)"
    "ob2 = ob\<lparr>o_LastEventID := (case canonical of None \<Rightarrow> o_LastEventID ob | Some e \<Rightarrow> e_ID e), o_Value := known_value r,
       o_LastKnown := known_value r, o_Availability := ''available'',
       o_LastNotifiedAt := (if recorded then now else o_LastNotifiedAt ob)\<rparr>"
    "(if canonical \<noteq> None \<and> d_Mode d = ''one_shot'' \<and> is_target d (known_value r)
      then save_definition env now (d_ID d) (d\<lparr>d_Lifecycle := ''completed'', d_Enabled := False, d_UpdatedAt := now\<rparr>) st2
      else Inr st2) = Inr st'"
proof -
  let ?v = "known_value r"
  let ?p = "known_before ob"
  let ?r1 = "\<lambda>canonical. case canonical of None \<Rightarrow> r | Some e \<Rightarrow> r\<lparr>r_EventID := e_ID e\<rparr>"
  from assms obtain canonical st1 where
    e: "recordEvent env now (d\<lparr>d_SourceFingerprint := o_SourceFingerprint ob\<rparr>) r ?p ?v st = Inr (canonical, st1)"
    and rest: "rbind (if notification_event d ?p ?v \<noteq> [] \<and> cooled_down now d ob
        then notify env now d (?r1 canonical) (notification_event d ?p ?v) st1 else Inr (False, st1))
        (\<lambda>(recorded, st2).
      rbind (if canonical \<noteq> None \<and> d_Mode d = ''one_shot'' \<and> is_target d ?v
             then save_definition env now (d_ID d)
                    (d\<lparr>d_Lifecycle := ''completed'', d_Enabled := False, d_UpdatedAt := now\<rparr>) st2
             else Inr st2) (\<lambda>st3. Inr (?r1 canonical,
               (if recorded then ob\<lparr>o_LastEventID := (case canonical of None \<Rightarrow> o_LastEventID ob | Some e \<Rightarrow> e_ID e),
                    o_Value := ?v, o_LastKnown := ?v, o_Availability := ''available''\<rparr>\<lparr>o_LastNotifiedAt := now\<rparr>
                else ob\<lparr>o_LastEventID := (case canonical of None \<Rightarrow> o_LastEventID ob | Some e \<Rightarrow> e_ID e),
                    o_Value := ?v, o_LastKnown := ?v, o_Availability := ''available''\<rparr>), st3))) = Inr (r2, ob2, st')"
    unfolding finish_known_def Let_def known_value_def known_before_def by (auto simp: rbind_eq_Inr [of "recordEvent _ _ _ _ _ _ _"])
  have r1: "?r1 canonical = r\<lparr>r_EventID := (case canonical of None \<Rightarrow> r_EventID r | Some e \<Rightarrow> e_ID e)\<rparr>"
    by (cases canonical) simp_all
  from rest obtain recorded st2 where
    n: "(if notification_event d ?p ?v \<noteq> [] \<and> cooled_down now d ob
        then notify env now d (?r1 canonical) (notification_event d ?p ?v) st1 else Inr (False, st1)) = Inr (recorded, st2)"
    and r2: "r2 = ?r1 canonical"
    and ob2: "ob2 = ob\<lparr>o_LastEventID := (case canonical of None \<Rightarrow> o_LastEventID ob | Some e \<Rightarrow> e_ID e), o_Value := ?v,
       o_LastKnown := ?v, o_Availability := ''available'', o_LastNotifiedAt := (if recorded then now else o_LastNotifiedAt ob)\<rparr>"
    and s: "(if canonical \<noteq> None \<and> d_Mode d = ''one_shot'' \<and> is_target d ?v
             then save_definition env now (d_ID d) (d\<lparr>d_Lifecycle := ''completed'', d_Enabled := False, d_UpdatedAt := now\<rparr>) st2
             else Inr st2) = Inr st'"
    unfolding rbind_eq_Inr split_paired_Ex prod.case by fastforce
  show ?thesis
    by (rule that [OF e _ _ ob2 s]) (use n r2 r1 in \<open>simp_all only:\<close>)
qed

lemma finish_known_Inr:
  assumes "finish_known env now d r ob st = Inr (r2, ob2, st')"
  obtains eid st2 where "r2 = r\<lparr>r_EventID := eid\<rparr>" "o_NextEvaluation ob2 = o_NextEvaluation ob" "sched st2 = sched st"
    "st' = st2 \<or> d_Mode d = ''one_shot'' \<and> save_definition env now (d_ID d)
        (d\<lparr>d_Lifecycle := ''completed'', d_Enabled := False, d_UpdatedAt := now\<rparr>) st2 = Inr st'"
  using assms
proof (rule finish_known_parts, goal_cases)
  case (1 canonical st1 recorded st2)
  have f1: "sched st1 = sched st" by (rule recordEvent_frame [OF 1(2)])
  have f2: "sched st2 = sched st" using 1(4) f1 by (auto split: if_splits dest!: notify_frame)
  show ?case using 1(1) [OF 1(3) _ f2] 1(5,6) by (auto split: if_splits)
qed

lemma complete_refines:
  assumes "good env st" and "defs (view st) (key env (d_Scope d) (d_ID d)) = Some d"
    and "save_definition env now (d_ID d) (d\<lparr>d_Lifecycle := lc, d_Enabled := en, d_UpdatedAt := u\<rparr>) st = Inr st'"
  shows "refines env st st'"
proof -
  let ?d = "stored_definition (d\<lparr>d_Lifecycle := lc, d_Enabled := en, d_UpdatedAt := u\<rparr>)"
  let ?k = "key env (d_Scope d) (d_ID d)"
  obtain ob where ob: "obs (view st) ?k = Some ob"
    using sched_inv_obs [of env "view st"] assms(1,2) by (auto simp: good_def)
  have "act env (view st) ((view st)\<lparr>defs := (defs (view st))(?k \<mapsto> ?d), obs := (obs (view st))(?k \<mapsto> ob)\<rparr>)"
    by (rule act.observe_it [OF assms(2) _ _ _ _ ob]) simp_all
  moreover have "(view st)\<lparr>defs := (defs (view st))(?k \<mapsto> ?d), obs := (obs (view st))(?k \<mapsto> ob)\<rparr> = view st'"
    using save_definition_view(1) [OF assms(3)] ob by (cases "view st") (simp add: fun_upd_idem)
  moreover have "rep_ok env st'" using save_definition_view(2) [OF assms(3)] assms(1) by (simp add: good_def)
  ultimately show ?thesis by (intro refines_act) simp_all
qed

lemma finish_accept_Inr:
  assumes "finish_accept env now i c r d st = Inr (r2, st')"
  obtains ob ob2 st1 st2 st3 where
    "obs (view st) (key env (d_Scope d) (d_ID d)) = Some ob"
    "r2 = retry_run env now (accepted_run env now c ob r) \<and> st1 = st \<and> o_NextEvaluation ob2 = o_NextEvaluation ob \<and>
       (r_ExecutionStatus (accepted_run env now c ob r) \<noteq> ''completed'' \<or> r_Outcome (accepted_run env now c ob r) = ''unknown'') \<or>
     finish_known env now d (accepted_run env now c ob r)
       (accepted_observation now c (accepted_run env now c ob r) ob) st = Inr (r2, ob2, st1)"
    "save_observation env now (d_ID d) d ob2 st1 = Inr st2" "save_run env now r2 st2 = Inr st3"
    "log_event env now (r_Scope r2) (i_ID i) ''run.finish'' (r_ID r2) st3 = Inr st'"
proof -
  from assms obtain ob where ob: "obs (view st) (key env (d_Scope d) (d_ID d)) = Some ob"
    and body: "rbind (if r_ExecutionStatus (accepted_run env now c ob r) \<noteq> ''completed'' \<or>
                         r_Outcome (accepted_run env now c ob r) = ''unknown''
            then Inr (retry_run env now (accepted_run env now c ob r),
                      (accepted_observation now c (accepted_run env now c ob r) ob)
                        \<lparr>o_Value := ''unknown'', o_Availability := ''error''\<rparr>, st)
            else finish_known env now d (accepted_run env now c ob r)
                   (accepted_observation now c (accepted_run env now c ob r) ob) st) (\<lambda>(r2, obs2, st1).
     rbind (save_observation env now (d_ID d) d obs2 st1) (\<lambda>st2.
     rbind (save_run env now r2 st2) (\<lambda>st3.
     rbind (log_event env now (r_Scope r2) (i_ID i) ''run.finish'' (r_ID r2) st3) (\<lambda>st4.
     Inr (r2, st4))))) = Inr (r2, st')"
    by (auto simp: finish_accept_def rbind_eq_Inr [of "read _ _ _ _"] Let_def read_view)
  let ?r1 = "accepted_run env now c ob r"
  let ?bad = "r_ExecutionStatus ?r1 \<noteq> ''completed'' \<or> r_Outcome ?r1 = ''unknown''"
  from body obtain ob2 st1 st2 st3 where
    m: "(if ?bad then Inr (retry_run env now ?r1,
           (accepted_observation now c ?r1 ob)\<lparr>o_Value := ''unknown'', o_Availability := ''error''\<rparr>, st)
         else finish_known env now d ?r1 (accepted_observation now c ?r1 ob) st) = Inr (r2, ob2, st1)"
    and w: "save_observation env now (d_ID d) d ob2 st1 = Inr st2" "save_run env now r2 st2 = Inr st3"
      "log_event env now (r_Scope r2) (i_ID i) ''run.finish'' (r_ID r2) st3 = Inr st'"
    unfolding rbind_eq_Inr by (auto simp: rbind_eq_Inr)
  have "r2 = retry_run env now ?r1 \<and> st1 = st \<and> o_NextEvaluation ob2 = o_NextEvaluation ob \<and> ?bad \<or>
      finish_known env now d ?r1 (accepted_observation now c ?r1 ob) st = Inr (r2, ob2, st1)"
  proof (cases ?bad)
    case True
    with m have e: "ob2 = (accepted_observation now c ?r1 ob)\<lparr>o_Value := ''unknown'', o_Availability := ''error''\<rparr>"
      "r2 = retry_run env now ?r1" "st1 = st" by auto
    then show ?thesis using True by (simp add: accepted_observation_def)
  next
    case False
    with m show ?thesis by simp
  qed
  then show ?thesis by (rule that [OF ob _ w])
qed

text \<open>An accepted completion settles its run and moves the observation of its Watch on.\<close>

lemma finish_accept_settles:
  assumes "finish_accept env now i c r d st = Inr (r2, st')" and "r_State r = ''running''"
  shows "run_step env r r2" and "r_CompletionHash r2 = completionDigest env c" and "r_Fence r2 = r_Fence r"
    and "r_RunnerID r2 = r_RunnerID r"
  using assms(1)
  by (rule finish_accept_Inr; elim disjE finish_known_Inr;
      auto simp: retry_run_def accepted_run_def Let_def same_ids_def terminal_run_def assms(2)
        intro: run_step.settle_it)+

lemma finish_accept_refines:
  assumes "good env st" and "finish_accept env now i c r d st = Inr (r2, st')" and "r_State r = ''running''"
    and "runs (view st) (rkey env r) = Some r" and "defs (view st) (key env (d_Scope d) (d_ID d)) = Some d"
  shows "refines env st st'"
  using assms(2)
proof (rule finish_accept_Inr, goal_cases)
  case (1 ob ob2 st1 st2 st3)
  let ?k = "key env (d_Scope d) (d_ID d)"
  have first: "refines env st st1 \<and> (\<exists>d0. defs (view st1) ?k = Some d0 \<and> d_Scope d0 = d_Scope d \<and> d_ID d0 = d_ID d) \<and>
      obs (view st1) = obs (view st) \<and> runs (view st1) = runs (view st) \<and> o_NextEvaluation ob2 = o_NextEvaluation ob"
    using 1(2)
  proof
    assume "r2 = retry_run env now (accepted_run env now c ob r) \<and> st1 = st \<and> o_NextEvaluation ob2 = o_NextEvaluation ob \<and>
       (r_ExecutionStatus (accepted_run env now c ob r) \<noteq> ''completed'' \<or> r_Outcome (accepted_run env now c ob r) = ''unknown'')"
    then show ?thesis using refines_refl [OF assms(1)] assms(5) by simp
  next
    assume "finish_known env now d (accepted_run env now c ob r)
       (accepted_observation now c (accepted_run env now c ob r) ob) st = Inr (r2, ob2, st1)"
    then show ?thesis
    proof (rule finish_known_Inr, goal_cases)
      case (1 eid st0)
      have R: "refines env st st0" by (rule refines_frame [OF assms(1) 1(3)])
      have v: "view st0 = view st" by (rule sched_view [OF 1(3)])
      from 1(4) show ?case
      proof
        assume "st1 = st0"
        then show ?thesis using R v assms(5) 1(2) by (simp add: accepted_observation_def)
      next
        assume "d_Mode d = ''one_shot'' \<and> save_definition env now (d_ID d)
          (d\<lparr>d_Lifecycle := ''completed'', d_Enabled := False, d_UpdatedAt := now\<rparr>) st0 = Inr st1"
        then have s: "save_definition env now (d_ID d)
          (d\<lparr>d_Lifecycle := ''completed'', d_Enabled := False, d_UpdatedAt := now\<rparr>) st0 = Inr st1" ..
        have "refines env st0 st1"
          by (rule complete_refines [OF refines_good [OF assms(1) R] _ s]) (simp add: v assms(5))
        then show ?thesis
          using R save_definition_view(1) [OF s] v 1(2) by (auto simp: accepted_observation_def intro: refines_trans)
      qed
    qed
  qed
  then obtain d0 where d0: "defs (view st1) ?k = Some d0" "d_Scope d0 = d_Scope d" "d_ID d0 = d_ID d" by blast
  have g1: "good env st1" using refines_good [OF assms(1)] first by blast
  have R2: "refines env st1 st2"
    by (rule observe_refines [OF g1 1(3) d0, of ob]) (use first 1(1) in simp_all)
  have g2: "good env st2" by (rule refines_good [OF g1 R2])
  have "runs (view st2) (rkey env r) = Some r"
    using save_observation_view(1) [OF 1(3)] first assms(4) by simp
  then have "refines env st2 st3"
    using save_run_refines(1) [OF g2 1(4)] finish_accept_settles(1) [OF assms(2,3)] by blast
  moreover have "sched st' = sched st3" using 1(5) by (rule log_event_frame)
  ultimately show ?case using first R2 by (blast intro: refines_trans refines_then_frame)
qed

lemma FinishRun_refines:
  assumes "good env st" and "FinishRun env now i c st = Inr (r, st')"
  shows "refines env st st'"
proof -
  from assms(2) have "st' = st \<or> (\<exists>r0 d. leased env now i (f_ClaimID c) (f_Fence c) st = Inr (r0, d) \<and>
      finish_accept env now i c r0 d st = Inr (r, st'))"
    by (auto simp: FinishRun_def rbind_eq_Inr split: if_splits)
  then show ?thesis
  proof
    assume "st' = st" then show ?thesis using refines_refl [OF assms(1)] by simp
  next
    assume "\<exists>r0 d. leased env now i (f_ClaimID c) (f_Fence c) st = Inr (r0, d) \<and>
      finish_accept env now i c r0 d st = Inr (r, st')"
    then obtain r0 d where l: "leased env now i (f_ClaimID c) (f_Fence c) st = Inr (r0, d)"
      and f: "finish_accept env now i c r0 d st = Inr (r, st')" by blast
    note L = leased_Inr [OF assms(1) l]
    show ?thesis
      by (rule finish_accept_refines [OF assms(1) f]) (use L in \<open>simp_all add: lease_held_def\<close>)
  qed
qed


section \<open>The coordinator as a transition system\<close>

text \<open>
  Every operation a caller can make, at any instant and with any arguments; an operation
  that returns an error rolls its transaction back and is no step.
\<close>

inductive step :: "watch_env \<Rightarrow> store \<Rightarrow> store \<Rightarrow> bool" for env where
  put: "PutDefinition env now a d opid ver st = Inr (d', st') \<Longrightarrow> step env st st'"
| lifecycle: "SetLifecycle env now a wid lc opid ver st = Inr (d', st') \<Longrightarrow> step env st st'"
| delete: "DeleteDefinition env now a wid opid ver st = Inr ((), st') \<Longrightarrow> step env st st'"
| reset: "ResetBaseline env now a wid opid ver st = Inr (d', st') \<Longrightarrow> step env st st'"
| subscribe: "Subscribe env now a sub st = Inr st' \<Longrightarrow> step env st st'"
| mark_read: "MarkRead env now a nid st = Inr st' \<Longrightarrow> step env st st'"
| retry_delivery: "RetryNotification env now a nid st = Inr st' \<Longrightarrow> step env st st'"
| register: "RegisterRunner env now i st = Inr st' \<Longrightarrow> step env st st'"
| reconcile: "Reconcile env now st = Inr st' \<Longrightarrow> step env st st'"
| claim: "ClaimDue env now i st = Inr (c, st') \<Longrightarrow> step env st st'"
| heartbeat: "Heartbeat env now i rid fence st = Inr st' \<Longrightarrow> step env st st'"
| finish: "FinishRun env now i fin st = Inr (r, st') \<Longrightarrow> step env st st'"
| claim_delivery: "claimNotifications env now who pf st = Inr (v, st') \<Longrightarrow> step env st st'"
| finish_delivery: "FinishNotification env now nid fence code st = Inr st' \<Longrightarrow> step env st st'"
| finish_telegram: "FinishTelegramNotification env now i pf nid fence code secs st = Inr st' \<Longrightarrow> step env st st'"
| claim_poll: "ClaimTelegramPoll env now i st = Inr (l, st') \<Longrightarrow> step env st st'"
| renew_poll: "RenewTelegramPoll env now i fence st = Inr (pl, st') \<Longrightarrow> step env st st'"
| advance_poll: "AdvanceTelegramPoll env now i fence off st = Inr st' \<Longrightarrow> step env st st'"
| defer_poll: "DeferTelegramPoll env now i fence n st = Inr st' \<Longrightarrow> step env st st'"
| begin_link: "BeginTelegramLink env now a h e st = Inr st' \<Longrightarrow> step env st st'"
| complete_link: "CompleteTelegramLinkByRunner env now i pf h chat st = Inr st' \<Longrightarrow> step env st st'"
| disconnect: "DisconnectTelegram env now a st = Inr st' \<Longrightarrow> step env st st'"

lemma FinishNotification_frame [frames]: "FinishNotification env now nid f code st = Inr st' \<Longrightarrow> sched st' = sched st"
  by (auto simp: FinishNotification_def dest!: frames)
lemma FinishTelegramNotification_frame [frames]:
  "FinishTelegramNotification env now i pf nid f code secs st = Inr st' \<Longrightarrow> sched st' = sched st"
  unfolding FinishTelegramNotification_def Let_def if_Inl_eq_Inr by (auto dest!: frames)

lemma DeleteDefinition_refines:
  "good env st \<Longrightarrow> DeleteDefinition env now a wid opid ver st = Inr ((), st') \<Longrightarrow> refines env st st'"
  by (auto simp: DeleteDefinition_def rbind_eq_Inr intro: SetLifecycle_refines)

lemmas operation_refines = PutDefinition_refines SetLifecycle_refines DeleteDefinition_refines ResetBaseline_refines
  Reconcile_refines ClaimDue_refines Heartbeat_refines FinishRun_refines

lemma step_refines:
  assumes "good env st" and "step env st st'"
  shows "refines env st st'"
  using assms(2)
proof cases
qed (blast intro: operation_refines [OF assms(1)] refines_frame [OF assms(1)] frames)+

lemma empty_store_good: "sound_env env \<Longrightarrow> good env empty_store"
  by (simp add: good_def rep_ok_def rows_ok_def empty_store_def view_def payloads_def sched_inv_def)

lemma view_empty: "view empty_store = empty_schedule"
  by (simp add: view_def empty_store_def empty_schedule_def payloads_def fun_eq_iff)

interpretation coord: refined_by "\<lambda>s. sound_env env \<and> s = empty_schedule" "act env" "sched_inv env"
  view "\<lambda>st. sound_env env \<and> st = empty_store" "step env" "rep_ok env" for env
proof unfold_locales
  fix st assume "sound_env env \<and> st = empty_store"
  then show "rep_ok env st \<and> sound_env env \<and> view st = empty_schedule"
    using empty_store_good view_empty by (simp add: good_def)
next
  fix st st' assume "rep_ok env st" "sched_inv env (view st)" "step env st st'"
  then show "rep_ok env st' \<and> (act env)\<^sup>*\<^sup>* (view st) (view st')"
    using step_refines [of env st st'] by (simp add: good_def refines_def)
qed

lemma reachable_good: "sound_env env \<Longrightarrow> (step env)\<^sup>*\<^sup>* empty_store st \<Longrightarrow> good env st"
  using coord.reachable_sim [of env empty_store st] by (simp add: good_def)

lemma good_steps: "good env st \<Longrightarrow> (step env)\<^sup>*\<^sup>* st st' \<Longrightarrow> good env st' \<and> (act env)\<^sup>*\<^sup>* (view st) (view st')"
  using coord.steps_sim [of env st st'] by (simp add: good_def)

end
