(* ===== verification/Watch_Session.thy ===== *)
theory Watch_Session
  imports Watch_System
begin

text \<open>
  One concrete session of the coordinator, which the witnesses evaluate: a configuration, a
  collision-free hash, and the stores after a Watch is created, scheduled, claimed by a
  runner, claimed again by a second runner once the first lease ran out, and completed.
  Hashed keys stay symbolic: only their injectivity is used.
\<close>

section \<open>A concrete coordinator\<close>

definition frame_part :: "string \<Rightarrow> string" where
  "frame_part p = concat (map (\<lambda>c. [CHR ''1'', c]) p) @ ''0''"

definition frame_parts :: "string list \<Rightarrow> string" where
  "frame_parts ps = concat (map frame_part ps)"

lemma frame_part_Cons: "frame_part (c # p) = CHR ''1'' # c # frame_part p"
  by (simp add: frame_part_def)

lemma frame_part_prefix: "frame_part p @ s = frame_part q @ t \<Longrightarrow> p = q \<and> s = t"
proof (induction p arbitrary: q)
  case Nil
  then show ?case by (cases q) (simp_all add: frame_part_def)
next
  case (Cons c p)
  then show ?case by (cases q) (auto simp: frame_part_def)
qed

lemma frame_parts_inj: "inj frame_parts"
proof
  fix ps qs assume "frame_parts ps = frame_parts qs"
  then show "ps = qs"
  proof (induction ps arbitrary: qs)
    case Nil
    then show ?case by (cases qs) (auto simp: frame_parts_def frame_part_def)
  next
    case (Cons p ps)
    then obtain q qs' where qs: "qs = q # qs'"
      by (cases qs) (auto simp: frame_parts_def frame_part_def)
    with Cons.prems have "frame_part p @ frame_parts ps = frame_part q @ frame_parts qs'"
      by (simp add: frame_parts_def)
    from frame_part_prefix [OF this] Cons.IH qs show ?case by simp
  qed
qed

definition ex_config :: config where
  "ex_config = \<lparr>MaxWatchesPerUser = 100, MinIntervalSeconds = 5, TelegramDailyLimit = 100, TelegramMinuteLimit = 5,
     IsPaidAccount = None, EmailDailyLimit = 50, SMSDailyLimit = 10, EmailMinuteLimit = 5, SMSMinuteLimit = 2,
     cfg_Namespace = ''n'', LeaseDuration = 30 * Second, RunnerTTL = 90 * Second, ExecutionTimeout = 120 * Second,
     MaxAttempts = 3, HistoryLimit = 1000\<rparr>"

definition ex_env :: watch_env where
  "ex_env = \<lparr>config_of = ex_config, stable_hash = frame_parts, marshal = (\<lambda>_. []), Format = (\<lambda>_ t. show_int t),
     InputValue_Validate = (\<lambda>_. True), ParseAddress = Some\<rparr>"

lemma ex_env_sound: "sound_env ex_env"
  by (auto simp: sound_env_def ex_env_def ex_config_def good_config_def frame_parts_inj Second_def Minute_def
      intro: injI simp: show_int_inj)

definition ex_scope :: scope where "ex_scope = \<lparr>Namespace = ''n'', Project = ''p'', Environment = ''e''\<rparr>"

definition ex_actor :: actor where
  "ex_actor = \<lparr>a_ID = ''u'', a_Email = [], a_Scope = ex_scope, a_SharedEditor = False, a_AccountID = [], a_Tier = [], a_Phone = []\<rparr>"

definition ex_definition :: definition_t where
  "ex_definition = \<lparr>d_SourceRevision = [], d_SourceFingerprint = [], d_Scope = ex_scope, d_ID = ''w'', d_Version = 0,
     d_Title = ''t'', d_Owner = [], d_Visibility = ''personal'', d_CheckID = ''c'', d_CheckVersion = ''1'', d_Inputs = None,
     d_IntervalSeconds = 60, d_Trigger = ''changes'', d_InitialObservation = ''notify'', d_Mode = ''continuous'',
     d_Lifecycle = [], d_Enabled = False, d_Requirements = [],
     d_NotificationPolicy = \<lparr>CooldownSeconds = 0, Recovery = True\<rparr>, d_CreatedAt = 0, d_UpdatedAt = 0\<rparr>"

definition ex_runner :: runner_identity where
  "ex_runner = \<lparr>i_TelegramBotID = [], i_TelegramBotUsername = [], i_ID = ''r'', i_Scope = ex_scope, i_Capabilities = []\<rparr>"

lemma frame_parts_eq: "frame_parts ps = frame_parts qs \<longleftrightarrow> ps = qs"
  using frame_parts_inj by (auto dest: injD)

lemma ex_env_sel:
  "config_of ex_env = ex_config" "stable_hash ex_env = frame_parts" "marshal ex_env p = []"
  "Format ex_env f t = show_int t" "InputValue_Validate ex_env v = True"
  by (simp_all add: ex_env_def)

lemma ex_save: "save ex_env u p sc rid w ow vi v t =
   Inr (AList.update (key ex_env sc rid)
        \<lparr>row_namespace = Namespace sc, row_project = Project sc, row_environment = Environment sc,
         row_watch = w, row_owner = ow, row_visibility = vi, row_updated = u, row_payload = v\<rparr> t)"
  by (simp add: save_def ex_env_sel)

lemma ex_key: "key ex_env sc a = key ex_env sc' b \<longleftrightarrow> sc = sc' \<and> a = b"
  by (rule key_inj [OF ex_env_sound])

lemma ex_stable: "stable ex_env xs = stable ex_env ys \<longleftrightarrow> xs = ys"
  by (simp add: stable_def ex_env_sel frame_parts_eq)

lemmas ex_defs = ex_scope_def ex_actor_def ex_definition_def ex_runner_def ex_config_def



lemma ex_sel:
  "a_ID ex_actor = ''u''" "a_Scope ex_actor = ex_scope" "a_SharedEditor ex_actor = False"
  "d_Scope ex_definition = ex_scope" "d_ID ex_definition = ''w''" "d_Owner ex_definition = []"
  "d_Visibility ex_definition = ''personal''" "d_IntervalSeconds ex_definition = 60" "d_Lifecycle ex_definition = []"
  "d_SourceRevision ex_definition = []" "d_Inputs ex_definition = None" "d_Requirements ex_definition = []"
  "Namespace ex_scope = ''n''" "Project ex_scope = ''p''" "Environment ex_scope = ''e''"
  "i_ID ex_runner = ''r''" "i_Scope ex_runner = ex_scope" "i_Capabilities ex_runner = []" "i_TelegramBotID ex_runner = []"
  "i_TelegramBotUsername ex_runner = []"
  "cfg_Namespace ex_config = ''n''" "MaxWatchesPerUser ex_config = 100" "MinIntervalSeconds ex_config = 5"
  "LeaseDuration ex_config = 30000000000" "RunnerTTL ex_config = 90000000000" "ExecutionTimeout ex_config = 120000000000"
  "MaxAttempts ex_config = 3" "HistoryLimit ex_config = 1000"
  by (simp_all add: ex_defs Second_def)

lemma ex_valid: "validateDefinition ex_env ex_definition = Inr ()"
  by (simp add: ex_defs ex_env_sel validateDefinition_def ParseInt_def is_digit_def nat_of_digits_def digit_val_def Let_def)

lemma ex_revision: "ex_definition\<lparr>d_SourceRevision := []\<rparr> = ex_definition"
  by (simp add: ex_defs)

definition ex_row :: "string \<Rightarrow> string \<Rightarrow> string \<Rightarrow> time \<Rightarrow> 'a \<Rightarrow> 'a row" where
  "ex_row w ow vi u v = \<lparr>row_namespace = ''n'', row_project = ''p'', row_environment = ''e'',
     row_watch = w, row_owner = ow, row_visibility = vi, row_updated = u, row_payload = v\<rparr>"

lemma ex_row_sel:
  "row_namespace (ex_row w ow vi u v) = ''n''" "row_project (ex_row w ow vi u v) = ''p''"
  "row_environment (ex_row w ow vi u v) = ''e''" "row_watch (ex_row w ow vi u v) = w"
  "row_owner (ex_row w ow vi u v) = ow" "row_visibility (ex_row w ow vi u v) = vi"
  "row_updated (ex_row w ow vi u v) = u" "row_payload (ex_row w ow vi u v) = v"
  by (simp_all add: ex_row_def)

lemma ex_save_row: "save ex_env u p ex_scope rid w ow vi v t =
   Inr (AList.update (key ex_env ex_scope rid) (ex_row w ow vi u v) t)"
  by (simp add: ex_save ex_row_def ex_sel)

lemmas ex_eval = ex_sel ex_env_sel ex_save_row ex_row_sel ex_key ex_stable ex_valid ex_revision read_def check_actor_def validScope_def Let_def
  list_rows_def row_matches_def global_scope_def save_defs





definition ex_audit :: "string \<Rightarrow> string \<Rightarrow> string \<Rightarrow> time \<Rightarrow> string \<times> audit_event row" where
  "ex_audit who what rid now =
     (let l = stable ex_env [who, what, rid, time_String ex_env now] in
      (key ex_env ex_scope l, ex_row rid who [] now
        \<lparr>l_ID = l, l_Scope = ex_scope, l_Actor = who, l_Action = what, l_ResourceID = rid, l_At = now\<rparr>))"

definition ex_d1 :: definition_t where
  "ex_d1 = ex_definition\<lparr>d_Owner := ''u'', d_CreatedAt := 0, d_Version := 1, d_UpdatedAt := 0,
     d_SourceFingerprint := [], d_Lifecycle := ''enabled'', d_Enabled := True\<rparr>"

definition ex_st1 :: store where
  "ex_st1 = empty_store\<lparr>
     t_definitions := [(key ex_env ex_scope ''w'', ex_row ''w'' ''u'' ''personal'' 0 ex_d1)],
     t_observations := [(key ex_env ex_scope ''w'', ex_row ''w'' ''u'' ''personal'' 0 (fresh_observation ''w'' 0))],
     t_audit := [ex_audit ''u'' ''definition.put'' ''w'' 0],
     t_operations := [(key ex_env ex_scope (stable ex_env [''u'', ''op'']), ex_row ''w'' ''u'' [] 0
       \<lparr>op_Digest = putDefinitionOperationDigest ex_env ex_definition 0, op_Definition = ex_d1\<rparr>)]\<rparr>"

lemma ex_d1_stored: "stored_definition ex_d1 = ex_d1"
  by (simp add: stored_definition_def stored_inputs_def ex_d1_def ex_defs)

lemma ex_d1_sel:
  "d_Scope ex_d1 = ex_scope" "d_ID ex_d1 = ''w''" "d_Version ex_d1 = 1" "d_Owner ex_d1 = ''u''"
  "d_Visibility ex_d1 = ''personal''" "d_IntervalSeconds ex_d1 = 60" "d_Lifecycle ex_d1 = ''enabled''"
  "d_Requirements ex_d1 = []" "d_Mode ex_d1 = ''continuous''" "d_Trigger ex_d1 = ''changes''"
  "d_InitialObservation ex_d1 = ''notify''" "d_Inputs ex_d1 = None"
  by (simp_all add: ex_d1_def ex_defs)

lemma ex_step1: "PutDefinition ex_env 0 ex_actor ex_definition ''op'' 0 empty_store = Inr (ex_d1, ex_st1)"
  by (simp add: PutDefinition_def ex_eval put_new_def liveDefinitions_def put_commit_def cancelRuns_def
     put_observation_def ex_st1_def empty_store_def ex_audit_def ex_d1_stored [unfolded ex_d1_def] ex_d1_def)

text \<open>The Watch is due at once: its first run.\<close>

definition ex_run :: run where "ex_run = due_run ex_env ex_d1 0"

definition ex_ob2 :: observation where
  "ex_ob2 = (fresh_observation ''w'' 0)\<lparr>o_NextEvaluation := 60 * Second, o_Availability := ''waiting''\<rparr>"

definition ex_st2 :: store where
  "ex_st2 = ex_st1\<lparr>t_runs := [(key ex_env ex_scope (r_ID ex_run), ex_row ''w'' [] [] 0 ex_run)],
     t_observations := [(key ex_env ex_scope ''w'', ex_row ''w'' ''u'' ''personal'' 0 ex_ob2)]\<rparr>"

lemma ex_run_sel:
  "r_Scope ex_run = ex_scope" "r_WatchID ex_run = ''w''" "r_DefinitionVersion ex_run = 1" "r_DueAt ex_run = 0"
  "r_State ex_run = ''due''" "r_Fence ex_run = 0" "r_Attempts ex_run = 0" "r_RetryAt ex_run = time_zero"
  by (simp_all add: ex_run_def due_run_def ex_d1_sel)

lemma ex_step2: "Reconcile ex_env 0 ex_st1 = Inr ex_st2"
  by (simp add: Reconcile_def reconcileDefinition_def ex_eval ex_st1_def empty_store_def ex_d1_sel fresh_observation_def
    ex_run_def [symmetric] ex_run_sel ex_st2_def ex_ob2_def prune_def prune_table_def)

definition ex_worker :: runner where
  "ex_worker = \<lparr>w_TelegramBotID = [], w_TelegramBotUsername = [], w_Scope = ex_scope, w_ID = ''r'', w_Capabilities = [], w_LastSeen = 0\<rparr>"

definition ex_st3 :: store where
  "ex_st3 = ex_st2\<lparr>t_runners := [(key ex_env ex_scope ''r'', ex_row [] ''r'' [] 0 ex_worker)],
     t_audit := [ex_audit ''u'' ''definition.put'' ''w'' 0, ex_audit ''r'' ''runner.register'' ''r'' 0]\<rparr>"

lemma ex_step3: "RegisterRunner ex_env 0 ex_runner ex_st2 = Inr ex_st3"
  by (simp add: RegisterRunner_def registerTelegramProvider_def ex_eval ex_st3_def ex_st2_def ex_st1_def empty_store_def
     ex_worker_def ex_audit_def)


text \<open>
  The runner claims it; the lease runs out after thirty seconds and the run is claimed again
  under the next fence; that claim completes with a pass.
\<close>

definition ex_claimed1 :: run where "ex_claimed1 = claimed_run ex_env 0 ex_runner ex_run"
definition ex_claimed2 :: run where "ex_claimed2 = claimed_run ex_env (31000000000) ex_runner ex_claimed1"

lemma ex_claimed1_sel:
  "r_Scope ex_claimed1 = ex_scope" "r_ID ex_claimed1 = r_ID ex_run" "r_WatchID ex_claimed1 = ''w''"
  "r_DefinitionVersion ex_claimed1 = 1" "r_DueAt ex_claimed1 = 0" "r_State ex_claimed1 = ''running''"
  "r_RunnerID ex_claimed1 = ''r''" "r_Fence ex_claimed1 = 1" "r_Attempts ex_claimed1 = 1"
  "r_RetryAt ex_claimed1 = time_zero" "r_LeaseUntil ex_claimed1 = 30000000000" "r_Deadline ex_claimed1 = 120000000000"
  by (simp_all add: ex_claimed1_def claimed_run_def Let_def ex_run_sel ex_sel ex_env_sel Second_def)

lemma ex_claimed2_sel:
  "r_Scope ex_claimed2 = ex_scope" "r_ID ex_claimed2 = r_ID ex_run" "r_WatchID ex_claimed2 = ''w''"
  "r_DefinitionVersion ex_claimed2 = 1" "r_DueAt ex_claimed2 = 0" "r_State ex_claimed2 = ''running''"
  "r_RunnerID ex_claimed2 = ''r''" "r_Fence ex_claimed2 = 2" "r_Attempts ex_claimed2 = 2"
  "r_RetryAt ex_claimed2 = time_zero" "r_LeaseUntil ex_claimed2 = 61000000000" "r_Deadline ex_claimed2 = 151000000000"
  "r_CompletionHash ex_claimed2 = []"
  by (simp_all add: ex_claimed2_def claimed_run_def Let_def ex_claimed1_sel ex_sel ex_env_sel Second_def)

definition ex_st4 :: store where
  "ex_st4 = ex_st3\<lparr>t_runs := [(key ex_env ex_scope (r_ID ex_run), ex_row ''w'' [] [] 0 ex_claimed1)],
     t_audit := t_audit ex_st3 @ [ex_audit ''r'' ''run.claim'' (r_ID ex_run) 0]\<rparr>"

lemma ex_worker_sel: "w_LastSeen ex_worker = 0" "ex_worker\<lparr>w_LastSeen := 0, w_Capabilities := []\<rparr> = ex_worker"
  by (simp_all add: ex_worker_def)

lemma ex_step4: "ClaimDue ex_env 0 ex_runner ex_st3 = Inr (Some (claim_of ex_claimed1 ex_d1 ex_ob2), ex_st4)"
  by (simp add: ClaimDue_def ex_eval ex_st3_def ex_st2_def ex_st1_def empty_store_def ex_worker_sel ex_run_sel ex_d1_sel
    skip_job_def active_run_def time_zero_def eligible_def ex_claimed1_def [symmetric] ex_claimed1_sel ex_st4_def ex_audit_def)

definition ex_st5 :: store where
  "ex_st5 = ex_st4\<lparr>t_runs := [(key ex_env ex_scope (r_ID ex_run), ex_row ''w'' [] [] (31000000000) ex_claimed2)],
     t_runners := [(key ex_env ex_scope ''r'', ex_row [] ''r'' [] (31000000000) (ex_worker\<lparr>w_LastSeen := 31000000000\<rparr>))],
     t_audit := t_audit ex_st4 @ [ex_audit ''r'' ''run.claim'' (r_ID ex_run) (31000000000)]\<rparr>"

lemma ex_worker_cap: "ex_worker\<lparr>w_LastSeen := n, w_Capabilities := []\<rparr> = ex_worker\<lparr>w_LastSeen := n\<rparr>"
  by (simp add: ex_worker_def)

lemma ex_step5: "ClaimDue ex_env (31000000000) ex_runner ex_st4 = Inr (Some (claim_of ex_claimed2 ex_d1 ex_ob2), ex_st5)"
  by (simp add: ClaimDue_def ex_eval ex_st4_def ex_st3_def ex_st2_def ex_st1_def empty_store_def ex_worker_sel ex_worker_cap
    ex_d1_sel skip_job_def active_run_def time_zero_def eligible_def ex_claimed2_def [symmetric] ex_claimed1_sel ex_claimed2_sel
    ex_st5_def ex_audit_def time_String_def show_int_inj Second_def)

definition ex_completion :: completion where
  "ex_completion = \<lparr>f_SourceRevision = [], f_SourceFingerprint = ''s'', f_ClaimID = r_ID ex_run, f_RunID = r_ID ex_run,
     f_Fence = 2, f_ExecutionStatus = ''completed'', f_Outcome = ''pass'', f_Severity = [], f_DurationMS = 5,
     f_CheckRunRef = [], f_FailureCode = []\<rparr>"

lemma ex_stable_nonempty: "stable ex_env (p # ps) \<noteq> []"
  by (simp add: stable_def ex_env_sel frame_parts_def frame_part_def)

lemma ex_run_id: "r_ID ex_run \<noteq> []"
  by (simp add: ex_run_def due_run_def run_id_def ex_stable_nonempty)

lemma ex_step6: "\<exists>r st. FinishRun ex_env (32000000000) ex_runner ex_completion ex_st5 = Inr (r, st)"
  by (simp add: FinishRun_def ex_eval ex_st5_def ex_st4_def ex_st3_def ex_st2_def ex_st1_def empty_store_def ex_completion_def
    completion_ok_def ex_claimed2_sel leased_def lease_held_def ex_d1_sel eligible_def finish_accept_def accepted_run_def
    source_changed_def ex_ob2_def fresh_observation_def finish_known_def recordEvent_def event_kind_def is_target_def
    notification_event_def cooled_down_def notify_def accepted_observation_def ex_run_id)

definition ex_fin :: "run \<times> store" where
  "ex_fin = projr (FinishRun ex_env 32000000000 ex_runner ex_completion ex_st5)"

lemma ex_step6_fin: "FinishRun ex_env 32000000000 ex_runner ex_completion ex_st5 = Inr (fst ex_fin, snd ex_fin)"
  using ex_step6 by (auto simp: ex_fin_def)

lemma ex_reach1: "(step ex_env)\<^sup>*\<^sup>* empty_store ex_st1"
  using step.put [OF ex_step1] by blast
lemma ex_reach2: "(step ex_env)\<^sup>*\<^sup>* empty_store ex_st2"
  using ex_reach1 step.reconcile [OF ex_step2] by (rule rtranclp.rtrancl_into_rtrancl)
lemma ex_reach3: "(step ex_env)\<^sup>*\<^sup>* empty_store ex_st3"
  using ex_reach2 step.register [OF ex_step3] by (rule rtranclp.rtrancl_into_rtrancl)
lemma ex_reach4: "(step ex_env)\<^sup>*\<^sup>* empty_store ex_st4"
  using ex_reach3 step.claim [OF ex_step4] by (rule rtranclp.rtrancl_into_rtrancl)
lemma ex_reach5: "(step ex_env)\<^sup>*\<^sup>* empty_store ex_st5"
  using ex_reach4 step.claim [OF ex_step5] by (rule rtranclp.rtrancl_into_rtrancl)
lemma ex_reach6: "(step ex_env)\<^sup>*\<^sup>* empty_store (snd ex_fin)"
  using ex_reach5 step.finish [OF ex_step6_fin] by (rule rtranclp.rtrancl_into_rtrancl)

text \<open>The run as each store of the session holds it.\<close>

lemma ex_read:
  "read ex_env (t_runs ex_st4) ex_scope (r_ID ex_run) = Inr ex_claimed1"
  "read ex_env (t_runs ex_st5) ex_scope (r_ID ex_run) = Inr ex_claimed2"
  by (simp_all add: read_def ex_st4_def ex_st5_def ex_row_sel)

lemma ex_runner_valid: "i_ID ex_runner \<noteq> []" "validScope ex_env (i_Scope ex_runner)" "i_Scope ex_runner = ex_scope"
  by (simp_all add: ex_sel validScope_def ex_env_sel)

end
