(* ===== verification/Watch_Properties.thy ===== *)
theory Watch_Properties
  imports Watch_Session
begin

text \<open>
  The correctness of the scheduler: what holds in every store a sequence of operations can
  reach from the empty one, and what one operation promises there.
\<close>

section \<open>Facts the properties share\<close>

lemma distinct_at_most_one:
  assumes "distinct xs" and "\<And>x y. x \<in> set xs \<Longrightarrow> y \<in> set xs \<Longrightarrow> x = y"
  shows "length xs \<le> 1"
proof (cases xs)
  case (Cons a ys)
  have "y = a" if "y \<in> set ys" for y using assms(2) [of y a] that Cons by simp
  moreover have "a \<notin> set ys" using assms(1) Cons by simp
  ultimately have "ys = []" by (cases ys) fastforce+
  with Cons show ?thesis by simp
qed simp

lemma listed_run_full:
  assumes "good env st" and "r \<in> set (list_rows (t_runs st) sc w)" and "Project sc \<noteq> []" and "Environment sc \<noteq> []"
  shows "runs (view st) (rkey env r) = Some r" and "r_Scope r = sc" and "w \<noteq> [] \<Longrightarrow> r_WatchID r = w"
proof -
  from assms(2) obtain k row where kr: "(k, row) \<in> set (t_runs st)" "row_matches sc w row" "row_payload row = r"
    by (auto simp: list_rows_iff)
  with assms(1) have "row_scope row = r_Scope r" "row_watch row = r_WatchID r"
    by (auto simp: good_def rep_ok_def rows_ok_def)
  with kr assms(3,4) show "r_Scope r = sc" "w \<noteq> [] \<Longrightarrow> r_WatchID r = w"
    by (auto simp: row_matches_scope)
  show "runs (view st) (rkey env r) = Some r" by (rule listed_run [OF assms(1,2)])
qed

lemma leased_stale:
  assumes "good env st" and "stale env (i_Scope i) rid f (view st)" and "i_ID i \<noteq> []" and "validScope env (i_Scope i)"
  shows "leased env now i rid f st = Inl ErrStaleLease"
proof (cases "read env (t_runs st) (i_Scope i) rid")
  case (Inl e)
  then show ?thesis using assms(3,4) by (simp add: leased_def)
next
  case (Inr r)
  then have v: "runs (view st) (key env (i_Scope i) rid) = Some r" by (simp add: read_view)
  have inv: "sched_inv env (view st)" using assms(1) by (simp add: good_def)
  have sc: "r_Scope r = i_Scope i"
    using sched_inv_run(1) [OF inv v] key_inj [OF sched_inv_sound [OF inv]] by simp
  obtain d where d: "read env (t_definitions st) (i_Scope i) (r_WatchID r) = Inr d"
    using sched_inv_run(4) [OF inv v] sc by (auto simp: read_view)
  have "r_Fence r \<noteq> f" using assms(2) v by (simp add: stale_def)
  with d Inr assms(3,4) show ?thesis by (simp add: leased_def lease_held_def)
qed

lemma finish_stale:
  assumes "leased env now i (f_ClaimID c) (f_Fence c) st = Inl ErrStaleLease"
    and "\<And>r. read env (t_runs st) (i_Scope i) (f_ClaimID c) = Inr r \<Longrightarrow> r_Fence r \<noteq> f_Fence c"
  shows "FinishRun env now i c st \<noteq> Inr x"
  using assms by (auto simp: FinishRun_def rbind_eq_Inr split: if_splits)

lemma claim_jobs_claimed:
  assumes "good env st" and "claim_jobs env now i rs st = Inr (Some c, st')" and "all_stored env rs st"
  shows "\<exists>r d ob. r \<in> set rs \<and> \<not> skip_job now r \<and> defs (view st) (key env (r_Scope r) (r_WatchID r)) = Some d \<and>
      d_Lifecycle d = ''enabled'' \<and> d_Version d = r_DefinitionVersion r \<and> eligible i d \<and>
      r_Attempts r < MaxAttempts (config_of env) \<and> c = claim_of (claimed_run env now i r) d ob \<and>
      runs (view st') (rkey env r) = Some (claimed_run env now i r) \<and> defs (view st') = defs (view st)"
  using assms
proof (induction rs arbitrary: st)
  case (Cons r rs)
  have r: "runs (view st) (rkey env r) = Some r" using Cons.prems(3) by (simp add: all_stored_def)
  show ?case
  proof (cases "skip_job now r")
    case True
    then show ?thesis using Cons.IH [OF Cons.prems(1)] Cons.prems(2) all_stored_tl [OF Cons.prems(3)] by fastforce
  next
    case False
    note S = save_run_refines [OF Cons.prems(1) _ r]
    from Cons.prems(2) False show ?thesis
    proof (cases rule: claim_jobs_Cons)
      case (cancelled st1)
      note S1 = S [OF cancelled(1) cancel_plain [OF job_step(1) [OF False]]]
      have "defs (view st1) = defs (view st)" using S1(2) by simp
      moreover have "all_stored env rs st1" using S1(2) by (intro all_stored_tl [OF Cons.prems(3)]) simp
      ultimately show ?thesis
        using Cons.IH [OF refines_good [OF Cons.prems(1) S1(1)] cancelled(2)] by fastforce
    next
      case ineligible
      then show ?thesis using Cons.IH [OF Cons.prems(1)] all_stored_tl [OF Cons.prems(3)] by fastforce
    next
      case (exhausted d ob st1 st2)
      note S1 = S [OF exhausted(3) run_step.exhaust_it [OF job_step(1) [OF False] exhausted(2)]]
      have g1: "good env st1" by (rule refines_good [OF Cons.prems(1) S1(1)])
      have R2: "refines env st1 st2"
        using watch_of_run [OF Cons.prems(1) exhausted(1)] S1(2) exhausted(4)
        by (intro observe_refines [OF g1 exhausted(5)]) (auto simp: read_view)
      have v: "defs (view st2) = defs (view st)" and "all_stored env rs st2"
        using S1(2) save_observation_view(1) [OF exhausted(5)] by (auto intro: all_stored_tl [OF Cons.prems(3)])
      then show ?thesis using Cons.IH [OF refines_good [OF g1 R2] exhausted(6)] by fastforce
    next
      case (claimed d ob st1)
      note S1 = S(2) [OF claimed(6) run_step.claim_it [OF job_step [OF False] claimed(5)]]
      have "view st' = view st1" using sched_view log_event_frame claimed(8) by blast
      then show ?thesis using S1 claimed False by (intro exI [of _ r] exI [of _ d] exI [of _ ob]) (simp add: read_view)
    qed
  qed
qed simp

lemma ClaimDue_Inr:
  assumes "ClaimDue env now i st = Inr (c, st')"
  obtains w st1 where "i_ID i \<noteq> []" "validScope env (i_Scope i)" "save_runner env now (i_Scope i) (i_ID i) w st = Inr st1"
    "claim_jobs env now i (sort_key r_DueAt (list_rows (t_runs st1) (i_Scope i) [])) st1 = Inr (c, st')"
    "sched st1 = sched st"
  using assms by (auto simp: ClaimDue_def rbind_eq_Inr split: if_splits sum.splits dest: save_runner_frame)

lemma validScope_full: "validScope env sc \<Longrightarrow> Project sc \<noteq> [] \<and> Environment sc \<noteq> []"
  by (simp add: validScope_def)


section \<open>One active run, and fenced claims\<close>

text \<open>C1: in every reachable store a Watch has at most one active run: one that is due, waiting for
  a retry, or running.\<close>

theorem one_active_run:
  assumes "sound_env env" and "(step env)\<^sup>*\<^sup>* empty_store st" and "validScope env sc" and "wid \<noteq> []"
  shows "length (filter active_run (list_rows (t_runs st) sc wid)) \<le> 1"
proof (rule distinct_at_most_one)
  have g: "good env st" by (rule reachable_good [OF assms(1,2)])
  have inv: "sched_inv env (view st)" using g by (simp add: good_def)
  show "distinct (filter active_run (list_rows (t_runs st) sc wid))"
    using listed_runs_distinct [OF g, of sc wid] by (simp add: distinct_map)
  fix r r' assume rr: "r \<in> set (filter active_run (list_rows (t_runs st) sc wid))"
    "r' \<in> set (filter active_run (list_rows (t_runs st) sc wid))"
  then have l: "r \<in> set (list_rows (t_runs st) sc wid)" "r' \<in> set (list_rows (t_runs st) sc wid)" by auto
  have full: "Project sc \<noteq> []" "Environment sc \<noteq> []" using validScope_full [OF assms(3)] by auto
  note L = listed_run_full [OF g l(1) full] and L' = listed_run_full [OF g l(2) full]
  have "rkey env r = rkey env r'"
    using sched_inv_single [OF inv L(1) L'(1)] L(2,3) L'(2,3) rr assms(4) by simp
  then show "r = r'" using L(1) L'(1) by (metis option.inject)
qed

theorem one_active_run_witness:
  "list_rows (t_runs ex_st4) ex_scope ''w'' = [ex_claimed1] \<and> active_run ex_claimed1 \<and>
   length (filter active_run (list_rows (t_runs ex_st4) ex_scope ''w'')) \<le> 1"
  using one_active_run [OF ex_env_sound ex_reach4, of ex_scope "''w''"] ex_runner_valid
  by (simp add: ex_st4_def list_rows_def row_matches_def ex_row_sel ex_sel active_run_def ex_claimed1_sel)

text \<open>C2: once the fence of a run has moved past the fence of a claim, no later store honours that
  claim: its lease, heartbeat and claim reads answer \<open>ErrStaleLease\<close> and its completion is
  refused, even after the run itself was pruned.\<close>

theorem stale_claim_never_honoured:
  assumes "sound_env env" and "(step env)\<^sup>*\<^sup>* empty_store st"
    and "read env (t_runs st) (i_Scope i) rid = Inr r" and "f < r_Fence r"
    and "(step env)\<^sup>*\<^sup>* st st'" and "i_ID i \<noteq> []" and "validScope env (i_Scope i)"
    and "f_ClaimID c = rid" and "f_Fence c = f"
  shows "leased env now i rid f st' = Inl ErrStaleLease \<and> Heartbeat env now i rid f st' = Inl ErrStaleLease \<and>
    GetClaim env now i rid f st' = Inl ErrStaleLease \<and> FinishRun env now i c st' \<noteq> Inr x"
proof -
  have g: "good env st" by (rule reachable_good [OF assms(1,2)])
  have G: "good env st'" "(act env)\<^sup>*\<^sup>* (view st) (view st')" using good_steps [OF g assms(5)] by auto
  have "stale env (i_Scope i) rid f (view st)" using assms(3,4) by (simp add: stale_def read_view)
  then have s: "stale env (i_Scope i) rid f (view st')"
    using sch.steps_stable [OF G(2), of "stale env (i_Scope i) rid f"] act_stale g by (auto simp: good_def)
  note l = leased_stale [OF G(1) s assms(6,7)]
  have "FinishRun env now i c st' \<noteq> Inr x"
    using s assms(8,9) l by (intro finish_stale) (auto simp: stale_def read_view)
  then show ?thesis using l by (simp add: Heartbeat_def GetClaim_def)
qed

theorem stale_claim_never_honoured_witness:
  "Heartbeat ex_env 31000000001 ex_runner (r_ID ex_run) 1 ex_st5 = Inl ErrStaleLease"
  using stale_claim_never_honoured [OF ex_env_sound ex_reach5, of ex_runner "r_ID ex_run" ex_claimed2 1 ex_st5
      "ex_completion\<lparr>f_Fence := 1\<rparr>" 31000000001] ex_read(2) ex_runner_valid
  by (simp add: ex_claimed2_sel ex_completion_def)

text \<open>C3: a claim takes a due run under the next fence, with a lease that ends after now and by the
  deadline; the new store honours it, and honours no other runner and no other fence.\<close>

theorem claim_is_exclusive:
  assumes "sound_env env" and "(step env)\<^sup>*\<^sup>* empty_store st" and "ClaimDue env now i st = Inr (Some c, st')"
  shows "(\<exists>r. read env (t_runs st) (i_Scope i) (c_RunID c) = Inr r \<and> \<not> skip_job now r \<and> c_Fence c = r_Fence r + 1) \<and>
    now < c_LeaseUntil c \<and> c_LeaseUntil c \<le> c_Deadline c \<and>
    (\<exists>r d. leased env now i (c_RunID c) (c_Fence c) st' = Inr (r, d)) \<and>
    (\<forall>now' j f r d. i_Scope j = i_Scope i \<longrightarrow> leased env now' j (c_RunID c) f st' = Inr (r, d) \<longrightarrow>
       i_ID j = i_ID i \<and> f = c_Fence c)"
proof -
  have g: "good env st" by (rule reachable_good [OF assms(1,2)])
  from assms(3) obtain w st1 where ok: "i_ID i \<noteq> []" "validScope env (i_Scope i)" and fr: "sched st1 = sched st"
    and j: "claim_jobs env now i (sort_key r_DueAt (list_rows (t_runs st1) (i_Scope i) [])) st1 = Inr (Some c, st')"
    by (rule ClaimDue_Inr)
  have g1: "good env st1" by (rule refines_good [OF g refines_frame [OF g fr]])
  have g': "good env st'" by (rule refines_good [OF g ClaimDue_refines [OF g assms(3)]])
  from claim_jobs_claimed [OF g1 j all_stored_sorted [OF g1]] obtain r d ob where
    r: "r \<in> set (list_rows (t_runs st1) (i_Scope i) [])" "\<not> skip_job now r"
    and d: "defs (view st1) (key env (r_Scope r) (r_WatchID r)) = Some d" "d_Lifecycle d = ''enabled''"
      "d_Version d = r_DefinitionVersion r" "eligible i d"
    and c: "c = claim_of (claimed_run env now i r) d ob"
    and v: "runs (view st') (rkey env r) = Some (claimed_run env now i r)" "defs (view st') = defs (view st1)"
    by auto
  have L: "runs (view st1) (rkey env r) = Some r" "r_Scope r = i_Scope i"
    using listed_run_full [OF g1 r(1)] validScope_full [OF ok(2)] by auto
  have rd: "read env (t_runs st) (i_Scope i) (r_ID r) = Inr r" using L sched_view [OF fr] by (simp add: read_view)
  have cr: "read env (t_runs st') (i_Scope i) (r_ID r) = Inr (claimed_run env now i r)" using v(1) L(2) by (simp add: read_view)
  have dd: "read env (t_definitions st') (i_Scope i) (r_WatchID r) = Inr d" using v(2) d(1) L(2) by (simp add: read_view)
  have pos: "0 < LeaseDuration (config_of env)" "0 < ExecutionTimeout (config_of env)"
    using assms(1) by (simp_all add: sound_env_def good_config_def)
  have C: "c_RunID c = r_ID r" "c_Fence c = r_Fence r + 1"
    by (simp_all add: c claim_of_def claimed_run_def Let_def)
  have held: "leased env now i (r_ID r) (r_Fence r + 1) st' = Inr (claimed_run env now i r, d)"
    using ok cr dd d(2-4) pos by (simp add: leased_def lease_held_def claimed_run_def Let_def)
  have only: "i_ID j = i_ID i \<and> f = r_Fence r + 1"
    if "i_Scope j = i_Scope i" "leased env now' j (r_ID r) f st' = Inr (r', d')" for j f now' r' d'
  proof -
    have "r' = claimed_run env now i r" using leased_Inr(1) [OF g' that(2)] cr that(1) by (simp add: read_view)
    then show ?thesis using leased_Inr(2) [OF g' that(2)] by (simp add: lease_held_def claimed_run_def Let_def)
  qed
  have lease: "now < c_LeaseUntil c" "c_LeaseUntil c \<le> c_Deadline c"
    using pos by (simp_all add: c claim_of_def claimed_run_def Let_def)
  show ?thesis
    unfolding C using rd r(2) lease held only by blast
qed

theorem claim_is_exclusive_witness:
  "\<exists>r. read ex_env (t_runs ex_st4) ex_scope (r_ID ex_run) = Inr r \<and> r_Fence r + 1 = 2 \<and>
     (\<forall>now' j f r' d. i_Scope j = ex_scope \<longrightarrow> leased ex_env now' j (r_ID ex_run) f ex_st5 = Inr (r', d) \<longrightarrow>
       i_ID j = ''r'' \<and> f = 2)"
  using claim_is_exclusive [OF ex_env_sound ex_reach4 ex_step5] ex_read(1)
  by (simp add: claim_of_def ex_claimed1_sel ex_claimed2_sel ex_sel)


section \<open>The life of a run\<close>

text \<open>C4: a run that is completed, failed or cancelled is final: every later store holds exactly that
  record, or has pruned it, and no other run is ever stored under its id.\<close>

theorem final_run_kept:
  assumes "sound_env env" and "(step env)\<^sup>*\<^sup>* empty_store st"
    and "read env (t_runs st) sc rid = Inr r" and "terminal_run r" and "(step env)\<^sup>*\<^sup>* st st'"
  shows "read env (t_runs st') sc rid = Inr r \<or> read env (t_runs st') sc rid = Inl ErrNotFound"
proof -
  have g: "good env st" by (rule reachable_good [OF assms(1,2)])
  have inv: "sched_inv env (view st)" using g by (simp add: good_def)
  have G: "(act env)\<^sup>*\<^sup>* (view st) (view st')" using good_steps [OF g assms(5)] by auto
  have r: "runs (view st) (key env sc rid) = Some r" using assms(3) by (simp add: read_view)
  have rid: "rid = r_ID r" using run_id_new(1) [OF inv r] .
  have "final_run env sc r (view st)"
    using assms(4) r run_spent [OF inv r] rid by (simp add: final_run_def)
  then have "final_run env sc r (view st')"
    using sch.steps_stable [OF G inv, of "final_run env sc r"] act_final by blast
  then show ?thesis
    by (auto simp: final_run_def rid read_view read_Inl) (simp add: view_def payloads_def)
qed

lemma ex_fin_run: "read ex_env (t_runs (snd ex_fin)) ex_scope (r_ID ex_run) = Inr (fst ex_fin)"
  and ex_fin_completed: "r_State (fst ex_fin) = ''completed''"
  by (simp_all add: ex_fin_def FinishRun_def ex_eval ex_st5_def ex_st4_def ex_st3_def ex_st2_def ex_st1_def empty_store_def
    ex_completion_def completion_ok_def ex_claimed2_sel leased_def lease_held_def ex_d1_sel eligible_def finish_accept_def
    accepted_run_def source_changed_def ex_ob2_def fresh_observation_def finish_known_def recordEvent_def event_kind_def
    is_target_def notification_event_def cooled_down_def notify_def accepted_observation_def ex_run_id)

theorem final_run_kept_witness:
  "read ex_env (t_runs (snd ex_fin)) ex_scope (r_ID ex_run) = Inr (fst ex_fin) \<or>
   read ex_env (t_runs (snd ex_fin)) ex_scope (r_ID ex_run) = Inl ErrNotFound"
  using final_run_kept [OF ex_env_sound ex_reach6 ex_fin_run _ rtranclp.rtrancl_refl] ex_fin_completed
  by (simp add: terminal_run_def)

text \<open>C5: every stored run has one of the six states, at most \<open>MaxAttempts\<close> attempts, a fence that counts
  at least its attempts, and, while it runs, a lease that does not outlast its deadline.\<close>

theorem run_bounds:
  assumes "sound_env env" and "(step env)\<^sup>*\<^sup>* empty_store st" and "read env (t_runs st) sc rid = Inr r"
  shows "(active_run r \<or> terminal_run r) \<and> 0 \<le> r_Attempts r \<and> r_Attempts r \<le> r_Fence r \<and>
    r_Attempts r \<le> MaxAttempts (config_of env) \<and> r_Attempts r \<le> 10 \<and>
    (r_State r = ''running'' \<longrightarrow> 0 < r_Fence r \<and> r_LeaseUntil r \<le> r_Deadline r)"
  using sched_inv_run(2) [of env "view st" "key env sc rid" r] reachable_good [OF assms(1,2)] assms(1,3)
  by (auto simp: good_def read_view run_ok_def sound_env_def good_config_def)

theorem run_bounds_witness:
  "r_Attempts ex_claimed2 \<le> MaxAttempts (config_of ex_env) \<and> r_LeaseUntil ex_claimed2 \<le> r_Deadline ex_claimed2"
  using run_bounds [OF ex_env_sound ex_reach5 ex_read(2)] by (simp add: ex_claimed2_sel)

text \<open>C6: completing a run is idempotent: after \<open>FinishRun\<close> succeeded, the same completion sent again by
  the same runner, at any later time, returns the same run and changes nothing; a completion
  with another digest under the same claim is refused with \<open>ErrConflict\<close>.\<close>

lemma finish_accept_stored:
  assumes "finish_accept env now i c r d st = Inr (r2, st')"
  shows "runs (view st') (key env (r_Scope r2) (r_ID r2)) = Some r2"
  using assms
proof (rule finish_accept_Inr, goal_cases)
  case (1 ob ob2 st1 st2 st3)
  then show ?case using save_run_view(1) [OF 1(4)] sched_view [OF log_event_frame [OF 1(5)]] by simp
qed

theorem finish_replay:
  assumes "sound_env env" and "(step env)\<^sup>*\<^sup>* empty_store st"
    and "FinishRun env now i c st = Inr (r, st')" and "completionDigest env c \<noteq> []"
  shows "FinishRun env now' i c st' = Inr (r, st') \<and>
    (completion_ok c' \<and> f_ClaimID c' = f_ClaimID c \<and> f_Fence c' = f_Fence c \<and> completionDigest env c' \<noteq> completionDigest env c \<longrightarrow>
     FinishRun env now' i c' st' = Inl ErrConflict)"
proof -
  have g: "good env st" by (rule reachable_good [OF assms(1,2)])
  from assms(3) have ok: "i_ID i \<noteq> []" "validScope env (i_Scope i)" "completion_ok c"
    by (auto simp: FinishRun_def split: if_splits)
  have stored: "read env (t_runs st') (i_Scope i) (f_ClaimID c) = Inr r \<and> r_CompletionHash r = completionDigest env c \<and>
      r_Fence r = f_Fence c \<and> r_RunnerID r = i_ID i"
  proof -
    from assms(3) consider (same) "st' = st" "read env (t_runs st) (i_Scope i) (f_ClaimID c) = Inr r"
        "r_CompletionHash r = completionDigest env c" "r_Fence r = f_Fence c" "r_RunnerID r = i_ID i"
      | (accept) r0 d where "leased env now i (f_ClaimID c) (f_Fence c) st = Inr (r0, d)"
        "finish_accept env now i c r0 d st = Inr (r, st')"
      by (auto simp: FinishRun_def rbind_eq_Inr split: if_splits)
    then show ?thesis
    proof cases
      case same
      then show ?thesis by simp
    next
      case (accept r0 d)
      note L = leased_Inr [OF g accept(1)]
      have run: "r_State r0 = ''running''" "r_RunnerID r0 = i_ID i" "r_Fence r0 = f_Fence c"
        using L(2) by (simp_all add: lease_held_def)
      note F = finish_accept_settles [OF accept(2) run(1)]
      have "r_Scope r = i_Scope i" "r_ID r = f_ClaimID c"
        using run_step_ids [OF F(1)] L(3,4) by (simp_all add: same_ids_def)
      then show ?thesis using finish_accept_stored [OF accept(2)] F run by (simp add: read_view)
    qed
  qed
  then show ?thesis using ok assms(4) by (auto simp: FinishRun_def)
qed

theorem finish_replay_witness:
  "FinishRun ex_env 99 ex_runner ex_completion (snd ex_fin) = Inr (fst ex_fin, snd ex_fin) \<and>
   FinishRun ex_env 99 ex_runner (ex_completion\<lparr>f_DurationMS := 6\<rparr>) (snd ex_fin) = Inl ErrConflict"
proof -
  have "completionDigest ex_env ex_completion \<noteq> []" by (simp add: completionDigest_def ex_stable_nonempty)
  from finish_replay [OF ex_env_sound ex_reach5 ex_step6_fin this, of 99 "ex_completion\<lparr>f_DurationMS := 6\<rparr>"]
  show ?thesis
    by (simp add: completionDigest_def ex_stable ex_completion_def completion_ok_def ex_run_id show_int_inj)
qed


section \<open>Scheduling and claiming make progress\<close>

text \<open>The identity of a new due run is free: no stored run is overwritten by it.\<close>

lemma due_run_fresh:
  assumes "sched_inv env s" and "defs s k = Some d" and "obs s k = Some ob"
  shows "runs s (key env (d_Scope d) (run_id env d (o_NextEvaluation ob))) = None"
  using due_not_spent [OF assms] run_id_new(2) [OF assms(1)] by (metis not_None_eq)

text \<open>After a successful pass, a Watch is served: its next evaluation is in the future, or it has an active run.\<close>

definition served :: "watch_env \<Rightarrow> time \<Rightarrow> definition_t \<Rightarrow> store \<Rightarrow> bool" where
  "served env now d st \<longleftrightarrow> (\<exists>ob. obs (view st) (key env (d_Scope d) (d_ID d)) = Some ob \<and>
     (now < o_NextEvaluation ob \<or> list_ex active_run (list_rows (t_runs st) (d_Scope d) (d_ID d))))"

lemma listed_again:
  assumes "good env st" and "good env st'" and "r \<in> set (list_rows (t_runs st) sc w)"
    and "runs (view st') (rkey env r) = Some r"
  shows "r \<in> set (list_rows (t_runs st') sc w)"
proof -
  from assms(3) obtain k row where kr: "(k, row) \<in> set (t_runs st)" "row_matches sc w row" "row_payload row = r"
    by (auto simp: list_rows_iff)
  with assms(1) have "row_scope row = r_Scope r" "row_watch row = r_WatchID r"
    by (auto simp: good_def rep_ok_def rows_ok_def)
  with kr(2) show ?thesis
    using assms(2,4)
    by (intro rows_ok_list [where k = "rkey env r" and sc_of = r_Scope and id_of = r_ID and watch_of = r_WatchID and env = env])
      (auto simp: good_def rep_ok_def view_def row_matches_scope)
qed

lemma list_ex_again:
  assumes "good env st" and "good env st'" and "list_ex active_run (list_rows (t_runs st) sc w)"
    and "\<And>k r. runs (view st) k = Some r \<Longrightarrow> active_run r \<Longrightarrow> runs (view st') k = Some r"
  shows "list_ex active_run (list_rows (t_runs st') sc w)"
  using assms(3,4) listed_again [OF assms(1,2)] listed_run [OF assms(1)] unfolding list_ex_iff by blast

lemma reconcile_cases:
  assumes "good env st" and "reconcileDefinition env now d st = Inr st'"
    and "defs (view st) (key env (d_Scope d) (d_ID d)) = Some d"
  obtains (same) "st' = st" "d_Lifecycle d = ''enabled'' \<longrightarrow> served env now d st"
  | (due) ob ob' where "obs (view st) (key env (d_Scope d) (d_ID d)) = Some ob" "now < o_NextEvaluation ob'"
      "d_Lifecycle d = ''enabled''"
      "view st' = (view st)\<lparr>runs := (runs (view st))(key env (d_Scope d) (run_id env d (o_NextEvaluation ob)) \<mapsto>
         due_run env d (o_NextEvaluation ob)), obs := (obs (view st))(key env (d_Scope d) (d_ID d) \<mapsto> ob')\<rparr>"
proof (cases "d_Lifecycle d = ''enabled''")
  case False
  then show ?thesis using assms(2) same by (simp add: reconcileDefinition_def)
next
  case True
  with assms(2) obtain ob where ob: "obs (view st) (key env (d_Scope d) (d_ID d)) = Some ob"
    by (auto simp: reconcileDefinition_def rbind_eq_Inr read_view)
  then have rd: "read env (t_observations st) (d_Scope d) (d_ID d) = Inr ob" by (simp add: read_view)
  note R = assms(2) [unfolded reconcileDefinition_def] True
  show ?thesis
  proof (cases "o_NextEvaluation ob > now \<or> list_ex active_run (list_rows (t_runs st) (d_Scope d) (d_ID d))")
    case busy: True
    then have "st' = st" using R rd by (auto split: if_splits)
    moreover have "served env now d st" using busy ob by (auto simp: served_def)
    ultimately show ?thesis using same by blast
  next
    case False
    then obtain st1 where s: "save_run env now (due_run env d (o_NextEvaluation ob)) st = Inr st1"
      and o: "save_observation env now (d_ID d) d
            (ob\<lparr>o_NextEvaluation := now + d_IntervalSeconds d * Second, o_Availability := ''waiting''\<rparr>) st1 = Inr st'"
      using R rd by (auto simp: rbind_eq_Inr)
    have "0 < d_IntervalSeconds d"
      using sched_inv_def_D [of env "view st"] assms(1,3) by (simp add: good_def)
    moreover have "r_Scope (due_run env d t) = d_Scope d" "r_ID (due_run env d t) = run_id env d t" for t
      by (simp_all add: due_run_def)
    ultimately show ?thesis
      by (intro due [OF ob, of "ob\<lparr>o_NextEvaluation := now + d_IntervalSeconds d * Second, o_Availability := ''waiting''\<rparr>"])
        (simp_all add: True save_observation_view(1) [OF o] save_run_view(1) [OF s] Second_def)
  qed
qed

lemma reconcile_serves:
  assumes "good env st" and "reconcileDefinition env now d st = Inr st'"
    and "defs (view st) (key env (d_Scope d) (d_ID d)) = Some d" and "d_Lifecycle d = ''enabled''"
  shows "served env now d st'"
  using assms(1-3)
proof (cases rule: reconcile_cases)
  case same
  then show ?thesis using assms(4) by simp
next
  case (due ob ob')
  then show ?thesis by (simp add: served_def)
qed

lemma reconcile_keeps_served:
  assumes "good env st" and "reconcileDefinition env now d st = Inr st'"
    and "defs (view st) (key env (d_Scope d) (d_ID d)) = Some d" and "served env now e st"
  shows "served env now e st'"
  using assms(1-3)
proof (cases rule: reconcile_cases)
  case same
  then show ?thesis using assms(4) by simp
next
  case (due ob ob')
  have inv: "sched_inv env (view st)" using assms(1) by (simp add: good_def)
  have g': "good env st'" using refines_good [OF assms(1)] reconcileDefinition_refines [OF assms(1-3)] by blast
  have kept: "runs (view st') k = Some r" if "runs (view st) k = Some r" for k r
    using that due(4) due_run_fresh [OF inv assms(3) due(1)] by auto
  from assms(4) obtain oe where oe: "obs (view st) (key env (d_Scope e) (d_ID e)) = Some oe"
    "now < o_NextEvaluation oe \<or> list_ex active_run (list_rows (t_runs st) (d_Scope e) (d_ID e))"
    by (auto simp: served_def)
  show ?thesis
  proof (cases "key env (d_Scope e) (d_ID e) = key env (d_Scope d) (d_ID d)")
    case True
    then show ?thesis using due(2,4) by (simp add: served_def)
  next
    case False
    then have "obs (view st') (key env (d_Scope e) (d_ID e)) = Some oe" using oe(1) due(4) by simp
    then show ?thesis using oe(2) list_ex_again [OF assms(1) g'] kept by (auto simp: served_def)
  qed
qed

lemma prune_keeps_served:
  assumes "good env st" and "served env now d st"
  shows "served env now d (prune env u st)"
proof -
  have R: "refines env st (prune env u st)" by (rule prune_refines [OF assms(1)])
  have g': "good env (prune env u st)" by (rule refines_good [OF assms(1) R])
  have o: "obs (view (prune env u st)) = obs (view st)" by (simp add: view_def prune_def Let_def)
  have kept: "runs (view (prune env u st)) k = Some r" if "runs (view st) k = Some r" "active_run r" for k r
    using prune_keeps_active [OF assms(1) that] .
  show ?thesis
    using assms(2) list_ex_again [OF assms(1) g' _ kept] o by (auto simp: served_def)
qed




text \<open>A run the runner may claim now: due, not leased, of the current version of an enabled Watch the
  runner is eligible for, with an attempt left.\<close>

definition claimable_run :: "watch_env \<Rightarrow> time \<Rightarrow> runner_identity \<Rightarrow> store \<Rightarrow> run \<Rightarrow> bool" where
  "claimable_run env now i st r \<longleftrightarrow> \<not> skip_job now r \<and>
     (case read env (t_definitions st) (r_Scope r) (r_WatchID r) of
        Inl _ \<Rightarrow> False
      | Inr d \<Rightarrow> d_Lifecycle d = ''enabled'' \<and> d_Version d = r_DefinitionVersion r \<and> eligible i d \<and>
                 r_Attempts r < MaxAttempts (config_of env))"

lemma read_definition_view: "read env (t_definitions st) sc wid =
    (case defs (view st) (key env sc wid) of None \<Rightarrow> Inl ErrNotFound | Some d \<Rightarrow> Inr d)"
  by (auto simp: read_def view_def payloads_def split: option.splits)

lemma claimable_run_defs: "defs (view st') = defs (view st) \<Longrightarrow> claimable_run env now i st' = claimable_run env now i st"
  unfolding claimable_run_def read_definition_view by simp

lemma find_sorted_least:
  assumes "find P xs = Some x" and "sorted (map f xs)" and "y \<in> set xs" and "P y"
  shows "f x \<le> f y"
  using assms by (induction xs) (auto split: if_splits)


text \<open>The scan claims the first claimable job, and nothing when there is none.\<close>

lemma claim_jobs_first:
  "claim_jobs env now i rs st = Inr (c, st') \<Longrightarrow>
     (case find (claimable_run env now i st) rs of
        None \<Rightarrow> c = None
      | Some r \<Rightarrow> \<exists>d ob. c = Some (claim_of (claimed_run env now i r) d ob))"
proof (induction rs arbitrary: st)
  case Nil
  then show ?case by simp
next
  case (Cons r rs)
  show ?case
  proof (cases "skip_job now r")
    case True
    then have "\<not> claimable_run env now i st r" by (simp add: claimable_run_def)
    then show ?thesis using Cons.IH [of st] Cons.prems True by simp
  next
    case False
    from Cons.prems False obtain d where d: "read env (t_definitions st) (r_Scope r) (r_WatchID r) = Inr d"
      by (auto simp: rbind_eq_Inr)
    have cl: "claimable_run env now i st r \<longleftrightarrow> d_Lifecycle d = ''enabled'' \<and> d_Version d = r_DefinitionVersion r \<and>
        eligible i d \<and> r_Attempts r < MaxAttempts (config_of env)"
      using d False by (simp add: claimable_run_def)
    show ?thesis
    proof (cases "claimable_run env now i st r")
      case True
      then have "\<exists>d ob. c = Some (claim_of (claimed_run env now i r) d ob)"
        using Cons.prems False d cl by (auto simp: rbind_eq_Inr Let_def)
      with True show ?thesis by simp
    next
      case not: False
      obtain st1 where st1: "claim_jobs env now i rs st1 = Inr (c, st')" "defs (view st1) = defs (view st)"
      proof -
        from Cons.prems False show ?thesis
        proof (cases rule: claim_jobs_Cons)
          case (cancelled s1)
          then show ?thesis using that [of s1] save_run_view(1) [OF cancelled(1)] by simp
        next
          case ineligible
          then show ?thesis using that by blast
        next
          case (exhausted d' ob s1 s2)
          then show ?thesis
            using that [of s2] save_run_view(1) [OF exhausted(3)] save_observation_view(1) [OF exhausted(5)] by simp
        next
          case (claimed d' ob s1)
          then show ?thesis using not cl d by simp
        qed
      qed
      then show ?thesis using Cons.IH [OF st1(1)] not claimable_run_defs [OF st1(2)] by simp
    qed
  qed
qed

text \<open>C12: claiming makes progress, oldest first: when no run of the scope is claimable by the runner,
  \<open>ClaimDue\<close> answers with no claim; otherwise it claims a claimable run, and none that has
  waited longer is passed over.\<close>

theorem claim_oldest_first:
  assumes "ClaimDue env now i st = Inr (c, st')"
  shows "case c of
      None \<Rightarrow> \<forall>r \<in> set (list_rows (t_runs st) (i_Scope i) []). \<not> claimable_run env now i st r
    | Some cl \<Rightarrow> \<exists>r \<in> set (list_rows (t_runs st) (i_Scope i) []). claimable_run env now i st r \<and> c_RunID cl = r_ID r \<and>
        (\<forall>r' \<in> set (list_rows (t_runs st) (i_Scope i) []). claimable_run env now i st r' \<longrightarrow> r_DueAt r \<le> r_DueAt r')"
proof -
  let ?xs = "sort_key r_DueAt (list_rows (t_runs st) (i_Scope i) [])"
  from assms obtain st1 where fr: "sched st1 = sched st"
    and j: "claim_jobs env now i (sort_key r_DueAt (list_rows (t_runs st1) (i_Scope i) [])) st1 = Inr (c, st')"
    by (rule ClaimDue_Inr)
  have "t_runs st1 = t_runs st" using fr by (simp add: sched_def)
  moreover have "claimable_run env now i st1 = claimable_run env now i st"
    by (rule claimable_run_defs) (simp only: sched_view [OF fr])
  ultimately have F: "case find (claimable_run env now i st) ?xs of
        None \<Rightarrow> c = None | Some r \<Rightarrow> \<exists>d ob. c = Some (claim_of (claimed_run env now i r) d ob)"
    using claim_jobs_first [OF j] by (simp only:)
  show ?thesis
  proof (cases "find (claimable_run env now i st) ?xs")
    case None
    then have "c = None" using F by simp
    with None show ?thesis by (simp add: find_None_iff)
  next
    case (Some r)
    have r: "r \<in> set ?xs" "claimable_run env now i st r"
      using find_Some_iff [of "claimable_run env now i st" ?xs r] Some nth_mem [of _ ?xs] by metis+
    have "r_DueAt r \<le> r_DueAt r'" if "r' \<in> set ?xs" "claimable_run env now i st r'" for r'
      by (rule find_sorted_least [OF Some _ that]) simp
    moreover obtain cl where "c = Some cl" "c_RunID cl = r_ID r"
      using F Some by (auto simp: claim_of_def claimed_run_def Let_def)
    ultimately show ?thesis using r by (auto intro!: bexI [of _ r])
  qed
qed

theorem claim_oldest_first_witness:
  "\<exists>r \<in> set (list_rows (t_runs ex_st3) ex_scope []). claimable_run ex_env 0 ex_runner ex_st3 r \<and> r_ID ex_run = r_ID r"
  using claim_oldest_first [OF ex_step4] by (auto simp: claim_of_def ex_claimed1_sel ex_sel)

end
