(* ===== verification/Watch_Authority.thy ===== *)
theory Watch_Authority
  imports Watch_Session
begin

text \<open>
  Who changes a definition, and how: what every operation does to the stored definitions,
  the versions an edit must name, replays of an operation id, and what an actor can read.
\<close>

section \<open>The definitions each operation leaves or writes\<close>

lemma cancelRuns_definitions: "cancelRuns env now sc wid st = Inr st' \<Longrightarrow> t_definitions st' = t_definitions st"
  unfolding cancelRuns_def
  by (erule rfold_invariant [where P = "\<lambda>s. t_definitions s = t_definitions st"])
    (auto simp: cancel_run_def dest: save_run_view(3) split: if_splits)

lemma sched_defs: "sched st' = sched st \<Longrightarrow> defs (view st') = defs (view st)"
  by (simp add: sched_def view_def)

lemma put_commit_defs:
  assumes "put_commit env now a ex p d1 digest opID st = Inr (d', st')"
  shows "defs (view st') = (defs (view st))(key env (d_Scope d1) (d_ID d1) \<mapsto> stored_definition d')"
  using assms
proof (rule put_commit_Inr, goal_cases)
  case (1 st1 st2 st3 st4 ob)
  have d': "d_Scope d' = d_Scope d1" "d_ID d' = d_ID d1" using 1(1) by simp_all
  have "defs (view st1) = defs (view st)" using cancelRuns_definitions [OF 1(2)] by (simp add: view_def)
  moreover have "defs (view st2) = (defs (view st1))(key env (d_Scope d1) (d_ID d1) \<mapsto> stored_definition d')"
    using save_definition_view(1) [OF 1(3)] d' by simp
  moreover have "defs (view st3) = defs (view st2)" using save_observation_view(1) [OF 1(5)] by simp
  moreover have "defs (view st') = defs (view st3)"
    using sched_defs [OF log_event_frame [OF 1(6)]] sched_defs [OF save_operation_frame [OF 1(7)]] by simp
  ultimately show ?case by simp
qed

lemma SetLifecycle_defs:
  assumes "SetLifecycle env now a wid lc opid ver st = Inr (d', st')"
  shows "st' = st \<or> (\<exists>d. defs (view st) (key env (a_Scope a) wid) = Some d \<and> editable a d \<and> d_Version d = ver \<and>
     d' = d\<lparr>d_Version := d_Version d + 1, d_Lifecycle := lc, d_Enabled := (lc = ''enabled''), d_UpdatedAt := now\<rparr> \<and>
     defs (view st') = (defs (view st))(key env (a_Scope a) wid \<mapsto> stored_definition d'))"
  using assms
proof (cases rule: SetLifecycle_Inr)
  case (moved d st1 st2 st3 st4 ob)
  have "d_Scope d' = a_Scope a" using moved(3,5) by (simp add: editable_def visible_def)
  moreover have "defs (view st1) = defs (view st)" using cancelRuns_definitions [OF moved(6)] by (simp add: view_def)
  moreover have "defs (view st3) = defs (view st2)"
    using moved(8) save_observation_view(1) [of env now wid d' ob st2 st3] by auto
  moreover have "defs (view st') = defs (view st3)"
    using sched_defs [OF log_event_frame [OF moved(9)]] sched_defs [OF save_operation_frame [OF moved(10)]] by simp
  ultimately show ?thesis using save_definition_view(1) [OF moved(7)] moved(2-5) by auto
qed simp

lemma ResetBaseline_defs:
  assumes "ResetBaseline env now a wid opid ver st = Inr (d', st')"
  shows "st' = st \<or> (\<exists>d. defs (view st) (key env (a_Scope a) wid) = Some d \<and> editable a d \<and> d_Version d = ver \<and>
     d' = d\<lparr>d_Version := d_Version d + 1, d_UpdatedAt := now, d_SourceFingerprint := []\<rparr> \<and>
     defs (view st') = (defs (view st))(key env (a_Scope a) wid \<mapsto> stored_definition d'))"
  using assms
proof (cases rule: ResetBaseline_Inr)
  case (moved d st1 st2 st3 st4)
  have "d_Scope d' = a_Scope a" using moved(3,5) by (simp add: editable_def visible_def)
  moreover have "defs (view st1) = defs (view st)" using cancelRuns_definitions [OF moved(6)] by (simp add: view_def)
  moreover have "defs (view st3) = defs (view st2)" using save_observation_view(1) [OF moved(8)] by simp
  moreover have "defs (view st') = defs (view st3)"
    using sched_defs [OF log_event_frame [OF moved(9)]] sched_defs [OF save_operation_frame [OF moved(10)]] by simp
  ultimately show ?thesis using save_definition_view(1) [OF moved(7)] moved(2-5) by auto
qed simp

lemma claim_jobs_definitions: "claim_jobs env now i rs st = Inr (c, st') \<Longrightarrow> defs (view st') = defs (view st)"
proof (induction rs arbitrary: st)
  case (Cons r rs)
  show ?case
  proof (cases "skip_job now r")
    case True
    then show ?thesis using Cons by simp
  next
    case False
    from Cons.prems False show ?thesis
    proof (cases rule: claim_jobs_Cons)
      case (cancelled st1)
      then show ?thesis using Cons.IH [OF cancelled(2)] save_run_view(1) [OF cancelled(1)] by simp
    next
      case ineligible
      then show ?thesis by (rule Cons.IH)
    next
      case (exhausted d ob st1 st2)
      then show ?thesis
        using Cons.IH [OF exhausted(6)] save_run_view(1) [OF exhausted(3)] save_observation_view(1) [OF exhausted(5)] by simp
    next
      case (claimed d ob st1)
      then show ?thesis using save_run_view(1) [OF claimed(6)] sched_defs [OF log_event_frame [OF claimed(8)]] by simp
    qed
  qed
qed simp

lemma ClaimDue_definitions: "ClaimDue env now i st = Inr (c, st') \<Longrightarrow> defs (view st') = defs (view st)"
  by (auto simp: ClaimDue_def rbind_eq_Inr split: if_splits sum.splits
      dest!: claim_jobs_definitions save_runner_frame sched_defs)

lemma Heartbeat_definitions: "Heartbeat env now i rid f st = Inr st' \<Longrightarrow> defs (view st') = defs (view st)"
  by (auto simp: Heartbeat_def rbind_eq_Inr Let_def dest!: save_run_view(1) save_runner_frame sched_defs)

lemma Reconcile_definitions: "Reconcile env now st = Inr st' \<Longrightarrow> defs (view st') = defs (view st)"
proof -
  assume "Reconcile env now st = Inr st'"
  then obtain st1 where
    r: "rfold (reconcileDefinition env now) (list_rows (t_definitions st) (global_scope env) []) st = Inr st1"
    and st': "st' = prune env now st1" by (auto simp: Reconcile_def rbind_eq_Inr)
  have "defs (view st1) = defs (view st)"
  proof (rule rfold_invariant [where P = "\<lambda>s. defs (view s) = defs (view st)", OF r refl])
    fix d s s' assume "defs (view s) = defs (view st)" "reconcileDefinition env now d s = Inr s'"
    then show "defs (view s') = defs (view st)"
      by (auto simp: reconcileDefinition_def rbind_eq_Inr split: if_splits
          dest!: save_run_view(1) save_observation_view(1))
  qed
  then show ?thesis by (simp add: st' view_def prune_def Let_def)
qed

lemma finish_known_definitions:
  assumes "finish_known env now d r ob st = Inr (r2, ob2, st')"
  shows "defs (view st') = defs (view st) \<or> d_Mode d = ''one_shot'' \<and>
    defs (view st') = (defs (view st))(key env (d_Scope d) (d_ID d) \<mapsto>
      stored_definition (d\<lparr>d_Lifecycle := ''completed'', d_Enabled := False, d_UpdatedAt := now\<rparr>))"
  using assms
proof (rule finish_known_Inr, goal_cases)
  case (1 eid st2)
  then show ?case using sched_defs [OF 1(3)] save_definition_view(1) by fastforce
qed


lemma FinishRun_definitions:
  assumes "good env st" and "FinishRun env now i c st = Inr (r, st')"
  shows "defs (view st') = defs (view st) \<or> (\<exists>d. defs (view st) (key env (d_Scope d) (d_ID d)) = Some d \<and>
    d_Lifecycle d = ''enabled'' \<and> d_Mode d = ''one_shot'' \<and>
    defs (view st') = (defs (view st))(key env (d_Scope d) (d_ID d) \<mapsto>
      stored_definition (d\<lparr>d_Lifecycle := ''completed'', d_Enabled := False, d_UpdatedAt := now\<rparr>)))"
proof -
  from assms(2) consider "st' = st" | r0 d where "leased env now i (f_ClaimID c) (f_Fence c) st = Inr (r0, d)"
      "finish_accept env now i c r0 d st = Inr (r, st')"
    by (auto simp: FinishRun_def rbind_eq_Inr split: if_splits)
  then show ?thesis
  proof cases
    case (2 r0 d)
    note L = leased_Inr [OF assms(1) 2(1)]
    from 2(2) show ?thesis
    proof (rule finish_accept_Inr, goal_cases)
      case (1 ob ob2 st1 st2 st3)
      have tail: "defs (view st') = defs (view st1)"
        using save_observation_view(1) [OF 1(3)] save_run_view(1) [OF 1(4)] sched_defs [OF log_event_frame [OF 1(5)]] by simp
      have "defs (view st1) = defs (view st) \<or> d_Mode d = ''one_shot'' \<and>
        defs (view st1) = (defs (view st))(key env (d_Scope d) (d_ID d) \<mapsto>
          stored_definition (d\<lparr>d_Lifecycle := ''completed'', d_Enabled := False, d_UpdatedAt := now\<rparr>))"
        using 1(2) by (elim disjE) (blast dest: finish_known_definitions)+
      then show ?case using tail L(2,7) by (auto simp: lease_held_def)
    qed
  qed simp
qed

text \<open>How one operation may change a stored definition: not at all; by an actor who may edit it, to
  the next version, keeping its owner (and its visibility, unless the actor is the owner); or
  by completing an enabled one-shot Watch.\<close>

definition definition_evolves :: "definition_t \<Rightarrow> definition_t \<Rightarrow> bool" where
  "definition_evolves d d' \<longleftrightarrow> d' = d \<or>
     (\<exists>a. editable a d \<and> d_Version d' = d_Version d + 1 \<and> d_Owner d' = d_Owner d \<and>
        (d_Visibility d' \<noteq> d_Visibility d \<longrightarrow> a_ID a = d_Owner d)) \<or>
     d_Lifecycle d = ''enabled'' \<and> d_Mode d = ''one_shot'' \<and>
     (\<exists>now. d' = stored_definition (d\<lparr>d_Lifecycle := ''completed'', d_Enabled := False, d_UpdatedAt := now\<rparr>))"

lemma evolves_refl [simp]: "definition_evolves d d"
  by (simp add: definition_evolves_def)

lemma evolves_edit:
  "editable a d \<Longrightarrow> d_Version d' = d_Version d + 1 \<Longrightarrow> d_Owner d' = d_Owner d \<Longrightarrow>
   (d_Visibility d' \<noteq> d_Visibility d \<Longrightarrow> a_ID a = d_Owner d) \<Longrightarrow> definition_evolves d d'"
  unfolding definition_evolves_def by blast

lemma PutDefinition_evolves:
  assumes "PutDefinition env now a d0 opid ver st = Inr (d', st')" and "defs (view st) k = Some d"
  shows "\<exists>d1. defs (view st') k = Some d1 \<and> definition_evolves d d1"
  using assms(1)
proof (cases rule: PutDefinition_Inr)
  case (replay op)
  then show ?thesis using assms(2) by simp
next
  case (create d1)
  have "k \<noteq> key env (d_Scope d1) (d_ID d1)"
    using create(2,5) put_new_Inr [OF create(3)] assms(2) by (auto simp: read_Inl view_def payloads_def)
  then show ?thesis using put_commit_defs [OF create(4)] assms(2) by simp
next
  case (edit existing d1)
  note E = put_existing_Inr [OF edit(3)]
  have k: "key env (d_Scope d1) (d_ID d1) = key env (a_Scope a) (d_ID d0)" using E edit(5) by simp
  show ?thesis
  proof (cases "k = key env (a_Scope a) (d_ID d0)")
    case True
    then have "existing = d" using edit(2) assms(2) by (simp add: read_view)
    moreover have "d_Version d' = d_Version d1" "d_Owner d' = d_Owner d1" "d_Visibility d' = d_Visibility d1"
      using edit(4) by (rule put_commit_Inr; simp)+
    ultimately have "definition_evolves d (stored_definition d')"
      using E by (intro evolves_edit [of a]) auto
    then show ?thesis using put_commit_defs [OF edit(4)] k True by simp
  next
    case False
    then show ?thesis using put_commit_defs [OF edit(4)] k assms(2) by simp
  qed
qed

lemma step_evolves:
  assumes "good env st" and "step env st st'" and "defs (view st) k = Some d"
  shows "\<exists>d1. defs (view st') k = Some d1 \<and> definition_evolves d d1"
proof -
  have same: ?thesis if "defs (view st') = defs (view st)" using that assms(3) by simp
  have life: ?thesis if "SetLifecycle env now a wid lc opid ver st = Inr (d', st')" for now a wid lc opid ver d'
    using SetLifecycle_defs [OF that] assms(3)
    by (cases "k = key env (a_Scope a) wid") (auto intro!: evolves_edit [of a])
  from assms(2) show ?thesis
  proof cases
    case (put now a d opid ver d')
    then show ?thesis by (rule PutDefinition_evolves [OF _ assms(3)])
  next
    case (lifecycle now a wid lc opid ver d')
    then show ?thesis by (rule life)
  next
    case (delete now a wid opid ver)
    then obtain d' where "SetLifecycle env now a wid ''deleted'' opid ver st = Inr (d', st')"
      by (auto simp: DeleteDefinition_def rbind_eq_Inr)
    then show ?thesis by (rule life)
  next
    case (reset now a wid opid ver d')
    then show ?thesis
      using ResetBaseline_defs [OF reset] assms(3)
      by (cases "k = key env (a_Scope a) wid") (auto intro!: evolves_edit [of a])
  next
    case (finish now i fin r)
    from FinishRun_definitions [OF assms(1) finish] assms(3) show ?thesis
      by (auto simp: definition_evolves_def) blast
  qed (blast intro: same sched_defs frames ClaimDue_definitions Heartbeat_definitions Reconcile_definitions)+
qed


lemma ex_read_d1: "read ex_env (t_definitions ex_st1) ex_scope ''w'' = Inr ex_d1"
  by (simp add: read_def ex_st1_def ex_row_sel)


text \<open>C8: deletion is final: a deleted Watch stays stored exactly as it was deleted, whatever
  operations follow, and no actor can read, edit or re-create it.\<close>

theorem deletion_is_final:
  assumes "sound_env env" and "(step env)\<^sup>*\<^sup>* empty_store st"
    and "read env (t_definitions st) sc wid = Inr d" and "d_Lifecycle d = ''deleted''" and "(step env)\<^sup>*\<^sup>* st st'"
    and "a_Scope a = sc"
  shows "read env (t_definitions st') sc wid = Inr d \<and> GetDefinition env a wid st' = (case check_actor env a of Inl e \<Rightarrow> Inl e | Inr _ \<Rightarrow> Inl ErrNotFound)"
proof -
  have stays: "definition_evolves d d1 \<Longrightarrow> d1 = d" for d1
    using assms(4) by (auto simp: definition_evolves_def editable_def visible_def)
  have "good env st' \<and> defs (view st') (key env sc wid) = Some d" using assms(5)
  proof (induction rule: rtranclp_induct)
    case base
    then show ?case using reachable_good [OF assms(1,2)] assms(3) by (simp add: read_view)
  next
    case (step s s')
    then show ?case using step_evolves [of env s s'] stays refines_good step_refines by blast
  qed
  then have r: "read env (t_definitions st') sc wid = Inr d" by (simp add: read_view)
  then show ?thesis using assms(4,6) by (auto simp: GetDefinition_def visible_def split: sum.splits)
qed

text \<open>A session that deletes the Watch again.\<close>

lemma ex_delete: "\<exists>d st. SetLifecycle ex_env 1 ex_actor ''w'' ''deleted'' ''op2'' 1 ex_st1 = Inr (d, st) \<and>
    read ex_env (t_definitions st) ex_scope ''w'' = Inr d \<and> d_Lifecycle d = ''deleted''"
  by (simp add: SetLifecycle_def ex_eval ex_st1_def empty_store_def editable_def visible_def ex_d1_sel lifecycle_commit_def
     cancelRuns_def stored_definition_def stored_inputs_def)

theorem deletion_is_final_witness:
  "\<exists>st d. (step ex_env)\<^sup>*\<^sup>* empty_store st \<and> read ex_env (t_definitions st) ex_scope ''w'' = Inr d \<and>
     d_Lifecycle d = ''deleted'' \<and> GetDefinition ex_env ex_actor ''w'' st = Inl ErrNotFound"
proof -
  obtain d st where s: "SetLifecycle ex_env 1 ex_actor ''w'' ''deleted'' ''op2'' 1 ex_st1 = Inr (d, st)"
    and r: "read ex_env (t_definitions st) ex_scope ''w'' = Inr d" "d_Lifecycle d = ''deleted''" using ex_delete by blast
  have reach: "(step ex_env)\<^sup>*\<^sup>* empty_store st"
    using ex_reach1 step.lifecycle [OF s] by (rule rtranclp.rtrancl_into_rtrancl)
  have "check_actor ex_env ex_actor = Inr ()" by (simp add: ex_eval)
  with deletion_is_final [OF ex_env_sound reach r rtranclp.rtrancl_refl, of ex_actor] reach r show ?thesis
    by (auto simp: ex_sel)
qed


section \<open>Creating and editing under a version and an operation id\<close>

lemma idle_no_active:
  assumes "good env st" and "idle (view st) sc wid" and "validScope env sc" and "wid \<noteq> []"
  shows "\<not> list_ex active_run (list_rows (t_runs st) sc wid)"
proof -
  have "Project sc \<noteq> []" "Environment sc \<noteq> []" using assms(3) by (simp_all add: validScope_def)
  have "\<not> active_run r" if "r \<in> set (list_rows (t_runs st) sc wid)" for r
  proof -
    from that obtain k row where kr: "(k, row) \<in> set (t_runs st)" "row_matches sc wid row" "row_payload row = r"
      by (auto simp: list_rows_iff)
    with assms(1) have "row_scope row = r_Scope r" "row_watch row = r_WatchID r"
      by (auto simp: good_def rep_ok_def rows_ok_def)
    then have "r_Scope r = sc" "r_WatchID r = wid"
      using kr(2) assms(4) \<open>Project sc \<noteq> []\<close> \<open>Environment sc \<noteq> []\<close> by (auto simp: row_matches_scope)
    then show ?thesis using listed_run [OF assms(1) that] assms(2) by (auto simp: idle_def)
  qed
  then show ?thesis by (auto simp: list_ex_iff)
qed

lemma save_operation_read:
  "save_operation env now wid d opID ow op st = Inr st' \<Longrightarrow>
   read env (t_operations st') (d_Scope d) opID = Inr (op\<lparr>op_Definition := stored_definition (op_Definition op)\<rparr>)"
  by (auto simp: save_operation_def rbind_eq_Inr save_Inr read_def alist.get_put_same)

lemma put_commit_operation:
  assumes "put_commit env now a ex p d1 digest opID st = Inr (d', st')"
  shows "read env (t_operations st') (d_Scope d') opID = Inr \<lparr>op_Digest = digest, op_Definition = stored_definition d'\<rparr>"
  using assms by (rule put_commit_Inr) (drule save_operation_read, simp)

text \<open>What a successful \<open>PutDefinition\<close> that is not a replay went through, creating or editing.\<close>

lemma put_committed:
  assumes "PutDefinition env now a d opid ver st = Inr (d', st')"
    and "read env (t_operations st) (a_Scope a) (stable env [a_ID a, opid]) = Inl ErrNotFound"
  obtains ex d1 where
    "put_commit env now a ex (d_Lifecycle d = ''paused'') d1
       (putDefinitionOperationDigest env (d\<lparr>d_SourceRevision := []\<rparr>) ver) (stable env [a_ID a, opid]) st = Inr (d', st')"
    "d_Scope d = a_Scope a" "validateDefinition env d = Inr ()"
    "d_Scope d1 = a_Scope a" "d_ID d1 = d_ID d" "d_Version d1 = ver + 1" "d_IntervalSeconds d1 = d_IntervalSeconds d"
    "d_Scope d' = a_Scope a" "d_ID d' = d_ID d" "d_Version d' = ver + 1"
    "visible a (stored_definition d')"
    "case ex of None \<Rightarrow> ver = 0 \<and> d_Owner d' = a_ID a \<and> read env (t_definitions st) (a_Scope a) (d_ID d) = Inl ErrNotFound
       | Some x \<Rightarrow> d_Version x = ver \<and> d_Owner d' = d_Owner x \<and> editable a x \<and>
                   read env (t_definitions st) (a_Scope a) (d_ID d) = Inr x"
  using assms(1)
proof (cases rule: PutDefinition_Inr)
  case (replay op)
  then show ?thesis using assms(2) by simp
next
  case (create d1)
  note N = put_new_Inr [OF create(3)]
  have d': "d_Scope d' = d_Scope d1" "d_ID d' = d_ID d1" "d_Version d' = d_Version d1" "d_Owner d' = d_Owner d1"
    "d_Lifecycle d' \<noteq> ''deleted''"
    using create(4) by (rule put_commit_Inr; simp)+
  then have "visible a (stored_definition d')" using N create(5) by (simp add: visible_def)
  then show ?thesis using that [OF create(4)] create N d' by simp
next
  case (edit x d1)
  note E = put_existing_Inr [OF edit(3)]
  have d': "d_Scope d' = d_Scope d1" "d_ID d' = d_ID d1" "d_Version d' = d_Version d1" "d_Owner d' = d_Owner d1"
    "d_Lifecycle d' = d_Lifecycle x" "d_Visibility d' = d_Visibility d1"
    using edit(4) by (rule put_commit_Inr; simp)+
  then have "visible a (stored_definition d')" using E edit(5) by (auto simp: visible_def editable_def)
  then show ?thesis using that [OF edit(4)] edit E d' by simp
qed

text \<open>C9: a successful \<open>PutDefinition\<close> under a new operation id creates version 1 of a Watch owned by the
  caller, or replaces exactly the version the caller named by the next one; the new
  definition is stored and no run of the Watch is left active.\<close>

theorem put_commits:
  assumes "sound_env env" and "(step env)\<^sup>*\<^sup>* empty_store st"
    and "PutDefinition env now a d opid ver st = Inr (d', st')"
    and "read env (t_operations st) (a_Scope a) (stable env [a_ID a, opid]) = Inl ErrNotFound"
  shows "d_Version d' = ver + 1 \<and>
    (case read env (t_definitions st) (a_Scope a) (d_ID d) of
       Inl _ \<Rightarrow> ver = 0 \<and> d_Owner d' = a_ID a
     | Inr x \<Rightarrow> d_Version x = ver \<and> d_Owner d' = d_Owner x \<and> editable a x) \<and>
    read env (t_definitions st') (a_Scope a) (d_ID d) = Inr (stored_definition d') \<and>
    \<not> list_ex active_run (list_rows (t_runs st') (a_Scope a) (d_ID d))"
  using assms(3,4)
proof (rule put_committed, goal_cases)
  case (1 ex d1)
  have g: "good env st" by (rule reachable_good [OF assms(1,2)])
  have newer: "d_Version x < d_Version d1" if "defs (view st) (key env (d_Scope d1) (d_ID d1)) = Some x" for x
    using that 1(4-6,12) by (cases ex) (auto simp: read_view read_Inl view_def payloads_def)
  have int: "0 < d_IntervalSeconds d1" using validateDefinition_interval [OF 1(3)] 1(7) by simp
  note P = put_commit_refines [OF g 1(1) int newer]
  have "validScope env (a_Scope a)" using assms(3) by (auto simp: PutDefinition_def check_actor_def rbind_eq_Inr split: if_splits)
  moreover have "d_ID d \<noteq> []" using 1(3) unfolding validateDefinition_def Let_def if_Inl_eq_Inr by simp
  ultimately have "\<not> list_ex active_run (list_rows (t_runs st') (a_Scope a) (d_ID d))"
    using idle_no_active [OF refines_good [OF g P(1)] P(3)] 1(4,5) by simp
  moreover have "read env (t_definitions st') (a_Scope a) (d_ID d) = Inr (stored_definition d')"
    using P(2) 1(4,5) by (simp add: read_view)
  ultimately show ?case using 1(10,12) by (cases ex) simp_all
qed

theorem put_commits_witness:
  "d_Version ex_d1 = 0 + 1 \<and> read ex_env (t_definitions ex_st1) ex_scope ''w'' = Inr (stored_definition ex_d1) \<and>
   \<not> list_ex active_run (list_rows (t_runs ex_st1) ex_scope ''w'')"
  using put_commits [OF ex_env_sound rtranclp.rtrancl_refl ex_step1]
  by (simp add: ex_sel read_def empty_store_def)

text \<open>\<open>PutDefinition\<close> is idempotent under its operation id: sent again, at any time, it returns the
  definition as stored and changes nothing; another request under the same operation id is
  refused with \<open>ErrConflict\<close>.\<close>

theorem put_replay_idempotent:
  assumes "PutDefinition env now a d opid ver st = Inr (d', st')"
    and "read env (t_operations st) (a_Scope a) (stable env [a_ID a, opid]) = Inl ErrNotFound"
  shows "PutDefinition env now' a d opid ver st' = Inr (stored_definition d', st') \<and>
    (d_Scope e = a_Scope a \<and> MinIntervalSeconds (config_of env) \<le> d_IntervalSeconds e \<and> validateDefinition env e = Inr () \<and>
     putDefinitionOperationDigest env (e\<lparr>d_SourceRevision := []\<rparr>) ver' \<noteq>
       putDefinitionOperationDigest env (d\<lparr>d_SourceRevision := []\<rparr>) ver \<longrightarrow>
     PutDefinition env now' a e opid ver' st' = Inl ErrConflict)"
  using assms
proof (rule put_committed, goal_cases)
  case (1 ex d1)
  have op: "read env (t_operations st') (a_Scope a) (stable env [a_ID a, opid]) =
      Inr \<lparr>op_Digest = putDefinitionOperationDigest env (d\<lparr>d_SourceRevision := []\<rparr>) ver, op_Definition = stored_definition d'\<rparr>"
    using put_commit_operation [OF 1(1)] 1(8) by simp
  have cur: "read env (t_definitions st') (a_Scope a) (d_ID d') = Inr (stored_definition d')"
    using put_commit_defs [OF 1(1)] 1(4,5,9) by (simp add: read_view)
  from assms(1) have ok: "check_actor env a = Inr ()" "opid \<noteq> []" "\<not> 128 < length opid"
    "\<not> d_IntervalSeconds d < MinIntervalSeconds (config_of env)"
    by (auto simp: PutDefinition_def rbind_eq_Inr if_Inl_eq_Inr)
  show ?case using op cur ok 1(2,3,11) by (simp add: PutDefinition_def Let_def put_replay_def)
qed

theorem put_replay_idempotent_witness:
  "PutDefinition ex_env 7 ex_actor ex_definition ''op'' 0 ex_st1 = Inr (stored_definition ex_d1, ex_st1)"
  using put_replay_idempotent [OF ex_step1, of 7] by (simp add: ex_sel read_def empty_store_def)

end
