(* ===== verification/Go_Text.thy ===== *)
theory Go_Text
  imports Prelude
begin

text \<open>
  The text functions of Go's standard library that the components use, on Go strings as
  byte sequences: \<open>strings.TrimSpace\<close>, \<open>Fields\<close>, \<open>Join\<close>, \<open>Split\<close>,
  \<open>IndexByte\<close>, \<open>ContainsAny\<close>, and the UTF-8 decoder of \<open>unicode/utf8\<close> with
  its validity test.  The lemmas show that decoding and encoding of runes are inverse on
  valid text, so that comparing runes and comparing bytes identify the same strings.
\<close>


section \<open>White space\<close>

text \<open>The encodings of the runes \<open>unicode.IsSpace\<close> accepts.\<close>

definition space_runes :: "string list" where
  "space_runes =
     [[CHR 0x09], [CHR 0x0A], [CHR 0x0B], [CHR 0x0C], [CHR 0x0D], [CHR 0x20],
      [CHR 0xC2, CHR 0x85], [CHR 0xC2, CHR 0xA0], [CHR 0xE1, CHR 0x9A, CHR 0x80],
      [CHR 0xE2, CHR 0x80, CHR 0x80], [CHR 0xE2, CHR 0x80, CHR 0x81], [CHR 0xE2, CHR 0x80, CHR 0x82],
      [CHR 0xE2, CHR 0x80, CHR 0x83], [CHR 0xE2, CHR 0x80, CHR 0x84], [CHR 0xE2, CHR 0x80, CHR 0x85],
      [CHR 0xE2, CHR 0x80, CHR 0x86], [CHR 0xE2, CHR 0x80, CHR 0x87], [CHR 0xE2, CHR 0x80, CHR 0x88],
      [CHR 0xE2, CHR 0x80, CHR 0x89], [CHR 0xE2, CHR 0x80, CHR 0x8A], [CHR 0xE2, CHR 0x80, CHR 0xA8],
      [CHR 0xE2, CHR 0x80, CHR 0xA9], [CHR 0xE2, CHR 0x80, CHR 0xAF], [CHR 0xE2, CHR 0x81, CHR 0x9F],
      [CHR 0xE3, CHR 0x80, CHR 0x80]]"

definition leading :: "string list \<Rightarrow> string \<Rightarrow> string option" where
  "leading rs s = find (\<lambda>r. r \<noteq> [] \<and> has_prefix r s) rs"

lemma leading_shrinks: "leading rs s = Some r \<Longrightarrow> r \<noteq> [] \<and> s \<noteq> [] \<and> has_prefix r s"
proof -
  assume "leading rs s = Some r"
  then have "r \<noteq> [] \<and> has_prefix r s" unfolding leading_def find_Some_iff by metis
  then show ?thesis by (cases s; cases r) simp_all
qed

function trim_by :: "string list \<Rightarrow> string \<Rightarrow> string" where
  "trim_by rs s = (case leading rs s of None \<Rightarrow> s | Some r \<Rightarrow> trim_by rs (drop (length r) s))"
  by pat_completeness auto
termination
  by (relation "measure (length \<circ> snd)") (auto dest: leading_shrinks)

declare trim_by.simps [simp del]

definition TrimSpace :: "string \<Rightarrow> string" where
  "TrimSpace s = rev (trim_by (map rev space_runes) (rev (trim_by space_runes s)))"

text \<open>\<open>strings.Fields\<close>: the maximal runs of bytes that are not white space.\<close>

function fields_from :: "string \<Rightarrow> string \<Rightarrow> string list" where
  "fields_from w s =
     (case leading space_runes s of
        Some r \<Rightarrow> (if w = [] then [] else [rev w]) @ fields_from [] (drop (length r) s)
      | None \<Rightarrow> (case s of [] \<Rightarrow> (if w = [] then [] else [rev w])
                | c # s' \<Rightarrow> fields_from (c # w) s'))"
  by pat_completeness auto
termination
  by (relation "measure (length \<circ> snd)") (auto dest: leading_shrinks)

declare fields_from.simps [simp del]

definition Fields :: "string \<Rightarrow> string list" where
  "Fields s = fields_from [] s"

fun Join :: "string list \<Rightarrow> string \<Rightarrow> string" where
  "Join [] sep = []"
| "Join [a] sep = a"
| "Join (a # b # r) sep = a @ sep @ Join (b # r) sep"

text \<open>\<open>strings.Split(s, sep)\<close> for a separator of one byte: one part more than separators.\<close>

fun SplitByte :: "char \<Rightarrow> string \<Rightarrow> string list" where
  "SplitByte c [] = [[]]"
| "SplitByte c (x # s) =
     (if x = c then [] # SplitByte c s
      else (case SplitByte c s of [] \<Rightarrow> [[x]] | p # ps \<Rightarrow> (x # p) # ps))"

definition ContainsAny :: "string \<Rightarrow> string \<Rightarrow> bool" where
  "ContainsAny s chars = list_ex (\<lambda>c. c \<in> set chars) s"

fun IndexByte :: "string \<Rightarrow> char \<Rightarrow> nat option" where
  "IndexByte [] c = None"
| "IndexByte (x # s) c = (if x = c then Some 0 else map_option Suc (IndexByte s c))"

lemma IndexByte_Some: "IndexByte s c = Some i \<Longrightarrow> i < length s \<and> s ! i = c \<and> c \<notin> set (take i s)"
  by (induction s arbitrary: i) (auto split: if_splits)

lemma IndexByte_None: "IndexByte s c = None \<longleftrightarrow> c \<notin> set s"
  by (induction s) auto


section \<open>UTF-8\<close>

text \<open>
  \<open>utf8.DecodeRuneInString\<close>: the rune and its width; an ill-formed sequence gives
  \<open>RuneError\<close> of width one, the empty string \<open>RuneError\<close> of width zero.
\<close>

definition RuneError :: nat where "RuneError = 65533"

definition byte :: "string \<Rightarrow> nat \<Rightarrow> nat" where
  "byte s i = (if i < length s then of_char (s ! i) else 0)"

definition in_range :: "nat \<Rightarrow> nat \<Rightarrow> nat \<Rightarrow> bool" where
  "in_range lo hi b \<longleftrightarrow> lo \<le> b \<and> b \<le> hi"

text \<open>The least and the greatest second byte after a leading byte.\<close>

definition accept_lo :: "nat \<Rightarrow> nat" where
  "accept_lo b = (if b = 224 then 160 else if b = 240 then 144 else 128)"

definition accept_hi :: "nat \<Rightarrow> nat" where
  "accept_hi b = (if b = 237 then 159 else if b = 244 then 143 else 191)"

text \<open>The width the leading byte announces, and whether the bytes that follow fit it.\<close>

definition rune_width :: "nat \<Rightarrow> nat" where
  "rune_width b =
     (if b < 128 then 1 else if in_range 194 223 b then 2 else if in_range 224 239 b then 3
      else if in_range 240 244 b then 4 else 0)"

definition well_formed :: "string \<Rightarrow> bool" where
  "well_formed s \<longleftrightarrow>
     (let b = byte s 0; n = rune_width b in
      s \<noteq> [] \<and> n \<noteq> 0 \<and> n \<le> length s \<and>
      (n \<ge> 2 \<longrightarrow> in_range (accept_lo b) (accept_hi b) (byte s 1)) \<and>
      (n \<ge> 3 \<longrightarrow> in_range 128 191 (byte s 2)) \<and>
      (n \<ge> 4 \<longrightarrow> in_range 128 191 (byte s 3)))"

definition rune_value :: "string \<Rightarrow> nat" where
  "rune_value s =
     (let b = byte s 0; n = rune_width b in
      if n = 1 then b
      else if n = 2 then (b - 192) * 64 + (byte s 1 - 128)
      else if n = 3 then (b - 224) * 4096 + (byte s 1 - 128) * 64 + (byte s 2 - 128)
      else (b - 240) * 262144 + (byte s 1 - 128) * 4096 + (byte s 2 - 128) * 64 + (byte s 3 - 128))"

definition DecodeRuneInString :: "string \<Rightarrow> nat \<times> nat" where
  "DecodeRuneInString s =
     (if s = [] then (RuneError, 0)
      else if well_formed s then (rune_value s, rune_width (byte s 0))
      else (RuneError, 1))"

lemma decode_width: "s \<noteq> [] \<Longrightarrow> 0 < snd (DecodeRuneInString s)"
  by (auto simp: DecodeRuneInString_def well_formed_def Let_def)

text \<open>The runes \<open>for range\<close> visits, and \<open>utf8.ValidString\<close>.\<close>

function runes :: "string \<Rightarrow> nat list" where
  "runes s = (if s = [] then [] else
     (case DecodeRuneInString s of (r, n) \<Rightarrow> r # runes (drop n s)))"
  by pat_completeness auto
termination
proof (relation "measure length", goal_cases)
  case (2 s r n)
  then have "0 < n" using decode_width [of s] by (metis snd_conv)
  then show ?case using 2 by simp
qed simp

function ValidString :: "string \<Rightarrow> bool" where
  "ValidString s =
     (if s = [] then True else if \<not> well_formed s then False
      else ValidString (drop (rune_width (byte s 0)) s))"
  by pat_completeness auto
termination
  by (relation "measure length") (auto simp: well_formed_def Let_def)

declare runes.simps [simp del] ValidString.simps [simp del]

text \<open>\<open>utf8.AppendRune\<close> on the runes that occur in valid text.\<close>

definition encode_rune :: "nat \<Rightarrow> nat list" where
  "encode_rune r =
     (if r < 128 then [r]
      else if r < 2048 then [192 + r div 64, 128 + r mod 64]
      else if r < 65536 then [224 + r div 4096, 128 + r div 64 mod 64, 128 + r mod 64]
      else [240 + r div 262144, 128 + r div 4096 mod 64, 128 + r div 64 mod 64, 128 + r mod 64])"

lemma byte_bound: "byte s i < 256"
  by (simp add: byte_def)

lemma low_part:
  assumes "(c::nat) < d"
  shows "(a * d + c) div d = a" and "(a * d + c) mod d = c"
  using assms by simp_all

lemma encode_rune2:
  assumes "2 \<le> x" "x < 32" "y < 64"
  shows "encode_rune (x * 64 + y) = [192 + x, 128 + y]"
  using assms by (simp add: encode_rune_def)

lemma encode_rune3:
  assumes "x < 16" "y < 64" "z < 64" "x = 0 \<longrightarrow> 32 \<le> y"
  shows "encode_rune (x * 4096 + y * 64 + z) = [224 + x, 128 + y, 128 + z]"
proof -
  let ?r = "x * 4096 + y * 64 + z"
  have eq: "?r = (x * 64 + y) * 64 + z" "?r = x * 4096 + (y * 64 + z)" by simp_all
  have "?r div 64 = x * 64 + y" "?r mod 64 = z" unfolding eq(1) by (rule low_part, rule assms)+
  moreover have "?r div 4096 = x" unfolding eq(2) by (rule low_part) (use assms in simp)
  moreover have "(x * 64 + y) mod 64 = y" by (rule low_part) (rule assms)
  moreover have "\<not> ?r < 2048" "?r < 65536" using assms by auto
  ultimately show ?thesis by (simp add: encode_rune_def)
qed

lemma encode_rune4:
  assumes "x < 8" "y < 64" "z < 64" "w < 64" "x = 0 \<longrightarrow> 16 \<le> y"
  shows "encode_rune (x * 262144 + y * 4096 + z * 64 + w) = [240 + x, 128 + y, 128 + z, 128 + w]"
proof -
  let ?r = "x * 262144 + y * 4096 + z * 64 + w"
  have eq: "?r = (x * 4096 + y * 64 + z) * 64 + w" "?r = (x * 64 + y) * 4096 + (z * 64 + w)"
    "?r = x * 262144 + (y * 4096 + z * 64 + w)" "x * 4096 + y * 64 + z = (x * 64 + y) * 64 + z" by simp_all
  have "?r div 64 = x * 4096 + y * 64 + z" "?r mod 64 = w"
    unfolding eq(1) by (rule low_part, rule assms)+
  moreover have "?r div 4096 = x * 64 + y" unfolding eq(2) by (rule low_part) (use assms in simp)
  moreover have "?r div 262144 = x" unfolding eq(3) by (rule low_part) (use assms in simp)
  moreover have "(x * 4096 + y * 64 + z) mod 64 = z" unfolding eq(4) by (rule low_part) (rule assms)
  moreover have "(x * 64 + y) mod 64 = y" by (rule low_part) (rule assms)
  moreover have "\<not> ?r < 65536" using assms by auto
  ultimately show ?thesis by (simp add: encode_rune_def)
qed

lemma accept_hi_le: "accept_hi b \<le> 191"
  by (simp add: accept_hi_def)

lemma accept_lo_ge: "128 \<le> accept_lo b"
  by (simp add: accept_lo_def)

text \<open>A well-formed sequence is the encoding of the rune it decodes to.\<close>

lemma take_bytes:
  "n \<le> length s \<Longrightarrow> map of_char (take n s) = map (byte s) [0..<n]"
  by (rule nth_equalityI) (auto simp: byte_def)

lemma well_formed_encode:
  assumes "well_formed s"
  shows "encode_rune (rune_value s) = map of_char (take (rune_width (byte s 0)) s)"
proof -
  let ?b = "byte s 0" and ?n = "rune_width (byte s 0)"
  have n: "?n \<in> {1, 2, 3, 4}" "?n \<le> length s"
    using assms by (auto simp: well_formed_def Let_def rune_width_def split: if_splits)
  have second: "?n \<ge> 2 \<Longrightarrow> accept_lo ?b \<le> byte s 1 \<and> byte s 1 \<le> 191 \<and> 128 \<le> byte s 1"
    using assms accept_hi_le [of ?b] accept_lo_ge [of ?b]
    by (auto simp: well_formed_def Let_def in_range_def)
  have third: "?n \<ge> 3 \<Longrightarrow> 128 \<le> byte s 2 \<and> byte s 2 \<le> 191"
    and fourth: "?n \<ge> 4 \<Longrightarrow> 128 \<le> byte s 3 \<and> byte s 3 \<le> 191"
    using assms by (auto simp: well_formed_def Let_def in_range_def)
  have lead: "?n = 1 \<Longrightarrow> ?b < 128" "?n = 2 \<Longrightarrow> 194 \<le> ?b \<and> ?b \<le> 223"
    "?n = 3 \<Longrightarrow> 224 \<le> ?b \<and> ?b \<le> 239" "?n = 4 \<Longrightarrow> 240 \<le> ?b \<and> ?b \<le> 244"
    by (auto simp: rune_width_def in_range_def split: if_splits)
  have up: "[0..<1] = [0]" "[0..<2] = [0, 1]" "[0..<3] = [0, 1, 2]" "[0..<4] = [0, 1, 2, 3]"
    by (simp_all add: upt_rec)
  have low: "?b = 224 \<Longrightarrow> accept_lo ?b = 160" "?b = 240 \<Longrightarrow> accept_lo ?b = 144"
    by (simp_all add: accept_lo_def)
  from n(1) consider "?n = 1" | "?n = 2" | "?n = 3" | "?n = 4" by auto
  then show ?thesis
  proof cases
    case 1
    then show ?thesis using lead n take_bytes [of 1 s] up by (simp add: rune_value_def Let_def encode_rune_def)
  next
    case 2
    have "encode_rune ((?b - 192) * 64 + (byte s 1 - 128)) = [192 + (?b - 192), 128 + (byte s 1 - 128)]"
      using lead(2) [OF 2] second 2 by (intro encode_rune2) linarith+
    also have "\<dots> = [?b, byte s 1]" using lead(2) [OF 2] second 2 by simp
    finally show ?thesis
      using 2 n take_bytes [of 2 s] unfolding rune_value_def Let_def up by simp
  next
    case 3
    have "encode_rune ((?b - 224) * 4096 + (byte s 1 - 128) * 64 + (byte s 2 - 128)) =
      [224 + (?b - 224), 128 + (byte s 1 - 128), 128 + (byte s 2 - 128)]"
      using lead(3) [OF 3] second third low(1) 3 by (intro encode_rune3) linarith+
    also have "\<dots> = [?b, byte s 1, byte s 2]" using lead(3) [OF 3] second third 3 by simp
    finally show ?thesis
      using 3 n take_bytes [of 3 s] unfolding rune_value_def Let_def up by simp
  next
    case 4
    have "encode_rune ((?b - 240) * 262144 + (byte s 1 - 128) * 4096 + (byte s 2 - 128) * 64 + (byte s 3 - 128)) =
      [240 + (?b - 240), 128 + (byte s 1 - 128), 128 + (byte s 2 - 128), 128 + (byte s 3 - 128)]"
      using lead(4) [OF 4] second third fourth low(2) 4 by (intro encode_rune4) linarith+
    also have "\<dots> = [?b, byte s 1, byte s 2, byte s 3]" using lead(4) [OF 4] second third fourth 4 by simp
    finally show ?thesis
      using 4 n take_bytes [of 4 s] unfolding rune_value_def Let_def up by simp
  qed
qed

lemma runes_Nil [simp]: "runes [] = []"
  by (simp add: runes.simps)

lemma ValidString_Nil [simp]: "ValidString []"
  by (simp add: ValidString.simps)

lemma runes_Cons:
  assumes "ValidString s" "s \<noteq> []"
  shows "runes s = rune_value s # runes (drop (rune_width (byte s 0)) s)"
    and "ValidString (drop (rune_width (byte s 0)) s)" and "well_formed s"
proof -
  show wf: "well_formed s" and "ValidString (drop (rune_width (byte s 0)) s)"
    using assms ValidString.simps [of s] by (auto split: if_splits)
  show "runes s = rune_value s # runes (drop (rune_width (byte s 0)) s)"
    using assms wf by (subst runes.simps) (simp add: DecodeRuneInString_def)
qed

lemma runes_encode: "ValidString s \<Longrightarrow> map of_char s = concat (map encode_rune (runes s))"
proof (induction s rule: ValidString.induct)
  case (1 s)
  show ?case
  proof (cases "s = []")
    case False
    note parts = runes_Cons [OF "1.prems" False]
    have "map of_char s = map of_char (take (rune_width (byte s 0)) s) @ map of_char (drop (rune_width (byte s 0)) s)"
      by (metis append_take_drop_id map_append)
    also have "map of_char (drop (rune_width (byte s 0)) s) = concat (map encode_rune (runes (drop (rune_width (byte s 0)) s)))"
      using "1.IH" [OF False _ parts(2)] parts(3) by simp
    finally show ?thesis using parts well_formed_encode [OF parts(3)] by simp
  qed simp
qed

text \<open>Valid text is determined by its runes.\<close>

lemma runes_inj: "ValidString s \<Longrightarrow> ValidString t \<Longrightarrow> runes s = runes t \<longleftrightarrow> s = t"
proof
  assume "ValidString s" "ValidString t" "runes s = runes t"
  then have "map (of_char :: char \<Rightarrow> nat) s = map of_char t" by (simp add: runes_encode)
  then show "s = t" by (rule map_injective) (auto simp: inj_on_def)
qed simp

end
