(* ===== verification/Go_Number.thy ===== *)
theory Go_Number
  imports Complex_Main Prelude Go_Text "HOL-Library.Word"
begin

text \<open>
  The numbers of Go's standard library that the components use: bit lengths and decimal
  text of \<open>big.Int\<close> and \<open>big.Rat\<close>, unsigned varints and big-endian integers of
  \<open>encoding/binary\<close>, and IEEE 754 floating point.  A \<open>float64\<close> is its 64 bits; a
  finite one stands for an integer multiple of \<open>2^-1074\<close>, the least positive
  \<open>float64\<close>, and every operation rounds the exact result to the nearest multiple that
  fits, ties to even.
\<close>


section \<open>Prefix-free encodings\<close>

text \<open>
  An encoding no value of which starts another: what follows an encoded value can be told
  from it.  A sequence of encoded values is then itself told apart.
\<close>

locale prefix_free =
  fixes enc :: "'a \<Rightarrow> 'b list"
  assumes enc_cancel: "enc a @ r = enc b @ s \<Longrightarrow> a = b \<and> r = s"
begin

lemma enc_inj: "enc a = enc b \<longleftrightarrow> a = b"
  using enc_cancel [of a "[]" b "[]"] by auto

lemma sequence_cancel:
  "length xs = length ys \<Longrightarrow> concat (map enc xs) @ r = concat (map enc ys) @ s \<Longrightarrow> xs = ys \<and> r = s"
proof (induction xs arbitrary: ys)
  case Nil
  then show ?case by simp
next
  case (Cons x xs)
  then obtain y zs where ys: "ys = y # zs" "length xs = length zs" by (cases ys) auto
  from Cons.prems(2) have "enc x @ (concat (map enc xs) @ r) = enc y @ (concat (map enc zs) @ s)"
    by (simp add: ys)
  then have "x = y \<and> concat (map enc xs) @ r = concat (map enc zs) @ s" by (rule enc_cancel)
  then show ?case using Cons.IH [OF ys(2)] ys by simp
qed

lemma sequence_inj:
  "length xs = length ys \<Longrightarrow> concat (map enc xs) = concat (map enc ys) \<longleftrightarrow> xs = ys"
  using sequence_cancel [of xs ys "[]" "[]"] by auto

end


section \<open>Varints, frames and big-endian integers\<close>

text \<open>\<open>binary.PutUvarint\<close>: seven bits a byte, the least significant first.\<close>

fun PutUvarint :: "nat \<Rightarrow> string" where
  "PutUvarint n = (if n < 128 then [char_of n] else char_of (n mod 128 + 128) # PutUvarint (n div 128))"

declare PutUvarint.simps [simp del]

lemma of_char_of_small: "n < 256 \<Longrightarrow> of_char (char_of n) = (n :: nat)"
  by simp

lemma char_of_small_inj: "m < 256 \<Longrightarrow> n < 256 \<Longrightarrow> char_of (m::nat) = char_of n \<Longrightarrow> m = n"
  by (metis of_char_of_small)

lemma PutUvarint_cancel: "PutUvarint m @ r = PutUvarint n @ s \<Longrightarrow> m = n \<and> r = s"
proof (induction m arbitrary: n rule: PutUvarint.induct)
  case (1 m)
  consider (small) "m < 128" | (large) "\<not> m < 128" by blast
  then show ?case
  proof cases
    case small
    then have "char_of m # r = PutUvarint n @ s" using "1.prems" by (simp add: PutUvarint.simps [of m])
    then show ?thesis using small
      by (subst (asm) PutUvarint.simps) (auto split: if_splits dest!: char_of_small_inj [rotated 2])
  next
    case large
    then have head: "char_of (m mod 128 + 128) # (PutUvarint (m div 128) @ r) = PutUvarint n @ s"
      using "1.prems" by (simp add: PutUvarint.simps [of m])
    have n: "\<not> n < 128"
    proof
      assume "n < 128"
      then have "char_of (m mod 128 + 128) = char_of n" using head by (simp add: PutUvarint.simps [of n])
      then show False using char_of_small_inj [of "m mod 128 + 128" n] \<open>n < 128\<close> by simp
    qed
    then have eqs: "char_of (m mod 128 + 128) = char_of (n mod 128 + 128)"
      and rest: "PutUvarint (m div 128) @ r = PutUvarint (n div 128) @ s"
      using head by (simp_all add: PutUvarint.simps [of n])
    have "m mod 128 = n mod 128"
      using char_of_small_inj [OF _ _ eqs] by simp
    moreover have "m div 128 = n div 128 \<and> r = s" by (rule "1.IH" [OF large rest])
    ultimately show ?thesis by (metis div_mult_mod_eq)
  qed
qed

interpretation varint: prefix_free PutUvarint
  by unfold_locales (rule PutUvarint_cancel)

fun big_endian :: "nat \<Rightarrow> nat \<Rightarrow> string" where
  "big_endian 0 x = []"
| "big_endian (Suc n) x = big_endian n (x div 256) @ [char_of (x mod 256)]"

lemma length_big_endian [simp]: "length (big_endian n x) = n"
  by (induction n arbitrary: x) auto

lemma big_endian_inj: "x < 256 ^ n \<Longrightarrow> y < 256 ^ n \<Longrightarrow> big_endian n x = big_endian n y \<longleftrightarrow> x = y"
proof (induction n arbitrary: x y)
  case 0
  then show ?case by simp
next
  case (Suc n)
  have bounds: "x div 256 < 256 ^ n" "y div 256 < 256 ^ n"
    using Suc.prems by (simp_all add: less_mult_imp_div_less mult.commute)
  have last: "char_of (x mod 256) = char_of (y mod 256) \<longleftrightarrow> x mod 256 = y mod 256"
    by (metis char_of_small_inj mod_less_divisor zero_less_numeral)
  show ?case using Suc.IH [OF bounds] last by (auto simp: append_eq_append_conv) (metis div_mult_mod_eq)
qed


section \<open>Integers and rationals\<close>

text \<open>\<open>big.Int.BitLen\<close> of the magnitude.\<close>

fun BitLen :: "nat \<Rightarrow> nat" where
  "BitLen n = (if n = 0 then 0 else Suc (BitLen (n div 2)))"

declare BitLen.simps [simp del]

lemma BitLen_le: "BitLen n \<le> k \<longleftrightarrow> n < 2 ^ k"
proof (induction n arbitrary: k rule: BitLen.induct)
  case (1 n)
  show ?case
  proof (cases "n = 0")
    case True
    then show ?thesis by (simp add: BitLen.simps)
  next
    case False
    show ?thesis
    proof (cases k)
      case 0
      then show ?thesis using False by (subst BitLen.simps) simp
    next
      case (Suc j)
      have "BitLen n \<le> k \<longleftrightarrow> n div 2 < 2 ^ j" using False Suc "1.IH" [of j] by (subst BitLen.simps) simp
      also have "\<dots> \<longleftrightarrow> n < 2 ^ k" using Suc by auto
      finally show ?thesis .
    qed
  qed
qed

lemma show_nat_length_le: "length (show_nat n) \<le> Suc k \<longleftrightarrow> n < 10 ^ Suc k"
proof (induction n arbitrary: k rule: show_nat.induct)
  case (1 n)
  show ?case
  proof (cases "n < 10")
    case True
    then have "n < 10 ^ Suc k" by (metis le_add1 mult_le_mono2 nat_mult_1_right one_le_numeral one_le_power order_less_le_trans plus_1_eq_Suc power_add power_one_right)
    then show ?thesis using True by (subst show_nat.simps) simp
  next
    case False
    show ?thesis
    proof (cases k)
      case 0
      have "length (show_nat (n div 10)) > 0" by simp
      then show ?thesis using False 0 by (subst show_nat.simps) auto
    next
      case (Suc j)
      have "length (show_nat n) \<le> Suc k \<longleftrightarrow> n div 10 < 10 ^ k"
        using False Suc "1.IH" [of j] by (subst show_nat.simps) simp
      also have "\<dots> \<longleftrightarrow> n < 10 ^ Suc k" by auto
      finally show ?thesis .
    qed
  qed
qed

text \<open>\<open>big.Int.SetString(text, 10)\<close>.\<close>

definition signed :: "string \<Rightarrow> bool" where
  "signed s \<longleftrightarrow> s \<noteq> [] \<and> (hd s = CHR ''+'' \<or> hd s = CHR ''-'')"

definition unsigned_part :: "string \<Rightarrow> string" where
  "unsigned_part s = (if signed s then tl s else s)"

definition sign_of :: "string \<Rightarrow> int" where
  "sign_of s = (if s \<noteq> [] \<and> hd s = CHR ''-'' then - 1 else 1)"

definition IntSetString :: "string \<Rightarrow> int option" where
  "IntSetString s =
     (let ds = unsigned_part s in
      if ds = [] \<or> \<not> list_all is_digit ds then None else Some (sign_of s * int (nat_of_digits ds)))"

lemma IntSetString_show: "IntSetString (show_int i) = Some i"
proof -
  have hd: "hd (show_nat n) \<noteq> CHR ''-'' \<and> hd (show_nat n) \<noteq> CHR ''+''" for n
    using hd_show_nat [of n] by (auto simp: is_digit_def)
  show ?thesis
    using hd by (auto simp: IntSetString_def show_int_def unsigned_part_def signed_def sign_of_def Let_def show_nat_digits)
qed

text \<open>
  \<open>big.Rat.SetString\<close> on decimal text: sign, digits with an optional point, an optional
  decimal exponent.
\<close>

definition scale10 :: "int \<Rightarrow> int \<Rightarrow> rat" where
  "scale10 n e = (if 0 \<le> e then of_int (n * 10 ^ nat e) else of_int n / 10 ^ nat (- e))"

definition exponent_value :: "string \<Rightarrow> int option" where
  "exponent_value s =
     (if s = [] then Some 0
      else if hd s = CHR ''e'' \<or> hd s = CHR ''E'' then IntSetString (tl s) else None)"

definition RatSetString :: "string \<Rightarrow> rat option" where
  "RatSetString s =
     (let u = unsigned_part s;
          ip = takeWhile is_digit u; r = dropWhile is_digit u;
          point = (r \<noteq> [] \<and> hd r = CHR ''.'');
          fp = (if point then takeWhile is_digit (tl r) else []);
          r' = (if point then dropWhile is_digit (tl r) else r)
      in if ip @ fp = [] then None
         else map_option (\<lambda>e. scale10 (sign_of s * int (nat_of_digits (ip @ fp))) (e - int (length fp)))
                (exponent_value r'))"

text \<open>\<open>big.Rat.RatString\<close>: the denominator is left out when it is one.\<close>

definition RatString :: "rat \<Rightarrow> string" where
  "RatString q = (case quotient_of q of (a, b) \<Rightarrow>
     if b = 1 then show_int a else show_int a @ CHR ''/'' # show_int b)"

lemma show_int_no_slash: "CHR ''/'' \<notin> set (show_int i)"
  using show_nat_digits [of "nat i"] show_nat_digits [of "nat (- i)"]
  by (auto simp: show_int_def list_all_iff is_digit_def)

lemma split_at_unique:
  "c \<notin> set a \<Longrightarrow> c \<notin> set b \<Longrightarrow> a @ c # x = b @ c # y \<longleftrightarrow> a = b \<and> x = y"
proof (induction a arbitrary: b)
  case Nil
  then show ?case by (cases b) auto
next
  case (Cons z a)
  then show ?case by (cases b) auto
qed

lemma RatString_inj: "RatString p = RatString q \<longleftrightarrow> p = q"
proof
  assume eq: "RatString p = RatString q"
  obtain a b c d where q: "quotient_of p = (a, b)" "quotient_of q = (c, d)" by fastforce
  have slash: "CHR ''/'' \<in> set (RatString p) \<longleftrightarrow> b \<noteq> 1" "CHR ''/'' \<in> set (RatString q) \<longleftrightarrow> d \<noteq> 1"
    using show_int_no_slash by (auto simp: RatString_def q)
  then have "b = 1 \<longleftrightarrow> d = 1" using eq by simp
  then have "a = c \<and> b = d"
    using eq show_int_no_slash [of a] show_int_no_slash [of c]
    by (auto simp: RatString_def q show_int_inj split_at_unique split: if_splits)
  then show "p = q" using q by (metis quotient_of_inject)
qed simp


section \<open>Floating point\<close>

type_synonym float64 = "64 word"
type_synonym float32 = "32 word"

text \<open>
  The magnitude bits \<open>m\<close> (exponent and fraction) of a \<open>float64\<close> stand for
  \<open>magnitude m\<close> times \<open>2^-1074\<close>.
\<close>

definition magnitude :: "nat \<Rightarrow> nat" where
  "magnitude m = (if m div 2 ^ 52 = 0 then m mod 2 ^ 52
                  else (2 ^ 52 + m mod 2 ^ 52) * 2 ^ (m div 2 ^ 52 - 1))"

definition mag_bits :: "float64 \<Rightarrow> nat" where "mag_bits w = unat w mod 2 ^ 63"
definition sign_bit :: "float64 \<Rightarrow> bool" where "sign_bit w \<longleftrightarrow> 2 ^ 63 \<le> unat w"

definition is_finite64 :: "float64 \<Rightarrow> bool" where
  "is_finite64 w \<longleftrightarrow> mag_bits w < 2047 * 2 ^ 52"

text \<open>The value of a finite \<open>float64\<close> in units of \<open>2^-1074\<close>, and as a rational.\<close>

definition f64_units :: "float64 \<Rightarrow> int" where
  "f64_units w = (if sign_bit w then - int (magnitude (mag_bits w)) else int (magnitude (mag_bits w)))"

definition f64_value :: "float64 \<Rightarrow> rat" where
  "f64_value w = of_int (f64_units w) / 2 ^ 1074"

definition float_bits :: "bool \<Rightarrow> nat \<Rightarrow> float64" where
  "float_bits neg m = word_of_nat ((if neg then 2 ^ 63 else 0) + m)"

text \<open>Rounding \<open>a / b\<close> units to the nearest \<open>float64\<close>, ties to even; too large is infinite.\<close>

definition div_even :: "nat \<Rightarrow> nat \<Rightarrow> nat" where
  "div_even a d = (let q = a div d; r = a mod d in
     if 2 * r < d \<or> (2 * r = d \<and> even q) then q else q + 1)"

definition round_bits :: "nat \<Rightarrow> nat \<Rightarrow> nat" where
  "round_bits a b =
     (let k = BitLen (a div b) - 53 in min (2047 * 2 ^ 52) (k * 2 ^ 52 + div_even a (b * 2 ^ k)))"

definition round64 :: "bool \<Rightarrow> nat \<Rightarrow> nat \<Rightarrow> float64" where
  "round64 neg a b = float_bits neg (round_bits a b)"

text \<open>Addition of two finite \<open>float64\<close>; an exact zero is positive unless both are negative.\<close>

definition f64_add :: "float64 \<Rightarrow> float64 \<Rightarrow> float64" where
  "f64_add a b = (let s = f64_units a + f64_units b in
     round64 (s < 0 \<or> (s = 0 \<and> sign_bit a \<and> sign_bit b)) (nat \<bar>s\<bar>) 1)"

text \<open>\<open>float64(v)\<close> of a \<open>float32\<close>, exact for every finite value.\<close>

definition f32_to_f64 :: "float32 \<Rightarrow> float64" where
  "f32_to_f64 v =
     (let n = unat v; neg = (2 ^ 31 \<le> n); e = n div 2 ^ 23 mod 256; f = n mod 2 ^ 23 in
      if e = 255 then float_bits neg (2047 * 2 ^ 52 + f * 2 ^ 29)
      else round64 neg ((if e = 0 then f else (2 ^ 23 + f) * 2 ^ (e - 1)) * 2 ^ 925) 1)"

text \<open>
  \<open>strconv.ParseFloat(text, 64)\<close> on decimal text: the nearest \<open>float64\<close>; \<open>None\<close>
  is the syntax or range error.
\<close>

definition ParseFloat :: "string \<Rightarrow> float64 option" where
  "ParseFloat s =
     (case RatSetString s of
        None \<Rightarrow> None
      | Some q \<Rightarrow> (case quotient_of q of (a, b) \<Rightarrow>
          let w = round64 (sign_of s < 0) (nat \<bar>a\<bar> * 2 ^ 1074) (nat b) in
          if is_finite64 w then Some w else None))"

lemma magnitude_step: "magnitude m < magnitude (Suc m)"
proof -
  let ?N = "2 ^ 52 :: nat"
  let ?e = "m div ?N" and ?f = "m mod ?N"
  have f: "?f < ?N" by simp
  show ?thesis
  proof (cases "Suc ?f < ?N")
    case True
    then have "Suc m div ?N = ?e" "Suc m mod ?N = Suc ?f"
      by (simp_all add: div_Suc mod_Suc)
    then show ?thesis by (simp only: magnitude_def) auto
  next
    case False
    then have last: "?f = ?N - 1" using f by linarith
    have next': "Suc m div ?N = Suc ?e" "Suc m mod ?N = 0"
      using last by (simp_all add: div_Suc mod_Suc)
    have pow: "2 ^ ?e = (if ?e = 0 then 1 else 2 * 2 ^ (?e - 1) :: nat)"
      by (simp add: power_eq_if)
    show ?thesis unfolding magnitude_def next' using last pow by auto
  qed
qed

lemma magnitude_mono: "m < n \<longleftrightarrow> magnitude m < magnitude n"
  by (metis lift_Suc_mono_less_iff magnitude_step)

lemma magnitude_inj: "magnitude m = magnitude n \<longleftrightarrow> m = n"
  by (metis linorder_neq_iff magnitude_mono)

lemma magnitude_0 [simp]: "magnitude m = 0 \<longleftrightarrow> m = 0"
proof -
  have "magnitude 0 = 0" by (simp add: magnitude_def)
  then show ?thesis by (metis magnitude_inj)
qed

lemma unat_parts: "unat w = (if sign_bit w then 2 ^ 63 else 0) + mag_bits w" for w :: float64
proof -
  have "unat w < 2 ^ 63 + 2 ^ 63" using unsigned_less [of w] by simp
  then have "2 ^ 63 \<le> unat w \<Longrightarrow> unat w mod 2 ^ 63 = unat w - 2 ^ 63"
    by (metis le_mod_geq less_diff_conv2 mod_less)
  then show ?thesis by (auto simp: sign_bit_def mag_bits_def)
qed

lemma word64_parts: "a = b \<longleftrightarrow> sign_bit a = sign_bit b \<and> mag_bits a = mag_bits b" for a b :: float64
proof
  assume "sign_bit a = sign_bit b \<and> mag_bits a = mag_bits b"
  then have "unat a = unat b" by (simp add: unat_parts)
  then show "a = b" by (simp add: word_unat_eq_iff)
qed simp

text \<open>Apart from negative zero, a \<open>float64\<close> is determined by its value.\<close>

lemma f64_units_inj:
  assumes "\<not> (sign_bit a \<and> mag_bits a = 0)" "\<not> (sign_bit b \<and> mag_bits b = 0)"
  shows "f64_units a = f64_units b \<longleftrightarrow> a = b"
proof -
  have pos: "sign_bit a \<Longrightarrow> 0 < magnitude (mag_bits a)" "sign_bit b \<Longrightarrow> 0 < magnitude (mag_bits b)"
    using assms by (metis magnitude_0 neq0_conv)+
  show ?thesis
    unfolding f64_units_def word64_parts [of a b] using pos
    by (cases "sign_bit a"; cases "sign_bit b") (auto simp: magnitude_inj simp del: magnitude_0)
qed

text \<open>Rounding gives back every value that is representable: exact results stay exact.\<close>

lemma BitLen_eq: "2 ^ k \<le> n \<Longrightarrow> n < 2 ^ Suc k \<Longrightarrow> BitLen n = Suc k"
  using BitLen_le [of n "Suc k"] BitLen_le [of n k] by linarith

lemma div_even_exact: "0 < d \<Longrightarrow> div_even (a * d) d = a"
  by (simp add: div_even_def Let_def)

lemma round_bits_exact:
  assumes "m < 2047 * 2 ^ 52"
  shows "round_bits (magnitude m) 1 = m"
proof (cases "m div 2 ^ 52 = 0")
  case True
  then have small: "m < 2 ^ 52" by (simp add: div_eq_0_iff)
  then have "magnitude m = m" by (simp add: magnitude_def)
  moreover have "BitLen m - 53 = 0" using BitLen_le [of m 53] small by simp
  ultimately show ?thesis using assms by (simp add: round_bits_def div_even_def)
next
  case False
  let ?f = "m mod 2 ^ 52"
  obtain e where e: "m div 2 ^ 52 = Suc e" using False not0_implies_Suc by blast
  have m: "m = Suc e * 2 ^ 52 + ?f" using e div_mult_mod_eq [of m "2 ^ 52"] by simp
  have f: "?f < 2 ^ 52" by simp
  have mag: "magnitude m = (2 ^ 52 + ?f) * 2 ^ e" using e by (simp add: magnitude_def)
  have lower: "2 ^ (52 + e) \<le> magnitude m" unfolding mag power_add by (rule mult_le_mono1) simp
  have "(2 ^ 52 + ?f) * 2 ^ e < 2 ^ 53 * 2 ^ e" using f by (intro mult_less_mono1) simp_all
  then have "magnitude m < 2 ^ Suc (52 + e)" unfolding mag by (simp add: power_add)
  then have "BitLen (magnitude m) - 53 = e" using BitLen_eq [OF lower] by simp
  moreover have "div_even (magnitude m) (2 ^ e) = 2 ^ 52 + ?f" unfolding mag by (rule div_even_exact) simp
  moreover have "e * 2 ^ 52 + (2 ^ 52 + ?f) = m" using m by simp
  ultimately show ?thesis using assms by (simp add: round_bits_def)
qed

end
