(* ===== verification/Result_Values.thy ===== *)
theory Result_Values
  imports Go_Number
begin

text \<open>
  The values of a captured result snapshot (\<open>src/pkg/resultops/resultops.go\<close>): the Go
  values a cell may hold, the declared column types, and the exact conversion of a cell to
  the value its declared type stands for.  Values that live behind a pointer carry their
  address, and copying threads the next free address, so that what a copy shares with its
  original can be stated.
\<close>

section \<open>Data\<close>

type_synonym addr = nat
type_synonym gotype = string

datatype any =
    VNil
  | VString string | VBool bool
  | VInt "64 word" | VInt8 "8 word" | VInt16 "16 word" | VInt32 "32 word" | VInt64 "64 word"
  | VUint "64 word" | VUint8 "8 word" | VUint16 "16 word" | VUint32 "32 word" | VUint64 "64 word"
  | VFloat32 float32 | VFloat64 float64
  | VNumber string
  | VTime time string
  | VBytes "addr option" string
  | VBigInt int | VBigIntPtr "(addr \<times> int) option"
  | VBigRat rat | VBigRatPtr "(addr \<times> rat) option"
  | VSlice gotype addr "any list" | VNilSlice gotype
  | VArray gotype "any list"
  | VMap gotype addr bool "(string \<times> any) list" | VNilMap gotype
  | VPointer gotype | VStruct gotype | VScalar gotype

datatype ops_error =
    ErrNoGroupColumns
  | EmptyColumnName nat | DuplicateColumn string | RowWidth nat nat nat
  | AtCell nat string ops_error | AtRow nat ops_error | AtColumn string ops_error
  | SelectedTwice string | UnknownColumn string
  | MalformedSuffix | Unterminated | MalformedParameters | MissingBase | UnsupportedSuffix string
  | EmptyParameters | EmptyParameter | BadParameter string
  | UnsupportedDeclared string ops_error
  | NoParameters string | BadLength string | BadPrecisionScale string
  | BadFloatPrecision string | BadTemporalPrecision string | UnknownBase string
  | NotText | NotInteger | NotDecimal | NotFloat | NotBoolean | NotTime | NotBytes
  | BadInteger string | BadDecimal | BadExponent | OverBudget string
  | DeclaredValue string ops_error
  | CyclicValue gotype | UnsupportedMapKey gotype | UnsupportedMutable gotype | UnsupportedStruct gotype
  | RowMissing nat | SumOverflow nat
  | EmptyAlias nat | DuplicateAlias string | AliasCollides string
  | UnsupportedAverage | UnsupportedFunction string | NotNumeric string
  | AtAggregate string string string ops_error

record Column =
  Name :: string
  Type :: string

record Cell =
  Present :: bool
  Value :: any

type_synonym Row = "Cell list"

record Snapshot =
  columns :: "Column list"
  rows :: "Row list"

datatype valueType =
    typeText | typeInteger | typeDecimal | typeFloat | typeBoolean | typeTemporal | typeBinary

text \<open>A normalized value: what \<open>normalizeValue\<close> returns for each kind.\<close>

datatype norm =
    NText string | NInteger int | NDecimal rat | NFloat float64 | NBoolean bool
  | NTemporal time | NBinary string

record normalizedCell =
  state :: nat
  norm_value :: "norm option"

definition maxNumericDigits :: nat where "maxNumericDigits = 1000"
definition maxNumericBits :: nat where "maxNumericBits = 3322"
definition maxDecimalValueDigits :: nat where "maxDecimalValueDigits = maxNumericDigits * 2"
definition maxDecimalValueBits :: nat where "maxDecimalValueBits = maxNumericBits * 2"
definition maxDecimalTextLength :: nat where "maxDecimalTextLength = 2048"
definition maxDecimalExponent :: nat where "maxDecimalExponent = 1000"

lemmas budget_defs = maxNumericDigits_def maxNumericBits_def maxDecimalValueDigits_def
  maxDecimalValueBits_def maxDecimalTextLength_def maxDecimalExponent_def


section \<open>Declared types\<close>

definition normalizeTypeName :: "string \<Rightarrow> string" where
  "normalizeTypeName raw = ToUpper (Join (Fields (TrimSpace raw)) '' '')"

definition parse_parameter :: "string \<Rightarrow> ops_error + int" where
  "parse_parameter part0 =
     (let part = TrimSpace part0 in
      if part = [] then Inl EmptyParameter
      else (case ParseInt part of None \<Rightarrow> Inl (BadParameter part) | Some v \<Rightarrow> Inr v))"

definition type_suffix :: "string \<Rightarrow> string \<Rightarrow> ops_error + string" where
  "type_suffix prefix suffix =
     (if suffix \<noteq> [] then
        if suffix \<noteq> ''WITH TIME ZONE'' \<and> suffix \<noteq> ''WITHOUT TIME ZONE''
        then Inl (UnsupportedSuffix suffix) else Inr (prefix @ '' '' @ suffix)
      else Inr prefix)"

definition parseDeclaredType :: "string \<Rightarrow> ops_error + (string \<times> int list)" where
  "parseDeclaredType typ =
     (if typ = [] \<or> ContainsAny typ ''[]'' then Inl MalformedSuffix
      else case IndexByte typ CHR ''('' of
        None \<Rightarrow> Inr (typ, [])
      | Some open' \<Rightarrow>
          (case IndexByte (drop (open' + 1) typ) CHR '')'' of
             None \<Rightarrow> Inl Unterminated
           | Some closeRelative \<Rightarrow>
               let inner = take closeRelative (drop (open' + 1) typ);
                   after = drop (open' + 1 + closeRelative + 1) typ in
               if ContainsAny inner ''()'' \<or> ContainsAny after ''()'' then Inl MalformedParameters
               else
                 let prefix = TrimSpace (take open' typ); params = TrimSpace inner; suffix = TrimSpace after in
                 if prefix = [] then Inl MissingBase
                 else rbind (type_suffix prefix suffix) (\<lambda>base.
                   if params = [] then Inl EmptyParameters
                   else rbind (rmapl parse_parameter (SplitByte CHR '','' params)) (\<lambda>args.
                     Inr (base, args)))))"

definition isLengthType :: "string \<Rightarrow> bool" where
  "isLengthType base \<longleftrightarrow>
     base \<in> {''CHAR'', ''CHARACTER'', ''VARCHAR'', ''NVARCHAR'', ''NCHAR'', ''BINARY'', ''VARBINARY''}"

definition validPrecisionScale :: "int list \<Rightarrow> bool" where
  "validPrecisionScale args \<longleftrightarrow>
     (length args = 1 \<or> length args = 2) \<and> 1 \<le> args ! 0 \<and> args ! 0 \<le> 1000 \<and>
     (length args = 1 \<or> (0 \<le> args ! 1 \<and> args ! 1 \<le> args ! 0))"

definition one_arg :: "int \<Rightarrow> int \<Rightarrow> int list \<Rightarrow> bool" where
  "one_arg lo hi args \<longleftrightarrow> length args = 1 \<and> lo \<le> args ! 0 \<and> args ! 0 \<le> hi"

text \<open>The types that may carry a length: text and binary.\<close>

definition length_typed :: "string \<Rightarrow> int list \<Rightarrow> valueType \<Rightarrow> ops_error + valueType" where
  "length_typed base args kind =
     (if args \<noteq> [] \<and> \<not> isLengthType base then Inl (NoParameters base)
      else if args \<noteq> [] \<and> \<not> one_arg 1 1000000 args then Inl (BadLength base)
      else Inr kind)"

definition unparameterized :: "string \<Rightarrow> int list \<Rightarrow> valueType \<Rightarrow> ops_error + valueType" where
  "unparameterized base args kind = (if args \<noteq> [] then Inl (NoParameters base) else Inr kind)"

definition text_types :: "string list" where
  "text_types = [''TEXT'', ''STRING'', ''CHAR'', ''CHARACTER'', ''VARCHAR'', ''NVARCHAR'', ''NCHAR'', ''CLOB'', ''UUID'']"
definition integer_types :: "string list" where
  "integer_types = [''INT'', ''INTEGER'', ''INT2'', ''INT4'', ''INT8'', ''SMALLINT'', ''BIGINT'', ''TINYINT'',
     ''MEDIUMINT'', ''SERIAL'', ''BIGSERIAL'', ''UNSIGNED'']"
definition decimal_types :: "string list" where "decimal_types = [''DECIMAL'', ''NUMERIC'', ''NUMBER'']"
definition float_types :: "string list" where
  "float_types = [''REAL'', ''FLOAT'', ''FLOAT4'', ''FLOAT8'', ''DOUBLE'', ''DOUBLE PRECISION'']"
definition boolean_types :: "string list" where "boolean_types = [''BOOL'', ''BOOLEAN'']"
definition temporal_types :: "string list" where
  "temporal_types = [''DATE'', ''TIME'', ''DATETIME'', ''TIMESTAMP'', ''TIMESTAMPTZ'',
     ''TIMESTAMP WITH TIME ZONE'', ''TIMESTAMP WITHOUT TIME ZONE'']"
definition precise_temporal_types :: "string list" where
  "precise_temporal_types = [''TIME'', ''DATETIME'', ''TIMESTAMP'',
     ''TIMESTAMP WITH TIME ZONE'', ''TIMESTAMP WITHOUT TIME ZONE'']"
definition binary_types :: "string list" where
  "binary_types = [''BINARY'', ''VARBINARY'', ''BLOB'', ''BYTEA'', ''IMAGE'']"

lemmas type_lists = text_types_def integer_types_def decimal_types_def float_types_def
  boolean_types_def temporal_types_def precise_temporal_types_def binary_types_def

definition base_type :: "string \<Rightarrow> int list \<Rightarrow> ops_error + valueType" where
  "base_type base args =
     (if base \<in> set text_types then length_typed base args typeText
      else if base \<in> set integer_types then unparameterized base args typeInteger
      else if base \<in> set decimal_types then
        (if args \<noteq> [] \<and> \<not> validPrecisionScale args then Inl (BadPrecisionScale base) else Inr typeDecimal)
      else if base = ''MONEY'' then unparameterized base args typeDecimal
      else if base \<in> set float_types then
        (if args \<noteq> [] \<and> (base \<noteq> ''FLOAT'' \<or> \<not> one_arg 1 53 args) then Inl (BadFloatPrecision base)
         else Inr typeFloat)
      else if base \<in> set boolean_types then unparameterized base args typeBoolean
      else if base \<in> set temporal_types then
        (if args \<noteq> [] \<and> (base \<notin> set precise_temporal_types \<or> \<not> one_arg 0 9 args)
         then Inl (BadTemporalPrecision base) else Inr typeTemporal)
      else if base \<in> set binary_types then length_typed base args typeBinary
      else Inl (UnknownBase base))"

definition declaredType :: "string \<Rightarrow> ops_error + valueType" where
  "declaredType raw =
     (case parseDeclaredType (normalizeTypeName raw) of
        Inl e \<Rightarrow> Inl (UnsupportedDeclared raw e)
      | Inr (base, args) \<Rightarrow> base_type base args)"


section \<open>Exact numbers\<close>

definition validateBigIntLimit :: "int \<Rightarrow> nat \<Rightarrow> nat \<Rightarrow> string \<Rightarrow> ops_error + unit" where
  "validateBigIntLimit v maxDigits maxBits label =
     (if BitLen (nat \<bar>v\<bar>) > maxBits then Inl (OverBudget label)
      else if length (show_int v) - (if v < 0 then 1 else 0) > maxDigits then Inl (OverBudget label)
      else Inr ())"

definition validateBigIntBudget :: "int \<Rightarrow> ops_error + unit" where
  "validateBigIntBudget v = validateBigIntLimit v maxNumericDigits maxNumericBits ''integer''"

definition validateBigRatBudget :: "rat \<Rightarrow> ops_error + unit" where
  "validateBigRatBudget q =
     (case quotient_of q of (a, b) \<Rightarrow>
        rbind (validateBigIntLimit a maxDecimalValueDigits maxDecimalValueBits ''decimal numerator'') (\<lambda>_.
        rbind (validateBigIntLimit b maxDecimalValueDigits maxDecimalValueBits ''decimal denominator'') (\<lambda>_.
        Inr ())))"

definition parseInteger :: "string \<Rightarrow> ops_error + int" where
  "parseInteger text =
     (if text = [] \<or> TrimSpace text \<noteq> text then Inl (BadInteger text)
      else if length text - (if signed text then 1 else 0) > maxNumericDigits then Inl (OverBudget ''integer'')
      else case IntSetString text of None \<Rightarrow> Inl (BadInteger text) | Some v \<Rightarrow> Inr v)"

text \<open>The exponent as the scan accumulates it: it stops growing once it exceeds its limit.\<close>

definition scan_exponent :: "string \<Rightarrow> nat" where
  "scan_exponent ds = foldl (\<lambda>e c. if e \<le> maxDecimalExponent then e * 10 + digit_val c else e) 0 ds"

definition scan_exponent_part :: "string \<Rightarrow> ops_error + unit" where
  "scan_exponent_part t =
     (if t \<noteq> [] \<and> (hd t = CHR ''e'' \<or> hd t = CHR ''E'') then
        let u = unsigned_part (tl t); ds = takeWhile is_digit u in
        if ds = [] then Inl BadExponent
        else if scan_exponent ds > maxDecimalExponent then Inl (OverBudget ''decimal exponent'')
        else if dropWhile is_digit u \<noteq> [] then Inl BadDecimal else Inr ()
      else if t \<noteq> [] then Inl BadDecimal else Inr ())"

definition validateDecimalBudget :: "string \<Rightarrow> ops_error + unit" where
  "validateDecimalBudget text =
     (if text = [] \<or> TrimSpace text \<noteq> text then Inl BadDecimal
      else if length text > maxDecimalTextLength then Inl (OverBudget ''decimal text'')
      else if unsigned_part text = [] then Inl BadDecimal
      else
        let u = unsigned_part text;
            ip = takeWhile is_digit u; r = dropWhile is_digit u;
            point = (r \<noteq> [] \<and> hd r = CHR ''.'');
            fp = (if point then takeWhile is_digit (tl r) else []);
            r' = (if point then dropWhile is_digit (tl r) else r);
            digits = length ip + length fp
        in if digits = 0 then Inl BadDecimal
           else if digits > maxNumericDigits then Inl (OverBudget ''decimal'')
           else scan_exponent_part r')"

definition parseDecimal :: "string \<Rightarrow> ops_error + rat" where
  "parseDecimal text =
     rbind (validateDecimalBudget text) (\<lambda>_.
       case RatSetString text of None \<Rightarrow> Inl BadDecimal | Some v \<Rightarrow> Inr v)"

fun exactInteger :: "any \<Rightarrow> ops_error + int" where
  "exactInteger (VInt v) = Inr (sint v)"
| "exactInteger (VInt8 v) = Inr (sint v)"
| "exactInteger (VInt16 v) = Inr (sint v)"
| "exactInteger (VInt32 v) = Inr (sint v)"
| "exactInteger (VInt64 v) = Inr (sint v)"
| "exactInteger (VUint v) = Inr (uint v)"
| "exactInteger (VUint8 v) = Inr (uint v)"
| "exactInteger (VUint16 v) = Inr (uint v)"
| "exactInteger (VUint32 v) = Inr (uint v)"
| "exactInteger (VUint64 v) = Inr (uint v)"
| "exactInteger (VNumber s) = parseInteger s"
| "exactInteger (VBigInt v) = rbind (validateBigIntBudget v) (\<lambda>_. Inr v)"
| "exactInteger (VBigIntPtr (Some (p, v))) = rbind (validateBigIntBudget v) (\<lambda>_. Inr v)"
| "exactInteger _ = Inl NotInteger"

fun exactDecimal :: "any \<Rightarrow> ops_error + rat" where
  "exactDecimal (VNumber s) = parseDecimal s"
| "exactDecimal (VBigRat q) = rbind (validateBigRatBudget q) (\<lambda>_. Inr q)"
| "exactDecimal (VBigRatPtr (Some (p, q))) = rbind (validateBigRatBudget q) (\<lambda>_. Inr q)"
| "exactDecimal (VBigInt v) = rbind (validateBigIntBudget v) (\<lambda>_. Inr (of_int v))"
| "exactDecimal (VBigIntPtr (Some (p, v))) = rbind (validateBigIntBudget v) (\<lambda>_. Inr (of_int v))"
| "exactDecimal value = (case exactInteger value of Inr i \<Rightarrow> Inr (of_int i) | Inl _ \<Rightarrow> Inl NotDecimal)"

fun numericFloat :: "any \<Rightarrow> float64 option" where
  "numericFloat (VFloat32 v) = Some (f32_to_f64 v)"
| "numericFloat (VFloat64 v) = Some v"
| "numericFloat (VNumber text) =
     (case validateDecimalBudget text of
        Inl _ \<Rightarrow> None
      | Inr _ \<Rightarrow> (case ParseFloat text of
          None \<Rightarrow> None
        | Some f \<Rightarrow> (case parseDecimal text of
            Inl _ \<Rightarrow> None
          | Inr decimal \<Rightarrow> if f64_value f = decimal then Some f else None)))"
| "numericFloat _ = None"


section \<open>Normalization\<close>

fun normalizeValue :: "valueType \<Rightarrow> any \<Rightarrow> ops_error + norm" where
  "normalizeValue typeText value =
     (case value of VString v \<Rightarrow> if ValidString v then Inr (NText v) else Inl NotText | _ \<Rightarrow> Inl NotText)"
| "normalizeValue typeInteger value = rbind (exactInteger value) (\<lambda>i. Inr (NInteger i))"
| "normalizeValue typeDecimal value = rbind (exactDecimal value) (\<lambda>q. Inr (NDecimal q))"
| "normalizeValue typeFloat value =
     (case numericFloat value of
        None \<Rightarrow> Inl NotFloat
      | Some v \<Rightarrow> if \<not> is_finite64 v then Inl NotFloat
                  else Inr (NFloat (if f64_units v = 0 then 0 else v)))"
| "normalizeValue typeBoolean value = (case value of VBool v \<Rightarrow> Inr (NBoolean v) | _ \<Rightarrow> Inl NotBoolean)"
| "normalizeValue typeTemporal value = (case value of VTime t loc \<Rightarrow> Inr (NTemporal t) | _ \<Rightarrow> Inl NotTime)"
| "normalizeValue typeBinary value = (case value of VBytes p v \<Rightarrow> Inr (NBinary v) | _ \<Rightarrow> Inl NotBytes)"

definition normalizeCell :: "valueType \<Rightarrow> Cell \<Rightarrow> ops_error + normalizedCell" where
  "normalizeCell kind cell =
     (if \<not> Present cell then Inr \<lparr>state = 0, norm_value = None\<rparr>
      else if Value cell = VNil then Inr \<lparr>state = 1, norm_value = None\<rparr>
      else rbind (normalizeValue kind (Value cell)) (\<lambda>v. Inr \<lparr>state = 2, norm_value = Some v\<rparr>))"

text \<open>What a normalized cell of a kind can be; the type assertions of the code hold for it.\<close>

definition norm_of :: "valueType \<Rightarrow> norm \<Rightarrow> bool" where
  "norm_of kind v =
     (case kind of
        typeText \<Rightarrow> (case v of NText s \<Rightarrow> ValidString s | _ \<Rightarrow> False)
      | typeInteger \<Rightarrow> (case v of NInteger i \<Rightarrow> True | _ \<Rightarrow> False)
      | typeDecimal \<Rightarrow> (case v of NDecimal q \<Rightarrow> True | _ \<Rightarrow> False)
      | typeFloat \<Rightarrow> (case v of NFloat f \<Rightarrow> is_finite64 f \<and> \<not> (sign_bit f \<and> mag_bits f = 0) | _ \<Rightarrow> False)
      | typeBoolean \<Rightarrow> (case v of NBoolean b \<Rightarrow> True | _ \<Rightarrow> False)
      | typeTemporal \<Rightarrow> (case v of NTemporal t \<Rightarrow> True | _ \<Rightarrow> False)
      | typeBinary \<Rightarrow> (case v of NBinary s \<Rightarrow> True | _ \<Rightarrow> False))"

lemma norm_of_cases:
  "norm_of typeText v \<longleftrightarrow> (\<exists>s. v = NText s \<and> ValidString s)"
  "norm_of typeInteger v \<longleftrightarrow> (\<exists>i. v = NInteger i)"
  "norm_of typeDecimal v \<longleftrightarrow> (\<exists>q. v = NDecimal q)"
  "norm_of typeFloat v \<longleftrightarrow> (\<exists>f. v = NFloat f \<and> is_finite64 f \<and> \<not> (sign_bit f \<and> mag_bits f = 0))"
  "norm_of typeBoolean v \<longleftrightarrow> (\<exists>b. v = NBoolean b)"
  "norm_of typeTemporal v \<longleftrightarrow> (\<exists>t. v = NTemporal t)"
  "norm_of typeBinary v \<longleftrightarrow> (\<exists>s. v = NBinary s)"
  by (cases v; simp add: norm_of_def)+

definition cell_of :: "valueType \<Rightarrow> normalizedCell \<Rightarrow> bool" where
  "cell_of kind n \<longleftrightarrow>
     (state n = 2 \<and> (\<exists>v. norm_value n = Some v \<and> norm_of kind v)) \<or>
     (state n < 2 \<and> norm_value n = None)"

lemma f64_zero_not_negative: "\<not> sign_bit 0" "is_finite64 0" "mag_bits 0 = 0"
  by (simp_all add: sign_bit_def is_finite64_def mag_bits_def)

lemma f64_units_0: "f64_units v = 0 \<longleftrightarrow> mag_bits v = 0"
  by (simp add: f64_units_def)

lemma normalizeValue_kind:
  assumes "normalizeValue kind value = Inr v"
  shows "norm_of kind v"
proof (cases kind)
  case typeFloat
  then show ?thesis using assms
    by (auto simp: norm_of_cases f64_zero_not_negative f64_units_0 split: option.splits if_splits)
qed (use assms in \<open>auto simp: norm_of_cases rbind_eq_Inr split: any.splits if_splits\<close>)

lemma normalizeCell_kind: "normalizeCell kind cell = Inr n \<Longrightarrow> cell_of kind n"
  by (auto simp: normalizeCell_def cell_of_def rbind_eq_Inr dest: normalizeValue_kind split: if_splits)

end
