(* ===== verification/Result_Clone.thy ===== *)
theory Result_Clone
  imports Result_Values
begin

text \<open>
  Copying of cell values (\<open>cloneValue\<close>, \<open>cloneReflect\<close>, \<open>cloneCell\<close> of
  \<open>src/pkg/resultops/resultops.go\<close>).  A slice or map carries the address the code
  compares in its \<open>seen\<close> set; a cyclic value is given by its unfolding, which the code
  never follows below the second visit of an address.  Allocation takes the next free
  address.  The lemmas show that a copy holds what the original holds and shares no
  address with anything that existed before.
\<close>

fun cloneReflect :: "any \<Rightarrow> (gotype \<times> addr) set \<Rightarrow> addr \<Rightarrow> ops_error + any \<times> addr"
  and cloneItems :: "any list \<Rightarrow> (gotype \<times> addr) set \<Rightarrow> addr \<Rightarrow> ops_error + any list \<times> addr"
  and cloneEntries :: "(string \<times> any) list \<Rightarrow> (gotype \<times> addr) set \<Rightarrow> addr \<Rightarrow> ops_error + (string \<times> any) list \<times> addr"
where
  "cloneReflect (VSlice typ p items) seen n =
     (if (typ, p) \<in> seen then Inl (CyclicValue typ)
      else rbind (cloneItems items (insert (typ, p) seen) (n + 1)) (\<lambda>(copy, n'). Inr (VSlice typ n copy, n')))"
| "cloneReflect (VBytes None s) seen n = Inr (VBytes None [], n)"
| "cloneReflect (VBytes (Some p) s) seen n =
     (if (''[]uint8'', p) \<in> seen then Inl (CyclicValue ''[]uint8'')
      else Inr (VBytes (Some n) s, n + 1))"
| "cloneReflect (VArray typ items) seen n =
     rbind (cloneItems items seen n) (\<lambda>(copy, n'). Inr (VArray typ copy, n'))"
| "cloneReflect (VMap typ p string_keys entries) seen n =
     (if \<not> string_keys then Inl (UnsupportedMapKey typ)
      else if (typ, p) \<in> seen then Inl (CyclicValue typ)
      else rbind (cloneEntries entries (insert (typ, p) seen) (n + 1)) (\<lambda>(copy, n').
        Inr (VMap typ n string_keys copy, n')))"
| "cloneReflect (VPointer typ) seen n = Inl (UnsupportedMutable typ)"
| "cloneReflect (VBigIntPtr v) seen n = Inl (UnsupportedMutable ''*big.Int'')"
| "cloneReflect (VBigRatPtr v) seen n = Inl (UnsupportedMutable ''*big.Rat'')"
| "cloneReflect (VStruct typ) seen n = Inl (UnsupportedStruct typ)"
| "cloneReflect (VTime t loc) seen n = Inl (UnsupportedStruct ''time.Time'')"
| "cloneReflect (VBigInt v) seen n = Inl (UnsupportedStruct ''big.Int'')"
| "cloneReflect (VBigRat v) seen n = Inl (UnsupportedStruct ''big.Rat'')"
| "cloneReflect value seen n = Inr (value, n)"
| "cloneItems [] seen n = Inr ([], n)"
| "cloneItems (v # vs) seen n =
     rbind (cloneReflect v seen n) (\<lambda>(w, n'). rbind (cloneItems vs seen n') (\<lambda>(ws, n''). Inr (w # ws, n'')))"
| "cloneEntries [] seen n = Inr ([], n)"
| "cloneEntries ((k, v) # es) seen n =
     rbind (cloneReflect v seen n) (\<lambda>(w, n'). rbind (cloneEntries es seen n') (\<lambda>(ws, n''). Inr ((k, w) # ws, n'')))"

fun cloneValue :: "any \<Rightarrow> addr \<Rightarrow> ops_error + any \<times> addr" where
  "cloneValue VNil n = Inr (VNil, n)"
| "cloneValue (VTime t loc) n = Inr (VTime t loc, n)"
| "cloneValue (VBytes p s) n = (if s = [] then Inr (VBytes None [], n) else Inr (VBytes (Some n) s, n + 1))"
| "cloneValue (VBigInt v) n = rbind (validateBigIntBudget v) (\<lambda>_. Inr (VBigInt v, n))"
| "cloneValue (VBigIntPtr None) n = Inr (VBigIntPtr None, n)"
| "cloneValue (VBigIntPtr (Some (p, v))) n =
     rbind (validateBigIntBudget v) (\<lambda>_. Inr (VBigIntPtr (Some (n, v)), n + 1))"
| "cloneValue (VBigRat q) n = rbind (validateBigRatBudget q) (\<lambda>_. Inr (VBigRat q, n))"
| "cloneValue (VBigRatPtr None) n = Inr (VBigRatPtr None, n)"
| "cloneValue (VBigRatPtr (Some (p, q))) n =
     rbind (validateBigRatBudget q) (\<lambda>_. Inr (VBigRatPtr (Some (n, q)), n + 1))"
| "cloneValue value n = cloneReflect value {} n"

definition cloneCell :: "Cell \<Rightarrow> addr \<Rightarrow> ops_error + Cell \<times> addr" where
  "cloneCell cell n =
     (if \<not> Present cell \<or> Value cell = VNil then Inr (\<lparr>Present = Present cell, Value = VNil\<rparr>, n)
      else rbind (cloneValue (Value cell) n) (\<lambda>(v, n'). Inr (\<lparr>Present = Present cell, Value = v\<rparr>, n')))"


section \<open>What a copy holds and shares\<close>

text \<open>The addresses a value can be changed through, and its contents without them.\<close>

fun addrs :: "any \<Rightarrow> addr set" where
  "addrs (VSlice typ p items) = insert p (\<Union> (set (map addrs items)))"
| "addrs (VArray typ items) = \<Union> (set (map addrs items))"
| "addrs (VMap typ p k entries) = insert p (\<Union> (set (map (\<lambda>e. addrs (snd e)) entries)))"
| "addrs (VBytes p s) = set_option p"
| "addrs (VBigIntPtr v) = fst ` set_option v"
| "addrs (VBigRatPtr v) = fst ` set_option v"
| "addrs v = {}"

fun contents :: "any \<Rightarrow> any" where
  "contents (VSlice typ p items) = VSlice typ 0 (map contents items)"
| "contents (VArray typ items) = VArray typ (map contents items)"
| "contents (VMap typ p k entries) = VMap typ 0 k (map (\<lambda>e. (fst e, contents (snd e))) entries)"
| "contents (VBytes p s) = VBytes None s"
| "contents (VBigIntPtr v) = VBigIntPtr (map_option (\<lambda>x. (0, snd x)) v)"
| "contents (VBigRatPtr v) = VBigRatPtr (map_option (\<lambda>x. (0, snd x)) v)"
| "contents v = v"

text \<open>A nil byte slice has no bytes.\<close>

fun wf_any :: "any \<Rightarrow> bool" where
  "wf_any (VSlice typ p items) = list_all wf_any items"
| "wf_any (VArray typ items) = list_all wf_any items"
| "wf_any (VMap typ p k entries) = list_all (\<lambda>e. wf_any (snd e)) entries"
| "wf_any (VBytes p s) = (p = None \<longrightarrow> s = [])"
| "wf_any v = True"

definition fresh_copy :: "addr \<Rightarrow> addr \<Rightarrow> any \<Rightarrow> any \<Rightarrow> bool" where
  "fresh_copy n n' v w \<longleftrightarrow> n \<le> n' \<and> contents w = contents v \<and> addrs w \<subseteq> {n..<n'}"

lemma fresh_copy_widen: "fresh_copy n n' v w \<Longrightarrow> m \<le> n \<Longrightarrow> n' \<le> m' \<Longrightarrow> fresh_copy m m' v w"
  by (auto simp: fresh_copy_def)

lemma fresh_copy_list:
  assumes "list_all2 (fresh_copy n n') vs ws"
  shows "map contents ws = map contents vs" and "\<Union> (set (map addrs ws)) \<subseteq> {n..<n'}"
  using assms by (induction rule: list_all2_induct) (auto simp: fresh_copy_def)

lemma fresh_copy_list_widen:
  "list_all2 (fresh_copy n n') vs ws \<Longrightarrow> m \<le> n \<Longrightarrow> n' \<le> m' \<Longrightarrow> list_all2 (fresh_copy m m') vs ws"
  by (erule list_all2_mono) (rule fresh_copy_widen)

lemma fresh_copy_entries:
  fixes es fs :: "(string \<times> any) list"
  assumes "list_all2 (fresh_copy n n') (map snd es) (map snd fs)" and "map fst fs = map fst es"
  shows "map (\<lambda>e. (fst e, contents (snd e))) fs = map (\<lambda>e. (fst e, contents (snd e))) es"
    and "\<Union> (set (map (\<lambda>e. addrs (snd e)) fs)) \<subseteq> {n..<n'}"
proof -
  have eq: "map (\<lambda>e. (fst e, contents (snd e))) xs = zip (map fst xs) (map contents (map snd xs))"
    for xs :: "(string \<times> any) list"
    by (induction xs) auto
  show "map (\<lambda>e. (fst e, contents (snd e))) fs = map (\<lambda>e. (fst e, contents (snd e))) es"
    by (simp only: eq fresh_copy_list(1) [OF assms(1)] assms(2))
  show "\<Union> (set (map (\<lambda>e. addrs (snd e)) fs)) \<subseteq> {n..<n'}"
    using fresh_copy_list(2) [OF assms(1)] by (simp add: image_image)
qed

lemma cloneReflect_fresh:
  "cloneReflect v seen n = Inr (w, n') \<Longrightarrow> wf_any v \<Longrightarrow> fresh_copy n n' v w"
  "cloneItems vs seen n = Inr (ws, n') \<Longrightarrow> list_all wf_any vs \<Longrightarrow>
     n \<le> n' \<and> list_all2 (fresh_copy n n') vs ws"
  "cloneEntries es seen n = Inr (fs, n') \<Longrightarrow> list_all (\<lambda>e. wf_any (snd e)) es \<Longrightarrow>
     n \<le> n' \<and> map fst fs = map fst es \<and> list_all2 (fresh_copy n n') (map snd es) (map snd fs)"
proof (induction v seen n and vs seen n and es seen n arbitrary: w n' and ws n' and fs n'
       rule: cloneReflect_cloneItems_cloneEntries.induct)
  case (1 ty p items seen n)
  then obtain copy where copy: "cloneItems items (insert (ty, p) seen) (n + 1) = Inr (copy, n')"
    "w = VSlice ty n copy" "(ty, p) \<notin> seen"
    by (auto simp: rbind_eq_Inr split: if_splits)
  have ih: "n + 1 \<le> n' \<and> list_all2 (fresh_copy (n + 1) n') items copy"
    using "1.IH" [OF copy(3,1)] "1.prems"(2) by simp
  then show ?case
    using fresh_copy_list [of "n + 1" n' items copy] by (auto simp: copy fresh_copy_def)
next
  case (4 ty items seen n)
  then obtain copy where copy: "cloneItems items seen n = Inr (copy, n')" "w = VArray ty copy"
    by (auto simp: rbind_eq_Inr)
  have "n \<le> n' \<and> list_all2 (fresh_copy n n') items copy"
    using "4.IH" [OF copy(1)] "4.prems"(2) by simp
  then show ?case using fresh_copy_list [of n n' items copy] by (auto simp: copy fresh_copy_def)
next
  case (5 ty p string_keys entries seen n)
  then obtain copy where copy: "cloneEntries entries (insert (ty, p) seen) (n + 1) = Inr (copy, n')"
    "w = VMap ty n string_keys copy" "\<not> \<not> string_keys" "(ty, p) \<notin> seen"
    by (auto simp: rbind_eq_Inr split: if_splits)
  have ih: "n + 1 \<le> n' \<and> map fst copy = map fst entries \<and>
      list_all2 (fresh_copy (n + 1) n') (map snd entries) (map snd copy)"
    using "5.IH" [OF copy(3,4,1)] "5.prems"(2) by simp
  then show ?case
    using fresh_copy_entries [of "n + 1" n' entries copy] by (auto simp: copy fresh_copy_def)
next
  case (15 v vs seen n)
  then obtain x m ys where parts: "cloneReflect v seen n = Inr (x, m)" "cloneItems vs seen m = Inr (ys, n')"
    "ws = x # ys"
    by (auto simp: rbind_eq_Inr)
  have x: "fresh_copy n m v x" using "15.IH"(1) [OF parts(1)] "15.prems"(2) by simp
  have ys: "m \<le> n' \<and> list_all2 (fresh_copy m n') vs ys"
    using "15.IH"(2) [OF parts(2)] "15.prems"(2) by simp
  have le: "n \<le> m" using x by (simp add: fresh_copy_def)
  show ?case
    using fresh_copy_widen [OF x, of n n'] fresh_copy_list_widen [of m n' vs ys n n'] ys le
    by (simp add: parts)
next
  case (17 k v es seen n)
  then obtain x m ys where parts: "cloneReflect v seen n = Inr (x, m)" "cloneEntries es seen m = Inr (ys, n')"
    "fs = (k, x) # ys"
    by (auto simp: rbind_eq_Inr)
  have x: "fresh_copy n m v x" using "17.IH"(1) [OF parts(1)] "17.prems"(2) by simp
  have ys: "m \<le> n' \<and> map fst ys = map fst es \<and> list_all2 (fresh_copy m n') (map snd es) (map snd ys)"
    using "17.IH"(2) [OF parts(2)] "17.prems"(2) by simp
  have le: "n \<le> m" using x by (simp add: fresh_copy_def)
  show ?case
    using fresh_copy_widen [OF x, of n n'] fresh_copy_list_widen [of m n' "map snd es" "map snd ys" n n'] ys le
    by (simp add: parts)
qed (auto simp: fresh_copy_def split: if_splits)

lemma cloneValue_fresh: "cloneValue v n = Inr (w, n') \<Longrightarrow> wf_any v \<Longrightarrow> fresh_copy n n' v w"
proof (cases "cloneValue v n = cloneReflect v {} n")
  case True
  then show "cloneValue v n = Inr (w, n') \<Longrightarrow> wf_any v \<Longrightarrow> fresh_copy n n' v w"
    using cloneReflect_fresh(1) by metis
next
  case False
  then show "cloneValue v n = Inr (w, n') \<Longrightarrow> wf_any v \<Longrightarrow> fresh_copy n n' v w"
    by (cases "(v, n)" rule: cloneValue.cases) (auto simp: fresh_copy_def rbind_eq_Inr split: if_splits)
qed

definition fresh_cell :: "addr \<Rightarrow> addr \<Rightarrow> Cell \<Rightarrow> Cell \<Rightarrow> bool" where
  "fresh_cell n n' c d \<longleftrightarrow> n \<le> n' \<and> Present d = Present c \<and>
     (if Present c then fresh_copy n n' (Value c) (Value d) else Value d = VNil)"

lemma cloneCell_fresh:
  "cloneCell c n = Inr (d, n') \<Longrightarrow> wf_any (Value c) \<Longrightarrow> fresh_cell n n' c d"
  by (auto simp: cloneCell_def fresh_cell_def rbind_eq_Inr split: if_splits
      dest!: cloneValue_fresh)
     (auto simp: fresh_copy_def)

end
