(* ===== verification/Result_Order.thy ===== *)
theory Result_Order
  imports Result_Clone "HOL-Library.Multiset"
begin

text \<open>
  Comparison and encoding of normalized cells and the stable sort
  (\<open>compareNormalized\<close>, \<open>compareRunes\<close>, \<open>encoding\<close>, \<open>writeFramed\<close> of
  \<open>src/pkg/resultops/resultops.go\<close>).  The laws of a three-way comparison are a locale,
  in which the stable sort is shown to be the only ordered and stable arrangement; the
  comparison of every kind of cell is an instance.  Two cells compare equal exactly when
  they have the same encoding, so grouping and sorting agree on equality.
\<close>


section \<open>Three-way comparisons\<close>

definition cmp3 :: "'a::linorder \<Rightarrow> 'a \<Rightarrow> int" where
  "cmp3 a b = (if a < b then - 1 else if b < a then 1 else 0)"

lemma cmp3_zero [simp]: "cmp3 a b = 0 \<longleftrightarrow> a = b"
  by (auto simp: cmp3_def)

lemma cmp3_le [simp]: "cmp3 a b \<le> 0 \<longleftrightarrow> a \<le> b"
  by (auto simp: cmp3_def)

lemma cmp3_swap: "cmp3 b a = - cmp3 a b"
  by (auto simp: cmp3_def)

text \<open>
  \<open>sort.SliceStable\<close>: insertion from the right, an element before the ones it is not
  greater than.  Every stable sorting routine returns this list (\<open>stable_unique\<close> below).
\<close>

fun sink :: "('a \<Rightarrow> 'a \<Rightarrow> bool) \<Rightarrow> 'a \<Rightarrow> 'a list \<Rightarrow> 'a list" where
  "sink lt x [] = [x]"
| "sink lt x (y # ys) = (if lt y x then y # sink lt x ys else x # y # ys)"

definition SliceStable :: "('a \<Rightarrow> 'a \<Rightarrow> bool) \<Rightarrow> 'a list \<Rightarrow> 'a list" where
  "SliceStable lt xs = foldr (sink lt) xs []"

lemma mset_sink [simp]: "mset (sink lt x ys) = add_mset x (mset ys)"
  by (induction ys) auto

lemma mset_SliceStable [simp]: "mset (SliceStable lt xs) = mset xs"
  by (induction xs) (auto simp: SliceStable_def)

lemma set_SliceStable [simp]: "set (SliceStable lt xs) = set xs"
  by (metis mset_SliceStable set_mset_mset)

locale three_way =
  fixes ok :: "'a \<Rightarrow> bool" and cmp :: "'a \<Rightarrow> 'a \<Rightarrow> int"
  assumes swap: "ok a \<Longrightarrow> ok b \<Longrightarrow> cmp b a = - cmp a b"
    and trans_le: "ok a \<Longrightarrow> ok b \<Longrightarrow> ok c \<Longrightarrow> cmp a b \<le> 0 \<Longrightarrow> cmp b c \<le> 0 \<Longrightarrow> cmp a c \<le> 0"
begin

lemma cmp_refl: "ok a \<Longrightarrow> cmp a a = 0"
  using swap [of a a] by simp

lemma zero_sym: "ok a \<Longrightarrow> ok b \<Longrightarrow> cmp a b = 0 \<longleftrightarrow> cmp b a = 0"
  using swap [of a b] by simp

lemma zero_cong: "ok a \<Longrightarrow> ok b \<Longrightarrow> ok c \<Longrightarrow> cmp a b = 0 \<Longrightarrow> cmp a c = 0 \<longleftrightarrow> cmp b c = 0"
proof -
  assume o: "ok a" "ok b" "ok c" and eq: "cmp a b = 0"
  have "cmp b a = 0" using swap [OF o(1,2)] eq by simp
  then have "cmp a c \<le> 0 \<longleftrightarrow> cmp b c \<le> 0" "cmp c a \<le> 0 \<longleftrightarrow> cmp c b \<le> 0"
    using trans_le [of a b c] trans_le [of b a c] trans_le [of c a b] trans_le [of c b a] o eq by auto
  then show ?thesis using swap [OF o(1,3)] swap [OF o(2,3)] by linarith
qed

text \<open>
  The order of a stable sort: smaller first, and equal elements as they stood, \<open>S a b\<close>
  meaning that \<open>a\<close> stood before \<open>b\<close>.
\<close>

definition before :: "('a \<Rightarrow> 'a \<Rightarrow> bool) \<Rightarrow> 'a \<Rightarrow> 'a \<Rightarrow> bool" where
  "before S a b \<longleftrightarrow> cmp a b < 0 \<or> (cmp a b = 0 \<and> S a b)"

lemma sink_before:
  assumes "sorted_wrt (before S) ys" and "ok x" and "list_all ok ys" and "\<forall>y \<in> set ys. S x y"
  shows "sorted_wrt (before S) (sink (\<lambda>a b. cmp a b < 0) x ys)"
  using assms
proof (induction ys)
  case Nil
  then show ?case by simp
next
  case (Cons y ys)
  have oks: "ok y" "list_all ok ys" using Cons.prems by simp_all
  show ?case
  proof (cases "cmp y x < 0")
    case True
    have "\<forall>z \<in> set (sink (\<lambda>a b. cmp a b < 0) x ys). before S y z"
    proof
      fix z assume "z \<in> set (sink (\<lambda>a b. cmp a b < 0) x ys)"
      then have "z = x \<or> z \<in> set ys" by (metis mset_sink set_mset_mset set_mset_add_mset_insert insert_iff)
      then show "before S y z" using True Cons.prems(1) by (auto simp: before_def)
    qed
    then show ?thesis using True Cons.IH Cons.prems oks by simp
  next
    case False
    then have xy: "cmp x y \<le> 0" using swap [OF Cons.prems(2) oks(1)] by simp
    have "\<forall>z \<in> set (y # ys). before S x z"
    proof
      fix z assume z: "z \<in> set (y # ys)"
      then have "ok z" "z = y \<or> cmp y z \<le> 0"
        using oks Cons.prems(1) by (auto simp: list_all_iff before_def)
      then have "cmp x z \<le> 0" using trans_le [OF Cons.prems(2) oks(1)] xy by blast
      then show "before S x z" using z Cons.prems(4) by (auto simp: before_def)
    qed
    then show ?thesis using False Cons.prems by simp
  qed
qed

lemma sink_stable:
  assumes "ok k" "ok x" "list_all ok ys"
  shows "filter (\<lambda>z. cmp k z = 0) (sink (\<lambda>a b. cmp a b < 0) x ys) =
         (if cmp k x = 0 then x # filter (\<lambda>z. cmp k z = 0) ys else filter (\<lambda>z. cmp k z = 0) ys)"
  using assms
proof (induction ys)
  case Nil
  then show ?case by simp
next
  case (Cons y ys)
  have "ok y" using Cons.prems by simp
  have "\<not> (cmp k x = 0 \<and> cmp k y = 0)" if "cmp y x < 0"
    using that zero_cong [of k x y] zero_cong [of x k y] zero_sym [of k x] zero_sym [of x y] Cons.prems \<open>ok y\<close>
    by auto
  then show ?case using Cons by auto
qed

text \<open>The sorted list is in order, and the elements that compare equal keep their order.\<close>

lemma stable_before:
  "list_all ok xs \<Longrightarrow> sorted_wrt S xs \<Longrightarrow> sorted_wrt (before S) (SliceStable (\<lambda>a b. cmp a b < 0) xs)"
proof (induction xs)
  case Nil
  then show ?case by (simp add: SliceStable_def)
next
  case (Cons x xs)
  have "list_all ok (SliceStable (\<lambda>a b. cmp a b < 0) xs)" "\<forall>y \<in> set (SliceStable (\<lambda>a b. cmp a b < 0) xs). S x y"
    using Cons.prems by (simp_all add: list_all_iff)
  then show ?case using Cons sink_before [of S _ x] by (simp add: SliceStable_def)
qed

lemma in_order:
  assumes "list_all ok xs"
  shows "sorted_wrt (\<lambda>a b. cmp a b \<le> 0) (SliceStable (\<lambda>a b. cmp a b < 0) xs)"
proof -
  have "sorted_wrt (before (\<lambda>_ _. True)) (SliceStable (\<lambda>a b. cmp a b < 0) xs)"
    by (rule stable_before [OF assms]) (simp add: sorted_wrt_iff_nth_less)
  then show ?thesis by (rule sorted_wrt_mono_rel [rotated]) (auto simp: before_def)
qed

lemma stable: "list_all ok xs \<Longrightarrow> ok k \<Longrightarrow>
  filter (\<lambda>z. cmp k z = 0) (SliceStable (\<lambda>a b. cmp a b < 0) xs) = filter (\<lambda>z. cmp k z = 0) xs"
proof (induction xs)
  case Nil
  then show ?case by (simp add: SliceStable_def)
next
  case (Cons x xs)
  have "list_all ok (SliceStable (\<lambda>a b. cmp a b < 0) xs)" using Cons.prems by (simp add: list_all_iff)
  then show ?case using Cons sink_stable [of k x] by (simp add: SliceStable_def)
qed

text \<open>An ordered list is determined by what it holds of every class of equal elements.\<close>

lemma stable_unique:
  assumes "sorted_wrt (\<lambda>a b. cmp a b \<le> 0) ys" "sorted_wrt (\<lambda>a b. cmp a b \<le> 0) zs"
    and "list_all ok ys" "list_all ok zs"
    and "\<And>k. ok k \<Longrightarrow> filter (\<lambda>z. cmp k z = 0) ys = filter (\<lambda>z. cmp k z = 0) zs"
  shows "ys = zs"
  using assms
proof (induction ys arbitrary: zs)
  case Nil
  show ?case
  proof (cases zs)
    case (Cons z zs')
    then have "ok z" using Nil.prems(4) by simp
    then have "z \<in> set (filter (\<lambda>y. cmp z y = 0) zs)" using cmp_refl Cons by simp
    then show ?thesis using Nil.prems(5) [OF \<open>ok z\<close>] by (metis filter.simps(1) empty_iff list.set(1))
  qed simp
next
  case (Cons y ys)
  have oy: "ok y" using Cons.prems(3) by simp
  have "y \<in> set (filter (\<lambda>z. cmp y z = 0) (y # ys))" using cmp_refl [OF oy] by simp
  then have "y \<in> set zs" unfolding Cons.prems(5) [OF oy] by simp
  then obtain z zs' where zs: "zs = z # zs'" by (cases zs) auto
  have oz: "ok z" using Cons.prems(4) zs by simp
  have "z \<in> set (filter (\<lambda>x. cmp z x = 0) zs)" using cmp_refl [OF oz] zs by simp
  then have "z \<in> set (y # ys)" unfolding Cons.prems(5) [OF oz, symmetric] by (auto split: if_splits)
  then have "cmp y z \<le> 0" using Cons.prems(1) cmp_refl [OF oy] by auto
  moreover have "cmp z y \<le> 0" using \<open>y \<in> set zs\<close> Cons.prems(2) cmp_refl [OF oz] zs by auto
  ultimately have "cmp y z = 0" using swap [OF oy oz] by simp
  then have eq: "y = z" using Cons.prems(5) [OF oy] cmp_refl [OF oy] zs by simp
  have "ys = zs'"
  proof (rule Cons.IH)
    show "sorted_wrt (\<lambda>a b. cmp a b \<le> 0) ys" "sorted_wrt (\<lambda>a b. cmp a b \<le> 0) zs'"
      "list_all ok ys" "list_all ok zs'"
      using Cons.prems zs by simp_all
    show "filter (\<lambda>z. cmp k z = 0) ys = filter (\<lambda>z. cmp k z = 0) zs'" if "ok k" for k
      using Cons.prems(5) [OF that] zs eq by (simp split: if_splits)
  qed
  then show ?case using eq zs by simp
qed

end

lemma three_way_key: "three_way ok (\<lambda>a b. cmp3 (key a) (key b))"
proof
  show "cmp3 (key b) (key a) = - cmp3 (key a) (key b)" for a b by (rule cmp3_swap)
qed simp

lemma three_way_weaken: "three_way ok cmp \<Longrightarrow> (\<And>a. ok' a \<Longrightarrow> ok a) \<Longrightarrow> three_way ok' cmp"
  unfolding three_way_def by blast

lemma three_way_cong:
  "three_way ok cmp \<Longrightarrow> (\<And>a b. ok a \<Longrightarrow> ok b \<Longrightarrow> cmp' a b = cmp a b) \<Longrightarrow> three_way ok cmp'"
  unfolding three_way_def by metis

text \<open>Reversed order, comparison through a projection, and several comparisons in turn.\<close>

lemma three_way_reverse:
  assumes tw: "three_way ok cmp"
  shows "three_way ok (\<lambda>a b. - cmp a b)"
proof
  show "- cmp b a = - (- cmp a b)" if "ok a" "ok b" for a b
    using three_way.swap [OF tw that] by simp
  show "- cmp a c \<le> 0" if o: "ok a" "ok b" "ok c" and le: "- cmp a b \<le> 0" "- cmp b c \<le> 0" for a b c
  proof -
    have "cmp b a \<le> 0" "cmp c b \<le> 0"
      using three_way.swap [OF tw o(1,2)] three_way.swap [OF tw o(2,3)] le by simp_all
    then have "cmp c a \<le> 0" using three_way.trans_le [OF tw o(3,2,1)] by blast
    then show ?thesis using three_way.swap [OF tw o(1,3)] by simp
  qed
qed

lemma three_way_image: "three_way ok cmp \<Longrightarrow> three_way (\<lambda>i. ok (f i)) (\<lambda>i j. cmp (f i) (f j))"
  unfolding three_way_def by blast

lemma three_way_then:
  assumes "three_way ok c" "three_way ok d"
  shows "three_way ok (\<lambda>a b. if c a b = 0 then d a b else c a b)"
proof
  fix a b assume o: "ok a" "ok b"
  show "(if c b a = 0 then d b a else c b a) = - (if c a b = 0 then d a b else c a b)"
    using three_way.swap [OF assms(1) o] three_way.swap [OF assms(2) o] by simp
next
  fix a b e
  assume o: "ok a" "ok b" "ok e"
    and ab: "(if c a b = 0 then d a b else c a b) \<le> 0" and be: "(if c b e = 0 then d b e else c b e) \<le> 0"
  have le: "c a b \<le> 0" "c b e \<le> 0" using ab be by (auto split: if_splits)
  then have ae: "c a e \<le> 0" using three_way.trans_le [OF assms(1) o] by blast
  show "(if c a e = 0 then d a e else c a e) \<le> 0"
  proof (cases "c a e = 0")
    case True
    then have "c e a = 0" using three_way.swap [OF assms(1) o(1,3)] by simp
    then have "c b a \<le> 0" "c e b \<le> 0"
      using three_way.trans_le [OF assms(1) o(2,3,1)] three_way.trans_le [OF assms(1) o(3,1,2)] le by simp_all
    then have "c a b = 0" "c b e = 0"
      using three_way.swap [OF assms(1) o(1,2)] three_way.swap [OF assms(1) o(2,3)] le by simp_all
    then show ?thesis using True ab be three_way.trans_le [OF assms(2) o] by simp
  qed (use ae in simp)
qed

text \<open>A projection to a linear order compares its arguments.\<close>

interpretation keyed: three_way "\<lambda>_. True" "\<lambda>a b. cmp3 (key a) (key b)" for key
  by (rule three_way_key)


section \<open>Comparison of cells\<close>

function compareRunes :: "string \<Rightarrow> string \<Rightarrow> int" where
  "compareRunes left right =
     (if left \<noteq> [] \<and> right \<noteq> [] then
        let lr = fst (DecodeRuneInString left); lsize = snd (DecodeRuneInString left);
            rr = fst (DecodeRuneInString right); rsize = snd (DecodeRuneInString right) in
        if lr < rr then - 1 else if lr > rr then 1
        else compareRunes (drop lsize left) (drop rsize right)
      else if left = [] \<and> right = [] then 0
      else if left = [] then - 1 else 1)"
  by pat_completeness auto
termination
  by (relation "measure (length \<circ> fst)") (auto simp: decode_width)

declare compareRunes.simps [simp del]

lemma runes_step: "s \<noteq> [] \<Longrightarrow> runes s = fst (DecodeRuneInString s) # runes (drop (snd (DecodeRuneInString s)) s)"
  by (subst runes.simps) (simp add: case_prod_beta)

lemma cmp3_Cons: "cmp3 (a # x) (b # y) = (if a < b then - 1 else if b < a then 1 else cmp3 x y)"
  by (auto simp: cmp3_def)

text \<open>The loop over two strings compares their runes lexicographically.\<close>

lemma compareRunes_runes: "compareRunes l r = cmp3 (runes l) (runes r)"
proof (induction l r rule: compareRunes.induct)
  case (1 l r)
  show ?case
  proof (cases "l \<noteq> [] \<and> r \<noteq> []")
    case True
    then show ?thesis
      using "1.IH" by (subst compareRunes.simps) (simp add: Let_def runes_step [of l] runes_step [of r] cmp3_Cons)
  next
    case False
    then show ?thesis
      by (subst compareRunes.simps) (auto simp: cmp3_def runes_step)
  qed
qed

text \<open>The type assertions \<open>value.(string)\<close> and so on; a failed one would panic, and
  \<open>normalizeCell_kind\<close> shows that none fails.\<close>

fun text_of :: "norm \<Rightarrow> string" where "text_of (NText s) = s" | "text_of _ = []"
fun integer_of :: "norm \<Rightarrow> int" where "integer_of (NInteger i) = i" | "integer_of _ = 0"
fun decimal_of :: "norm \<Rightarrow> rat" where "decimal_of (NDecimal q) = q" | "decimal_of _ = 0"
fun float_of :: "norm \<Rightarrow> float64" where "float_of (NFloat v) = v" | "float_of _ = 0"
fun boolean_of :: "norm \<Rightarrow> bool" where "boolean_of (NBoolean b) = b" | "boolean_of _ = False"
fun temporal_of :: "norm \<Rightarrow> time" where "temporal_of (NTemporal t) = t" | "temporal_of _ = 0"
fun binary_of :: "norm \<Rightarrow> string" where "binary_of (NBinary s) = s" | "binary_of _ = []"

definition compare_value :: "valueType \<Rightarrow> norm \<Rightarrow> norm \<Rightarrow> int" where
  "compare_value kind left right =
     (case kind of
        typeText \<Rightarrow> compareRunes (text_of left) (text_of right)
      | typeInteger \<Rightarrow> cmp3 (integer_of left) (integer_of right)
      | typeDecimal \<Rightarrow> cmp3 (decimal_of left) (decimal_of right)
      | typeFloat \<Rightarrow> (let l = float_of left; r = float_of right in
          if f64_units l < f64_units r then - 1 else if f64_units l > f64_units r then 1 else 0)
      | typeBoolean \<Rightarrow> (let l = boolean_of left; r = boolean_of right in
          if l = r then 0 else if \<not> l then - 1 else 1)
      | typeTemporal \<Rightarrow> (let l = temporal_of left; r = temporal_of right in
          if l < r then - 1 else if l > r then 1 else 0)
      | typeBinary \<Rightarrow> cmp3 (binary_of left) (binary_of right))"

definition compareNormalized :: "normalizedCell \<Rightarrow> normalizedCell \<Rightarrow> valueType \<Rightarrow> int" where
  "compareNormalized left right kind =
     (if state left \<noteq> state right then (if state left < state right then - 1 else 1)
      else if state left \<noteq> 2 then 0
      else compare_value kind (the (norm_value left)) (the (norm_value right)))"

lemma compare_value_keys:
  "compare_value kind u v =
    (case kind of
       typeText \<Rightarrow> cmp3 (runes (text_of u)) (runes (text_of v))
     | typeInteger \<Rightarrow> cmp3 (integer_of u) (integer_of v)
     | typeDecimal \<Rightarrow> cmp3 (decimal_of u) (decimal_of v)
     | typeFloat \<Rightarrow> cmp3 (f64_units (float_of u)) (f64_units (float_of v))
     | typeBoolean \<Rightarrow> cmp3 (boolean_of u) (boolean_of v)
     | typeTemporal \<Rightarrow> cmp3 (temporal_of u) (temporal_of v)
     | typeBinary \<Rightarrow> cmp3 (binary_of u) (binary_of v))"
  by (cases kind) (auto simp: compare_value_def compareRunes_runes cmp3_def Let_def)

lemma compare_value_laws: "three_way (norm_of kind) (compare_value kind)"
proof -
  have "three_way (norm_of kind) (\<lambda>u v. compare_value kind u v)"
    unfolding compare_value_keys by (cases kind) (simp_all add: three_way_key)
  then show ?thesis by simp
qed

text \<open>Two values of a kind compare equal exactly when they are equal.\<close>

lemma compare_value_zero:
  assumes "norm_of kind u" "norm_of kind v"
  shows "compare_value kind u v = 0 \<longleftrightarrow> u = v"
  unfolding compare_value_keys using assms
  by (cases kind) (auto simp: norm_of_cases runes_inj f64_units_inj)

lemma cell_of_value: "cell_of kind n \<Longrightarrow> state n = 2 \<Longrightarrow> norm_of kind (the (norm_value n))"
  by (auto simp: cell_of_def)

interpretation cells: three_way "cell_of kind" "\<lambda>l r. compareNormalized l r kind" for kind
proof
  fix a b assume o: "cell_of kind a" "cell_of kind b"
  show "compareNormalized b a kind = - compareNormalized a b kind"
    using three_way.swap [OF compare_value_laws cell_of_value cell_of_value, of kind a b] o
    by (auto simp: compareNormalized_def)
next
  fix a b c
  assume o: "cell_of kind a" "cell_of kind b" "cell_of kind c"
    and "compareNormalized a b kind \<le> 0" "compareNormalized b c kind \<le> 0"
  then show "compareNormalized a c kind \<le> 0"
    using three_way.trans_le [OF compare_value_laws cell_of_value cell_of_value cell_of_value, of kind a b c]
    by (auto simp: compareNormalized_def split: if_splits)
qed

lemma compareNormalized_zero:
  assumes "cell_of kind a" "cell_of kind b"
  shows "compareNormalized a b kind = 0 \<longleftrightarrow> a = b"
proof -
  have "state a = 2 \<Longrightarrow> state b = 2 \<Longrightarrow>
      compare_value kind (the (norm_value a)) (the (norm_value b)) = 0 \<longleftrightarrow> norm_value a = norm_value b"
    using compare_value_zero [OF cell_of_value cell_of_value, of kind a b] assms by (auto simp: cell_of_def)
  then show ?thesis
    using assms by (cases a; cases b) (auto simp: compareNormalized_def cell_of_def split: if_splits)
qed


section \<open>Encoding of cells\<close>

definition writeFramed :: "string \<Rightarrow> string" where
  "writeFramed value = PutUvarint (length value) @ value"

interpretation framed: prefix_free writeFramed
proof
  fix a r b s
  assume "writeFramed a @ r = writeFramed b @ s"
  then have "PutUvarint (length a) @ (a @ r) = PutUvarint (length b) @ (b @ s)"
    by (simp add: writeFramed_def)
  then have "length a = length b \<and> a @ r = b @ s" by (rule varint.enc_cancel)
  then show "a = b \<and> r = s" using append_eq_append_conv [of a b r s] by blast
qed

definition unix_bits :: "time \<Rightarrow> 64 word" where
  "unix_bits t = xor (word_of_int (t div Second)) (push_bit 63 1)"

definition encode_norm :: "valueType \<Rightarrow> norm \<Rightarrow> string" where
  "encode_norm kind v =
     (case kind of
        typeText \<Rightarrow> text_of v
      | typeInteger \<Rightarrow> show_int (integer_of v)
      | typeDecimal \<Rightarrow> RatString (decimal_of v)
      | typeFloat \<Rightarrow> big_endian 8 (unat (float_of v))
      | typeBoolean \<Rightarrow> (if boolean_of v then [CHR 0x01] else [CHR 0x00])
      | typeTemporal \<Rightarrow> big_endian 8 (unat (unix_bits (temporal_of v))) @
                        big_endian 4 (unat (word_of_int (temporal_of v mod Second) :: 32 word))
      | typeBinary \<Rightarrow> binary_of v)"

definition encodeGroupCell :: "valueType \<Rightarrow> string \<Rightarrow> Cell \<Rightarrow> ops_error + string \<times> Cell" where
  "encodeGroupCell kind declared cell =
     (if \<not> Present cell then Inr ([CHR 0x00], \<lparr>Present = False, Value = VNil\<rparr>)
      else if Value cell = VNil then Inr ([CHR 0x01], \<lparr>Present = True, Value = VNil\<rparr>)
      else (case normalizeCell kind cell of
              Inl e \<Rightarrow> Inl (DeclaredValue declared e)
            | Inr n \<Rightarrow> Inr (CHR 0x02 # encode_norm kind (the (norm_value n)), cell)))"

text \<open>An instant whose Unix seconds fit 64 bits, as every \<open>time.Time\<close> of a calendar date does.\<close>

definition time_ok :: "time \<Rightarrow> bool" where
  "time_ok t \<longleftrightarrow> - (2 ^ 63) \<le> t div Second \<and> t div Second < 2 ^ 63"

fun norm_time_ok :: "norm \<Rightarrow> bool" where
  "norm_time_ok (NTemporal t) = time_ok t"
| "norm_time_ok _ = True"

lemma sint_of_int64: "- (2 ^ 63) \<le> a \<Longrightarrow> a < 2 ^ 63 \<Longrightarrow> sint (word_of_int a :: 64 word) = a"
  by (simp add: int_word_sint)

lemma word_of_int_inj64:
  "- (2 ^ 63) \<le> a \<Longrightarrow> a < 2 ^ 63 \<Longrightarrow> - (2 ^ 63) \<le> b \<Longrightarrow> b < 2 ^ 63 \<Longrightarrow>
   (word_of_int a :: 64 word) = word_of_int b \<longleftrightarrow> a = b"
  using sint_of_int64 [of a] sint_of_int64 [of b] by metis

lemma xor_cancel: "xor a c = xor b c \<longleftrightarrow> a = b" for a b c :: "64 word"
proof
  assume "xor a c = xor b c"
  then have "xor (xor a c) c = xor (xor b c) c" by simp
  then show "a = b" by (simp add: xor.assoc)
qed simp

lemma unix_bits_inj: "time_ok s \<Longrightarrow> time_ok t \<Longrightarrow> unix_bits s = unix_bits t \<longleftrightarrow> s div Second = t div Second"
  unfolding unix_bits_def xor_cancel time_ok_def by (rule word_of_int_inj64) simp_all

lemma nanos_inj:
  "(unat (word_of_int (s mod Second) :: 32 word) = unat (word_of_int (t mod Second) :: 32 word)) =
   (s mod Second = t mod Second)"
proof -
  have "unat (word_of_int (x mod Second) :: 32 word) = nat (x mod Second)" for x :: int
  proof -
    have "0 \<le> x mod Second" "x mod Second < 2 ^ 32" by (simp_all add: Second_def)
    then show ?thesis by (simp add: unat_eq_nat_uint uint_word_of_int)
  qed
  then show ?thesis by (simp add: Second_def eq_nat_nat_iff)
qed

text \<open>Two values of a kind have the same encoding exactly when they are equal.\<close>

lemma encode_norm_inj:
  assumes "norm_of kind u" "norm_of kind v" "norm_time_ok u" "norm_time_ok v"
  shows "encode_norm kind u = encode_norm kind v \<longleftrightarrow> u = v"
proof (cases kind)
  case typeFloat
  have "big_endian 8 (unat a) = big_endian 8 (unat b) \<longleftrightarrow> a = b" for a b :: float64
    using big_endian_inj [of "unat a" 8 "unat b"] unsigned_less [of a] unsigned_less [of b]
    by (simp add: word_unat_eq_iff)
  then show ?thesis using assms typeFloat by (auto simp: encode_norm_def norm_of_cases)
next
  case typeTemporal
  then obtain s t where st: "u = NTemporal s" "v = NTemporal t" "time_ok s" "time_ok t"
    using assms by (auto simp: norm_of_cases)
  have b8: "big_endian 8 (unat a) = big_endian 8 (unat b) \<longleftrightarrow> a = b" for a b :: "64 word"
    using big_endian_inj [of "unat a" 8 "unat b"] unsigned_less [of a] unsigned_less [of b]
    by (simp add: word_unat_eq_iff)
  have b4: "big_endian 4 (unat a) = big_endian 4 (unat b) \<longleftrightarrow> unat a = unat b" for a b :: "32 word"
    using big_endian_inj [of "unat a" 4 "unat b"] unsigned_less [of a] unsigned_less [of b] by simp
  have "encode_norm kind u = encode_norm kind v \<longleftrightarrow> s div Second = t div Second \<and> s mod Second = t mod Second"
    by (simp add: typeTemporal st encode_norm_def append_eq_append_conv b8 b4 unix_bits_inj nanos_inj)
  also have "\<dots> \<longleftrightarrow> s = t" by (metis div_mult_mod_eq)
  finally show ?thesis by (simp add: st)
qed (use assms in \<open>auto simp: encode_norm_def norm_of_cases show_int_inj RatString_inj\<close>)

end
