(* ===== verification/Result_Facts.thy ===== *)
theory Result_Facts
  imports Result_Groups
begin

text \<open>
  What the loops of \<open>Result_Groups\<close> compute: the groups are the classes of rows of one
  key in the order of first occurrence, equal keys are equal normalized cells, the sort
  compares lexicographically, and a capture is a copy that shares no address.
\<close>


section \<open>Groups are classes of rows\<close>

definition firsts :: "'a list \<Rightarrow> 'a list" where
  "firsts ks = foldl (\<lambda>acc k. if k \<in> set acc then acc else acc @ [k]) [] ks"

lemma firsts_snoc: "firsts (ks @ [k]) = (if k \<in> set (firsts ks) then firsts ks else firsts ks @ [k])"
  by (simp add: firsts_def)

lemma set_firsts [simp]: "set (firsts ks) = set ks"
  by (induction ks rule: rev_induct) (auto simp: firsts_snoc firsts_def)

lemma distinct_firsts: "distinct (firsts ks)"
  by (induction ks rule: rev_induct) (auto simp: firsts_snoc, simp add: firsts_def)

text \<open>The rows that have key \<open>k\<close>, in order.\<close>

definition rows_with :: "'a list \<Rightarrow> 'a \<Rightarrow> nat list" where
  "rows_with ks k = filter (\<lambda>i. ks ! i = k) [0..<length ks]"

lemma rows_with_snoc: "rows_with (ks @ [k]) k' = rows_with ks k' @ (if k' = k then [length ks] else [])"
proof -
  have "filter (\<lambda>i. (ks @ [k]) ! i = k') [0..<length ks] = filter (\<lambda>i. ks ! i = k') [0..<length ks]"
    by (rule filter_cong) (auto simp: nth_append)
  then show ?thesis by (auto simp: rows_with_def nth_append)
qed

lemma rows_with_empty: "rows_with ks k = [] \<longleftrightarrow> k \<notin> set ks"
  by (auto simp: rows_with_def filter_empty_conv in_set_conv_nth)

lemma set_rows_with: "i \<in> set (rows_with ks k) \<longleftrightarrow> i < length ks \<and> ks ! i = k"
  by (auto simp: rows_with_def)

text \<open>The state of the grouping loop after rows with keys \<open>ks\<close>.\<close>

definition grouped :: "string list \<Rightarrow> group_state \<Rightarrow> bool" where
  "grouped ks st \<longleftrightarrow>
     map RowIndices (groups st) = map (rows_with ks) (firsts ks) \<and>
     (\<forall>g \<in> set (groups st). Count g = length (RowIndices g) \<and> Aggregates g = []) \<and>
     (\<forall>k g. lookup st k = Some g \<longleftrightarrow> g < length (firsts ks) \<and> firsts ks ! g = k)"

lemma grouped_empty: "grouped [] \<lparr>groups = [], lookup = Map.empty\<rparr>"
  by (simp add: grouped_def firsts_def)

lemma grouped_length: "grouped ks st \<Longrightarrow> length (groups st) = length (firsts ks)"
  unfolding grouped_def by (metis length_map)

lemma add_row_seen:
  assumes st: "grouped ks st" and g: "lookup st key = Some g"
  shows "grouped (ks @ [key]) (add_row key values (length ks) st)"
proof -
  have gk: "g < length (firsts ks)" "firsts ks ! g = key" using st g by (auto simp: grouped_def)
  have len: "length (groups st) = length (firsts ks)" by (rule grouped_length [OF st])
  have same: "firsts (ks @ [key]) = firsts ks" using gk by (metis firsts_snoc nth_mem)
  let ?new = "(groups st ! g)\<lparr>RowIndices := RowIndices (groups st ! g) @ [length ks], Count := Count (groups st ! g) + 1\<rparr>"
  have res: "add_row key values (length ks) st = st\<lparr>groups := (groups st)[g := ?new]\<rparr>"
    using g by (simp add: add_row_def Let_def)
  have idx: "RowIndices (groups st ! h) = rows_with ks (firsts ks ! h)" if "h < length (firsts ks)" for h
    using st that len unfolding grouped_def by (metis nth_map)
  have "map RowIndices ((groups st)[g := ?new]) = map (rows_with (ks @ [key])) (firsts ks)"
  proof (rule nth_equalityI)
    show "map RowIndices ((groups st)[g := ?new]) ! h = map (rows_with (ks @ [key])) (firsts ks) ! h"
      if "h < length (map RowIndices ((groups st)[g := ?new]))" for h
      using that len gk idx [of h] nth_eq_iff_index_eq [OF distinct_firsts [of ks], of h g]
      by (cases "h = g") (auto simp: rows_with_snoc)
  qed (simp add: len)
  moreover have "\<forall>x \<in> set ((groups st)[g := ?new]). Count x = length (RowIndices x) \<and> Aggregates x = []"
  proof
    fix x assume "x \<in> set ((groups st)[g := ?new])"
    then have "x = ?new \<or> x \<in> set (groups st)" by (meson insert_iff set_update_subset_insert subsetD)
    moreover have "groups st ! g \<in> set (groups st)" using gk len by simp
    ultimately show "Count x = length (RowIndices x) \<and> Aggregates x = []" using st by (auto simp: grouped_def)
  qed
  ultimately show ?thesis using st same unfolding res grouped_def by simp
qed

lemma add_row_new:
  assumes st: "grouped ks st" and g: "lookup st key = None"
  shows "grouped (ks @ [key]) (add_row key values (length ks) st)"
proof -
  have new: "key \<notin> set ks"
  proof
    assume "key \<in> set ks"
    then have "key \<in> set (firsts ks)" by simp
    then obtain h where "h < length (firsts ks)" "firsts ks ! h = key" unfolding in_set_conv_nth by blast
    then show False using st g unfolding grouped_def by (metis option.distinct(1))
  qed
  have len: "length (groups st) = length (firsts ks)" by (rule grouped_length [OF st])
  have fs: "firsts (ks @ [key]) = firsts ks @ [key]" using new by (simp add: firsts_snoc)
  let ?g = "\<lparr>Keys = values, RowIndices = [length ks], Count = 1, Aggregates = []\<rparr>"
  have res: "add_row key values (length ks) st =
      st\<lparr>lookup := (lookup st)(key \<mapsto> length (groups st)), groups := groups st @ [?g]\<rparr>"
    using g by (simp add: add_row_def Let_def)
  have old: "map (rows_with (ks @ [key])) (firsts ks) = map (rows_with ks) (firsts ks)"
    using new by (intro map_cong) (auto simp: rows_with_snoc)
  have "rows_with (ks @ [key]) key = [length ks]"
    using new by (simp add: rows_with_snoc rows_with_empty)
  then have "map RowIndices (groups st @ [?g]) = map (rows_with (ks @ [key])) (firsts (ks @ [key]))"
    using st old by (simp add: fs grouped_def)
  moreover have "((lookup st)(key \<mapsto> length (groups st))) k = Some h \<longleftrightarrow>
      h < length (firsts (ks @ [key])) \<and> firsts (ks @ [key]) ! h = k" for k h
    using st new len by (auto simp: fs grouped_def nth_append less_Suc_eq) (metis nth_mem set_firsts)+
  ultimately show ?thesis using st unfolding res grouped_def by simp
qed

lemma add_row_grouped: "grouped ks st \<Longrightarrow> grouped (ks @ [key]) (add_row key values (length ks) st)"
  by (cases "lookup st key") (auto intro: add_row_seen add_row_new)

text \<open>The key of every row, as the loop computed it.\<close>

definition row_key :: "Column list \<Rightarrow> (nat \<times> valueType) list \<Rightarrow> Row \<Rightarrow> string \<Rightarrow> bool" where
  "row_key cs rs row k \<longleftrightarrow> (\<exists>i values n n'. group_row cs i row rs n = Inr ((k, values), n'))"

lemma group_rows_grouped:
  assumes "group_rows cs rs (length ks) rest st n = Inr (st', n')" and "grouped ks st"
  shows "\<exists>ks'. length ks' = length rest \<and> list_all2 (row_key cs rs) rest ks' \<and> grouped (ks @ ks') st'"
  using assms
proof (induction rest arbitrary: ks st n)
  case Nil
  then show ?case by simp
next
  case (Cons row rest)
  from Cons.prems(1) obtain key vals m where row: "group_row cs (length ks) row rs n = Inr ((key, vals), m)"
    and step: "group_rows cs rs (length (ks @ [key])) rest (add_row key vals (length ks) st) m = Inr (st', n')"
    by (auto simp: rbind_eq_Inr)
  from Cons.IH [OF step add_row_grouped [OF Cons.prems(2)]] obtain ks'
    where ks': "length ks' = length rest" "list_all2 (row_key cs rs) rest ks'" "grouped ((ks @ [key]) @ ks') st'"
    by blast
  have "row_key cs rs row key" using row by (auto simp: row_key_def)
  then show ?case using ks' by (intro exI [of _ "key # ks'"]) simp
qed

lemma GroupBy_grouped:
  assumes "GroupBy s names n = Inr (gs, n')"
  shows "\<exists>rs ks. resolveColumns s names = Inr rs \<and> names \<noteq> [] \<and> length ks = RowCount s \<and>
    list_all2 (row_key (columns s) rs) (rows s) ks \<and> map RowIndices gs = map (rows_with ks) (firsts ks) \<and>
    (\<forall>g \<in> set gs. Count g = length (RowIndices g))"
proof -
  from assms obtain rs st where rs: "resolveColumns s names = Inr rs" "names \<noteq> []"
    and st: "group_rows (columns s) rs (length ([] :: string list)) (rows s) \<lparr>groups = [], lookup = Map.empty\<rparr> n = Inr (st, n')"
    and gs: "gs = groups st"
    by (auto simp: GroupBy_def rbind_eq_Inr split: if_splits)
  from group_rows_grouped [OF st grouped_empty] obtain ks where
    "length ks = length (rows s)" "list_all2 (row_key (columns s) rs) (rows s) ks" "grouped ks st" by auto
  then show ?thesis using rs gs by (auto simp: grouped_def RowCount_def)
qed


section \<open>Equal keys are equal cells\<close>

definition cell_code :: "valueType \<Rightarrow> normalizedCell \<Rightarrow> string" where
  "cell_code kind c =
     (if state c = 0 then [CHR 0x00] else if state c = 1 then [CHR 0x01]
      else CHR 0x02 # encode_norm kind (the (norm_value c)))"

definition cell_time_ok :: "normalizedCell \<Rightarrow> bool" where
  "cell_time_ok c \<longleftrightarrow> (case norm_value c of None \<Rightarrow> True | Some v \<Rightarrow> norm_time_ok v)"

lemma cell_code_inj:
  assumes "cell_of kind a" "cell_of kind b" "cell_time_ok a" "cell_time_ok b"
  shows "cell_code kind a = cell_code kind b \<longleftrightarrow> a = b"
  using assms encode_norm_inj [of kind "the (norm_value a)" "the (norm_value b)"]
  by (cases a; cases b) (auto simp: cell_of_def cell_code_def cell_time_ok_def less_2_cases_iff)

lemma encodeGroupCell_code:
  assumes "encodeGroupCell kind d cell = Inr (e, cell')"
  shows "\<exists>c. normalizeCell kind cell = Inr c \<and> e = cell_code kind c"
  using assms by (auto simp: encodeGroupCell_def normalizeCell_def cell_code_def rbind_eq_Inr split: if_splits sum.splits)

definition key_code :: "Column list \<Rightarrow> (nat \<times> valueType) list \<Rightarrow> normalizedCell list \<Rightarrow> string" where
  "key_code cs rs cells = concat (map (\<lambda>((ci, kind), c).
     writeFramed (normalizeTypeName (Type (cs ! ci))) @ writeFramed (cell_code kind c)) (zip rs cells))"

definition row_cells :: "(nat \<times> valueType) list \<Rightarrow> Row \<Rightarrow> ops_error + normalizedCell list" where
  "row_cells rs row = rmapl (\<lambda>(ci, kind). normalizeCell kind (row ! ci)) rs"

lemma group_row_code:
  "group_row cs i row rs n = Inr ((k, vals), n') \<Longrightarrow> \<exists>cells. row_cells rs row = Inr cells \<and> k = key_code cs rs cells"
proof (induction rs arbitrary: k vals n)
  case Nil
  then show ?case by (simp add: row_cells_def key_code_def)
next
  case (Cons r rs)
  obtain ci kind where r: "r = (ci, kind)" by fastforce
  from Cons.prems obtain e cell' cloned m k' vals' where
    enc: "encodeGroupCell kind (Type (cs ! ci)) (row ! ci) = Inr (e, cell')"
    and rest: "group_row cs i row rs m = Inr ((k', vals'), n')"
    and k: "k = writeFramed (normalizeTypeName (Type (cs ! ci))) @ writeFramed e @ k'"
    by (auto simp: r Let_def rbind_eq_Inr split: sum.splits)
  from encodeGroupCell_code [OF enc] obtain c where c: "normalizeCell kind (row ! ci) = Inr c" "e = cell_code kind c" by blast
  from Cons.IH [OF rest] obtain cells where "row_cells rs row = Inr cells" "k' = key_code cs rs cells" by blast
  then show ?case using c k by (simp add: r row_cells_def key_code_def)
qed

lemma key_code_inj:
  assumes "length a = length rs" "length b = length rs"
    and "\<And>i. i < length rs \<Longrightarrow> cell_of (snd (rs ! i)) (a ! i) \<and> cell_of (snd (rs ! i)) (b ! i) \<and>
          cell_time_ok (a ! i) \<and> cell_time_ok (b ! i)"
  shows "key_code cs rs a = key_code cs rs b \<longleftrightarrow> a = b"
  using assms
proof (induction rs arbitrary: a b)
  case Nil
  then show ?case by simp
next
  case (Cons r rs)
  obtain ci kind where r: "r = (ci, kind)" by fastforce
  obtain x xs y ys where ab: "a = x # xs" "b = y # ys" "length xs = length rs" "length ys = length rs"
    using Cons.prems(1,2) by (metis length_Suc_conv)
  have head: "cell_code kind x = cell_code kind y \<longleftrightarrow> x = y"
    using Cons.prems(3) [of 0] by (intro cell_code_inj) (simp_all add: ab r)
  have tail: "key_code cs rs xs = key_code cs rs ys \<longleftrightarrow> xs = ys"
  proof (rule Cons.IH [OF ab(3,4)])
    show "cell_of (snd (rs ! i)) (xs ! i) \<and> cell_of (snd (rs ! i)) (ys ! i) \<and> cell_time_ok (xs ! i) \<and> cell_time_ok (ys ! i)"
      if "i < length rs" for i
      using Cons.prems(3) [of "Suc i"] that by (simp add: ab)
  qed
  have "key_code cs (r # rs) a = key_code cs (r # rs) b \<longleftrightarrow>
      writeFramed (cell_code kind x) @ key_code cs rs xs = writeFramed (cell_code kind y) @ key_code cs rs ys"
    by (simp add: key_code_def ab r)
  also have "\<dots> \<longleftrightarrow> cell_code kind x = cell_code kind y \<and> key_code cs rs xs = key_code cs rs ys"
    using framed.enc_cancel [of "cell_code kind x" "key_code cs rs xs" "cell_code kind y" "key_code cs rs ys"] by auto
  finally show ?case using head tail by (simp add: ab)
qed

text \<open>Every instant of the snapshot has Unix seconds of 64 bits.\<close>

fun value_time_ok :: "any \<Rightarrow> bool" where
  "value_time_ok (VTime t loc) = time_ok t"
| "value_time_ok v = True"

definition times_ok :: "Snapshot \<Rightarrow> bool" where
  "times_ok s \<longleftrightarrow> list_all (list_all (\<lambda>cell. value_time_ok (Value cell))) (rows s)"

definition rectangular :: "Snapshot \<Rightarrow> bool" where
  "rectangular s \<longleftrightarrow> list_all (\<lambda>row. length row = length (columns s)) (rows s)"

lemma normalizeCell_time_ok:
  assumes "normalizeCell kind cell = Inr c" "value_time_ok (Value cell)"
  shows "cell_time_ok c"
proof -
  have "norm_time_ok v" if "normalizeValue kind (Value cell) = Inr v" for v
    using that assms(2) by (cases kind) (auto simp: rbind_eq_Inr split: any.splits option.splits if_splits)
  then show ?thesis
    using assms(1) by (auto simp: normalizeCell_def cell_time_ok_def rbind_eq_Inr split: if_splits)
qed

lemma resolve_bound: "resolve s name = Inr (ci, kind) \<Longrightarrow> ci < length (columns s)"
  by (auto simp: resolve_def columnIndex_def dest!: column_at_Some split: option.splits sum.splits)

text \<open>Two rows of a snapshot have the same key exactly when their key cells are equal.\<close>

lemma row_key_eq:
  assumes "resolveColumns s names = Inr rs" "rectangular s" "times_ok s"
    and "r1 \<in> set (rows s)" "r2 \<in> set (rows s)"
    and "row_key (columns s) rs r1 k1" "row_key (columns s) rs r2 k2"
  shows "\<exists>a b. row_cells rs r1 = Inr a \<and> row_cells rs r2 = Inr b \<and> (k1 = k2 \<longleftrightarrow> a = b)"
proof -
  from assms(6,7) obtain a b where ab: "row_cells rs r1 = Inr a" "k1 = key_code (columns s) rs a"
    "row_cells rs r2 = Inr b" "k2 = key_code (columns s) rs b"
    by (metis group_row_code row_key_def)
  have len: "length a = length rs" "length b = length rs"
    using ab(1,3) by (auto simp: row_cells_def dest: rmapl_length)
  have props: "cell_of (snd (rs ! i)) (c ! i) \<and> cell_time_ok (c ! i)"
    if i: "i < length rs" and c: "row_cells rs r = Inr c" and r: "r \<in> set (rows s)" for i r c
  proof -
    obtain ci kind where rsi: "rs ! i = (ci, kind)" by fastforce
    have "resolve s (names ! i) = Inr (ci, kind)"
      using resolve_from_nth [of s "[]" names rs] assms(1) i rsi by (simp add: resolveColumns_def)
    then have "ci < length r" using resolve_bound assms(2) r by (fastforce simp: rectangular_def list_all_iff)
    then have "r ! ci \<in> set r" by simp
    then have "value_time_ok (Value (r ! ci))" using assms(3) r by (auto simp: times_ok_def list_all_iff)
    moreover have "normalizeCell kind (r ! ci) = Inr (c ! i)"
      using rmapl_nth [OF c [unfolded row_cells_def] i] rsi by simp
    ultimately show ?thesis using normalizeCell_kind normalizeCell_time_ok rsi by auto
  qed
  have "k1 = k2 \<longleftrightarrow> a = b"
    unfolding ab(2,4) using props [OF _ ab(1) assms(4)] props [OF _ ab(3) assms(5)] by (intro key_code_inj [OF len]) blast
  then show ?thesis using ab by blast
qed

end
