(* ===== verification/Result_Sums.thy ===== *)
theory Result_Sums
  imports Result_Facts
begin

text \<open>
  The order \<open>Sort\<close> compares rows in, the values an aggregate folds over, and the copy a
  capture makes, each stated on the snapshot itself.
\<close>


section \<open>The order of a sort\<close>

text \<open>The reference order of two rows: the first key that tells them apart decides.\<close>

fun row_cmp :: "Snapshot \<Rightarrow> SortKey list \<Rightarrow> nat \<Rightarrow> nat \<Rightarrow> int" where
  "row_cmp s [] i j = 0"
| "row_cmp s (k # ks) i j =
     (case resolve s (sort_column k) of
        Inl _ \<Rightarrow> 0
      | Inr (ci, kind) \<Rightarrow>
          (case (normalizeCell kind (rows s ! i ! ci), normalizeCell kind (rows s ! j ! ci)) of
             (Inr a, Inr b) \<Rightarrow>
               let c = compareNormalized a b kind in
               if c = 0 then row_cmp s ks i j else if Descending k then - c else c
           | _ \<Rightarrow> 0))"

text \<open>Every cell a key reads has a value of the declared type.\<close>

definition key_readable :: "Snapshot \<Rightarrow> SortKey \<Rightarrow> bool" where
  "key_readable s k \<longleftrightarrow> (\<exists>ci kind. resolve s (sort_column k) = Inr (ci, kind) \<and>
     (\<forall>i < RowCount s. \<exists>v. normalizeCell kind (rows s ! i ! ci) = Inr v))"

lemma row_cmp_laws: "list_all (key_readable s) ks \<Longrightarrow> three_way (\<lambda>i. i < RowCount s) (row_cmp s ks)"
proof (induction ks)
  case Nil
  show ?case by unfold_locales simp_all
next
  case (Cons k ks)
  then obtain ci kind where k: "resolve s (sort_column k) = Inr (ci, kind)"
    and "\<forall>i < RowCount s. \<exists>v. normalizeCell kind (rows s ! i ! ci) = Inr v"
    by (auto simp: key_readable_def)
  then obtain f where f: "\<And>i. i < RowCount s \<Longrightarrow> normalizeCell kind (rows s ! i ! ci) = Inr (f i)" by metis
  have first: "three_way (\<lambda>i. i < RowCount s) (\<lambda>i j. compareNormalized (f i) (f j) kind)"
    by (rule three_way_weaken [OF three_way_image [OF cells.three_way_axioms, of _ f]])
       (blast intro: normalizeCell_kind f)
  then have directed: "three_way (\<lambda>i. i < RowCount s)
      (\<lambda>i j. if Descending k then - compareNormalized (f i) (f j) kind else compareNormalized (f i) (f j) kind)"
    by (cases "Descending k") (simp_all add: three_way_reverse)
  have rest: "three_way (\<lambda>i. i < RowCount s) (row_cmp s ks)" using Cons by simp
  show ?case
    by (rule three_way_cong [OF three_way_then [OF directed rest]]) (simp add: k f Let_def)
qed

lemma sort_values_nth:
  "sort_values cs r ci kind rs = Inr vs \<Longrightarrow>
   length vs = length rs \<and> (\<forall>i < length rs. normalizeCell kind (rs ! i ! ci) = Inr (vs ! i))"
proof (induction rs arbitrary: r vs)
  case Nil
  then show ?case by simp
next
  case (Cons row rs)
  then obtain v vs' where "normalizeCell kind (row ! ci) = Inr v"
    "sort_values cs (r + 1) ci kind rs = Inr vs'" "vs = v # vs'"
    by (auto simp: rbind_eq_Inr split: sum.splits)
  then show ?case using Cons.IH [of "r + 1" vs'] by (auto simp: nth_Cons split: nat.splits)
qed

text \<open>The comparison function of the code is the reference order.\<close>

lemma sort_less_row_cmp:
  assumes "length rs = length ks" "length vals = length ks"
    and "\<And>k. k < length ks \<Longrightarrow> resolve s (sort_column (ks ! k)) = Inr (rs ! k) \<and>
          (\<forall>i < RowCount s. normalizeCell (snd (rs ! k)) (rows s ! i ! fst (rs ! k)) = Inr (vals ! k ! i))"
    and "i < RowCount s" "j < RowCount s"
  shows "sort_less (zip (map Descending ks) (zip (map snd rs) vals)) i j \<longleftrightarrow> row_cmp s ks i j < 0"
  using assms
proof (induction ks arbitrary: rs vals)
  case Nil
  then show ?case by simp
next
  case (Cons k ks)
  obtain r rs' v vs' where rv: "rs = r # rs'" "vals = v # vs'" "length rs' = length ks" "length vs' = length ks"
    using Cons.prems(1,2) by (cases rs; cases vals) auto
  obtain ci kind where r: "r = (ci, kind)" by fastforce
  have head: "resolve s (sort_column k) = Inr (ci, kind)"
    "normalizeCell kind (rows s ! i ! ci) = Inr (v ! i)" "normalizeCell kind (rows s ! j ! ci) = Inr (v ! j)"
    using Cons.prems(3) [of 0] Cons.prems(4,5) by (simp_all add: rv r)
  have tail: "sort_less (zip (map Descending ks) (zip (map snd rs') vs')) i j \<longleftrightarrow> row_cmp s ks i j < 0"
  proof (rule Cons.IH [OF rv(3,4) _ Cons.prems(4,5)])
    show "resolve s (sort_column (ks ! m)) = Inr (rs' ! m) \<and>
        (\<forall>i < RowCount s. normalizeCell (snd (rs' ! m)) (rows s ! i ! fst (rs' ! m)) = Inr (vs' ! m ! i))"
      if "m < length ks" for m
      using Cons.prems(3) [of "Suc m"] that by (simp add: rv)
  qed
  show ?case using head tail by (auto simp: rv r Let_def)
qed

lemma Sort_Inr:
  assumes "Sort s keys = Inr order"
  shows "list_all (key_readable s) keys"
    and "order = SliceStable (\<lambda>i j. row_cmp s keys i j < 0) (OriginalOrder s)"
proof -
  from assms obtain rs vals where rs: "resolve_from s [] (map sort_column keys) = Inr rs"
    and vals: "rmapl (\<lambda>(i, kind). sort_values (columns s) 0 i kind (rows s)) rs = Inr vals"
    and order: "order = SliceStable (sort_less (zip (map Descending keys) (zip (map snd rs) vals))) (OriginalOrder s)"
    by (auto simp: Sort_def rbind_eq_Inr)
  have len: "length rs = length keys" "length vals = length keys"
    using resolve_from_nth [OF rs] rmapl_length [OF vals] by simp_all
  have each: "resolve s (sort_column (keys ! k)) = Inr (rs ! k) \<and>
      (\<forall>i < RowCount s. normalizeCell (snd (rs ! k)) (rows s ! i ! fst (rs ! k)) = Inr (vals ! k ! i))"
    if k: "k < length keys" for k
  proof -
    have "sort_values (columns s) 0 (fst (rs ! k)) (snd (rs ! k)) (rows s) = Inr (vals ! k)"
      using rmapl_nth [OF vals, of k] k len by (simp add: case_prod_beta)
    from sort_values_nth [OF this] show ?thesis
      using resolve_from_nth [OF rs] k by (simp add: RowCount_def)
  qed
  show "list_all (key_readable s) keys"
    unfolding list_all_length key_readable_def using each by (metis prod.collapse)
  have "SliceStable (sort_less (zip (map Descending keys) (zip (map snd rs) vals))) xs =
        SliceStable (\<lambda>i j. row_cmp s keys i j < 0) xs" if "set xs \<subseteq> {..<RowCount s}" for xs
    using that
  proof (induction xs)
    case (Cons x xs)
    let ?f = "sort_less (zip (map Descending keys) (zip (map snd rs) vals))"
    have sinks: "sink ?f x ys = sink (\<lambda>i j. row_cmp s keys i j < 0) x ys" if "set ys \<subseteq> {..<RowCount s}" for ys
      using that
    proof (induction ys)
      case (Cons y ys)
      then show ?case
        using sort_less_row_cmp [OF len each, of y x] \<open>set (x # xs) \<subseteq> {..<RowCount s}\<close> by simp
    qed simp
    have "set (SliceStable (\<lambda>i j. row_cmp s keys i j < 0) xs) \<subseteq> {..<RowCount s}" using Cons.prems by simp
    then show ?case using Cons sinks by (simp add: SliceStable_def)
  qed (simp add: SliceStable_def)
  then show "order = SliceStable (\<lambda>i j. row_cmp s keys i j < 0) (OriginalOrder s)"
    unfolding order by (rule) (auto simp: OriginalOrder_def RowCount_def)
qed


section \<open>The values of an aggregate\<close>

definition present_value :: "Snapshot \<Rightarrow> nat \<Rightarrow> valueType \<Rightarrow> nat \<Rightarrow> norm option" where
  "present_value s column kind i =
     (let v = Value (rows s ! i ! column) in
      if v = VNil then None else case normalizeValue kind v of Inl _ \<Rightarrow> None | Inr x \<Rightarrow> Some x)"

definition column_values :: "Snapshot \<Rightarrow> nat \<Rightarrow> valueType \<Rightarrow> nat list \<Rightarrow> norm list" where
  "column_values s column kind is = List.map_filter (present_value s column kind) is"

lemma column_values_simps [simp]:
  "column_values s column kind [] = []"
  "column_values s column kind (i # is) =
     (case present_value s column kind i of None \<Rightarrow> column_values s column kind is
      | Some v \<Rightarrow> v # column_values s column kind is)"
  by (simp_all add: column_values_def List.map_filter_def split: option.splits)

lemma agg_row_Inr:
  assumes "agg_row s column kind fn i acc = Inr acc'"
  shows "Present (rows s ! i ! column)"
    and "case present_value s column kind i of None \<Rightarrow> acc' = acc | Some v \<Rightarrow> agg_value fn kind i v acc = Inr acc'"
  using assms by (auto simp: agg_row_def Let_def present_value_def split: if_splits sum.splits)

text \<open>The rows of an aggregate are all present, and the fold visits their values only.\<close>

lemma rfold_agg_row:
  assumes "rfold (agg_row s column kind fn) is acc = Inr acc'"
  shows "\<forall>i \<in> set is. Present (rows s ! i ! column)"
    and "\<exists>ps. map snd ps = column_values s column kind is \<and>
           rfold (\<lambda>p. agg_value fn kind (fst p) (snd p)) ps acc = Inr acc'"
  using assms
proof (induction "is" arbitrary: acc)
  case Nil
  { case 1 then show ?case by simp }
  { case 2 then show ?case by (intro exI [of _ "[]"]) simp }
next
  case (Cons i "is")
  { case 1
    then show ?case using Cons.IH(1) by (auto simp: rbind_eq_Inr dest: agg_row_Inr(1)) }
  { case 2
    then obtain t where t: "agg_row s column kind fn i acc = Inr t" "rfold (agg_row s column kind fn) is t = Inr acc'"
      by (auto simp: rbind_eq_Inr)
    from Cons.IH(2) [OF t(2)] obtain ps where ps: "map snd ps = column_values s column kind is"
      "rfold (\<lambda>p. agg_value fn kind (fst p) (snd p)) ps t = Inr acc'" by blast
    show ?case
    proof (cases "present_value s column kind i")
      case None
      then show ?thesis using ps agg_row_Inr(2) [OF t(1)] by auto
    next
      case (Some v)
      then show ?thesis
        using ps agg_row_Inr(2) [OF t(1)] by (intro exI [of _ "(i, v) # ps"]) simp
    qed }
qed

lemma agg_count:
  "rfold (\<lambda>p. agg_value fn kind (fst p) (snd p)) ps acc = Inr acc' \<Longrightarrow> nonNull acc' = nonNull acc + length ps"
proof (induction ps arbitrary: acc)
  case (Cons p ps)
  then obtain t where t: "agg_value fn kind (fst p) (snd p) acc = Inr t"
    "rfold (\<lambda>p. agg_value fn kind (fst p) (snd p)) ps t = Inr acc'"
    by (auto simp: rbind_eq_Inr)
  have "nonNull t = nonNull acc + 1"
    using t(1) by (auto simp: agg_value_def Let_def split: aggregate.splits valueType.splits if_splits)
  then show ?case using Cons.IH [OF t(2)] by simp
qed simp

lemma agg_integer_sum:
  "rfold (\<lambda>p. agg_value AggregateSum typeInteger (fst p) (snd p)) ps acc = Inr acc' \<Longrightarrow>
   integerSum acc' = integerSum acc + sum_list (map (integer_of \<circ> snd) ps)"
  by (induction ps arbitrary: acc) (auto simp: agg_value_def Let_def)

lemma agg_decimal_sum:
  "rfold (\<lambda>p. agg_value AggregateSum typeDecimal (fst p) (snd p)) ps acc = Inr acc' \<Longrightarrow>
   decimalSum acc' = decimalSum acc + sum_list (map (decimal_of \<circ> snd) ps)"
  by (induction ps arbitrary: acc) (auto simp: agg_value_def Let_def)

lemma agg_float_finite:
  "rfold (\<lambda>p. agg_value AggregateSum typeFloat (fst p) (snd p)) ps acc = Inr acc' \<Longrightarrow>
   is_finite64 (floatSum acc) \<Longrightarrow>
   is_finite64 (floatSum acc') \<and> floatSum acc' = foldl f64_add (floatSum acc) (map (float_of \<circ> snd) ps)"
proof (induction ps arbitrary: acc)
  case (Cons p ps)
  let ?t = "acc\<lparr>nonNull := nonNull acc + 1, floatSum := f64_add (floatSum acc) (float_of (snd p))\<rparr>"
  from Cons.prems(1) obtain x where x: "agg_value AggregateSum typeFloat (fst p) (snd p) acc = Inr x"
    "rfold (\<lambda>p. agg_value AggregateSum typeFloat (fst p) (snd p)) ps x = Inr acc'"
    unfolding rfold.simps rbind_eq_Inr by blast
  have "x = ?t \<and> is_finite64 (floatSum ?t)"
    using x(1) by (auto simp: agg_value_def Let_def split: if_splits)
  with x(2) have t: "is_finite64 (floatSum ?t)"
    "rfold (\<lambda>p. agg_value AggregateSum typeFloat (fst p) (snd p)) ps ?t = Inr acc'" by simp_all
  show ?case using Cons.IH [OF t(2,1)] by auto
qed simp

text \<open>A better value in the direction of the aggregate.\<close>

definition best :: "aggregate \<Rightarrow> valueType \<Rightarrow> norm \<Rightarrow> norm \<Rightarrow> bool" where
  "best fn kind v u \<longleftrightarrow> (if fn = AggregateMin then compare_value kind v u \<le> 0 else compare_value kind u v \<le> 0)"

lemma best_refl: "norm_of kind v \<Longrightarrow> best fn kind v v"
  using three_way.cmp_refl [OF compare_value_laws] by (simp add: best_def)

lemma best_trans:
  "norm_of kind a \<Longrightarrow> norm_of kind b \<Longrightarrow> norm_of kind c \<Longrightarrow> best fn kind a b \<Longrightarrow> best fn kind b c \<Longrightarrow> best fn kind a c"
  using three_way.trans_le [OF compare_value_laws, of kind a b c] three_way.trans_le [OF compare_value_laws, of kind c b a]
  by (simp add: best_def split: if_splits)

lemma select_value_best:
  assumes "fn = AggregateMin \<or> fn = AggregateMax" "norm_of kind v" "norm_of kind w" "m \<noteq> 1"
  shows "\<exists>x. select_value fn kind v m (Some w) = Some x \<and> (x = v \<or> x = w) \<and> best fn kind x v \<and> best fn kind x w"
proof -
  have sw: "compare_value kind w v = - compare_value kind v w"
    by (rule three_way.swap [OF compare_value_laws assms(2,3)])
  show ?thesis
    using assms sw best_refl [OF assms(2), of fn] best_refl [OF assms(3), of fn]
    by (auto simp: select_value_def Let_def compareNormalized_def best_def split: if_splits)
qed

lemma agg_select:
  assumes "rfold (\<lambda>p. agg_value fn kind (fst p) (snd p)) ps acc = Inr acc'"
    and fn: "fn = AggregateMin \<or> fn = AggregateMax"
    and "\<forall>p \<in> set ps. norm_of kind (snd p)"
    and "nonNull acc \<noteq> 0" "selected acc = Some w" "norm_of kind w"
  shows "\<exists>x. selected acc' = Some x \<and> x \<in> insert w (snd ` set ps) \<and> best fn kind x w \<and>
           (\<forall>p \<in> set ps. best fn kind x (snd p))"
  using assms(1,3-)
proof (induction ps arbitrary: acc w)
  case Nil
  then show ?case using best_refl by auto
next
  case (Cons p ps)
  obtain i v where p: "p = (i, v)" by fastforce
  have v: "norm_of kind v" using Cons.prems(2) p by simp
  from select_value_best [OF fn v Cons.prems(5), of "nonNull acc + 1"] Cons.prems(3)
  obtain x where x: "select_value fn kind v (nonNull acc + 1) (Some w) = Some x" "x = v \<or> x = w"
    "best fn kind x v" "best fn kind x w" by auto
  let ?t = "acc\<lparr>nonNull := nonNull acc + 1, selected := Some x\<rparr>"
  have "agg_value fn kind i v acc = Inr ?t"
    using fn x(1) Cons.prems(4) by (auto simp: agg_value_def Let_def)
  then have rest: "rfold (\<lambda>p. agg_value fn kind (fst p) (snd p)) ps ?t = Inr acc'" using Cons.prems(1) p by simp
  have nx: "norm_of kind x" using x(2) v Cons.prems(5) by auto
  from Cons.IH [OF rest] nx Cons.prems(2) obtain y where y: "selected acc' = Some y" "y \<in> insert x (snd ` set ps)"
    "best fn kind y x" "\<forall>p \<in> set ps. best fn kind y (snd p)" by auto
  have ny: "norm_of kind y" using y(2) nx Cons.prems(2) by auto
  have "best fn kind y v" "best fn kind y w"
    using best_trans [OF ny nx v y(3) x(3)] best_trans [OF ny nx Cons.prems(5) y(3) x(4)] .
  then show ?case using y x(2) p by auto
qed

lemma agg_select_first:
  assumes "rfold (\<lambda>p. agg_value fn kind (fst p) (snd p)) ps empty_acc = Inr acc'"
    and fn: "fn = AggregateMin \<or> fn = AggregateMax"
    and "\<forall>p \<in> set ps. norm_of kind (snd p)" and "ps \<noteq> []"
  shows "\<exists>x \<in> snd ` set ps. selected acc' = Some x \<and> (\<forall>p \<in> set ps. best fn kind x (snd p))"
proof -
  obtain i v ps' where ps: "ps = (i, v) # ps'" using assms(4) by (cases ps) auto
  let ?t = "empty_acc\<lparr>nonNull := 1, selected := Some v\<rparr>"
  have "agg_value fn kind i v empty_acc = Inr ?t"
    using fn by (auto simp: agg_value_def empty_acc_def Let_def select_value_def)
  then have rest: "rfold (\<lambda>p. agg_value fn kind (fst p) (snd p)) ps' ?t = Inr acc'" using assms(1) ps by simp
  have "norm_of kind v" using assms(3) ps by simp
  then show ?thesis using agg_select [OF rest fn, of v] assms(3) ps by auto
qed


section \<open>The copy a capture makes\<close>

lemma check_columns_ok:
  "check_columns i seen cs = Inr () \<Longrightarrow>
   distinct (map Name cs) \<and> set (map Name cs) \<inter> set seen = {} \<and> list_all (\<lambda>c. TrimSpace (Name c) \<noteq> []) cs"
proof (induction cs arbitrary: i seen)
  case (Cons c cs)
  then have "check_columns (i + 1) (Name c # seen) cs = Inr ()" "TrimSpace (Name c) \<noteq> []" "Name c \<notin> set seen"
    by (auto split: if_splits)
  then show ?case using Cons.IH [of "i + 1" "Name c # seen"] by auto
qed simp

lemma fresh_cell_widen: "fresh_cell n n' c d \<Longrightarrow> m \<le> n \<Longrightarrow> n' \<le> m' \<Longrightarrow> fresh_cell m m' c d"
  by (auto simp: fresh_cell_def intro: fresh_copy_widen)

lemma fresh_cells_widen:
  "list_all2 (fresh_cell n n') cs ds \<Longrightarrow> m \<le> n \<Longrightarrow> n' \<le> m' \<Longrightarrow> list_all2 (fresh_cell m m') cs ds"
  by (erule list_all2_mono) (rule fresh_cell_widen)

lemma capture_cells_Cons:
  assumes "capture_cells i (c # cs) (cell # cells) n = Inr (ds, n')"
  obtains d m ds' where "cloneCell cell n = Inr (d, m)" "capture_cells i cs cells m = Inr (ds', n')" "ds = d # ds'"
  using assms by (auto simp: cloneCell_def rbind_eq_Inr split: if_splits sum.splits)

lemma capture_cells_fresh:
  "capture_cells i cs cells n = Inr (ds, n') \<Longrightarrow> length cells = length cs \<Longrightarrow>
   list_all (\<lambda>c. wf_any (Value c)) cells \<Longrightarrow> n \<le> n' \<and> list_all2 (fresh_cell n n') cells ds"
proof (induction cs arbitrary: cells n ds)
  case Nil
  then show ?case by simp
next
  case (Cons c cs)
  then obtain cell cells' where cells: "cells = cell # cells'" "length cells' = length cs" by (cases cells) auto
  obtain d m ds' where parts: "cloneCell cell n = Inr (d, m)" "capture_cells i cs cells' m = Inr (ds', n')" "ds = d # ds'"
    using Cons.prems(1) unfolding cells(1) by (rule capture_cells_Cons)
  have d: "fresh_cell n m cell d" using cloneCell_fresh [OF parts(1)] Cons.prems(3) cells by simp
  have rest: "m \<le> n' \<and> list_all2 (fresh_cell m n') cells' ds'"
    using Cons.IH [OF parts(2) cells(2)] Cons.prems(3) cells by simp
  have le: "n \<le> m" using d by (simp add: fresh_cell_def)
  show ?case
    using fresh_cell_widen [OF d, of n n'] fresh_cells_widen [of m n' cells' ds' n n'] rest le
    by (simp add: cells parts)
qed

lemma capture_rows_fresh:
  "capture_rows i cs rs n = Inr (rs', n') \<Longrightarrow> list_all (list_all (\<lambda>c. wf_any (Value c))) rs \<Longrightarrow>
   n \<le> n' \<and> list_all (\<lambda>r. length r = length cs) rs \<and> list_all2 (list_all2 (fresh_cell n n')) rs rs'"
proof (induction rs arbitrary: i n rs')
  case Nil
  then show ?case by simp
next
  case (Cons r rs)
  then obtain r' m qs where parts: "length r = length cs" "capture_cells i cs r n = Inr (r', m)"
    "capture_rows (i + 1) cs rs m = Inr (qs, n')" "rs' = r' # qs"
    by (auto simp: rbind_eq_Inr split: if_splits)
  have r: "n \<le> m \<and> list_all2 (fresh_cell n m) r r'"
    using capture_cells_fresh [OF parts(2,1)] Cons.prems(2) by simp
  have rest: "m \<le> n' \<and> list_all (\<lambda>r. length r = length cs) rs \<and> list_all2 (list_all2 (fresh_cell m n')) rs qs"
    using Cons.IH [OF parts(3)] Cons.prems(2) by simp
  have "list_all2 (list_all2 (fresh_cell n n')) rs qs"
    using rest r by (auto elim!: list_all2_mono intro: fresh_cells_widen fresh_cell_widen)
  moreover have "list_all2 (fresh_cell n n') r r'" using r rest fresh_cells_widen [of n m r r' n n'] by simp
  ultimately show ?case using r rest parts by simp
qed

end
