(* ===== verification/Result_Properties.thy ===== *)
theory Result_Properties
  imports Result_Sums
begin

text \<open>
  The properties of the local result operations, over \<open>Result_Facts\<close> and
  \<open>Result_Sums\<close>, with the concrete snapshot their witnesses evaluate: two columns, a text
  and an integer, and four rows.
\<close>


section \<open>A concrete snapshot\<close>

definition ex_cols :: "Column list" where
  "ex_cols = [\<lparr>Name = ''k'', Type = ''text''\<rparr>, \<lparr>Name = ''n'', Type = ''int''\<rparr>]"

definition ex_cell :: "any \<Rightarrow> Cell" where "ex_cell v = \<lparr>Present = True, Value = v\<rparr>"

definition ex_rows :: "Row list" where
  "ex_rows = [[ex_cell (VString ''b''), ex_cell (VInt 2)], [ex_cell (VString ''a''), ex_cell (VInt 1)],
              [ex_cell (VString ''b''), ex_cell VNil], [ex_cell (VString ''a''), ex_cell (VBigIntPtr (Some (5, 7)))]]"

definition ex_snap :: Snapshot where "ex_snap = \<lparr>columns = ex_cols, rows = ex_rows\<rparr>"

definition ex_groups :: "Group list" where
  "ex_groups =
     [\<lparr>Keys = [ex_cell (VString ''b'')], RowIndices = [0, 2], Count = 2, Aggregates = []\<rparr>,
      \<lparr>Keys = [ex_cell (VString ''a'')], RowIndices = [1, 3], Count = 2, Aggregates = []\<rparr>]"

definition ex_keys :: "SortKey list" where
  "ex_keys = [\<lparr>sort_column = ''k'', Descending = True\<rparr>, \<lparr>sort_column = ''n'', Descending = False\<rparr>]"

lemma ex_group_by: "GroupBy ex_snap [''k''] 100 = Inr (ex_groups, 100)"
  by code_simp

lemma ex_sort: "Sort ex_snap ex_keys = Inr [2, 0, 1, 3]"
  by code_simp

lemma ex_snap_ok: "rectangular ex_snap" "times_ok ex_snap"
  by code_simp+

lemma ex_row_count: "RowCount ex_snap = 4"
  by code_simp


section \<open>Grouping\<close>

lemma hd_append_nonempty: "xs \<noteq> [] \<Longrightarrow> hd (xs @ ys) = hd xs"
  by (cases xs) simp_all

lemma firsts_in_order: "sorted_wrt (<) (map (\<lambda>k. hd (rows_with ks k)) (firsts ks))"
proof (induction ks rule: rev_induct)
  case Nil
  then show ?case by (simp add: firsts_def)
next
  case (snoc k ks)
  have old: "map (\<lambda>k'. hd (rows_with (ks @ [k]) k')) (firsts ks) = map (\<lambda>k'. hd (rows_with ks k')) (firsts ks)"
  proof (rule map_cong [OF refl])
    fix k' assume "k' \<in> set (firsts ks)"
    then have "rows_with ks k' \<noteq> []" by (simp add: rows_with_empty)
    then show "hd (rows_with (ks @ [k]) k') = hd (rows_with ks k')"
      by (simp add: rows_with_snoc hd_append_nonempty)
  qed
  have less: "hd (rows_with ks k') < length ks" if "k' \<in> set (firsts ks)" for k'
  proof -
    have "rows_with ks k' \<noteq> []" using that by (simp add: rows_with_empty)
    then have "hd (rows_with ks k') \<in> set (rows_with ks k')" by simp
    then show ?thesis by (simp add: set_rows_with)
  qed
  have new: "k \<notin> set ks \<Longrightarrow> hd (rows_with (ks @ [k]) k) = length ks"
    using rows_with_empty [of ks k] by (simp add: rows_with_snoc)
  show ?case
  proof (cases "k \<in> set ks")
    case True
    then have "firsts (ks @ [k]) = firsts ks" by (simp add: firsts_snoc)
    then show ?thesis using snoc by (simp only: old)
  next
    case False
    then have "firsts (ks @ [k]) = firsts ks @ [k]" by (simp add: firsts_snoc)
    then show ?thesis using snoc less new [OF False] by (simp only: map_append old) (auto simp: sorted_wrt_append)
  qed
qed

lemma distinct_concat_classes: "distinct fs \<Longrightarrow> distinct (concat (map (rows_with ks) fs))"
proof (induction fs)
  case (Cons f fs)
  have "distinct (rows_with ks f)" by (simp add: rows_with_def)
  then show ?case using Cons by (auto simp: set_rows_with)
qed simp

text \<open>
  C13.  A successful \<open>GroupBy\<close> partitions the rows of the snapshot: every row index is in
  exactly one group and once, no group is empty, its rows are in source order and counted
  by \<open>Count\<close>, and the groups stand in the order of their first rows.
\<close>

theorem groups_partition:
  assumes "GroupBy s names n = Inr (gs, n')"
  shows "distinct (concat (map RowIndices gs)) \<and> set (concat (map RowIndices gs)) = {..<RowCount s} \<and>
    list_all (\<lambda>g. RowIndices g \<noteq> [] \<and> sorted_wrt (<) (RowIndices g) \<and> Count g = length (RowIndices g)) gs \<and>
    sorted_wrt (<) (map (\<lambda>g. hd (RowIndices g)) gs)"
proof -
  from GroupBy_grouped [OF assms] obtain ks :: "string list" where ks: "length ks = RowCount s"
    "map RowIndices gs = map (rows_with ks) (firsts ks)" "\<forall>g \<in> set gs. Count g = length (RowIndices g)"
    by blast
  have each: "RowIndices g \<noteq> [] \<and> sorted_wrt (<) (RowIndices g)" if "g \<in> set gs" for g
  proof -
    have "RowIndices g \<in> set (map (rows_with ks) (firsts ks))" using that unfolding ks(2) [symmetric] by simp
    then obtain k where k: "k \<in> set ks" "RowIndices g = rows_with ks k" by auto
    then show ?thesis by (simp add: rows_with_empty) (simp add: rows_with_def sorted_wrt_filter)
  qed
  have "set (concat (map RowIndices gs)) = {..<RowCount s}"
    unfolding ks(2) by (auto simp: set_rows_with ks(1))
  moreover have "map (\<lambda>g. hd (RowIndices g)) gs = map hd (map RowIndices gs)" by simp
  then have "map (\<lambda>g. hd (RowIndices g)) gs = map (\<lambda>k. hd (rows_with ks k)) (firsts ks)"
    unfolding ks(2) by simp
  ultimately show ?thesis
    using distinct_concat_classes [OF distinct_firsts, of ks ks] firsts_in_order [of ks] each ks(3) by (simp add: ks(2) list_all_iff)
qed

theorem groups_partition_witness:
  "set (concat (map RowIndices ex_groups)) = {..<4} \<and> distinct (concat (map RowIndices ex_groups))"
  using groups_partition [OF ex_group_by] by (simp add: ex_row_count)

text \<open>
  C14.  Grouping agrees with sorting: two rows are in the same group exactly when, for every
  group column, their cells normalize and \<open>compareNormalized\<close> finds them equal.  The
  framed key is therefore free of collisions, whatever text the cells hold.
\<close>

definition cells_equal :: "Snapshot \<Rightarrow> string \<Rightarrow> nat \<Rightarrow> nat \<Rightarrow> bool" where
  "cells_equal s name i j \<longleftrightarrow>
     (case resolve s name of
        Inl _ \<Rightarrow> False
      | Inr (ci, kind) \<Rightarrow>
          (case (normalizeCell kind (rows s ! i ! ci), normalizeCell kind (rows s ! j ! ci)) of
             (Inr a, Inr b) \<Rightarrow> compareNormalized a b kind = 0
           | _ \<Rightarrow> False))"

lemma cells_equal_rows:
  assumes "resolveColumns s names = Inr rs" "row_cells rs (rows s ! i) = Inr a" "row_cells rs (rows s ! j) = Inr b"
  shows "a = b \<longleftrightarrow> (\<forall>name \<in> set names. cells_equal s name i j)"
proof -
  have rs: "length rs = length names" "\<forall>k < length names. resolve s (names ! k) = Inr (rs ! k)"
    using resolve_from_nth [of s "[]" names rs] assms(1) by (simp_all add: resolveColumns_def)
  have len: "length a = length names" "length b = length names"
    using assms(2,3) rs(1) by (auto simp: row_cells_def dest: rmapl_length)
  have each: "cells_equal s (names ! k) i j \<longleftrightarrow> a ! k = b ! k" if k: "k < length names" for k
  proof -
    obtain ci kind where r: "rs ! k = (ci, kind)" by fastforce
    have n: "normalizeCell kind (rows s ! i ! ci) = Inr (a ! k)" "normalizeCell kind (rows s ! j ! ci) = Inr (b ! k)"
      using rmapl_nth [OF assms(2) [unfolded row_cells_def], of k] rmapl_nth [OF assms(3) [unfolded row_cells_def], of k]
        k rs(1) r by simp_all
    show ?thesis
      using rs(2) k r n compareNormalized_zero [OF normalizeCell_kind [OF n(1)] normalizeCell_kind [OF n(2)]]
      by (simp add: cells_equal_def)
  qed
  show ?thesis using each len by (auto simp: list_eq_iff_nth_eq all_set_conv_all_nth)
qed

theorem group_agrees_with_sort:
  assumes "GroupBy s names n = Inr (gs, n')" "rectangular s" "times_ok s" "i < RowCount s" "j < RowCount s"
  shows "(\<exists>g \<in> set gs. i \<in> set (RowIndices g) \<and> j \<in> set (RowIndices g)) \<longleftrightarrow>
         (\<forall>name \<in> set names. cells_equal s name i j)"
proof -
  from GroupBy_grouped [OF assms(1)] obtain rs and ks :: "string list" where ks: "resolveColumns s names = Inr rs"
    "length ks = RowCount s" "list_all2 (row_key (columns s) rs) (rows s) ks"
    "map RowIndices gs = map (rows_with ks) (firsts ks)"
    by blast
  have keys: "row_key (columns s) rs (rows s ! i) (ks ! i)" "row_key (columns s) rs (rows s ! j) (ks ! j)"
    using ks(3) assms(4,5) by (auto simp: RowCount_def dest: list_all2_nthD)
  have mem: "rows s ! i \<in> set (rows s)" "rows s ! j \<in> set (rows s)" using assms(4,5) by (simp_all add: RowCount_def)
  obtain a b where ab: "row_cells rs (rows s ! i) = Inr a" "row_cells rs (rows s ! j) = Inr b" "ks ! i = ks ! j \<longleftrightarrow> a = b"
    using row_key_eq [OF ks(1) assms(2,3) mem keys] by blast
  have "(\<exists>g \<in> set gs. i \<in> set (RowIndices g) \<and> j \<in> set (RowIndices g)) \<longleftrightarrow>
      (\<exists>is \<in> set (map RowIndices gs). i \<in> set is \<and> j \<in> set is)" by simp
  also have "\<dots> \<longleftrightarrow> ks ! i = ks ! j"
    unfolding ks(4) using assms(4,5) ks(2) by (auto simp: set_rows_with)
  finally show ?thesis using ab(3) cells_equal_rows [OF ks(1) ab(1,2)] by simp
qed

theorem group_agrees_with_sort_witness:
  "(\<exists>g \<in> set ex_groups. 0 \<in> set (RowIndices g) \<and> 2 \<in> set (RowIndices g)) \<longleftrightarrow> cells_equal ex_snap ''k'' 0 2"
  using group_agrees_with_sort [OF ex_group_by ex_snap_ok, of 0 2] by (simp add: ex_row_count)


section \<open>Sorting\<close>

text \<open>
  C15.  A successful \<open>Sort\<close> returns every row index once, ordered by the keys in their
  priority and direction, and rows that all keys find equal in their original order.
\<close>

theorem sort_ordered_stable:
  assumes "Sort s keys = Inr order"
  shows "mset order = mset [0..<RowCount s] \<and>
    sorted_wrt (\<lambda>i j. row_cmp s keys i j < 0 \<or> (row_cmp s keys i j = 0 \<and> i < j)) order"
proof -
  note order = Sort_Inr [OF assms]
  have "sorted_wrt (three_way.before (row_cmp s keys) (<)) order"
    unfolding order(2)
    by (rule three_way.stable_before [OF row_cmp_laws [OF order(1)]])
       (auto simp: OriginalOrder_def RowCount_def list_all_iff)
  then have "sorted_wrt (\<lambda>i j. row_cmp s keys i j < 0 \<or> (row_cmp s keys i j = 0 \<and> i < j)) order"
    by (rule sorted_wrt_mono_rel [rotated])
       (simp add: three_way.before_def [OF row_cmp_laws [OF order(1)]])
  moreover have "mset order = mset [0..<RowCount s]" by (simp add: order(2) OriginalOrder_def RowCount_def)
  ultimately show ?thesis by simp
qed

theorem sort_ordered_stable_witness:
  "mset [2, 0, 1, 3] = mset [0..<RowCount ex_snap] \<and>
   sorted_wrt (\<lambda>i j. row_cmp ex_snap ex_keys i j < 0 \<or> (row_cmp ex_snap ex_keys i j = 0 \<and> i < j)) [2, 0, 1, 3]"
  by (rule sort_ordered_stable [OF ex_sort])



section \<open>Aggregates\<close>

text \<open>The value \<open>agg_result\<close> reports for the values \<open>vs\<close> of a group.\<close>

definition aggregate_spec :: "aggregate \<Rightarrow> valueType \<Rightarrow> norm list \<Rightarrow> any \<Rightarrow> bool" where
  "aggregate_spec fn kind vs out \<longleftrightarrow>
     (case fn of
        AggregateCount \<Rightarrow> out = VInt (word_of_nat (length vs))
      | AggregateSum \<Rightarrow>
          (if vs = [] then out = VNil
           else (case kind of
              typeInteger \<Rightarrow> contents out = VBigIntPtr (Some (0, sum_list (map integer_of vs)))
            | typeDecimal \<Rightarrow> contents out = VBigRatPtr (Some (0, sum_list (map decimal_of vs)))
            | typeFloat \<Rightarrow> (\<exists>f. out = VFloat64 f \<and> is_finite64 f \<and> f = foldl f64_add 0 (map float_of vs))
            | _ \<Rightarrow> False))
      | _ \<Rightarrow>
          (if vs = [] then out = VNil
           else (\<exists>x \<in> set vs. contents out = contents (norm_any 0 x) \<and> (\<forall>v \<in> set vs. best fn kind x v))))"

lemma column_values_kind: "v \<in> set (column_values s column kind is) \<Longrightarrow> norm_of kind v"
  by (induction "is")
     (auto simp: present_value_def Let_def dest: normalizeValue_kind split: option.splits if_splits sum.splits)

lemma norm_any_contents: "contents (norm_any p v) = contents (norm_any 0 v)" "wf_any (norm_any p v)"
  by (cases v; simp add: norm_any_def)+

lemma aggregate_select_spec:
  assumes fn: "fn = AggregateMin \<or> fn = AggregateMax"
    and fold: "rfold (\<lambda>p. agg_value fn kind (fst p) (snd p)) ps empty_acc = Inr acc"
    and ps: "map snd ps = column_values s column kind is"
    and result: "agg_result kind fn acc n = Inr (cell, n')"
    and count: "nonNull acc = length (column_values s column kind is)"
  shows "aggregate_spec fn kind (column_values s column kind is) (Value cell) \<and> Present cell"
proof (cases "column_values s column kind is = []")
  case True
  then show ?thesis using fn result count by (auto simp: agg_result_def aggregate_spec_def)
next
  case False
  let ?vs = "column_values s column kind is"
  have "snd ` set ps = set ?vs" using arg_cong [OF ps, of set] by simp
  moreover have "ps \<noteq> []" using ps False by auto
  moreover have "\<forall>p \<in> set ps. norm_of kind (snd p)"
    using column_values_kind [of _ s column kind "is"] calculation(1) by blast
  ultimately obtain x where x: "x \<in> set ?vs" "selected acc = Some x" "\<forall>v \<in> set ?vs. best fn kind x v"
    using agg_select_first [OF fold fn] by (metis (no_types, lifting) imageE image_eqI)
  from result fn count False x(2) obtain v where v: "cloneValue (norm_any n x) (n + 1) = Inr (v, n')"
    "cell = \<lparr>Present = True, Value = v\<rparr>"
    by (auto simp: agg_result_def rbind_eq_Inr)
  have "contents v = contents (norm_any 0 x)"
    using cloneValue_fresh [OF v(1) norm_any_contents(2)] norm_any_contents(1) [of n x] by (simp add: fresh_copy_def)
  then show ?thesis using x fn False v(2) by (auto simp: aggregate_spec_def)
qed

text \<open>
  C16.  An aggregate that succeeds is exact.  Every row of the group has the cell; COUNT is
  the number of values that are not null; SUM is their exact integer or decimal sum (for
  floating point the sum taken in row order, which is finite), null when there is no value;
  MIN and MAX return one of the values, no value being smaller or greater.
\<close>

theorem aggregate_exact:
  assumes "aggregateGroup s is (column, kind, fn) n = Inr (cell, n')"
  shows "list_all (\<lambda>i. Present (rows s ! i ! column)) is \<and> Present cell \<and>
    aggregate_spec fn kind (column_values s column kind is) (Value cell)"
proof -
  from assms obtain acc where acc: "rfold (agg_row s column kind fn) is empty_acc = Inr acc"
    and result: "agg_result kind fn acc n = Inr (cell, n')"
    by (auto simp: aggregateGroup_def rbind_eq_Inr)
  from rfold_agg_row(2) [OF acc] obtain ps where ps: "map snd ps = column_values s column kind is"
    and fold: "rfold (\<lambda>p. agg_value fn kind (fst p) (snd p)) ps empty_acc = Inr acc" by blast
  let ?vs = "column_values s column kind is"
  have count: "nonNull acc = length ?vs"
    using agg_count [OF fold] unfolding ps [symmetric] by (simp add: empty_acc_def)
  have sums: "map f ?vs = map (f \<circ> snd) ps" for f :: "norm \<Rightarrow> 'x" unfolding ps [symmetric] by simp
  have "aggregate_spec fn kind ?vs (Value cell) \<and> Present cell"
  proof (cases fn)
    case AggregateCount
    then show ?thesis using result count by (auto simp: agg_result_def aggregate_spec_def)
  next
    case AggregateSum
    show ?thesis
    proof (cases kind)
      case typeInteger
      have "integerSum acc = sum_list (map integer_of ?vs)"
        using agg_integer_sum [of ps empty_acc acc] fold AggregateSum typeInteger
        unfolding sums by (simp add: empty_acc_def)
      then show ?thesis using result count AggregateSum typeInteger
        by (auto simp: agg_result_def aggregate_spec_def split: if_splits)
    next
      case typeDecimal
      have "decimalSum acc = sum_list (map decimal_of ?vs)"
        using agg_decimal_sum [of ps empty_acc acc] fold AggregateSum typeDecimal
        unfolding sums by (simp add: empty_acc_def)
      then show ?thesis using result count AggregateSum typeDecimal
        by (auto simp: agg_result_def aggregate_spec_def split: if_splits)
    next
      case typeFloat
      have "is_finite64 (floatSum acc) \<and> floatSum acc = foldl f64_add 0 (map float_of ?vs)"
        using agg_float_finite [of ps empty_acc acc] fold AggregateSum typeFloat f64_zero_not_negative(2)
        unfolding sums by (auto simp: empty_acc_def)
      then show ?thesis using result count AggregateSum typeFloat
        by (auto simp: agg_result_def aggregate_spec_def split: if_splits)
    qed (use result count AggregateSum in \<open>auto simp: agg_result_def aggregate_spec_def split: if_splits\<close>)
  next
    case mn: AggregateMin
    show ?thesis using aggregate_select_spec [OF _ fold ps result count] mn by simp
  next
    case mx: AggregateMax
    show ?thesis using aggregate_select_spec [OF _ fold ps result count] mx by simp
  qed
  then show ?thesis using rfold_agg_row(1) [OF acc] by (auto simp: list_all_iff)
qed

lemma ex_aggregate:
  "aggregateGroup ex_snap [1, 3] (1, typeInteger, AggregateSum) 50 =
     Inr (\<lparr>Present = True, Value = VBigIntPtr (Some (50, 8))\<rparr>, 51)"
  by code_simp

theorem aggregate_exact_witness:
  "aggregate_spec AggregateSum typeInteger (column_values ex_snap 1 typeInteger [1, 3]) (VBigIntPtr (Some (50, 8)))"
  using aggregate_exact [OF ex_aggregate] by simp


section \<open>Capture\<close>

text \<open>
  C17.  A captured snapshot is isolated from its source: it has the same columns, under
  distinct names, and rows as wide as they are; every cell holds what the source cell
  held (an absent one nothing), and every address it can be changed through was allocated
  by the capture, so no later write to the caller's data is visible in it.
\<close>

theorem capture_isolated:
  assumes "Capture cs rs n = Inr (s, n')" "list_all (list_all (\<lambda>c. wf_any (Value c))) rs"
  shows "columns s = cs \<and> distinct (map Name cs) \<and> rectangular s \<and>
    list_all2 (list_all2 (\<lambda>c d. Present d = Present c \<and> addrs (Value d) \<subseteq> {n..<n'} \<and>
      contents (Value d) = (if Present c then contents (Value c) else VNil))) rs (rows s)"
proof -
  from assms(1) obtain rs' where cols: "check_columns 0 [] cs = Inr ()" and cap: "capture_rows 0 cs rs n = Inr (rs', n')"
    and s: "s = \<lparr>columns = cs, rows = rs'\<rparr>"
    by (auto simp: Capture_def rbind_eq_Inr)
  have fresh: "n \<le> n' \<and> list_all (\<lambda>r. length r = length cs) rs \<and> list_all2 (list_all2 (fresh_cell n n')) rs rs'"
    by (rule capture_rows_fresh [OF cap assms(2)])
  have cell: "Present d = Present c \<and> addrs (Value d) \<subseteq> {n..<n'} \<and>
      contents (Value d) = (if Present c then contents (Value c) else VNil)" if "fresh_cell n n' c d" for c d
    using that by (auto simp: fresh_cell_def fresh_copy_def split: if_splits)
  have "list_all2 (list_all2 (\<lambda>c d. Present d = Present c \<and> addrs (Value d) \<subseteq> {n..<n'} \<and>
      contents (Value d) = (if Present c then contents (Value c) else VNil))) rs rs'"
    using fresh by (auto elim!: list_all2_mono dest!: cell)
  moreover have "list_all (\<lambda>row. length row = length cs) rs'"
    unfolding list_all_length
  proof (intro allI impI)
    fix i assume i: "i < length rs'"
    then have "list_all2 (fresh_cell n n') (rs ! i) (rs' ! i)" using fresh list_all2_nthD2 by blast
    moreover have "i < length rs" using fresh i by (auto dest: list_all2_lengthD)
    ultimately show "length (rs' ! i) = length cs" using fresh by (auto simp: list_all_length dest: list_all2_lengthD)
  qed
  ultimately show ?thesis using check_columns_ok [OF cols] by (simp add: s rectangular_def)
qed

definition ex_captured :: Snapshot where
  "ex_captured = \<lparr>columns = ex_cols, rows =
     [[ex_cell (VString ''b''), ex_cell (VInt 2)], [ex_cell (VString ''a''), ex_cell (VInt 1)],
      [ex_cell (VString ''b''), ex_cell VNil], [ex_cell (VString ''a''), ex_cell (VBigIntPtr (Some (100, 7)))]]\<rparr>"

lemma ex_capture: "Capture ex_cols ex_rows 100 = Inr (ex_captured, 101)"
  by code_simp

lemma ex_rows_wf: "list_all (list_all (\<lambda>c. wf_any (Value c))) ex_rows"
  by code_simp

theorem capture_isolated_witness: "rectangular ex_captured \<and> distinct (map Name ex_cols)"
  using capture_isolated [OF ex_capture ex_rows_wf] by simp


section \<open>Numeric budgets\<close>

lemma scan_exponent_small:
  "scan_exponent ds \<le> maxDecimalExponent \<Longrightarrow> scan_exponent ds = nat_of_digits ds"
proof (induction ds rule: rev_induct)
  case Nil
  then show ?case by (simp add: scan_exponent_def nat_of_digits_def)
next
  case (snoc d ds)
  have step: "scan_exponent (ds @ [d]) =
      (if scan_exponent ds \<le> maxDecimalExponent then scan_exponent ds * 10 + digit_val d else scan_exponent ds)"
    by (simp add: scan_exponent_def)
  then have "scan_exponent ds \<le> maxDecimalExponent" using snoc.prems by (auto split: if_splits)
  then show ?case using snoc.IH step by (simp add: nat_of_digits_snoc)
qed

lemma digit_val_bound: "is_digit c \<Longrightarrow> digit_val c < 10"
  by (auto simp: is_digit_def digit_val_def)

lemma nat_of_digits_bound: "list_all is_digit ds \<Longrightarrow> nat_of_digits ds < 10 ^ length ds"
proof (induction ds rule: rev_induct)
  case Nil
  then show ?case by (simp add: nat_of_digits_def)
next
  case (snoc d ds)
  then show ?case using digit_val_bound [of d] by (simp add: nat_of_digits_snoc)
qed

lemma scale10_bounds:
  fixes D :: nat
  assumes "\<bar>k\<bar> < 10 ^ D" "- int (D * 2) \<le> e" "e \<le> int D"
  shows "\<bar>scale10 k e\<bar> < 10 ^ (D * 2) \<and> (\<exists>m. scale10 k e * 10 ^ (D * 2) = of_int m)"
proof (cases "0 \<le> e")
  case True
  then have val: "scale10 k e = of_int (k * 10 ^ nat e)" by (simp add: scale10_def)
  have pow: "(10 :: int) ^ nat e \<le> 10 ^ D" using assms(3) by (intro power_increasing) auto
  have "\<bar>k * 10 ^ nat e\<bar> = \<bar>k\<bar> * 10 ^ nat e" by (simp add: abs_mult)
  also have "\<dots> \<le> \<bar>k\<bar> * 10 ^ D" using pow by (intro mult_left_mono) simp_all
  also have "\<dots> < 10 ^ D * 10 ^ D" using assms(1) by (intro mult_strict_right_mono) simp_all
  also have "\<dots> = (10 :: int) ^ (D * 2)" by (simp add: power_mult power2_eq_square)
  finally have "\<bar>of_int (k * 10 ^ nat e) :: rat\<bar> < of_int (10 ^ (D * 2))" by (simp only: of_int_less_iff flip: of_int_abs)
  then show ?thesis unfolding val by (auto intro!: exI [of _ "k * 10 ^ nat e * 10 ^ (D * 2)"])
next
  case False
  let ?d = "nat (- e)"
  have d: "D * 2 = ?d + (D * 2 - ?d)" using False assms(2) by simp
  have val: "scale10 k e = of_int k / 10 ^ ?d" using False by (simp add: scale10_def)
  have "\<bar>of_int k :: rat\<bar> < of_int (10 ^ D)" using assms(1) by (simp only: of_int_less_iff flip: of_int_abs)
  then have "\<bar>of_int k :: rat\<bar> < 10 ^ D" by simp
  moreover have "\<bar>of_int k / 10 ^ ?d :: rat\<bar> \<le> \<bar>of_int k\<bar>"
  proof -
    have "\<bar>of_int k :: rat\<bar> * 1 \<le> \<bar>of_int k\<bar> * 10 ^ ?d" by (intro mult_left_mono) (simp_all add: one_le_power)
    then show ?thesis by (simp add: abs_divide divide_le_eq)
  qed
  moreover have "(10 :: rat) ^ D \<le> 10 ^ (D * 2)" by (intro power_increasing) auto
  ultimately have bound: "\<bar>scale10 k e\<bar> < 10 ^ (D * 2)" unfolding val by linarith
  have "scale10 k e * 10 ^ (D * 2) = of_int k * 10 ^ (D * 2 - ?d)"
    unfolding val by (subst d, subst power_add) simp
  also have "\<dots> = of_int (k * 10 ^ (D * 2 - ?d))" by simp
  finally show ?thesis using bound by blast
qed

lemma exponent_value_bound:
  assumes "scan_exponent_part r = Inr ()" "exponent_value r = Some e"
  shows "- int maxDecimalExponent \<le> e \<and> e \<le> int maxDecimalExponent"
proof (cases "r = []")
  case True
  then show ?thesis using assms(2) by (simp add: exponent_value_def)
next
  case False
  let ?u = "unsigned_part (tl r)"
  have e: "hd r = CHR ''e'' \<or> hd r = CHR ''E''" and v: "IntSetString (tl r) = Some e"
    using False assms(2) by (auto simp: exponent_value_def split: if_splits)
  have scan: "scan_exponent (takeWhile is_digit ?u) \<le> maxDecimalExponent" "dropWhile is_digit ?u = []"
    using assms(1) False e by (auto simp: scan_exponent_part_def Let_def split: if_splits)
  have all: "takeWhile is_digit ?u = ?u" using scan(2) by (metis append_Nil2 takeWhile_dropWhile_id)
  have "scan_exponent ?u \<le> maxDecimalExponent" using scan(1) unfolding all .
  then have "nat_of_digits ?u \<le> maxDecimalExponent" using scan_exponent_small [of ?u] by simp
  moreover have "e = sign_of (tl r) * int (nat_of_digits ?u)"
    using v by (auto simp: IntSetString_def Let_def split: if_splits)
  ultimately show ?thesis by (auto simp: sign_of_def)
qed

text \<open>
  The budget of \<open>validateDecimalBudget\<close> bounds what \<open>parseDecimal\<close> builds: an
  accepted number is below \<open>10^2000\<close> and has at most 2000 decimal places, so the
  exponent of a short text never asks for more memory than that.
\<close>

theorem decimal_bounded:
  assumes "parseDecimal text = Inr q"
  shows "\<bar>q\<bar> < 10 ^ maxDecimalValueDigits \<and> (\<exists>m. q * 10 ^ maxDecimalValueDigits = of_int m)"
proof -
  let ?u = "unsigned_part text"
  let ?ip = "takeWhile is_digit ?u" and ?r = "dropWhile is_digit ?u"
  let ?point = "?r \<noteq> [] \<and> hd ?r = CHR ''.''"
  let ?fp = "if ?point then takeWhile is_digit (tl ?r) else []"
  let ?r' = "if ?point then dropWhile is_digit (tl ?r) else ?r"
  from assms have ok: "validateDecimalBudget text = Inr ()" and rat: "RatSetString text = Some q"
    by (auto simp: parseDecimal_def rbind_eq_Inr split: option.splits)
  from ok have len: "length ?ip + length ?fp \<le> maxNumericDigits" and exp: "scan_exponent_part ?r' = Inr ()"
    unfolding validateDecimalBudget_def Let_def
    by (simp_all only: if_Inl_eq_Inr not_less)
  from rat obtain e where e: "exponent_value ?r' = Some e"
    and q: "q = scale10 (sign_of text * int (nat_of_digits (?ip @ ?fp))) (e - int (length ?fp))"
    unfolding RatSetString_def Let_def by (auto split: if_splits)
  have "list_all is_digit (?ip @ ?fp)" by (auto simp: list_all_iff dest: set_takeWhileD)
  then have "nat_of_digits (?ip @ ?fp) < 10 ^ length (?ip @ ?fp)" by (rule nat_of_digits_bound)
  also have "\<dots> \<le> 10 ^ maxNumericDigits" using len by (intro power_increasing) auto
  finally have "int (nat_of_digits (?ip @ ?fp)) < 10 ^ maxNumericDigits" by (metis of_nat_less_iff of_nat_numeral of_nat_power)
  then have "\<bar>sign_of text * int (nat_of_digits (?ip @ ?fp))\<bar> < 10 ^ maxNumericDigits" by (auto simp: sign_of_def)
  moreover have "- int (maxNumericDigits * 2) \<le> e - int (length ?fp)" "e - int (length ?fp) \<le> int maxNumericDigits"
    using exponent_value_bound [OF exp e] len by (simp_all add: maxDecimalExponent_def maxNumericDigits_def)
  ultimately show ?thesis unfolding q maxDecimalValueDigits_def by (rule scale10_bounds)
qed

lemma ex_decimal: "parseDecimal ''-12.5e1'' = Inr (- 125)"
  by code_simp

theorem decimal_bounded_witness: "\<bar>- 125 :: rat\<bar> < 10 ^ maxDecimalValueDigits \<and> (\<exists>m. - 125 * 10 ^ maxDecimalValueDigits = (of_int m :: rat))"
  by (rule decimal_bounded [OF ex_decimal])

end
