(* ===== verification/Result_Budget.thy ===== *)
theory Result_Budget
  imports Result_Properties
begin

text \<open>
  The edge of the numeric budgets: a decimal text with a thousand fraction digits and the
  exponent \<open>-1000\<close> is accepted as a number, which grouping, sorting and summing use, while
  its denominator is one digit over the budget of a copy.
\<close>

definition tiny_text :: string where
  "tiny_text = CHR ''.'' # replicate 999 CHR ''0'' @ ''1e-1000''"

lemma nat_of_digits_zeros: "nat_of_digits (replicate k CHR ''0'') = 0"
  by (induction k) (simp_all add: nat_of_digits_def digit_val_def)

lemma tiny_trim: "TrimSpace tiny_text = tiny_text"
proof -
  have left: "trim_by space_runes tiny_text = tiny_text"
    by (subst trim_by.simps) (simp add: tiny_text_def leading_def space_runes_def)
  have "trim_by (map rev space_runes) (rev tiny_text) = rev tiny_text"
    by (subst trim_by.simps) (simp add: tiny_text_def leading_def space_runes_def)
  then show ?thesis by (simp add: TrimSpace_def left)
qed

lemma digit_facts: "is_digit CHR ''0''" "is_digit CHR ''1''" "\<not> is_digit CHR ''e''" "\<not> is_digit CHR ''.''"
  by (simp_all add: is_digit_def)

lemma tiny_fraction:
  "takeWhile is_digit (replicate k CHR ''0'' @ ''1e-1000'') = replicate k CHR ''0'' @ ''1''"
  "dropWhile is_digit (replicate k CHR ''0'' @ ''1e-1000'') = ''e-1000''"
  by (simp_all add: digit_facts takeWhile_append dropWhile_append)

lemma tiny_length: "length tiny_text = 1007"
  by (simp add: tiny_text_def)

lemma tiny_unsigned: "unsigned_part tiny_text = tiny_text" "sign_of tiny_text = 1"
  by (simp_all add: unsigned_part_def signed_def sign_of_def tiny_text_def)

lemma tiny_budget: "validateDecimalBudget tiny_text = Inr ()"
proof -
  have exp: "scan_exponent_part ''e-1000'' = Inr ()" by code_simp
  have "tiny_text \<noteq> []" by (simp add: tiny_text_def)
  then show ?thesis
    unfolding validateDecimalBudget_def tiny_trim tiny_length tiny_unsigned
    by (simp add: tiny_text_def digit_facts tiny_fraction exp budget_defs)
qed

lemma tiny_value: "RatSetString tiny_text = Some (scale10 1 (- 2000))"
proof -
  have exp: "exponent_value ''e-1000'' = Some (- 1000)" by code_simp
  have one: "nat_of_digits (replicate 999 CHR ''0'' @ ''1'') = 1"
    using nat_of_digits_snoc [of "replicate 999 CHR ''0''" "CHR ''1''"] by (simp only: nat_of_digits_zeros) (simp add: digit_val_def)
  show ?thesis
    unfolding RatSetString_def tiny_unsigned
    by (simp add: tiny_text_def digit_facts tiny_fraction exp one)
qed

lemma tiny_quotient: "quotient_of (scale10 1 (- int d)) = (1, 10 ^ d)"
proof (cases d)
  case (Suc m)
  have "quotient_of (Fract 1 (10 ^ d)) = (1, 10 ^ d)"
    by (simp add: quotient_of_Fract normalize_stable)
  moreover have "scale10 1 (- int d) = Fract 1 (10 ^ d)"
  proof -
    have "\<not> 0 \<le> - int d" using Suc by simp
    then show ?thesis by (simp add: scale10_def Fract_of_int_quotient)
  qed
  ultimately show ?thesis by simp
qed (simp add: scale10_def)

lemma over_budget:
  assumes "0 < d"
  shows "validateBigIntLimit (10 ^ d) d bits label = Inl (OverBudget label)"
proof -
  obtain m where d: "d = Suc m" using assms by (cases d) auto
  have "\<not> length (show_nat (10 ^ d)) \<le> d" unfolding d show_nat_length_le by simp
  moreover have "show_int (10 ^ d) = show_nat (10 ^ d)" by (simp add: show_int_def nat_power_eq)
  ultimately show ?thesis by (simp add: validateBigIntLimit_def)
qed


end
