(* ===== verification/Exceptions.thy ===== *)
theory Exceptions
  imports Go_Text
begin

text \<open>
  Local policy exceptions (\<open>src/pkg/policyexceptions\<close>) and the commands that decide them
  (\<open>src/apps/datatugapp/commands/cmd_policy_exception.go\<close>): the stored exception and its
  state at a time, the store of one project with its audit log, and the overlay of the
  active exceptions on a policy document.

  The store is a directory of files and an append-only log.  Every file-system step may
  fail; the outcomes of the steps to come are part of the store, so that an operation is a
  function of its inputs and of the failures it meets.  JSON encoding, SHA-256 and the
  policy codec of \<open>dalgo\<close> are parameters.
\<close>


section \<open>Data\<close>

record session_binding =
  sb_Harness :: string
  sb_Session :: string

record policy_ref =
  p_Name :: string
  p_Path :: string
  p_SHA256 :: string

record caller =
  Harness :: string
  HarnessVersion :: string
  caller_Session :: string
  caller_Source :: string

record exception =
  e_ID :: string
  e_Kind :: string
  e_ProjectID :: string
  e_Env :: string
  e_Source :: string
  e_SourceIdentity :: string
  e_Policy :: policy_ref
  e_Role :: string
  e_Table :: string
  e_Fields :: "string list"
  e_AppliedFields :: "string list"
  e_Reason :: string
  e_DurationSeconds :: int
  e_State :: string
  e_ProposedAt :: time
  e_PendingExpiresAt :: time
  e_DecidedAt :: "time option"
  e_ExpiresAt :: "time option"
  e_DecisionReason :: string
  e_ExpiryRecorded :: bool
  e_Caller :: "caller option"
  e_Lifetime :: string
  e_BoundSession :: "session_binding option"

record audit_record =
  v_At :: time
  v_Kind :: string
  v_Event :: string
  v_ID :: string
  v_ProjectID :: string
  v_Env :: string
  v_Source :: string
  v_Policy :: string
  v_Role :: string
  v_Table :: string
  v_Fields :: "string list"
  v_ExpiresAt :: "time option"
  v_Reason :: string
  v_Lifetime :: string
  v_BoundSession :: "session_binding option"
  v_Caller :: "caller option"

datatype xerror =
    NotFound | Changed | Unreadable string | NotAnException | UnknownLifetime
  | StoreLocked | FileError | AuditError | IdTaken string | NotLive
  | NotPending string | NotApplied string | ScreenExpired | Cancelled | HumanTerminalRequired
  | NoPolicies | PolicyUnreadable | SeveralPolicies | NoSuchPolicy string
  | NoSuchTable string | AmbiguousTable string | NoColumns string | NoSuchColumn string
  | EmptyFields | NotNarrowing | PolicyChanged | BadName string | BadDuration | BadReason | BadLifetime | NoSession

definition Kind :: string where "Kind = ''local-exception''"
definition MaxDuration :: duration where "MaxDuration = 8 * Hour"
definition PendingTTL :: duration where "PendingTTL = 30 * Minute"
definition RulePrefix :: string where "RulePrefix = ''exception-''"
definition StatePending :: string where "StatePending = ''pending''"
definition StateApplied :: string where "StateApplied = ''applied''"
definition StateRejected :: string where "StateRejected = ''rejected''"
definition StateRevoked :: string where "StateRevoked = ''revoked''"
definition StateExpired :: string where "StateExpired = ''expired''"
definition StateEnded :: string where "StateEnded = ''ended''"
definition LifetimeSession :: string where "LifetimeSession = ''session''"
definition LifetimeDeadline :: string where "LifetimeDeadline = ''deadline''"

lemmas state_names = StatePending_def StateApplied_def StateRejected_def StateRevoked_def
  StateExpired_def StateEnded_def

definition IsSession :: "exception \<Rightarrow> bool" where
  "IsSession e \<longleftrightarrow> e_Lifetime e = LifetimeSession"

text \<open>The product of \<open>time.Duration\<close> is one of 64-bit integers.\<close>

definition Duration :: "exception \<Rightarrow> duration" where
  "Duration e = (e_DurationSeconds e * Second + 2 ^ 63) mod 2 ^ 64 - 2 ^ 63"

definition Exception_Status :: "exception \<Rightarrow> time \<Rightarrow> string" where
  "Exception_Status e now =
     (if e_State e = StatePending \<and> \<not> now < e_PendingExpiresAt e then StateExpired
      else if e_State e = StateApplied \<and> (case e_ExpiresAt e of None \<Rightarrow> True | Some t \<Rightarrow> \<not> now < t) then StateExpired
      else e_State e)"

definition Active :: "exception \<Rightarrow> time \<Rightarrow> bool" where
  "Active e now \<longleftrightarrow> Exception_Status e now = StateApplied"

definition RuleID :: "exception \<Rightarrow> string" where
  "RuleID e = RulePrefix @ e_ID e"

definition hex_lower :: "char \<Rightarrow> bool" where
  "hex_lower c \<longleftrightarrow> is_digit c \<or> (97 \<le> (of_char c :: nat) \<and> (of_char c :: nat) \<le> 102)"

definition ValidID :: "string \<Rightarrow> bool" where
  "ValidID i \<longleftrightarrow> length i = 16 \<and> list_all hex_lower i"

definition CheckName :: "string \<Rightarrow> string \<Rightarrow> xerror + unit" where
  "CheckName what name =
     (if name = [] \<or> length name > 128 \<or> TrimSpace name \<noteq> name \<or>
         ContainsAny name (''*?[]{}/'' @ [CHR 0x5C] @ ''$,. '' @ [CHR 0x09, CHR 0x0D, CHR 0x0A, CHR 0x00])
      then Inl (BadName what) else Inr ())"

definition CheckDuration :: "duration \<Rightarrow> xerror + unit" where
  "CheckDuration d = (if d \<le> 0 \<or> d > MaxDuration then Inl BadDuration else Inr ())"

definition Subset :: "string list \<Rightarrow> string list \<Rightarrow> bool" where
  "Subset sub set' = list_all (\<lambda>name. name \<in> set set') sub"

definition NewEvent :: "string \<Rightarrow> exception \<Rightarrow> string list \<Rightarrow> time \<Rightarrow> audit_record" where
  "NewEvent kind e flds at =
     \<lparr>v_At = at, v_Kind = Kind, v_Event = kind, v_ID = e_ID e, v_ProjectID = e_ProjectID e, v_Env = e_Env e,
      v_Source = e_Source e, v_Policy = p_Path (e_Policy e), v_Role = e_Role e, v_Table = e_Table e,
      v_Fields = flds, v_ExpiresAt = e_ExpiresAt e, v_Reason = [], v_Lifetime = e_Lifetime e,
      v_BoundSession = e_BoundSession e, v_Caller = None\<rparr>"


section \<open>The store\<close>

text \<open>
  The outcome of one file-system step: done, failed without effect, or reported as failed
  although its bytes were written (a close that fails after the write).
\<close>

datatype io = Done | Failed | Torn

record 'raw xstore =
  files :: "(string \<times> 'raw) list"
  audit :: "audit_record list"
  expiryFailed :: "string list"
  outcomes :: "io list"

record 'raw xenv =
  marshal :: "exception \<Rightarrow> 'raw"
  unmarshal :: "'raw \<Rightarrow> exception option"
  store_Caller :: "caller option"

type_synonym ('raw, 'a) xm = "'raw xstore \<Rightarrow> (xerror + 'a) \<times> 'raw xstore"

definition xbind :: "('raw, 'a) xm \<Rightarrow> ('a \<Rightarrow> ('raw, 'b) xm) \<Rightarrow> ('raw, 'b) xm" where
  "xbind m f st = (case m st of (Inl e, st') \<Rightarrow> (Inl e, st') | (Inr x, st') \<Rightarrow> f x st')"

definition xfail :: "xerror \<Rightarrow> ('raw, 'a) xm" where "xfail e st = (Inl e, st)"
definition xok :: "'a \<Rightarrow> ('raw, 'a) xm" where "xok x st = (Inr x, st)"

definition next_io :: "'raw xstore \<Rightarrow> io \<times> 'raw xstore" where
  "next_io st = (case outcomes st of [] \<Rightarrow> (Done, st) | f # fs \<Rightarrow> (f, st\<lparr>outcomes := fs\<rparr>))"

definition io_step :: "xerror \<Rightarrow> ('raw, unit) xm" where
  "io_step err st = (case next_io st of (Done, st') \<Rightarrow> (Inr (), st') | (_, st') \<Rightarrow> (Inl err, st'))"

definition lock :: "('raw, unit) xm" where
  "lock = xbind (io_step FileError) (\<lambda>_. io_step StoreLocked)"

text \<open>The temporary file is written and renamed over the old one: the store's file changes last.\<close>

definition write_exception :: "'raw xenv \<Rightarrow> exception \<Rightarrow> ('raw, unit) xm" where
  "write_exception env e =
     xbind (io_step FileError) (\<lambda>_. xbind (io_step FileError) (\<lambda>_ st.
       (Inr (), st\<lparr>files := AList.update (e_ID e) (marshal env e) (files st)\<rparr>)))"

definition remove :: "string \<Rightarrow> 'raw xstore \<Rightarrow> 'raw xstore" where
  "remove i st = (case next_io st of (Done, st') \<Rightarrow> st'\<lparr>files := AList.delete i (files st')\<rparr> | (_, st') \<Rightarrow> st')"

definition appendAudit :: "'raw xenv \<Rightarrow> audit_record \<Rightarrow> ('raw, unit) xm" where
  "appendAudit env ev st =
     (let line = (if v_Caller ev = None then ev\<lparr>v_Caller := store_Caller env\<rparr> else ev) in
      case next_io st of
        (Done, st') \<Rightarrow> (Inr (), st'\<lparr>audit := audit st' @ [line]\<rparr>)
      | (Failed, st') \<Rightarrow> (Inl AuditError, st')
      | (Torn, st') \<Rightarrow> (Inl AuditError, st'\<lparr>audit := audit st' @ [line]\<rparr>))"

text \<open>Reading a file: \<open>Inr None\<close> is a file that does not exist.\<close>

definition readFile :: "string \<Rightarrow> ('raw, 'raw option) xm" where
  "readFile i st = (case next_io st of (Done, st') \<Rightarrow> (Inr (map_of (files st') i), st') | (_, st') \<Rightarrow> (Inl FileError, st'))"

definition decode :: "'raw xenv \<Rightarrow> 'raw \<Rightarrow> xerror + exception" where
  "decode env raw =
     (case unmarshal env raw of
        None \<Rightarrow> Inl NotAnException
      | Some e \<Rightarrow>
          if e_Kind e \<noteq> Kind \<or> \<not> ValidID (e_ID e) then Inl NotAnException
          else if e_Lifetime e \<noteq> [] \<and> e_Lifetime e \<noteq> LifetimeSession \<and> e_Lifetime e \<noteq> LifetimeDeadline
          then Inl UnknownLifetime else Inr e)"

definition Propose :: "'raw xenv \<Rightarrow> exception \<Rightarrow> ('raw, unit) xm" where
  "Propose env e =
     xbind lock (\<lambda>_ st.
       case readFile (e_ID e) st of
         (Inr (Some _), st1) \<Rightarrow> (Inl (IdTaken (e_ID e)), st1)
       | (_, st1) \<Rightarrow>
           xbind (write_exception env e) (\<lambda>_ st2.
             case appendAudit env (NewEvent ''proposed'' e (e_Fields e) (e_ProposedAt e)) st2 of
               (Inl err, st3) \<Rightarrow> (Inl err, remove (e_ID e) st3)
             | (Inr _, st3) \<Rightarrow> (Inr (), st3)) st1)"

definition Get :: "'raw xenv \<Rightarrow> string \<Rightarrow> ('raw, exception \<times> 'raw) xm" where
  "Get env i =
     (if \<not> ValidID i then xfail NotFound
      else xbind (readFile i) (\<lambda>content.
        case content of
          None \<Rightarrow> xfail NotFound
        | Some raw \<Rightarrow> (case decode env raw of
            Inl _ \<Rightarrow> xfail (Unreadable i)
          | Inr e \<Rightarrow> if e_ID e \<noteq> i then xfail (Unreadable i) else xok (e, raw))))"

fun read_all :: "'raw xenv \<Rightarrow> string list \<Rightarrow> exception list \<Rightarrow> string list \<Rightarrow>
    'raw xstore \<Rightarrow> (exception list \<times> string list) \<times> 'raw xstore" where
  "read_all env [] es bad st = ((es, bad), st)"
| "read_all env (i # is) es bad st =
     (case Get env i st of
        (Inl _, st') \<Rightarrow> read_all env is es (bad @ [i @ ''.json'']) st'
      | (Inr (e, _), st') \<Rightarrow> read_all env is (es @ [e]) bad st')"

definition List_exceptions :: "'raw xenv \<Rightarrow> ('raw, exception list \<times> string list) xm" where
  "List_exceptions env st =
     (case next_io st of
        (Done, st') \<Rightarrow>
          (case read_all env (sort_key (\<lambda>i. i @ ''.json'') (map fst (files st'))) [] [] st' of
             ((es, bad), st'') \<Rightarrow> (Inr (sort_key e_ProposedAt es, bad), st''))
      | (_, st') \<Rightarrow> (Inl FileError, st'))"

definition commitLocked :: "'raw xenv \<Rightarrow> string \<Rightarrow> 'raw \<Rightarrow> (exception \<Rightarrow> xerror + exception \<times> audit_record) \<Rightarrow>
    ('raw, unit) xm" where
  "commitLocked env i expected change =
     xbind (Get env i) (\<lambda>(current, raw).
       if raw \<noteq> expected then xfail Changed
       else case change current of
         Inl err \<Rightarrow> xfail err
       | Inr (updated, ev) \<Rightarrow>
           xbind (appendAudit env ev) (\<lambda>_ st.
             case write_exception env updated st of
               (Inr _, st') \<Rightarrow> (Inr (), st')
             | (Inl err, st') \<Rightarrow>
                 (Inl err, snd (appendAudit env (ev\<lparr>v_Event := v_Event ev @ ''-failed''\<rparr>) st'))))"

definition Commit :: "'raw xenv \<Rightarrow> string \<Rightarrow> 'raw \<Rightarrow> (exception \<Rightarrow> xerror + exception \<times> audit_record) \<Rightarrow>
    ('raw, unit) xm" where
  "Commit env i expected change = xbind lock (\<lambda>_. commitLocked env i expected change)"

definition end_change :: "time \<Rightarrow> exception \<Rightarrow> xerror + exception \<times> audit_record" where
  "end_change now current =
     (if Exception_Status current now \<noteq> StatePending \<and> Exception_Status current now \<noteq> StateApplied then Inl NotLive
      else let e = current\<lparr>e_State := StateEnded\<rparr> in Inr (e, NewEvent ''ended'' e [] now))"

fun end_all :: "'raw xenv \<Rightarrow> session_binding \<Rightarrow> time \<Rightarrow> exception list \<Rightarrow> string list \<Rightarrow>
    'raw xstore \<Rightarrow> (string list \<times> xerror option) \<times> 'raw xstore" where
  "end_all env bound now [] ended st = ((ended, None), st)"
| "end_all env bound now (e # es) ended st =
     (if \<not> IsSession e \<or> e_BoundSession e \<noteq> Some bound then end_all env bound now es ended st
      else case xbind (Get env (e_ID e)) (\<lambda>(_, raw). commitLocked env (e_ID e) raw (end_change now)) st of
        (Inr _, st') \<Rightarrow> end_all env bound now es (ended @ [e_ID e]) st'
      | (Inl err, st') \<Rightarrow>
          if err = NotLive then end_all env bound now es ended st' else ((ended, Some err), st'))"

definition EndSession :: "'raw xenv \<Rightarrow> session_binding \<Rightarrow> time \<Rightarrow> 'raw xstore \<Rightarrow> (string list \<times> xerror option) \<times> 'raw xstore" where
  "EndSession env bound now st =
     (case xbind lock (\<lambda>_. List_exceptions env) st of
        (Inl err, st') \<Rightarrow> (([], Some err), st')
      | (Inr (es, _), st') \<Rightarrow> end_all env bound now es [] st')"

definition Record :: "'raw xenv \<Rightarrow> audit_record \<Rightarrow> ('raw, unit) xm" where
  "Record env ev = xbind lock (\<lambda>_. appendAudit env ev)"

definition expiry_change :: "time \<Rightarrow> exception \<Rightarrow> xerror + exception \<times> audit_record" where
  "expiry_change now e = (let e' = e\<lparr>e_ExpiryRecorded := True\<rparr> in Inr (e', NewEvent ''expired'' e' [] now))"

fun record_due :: "'raw xenv \<Rightarrow> time \<Rightarrow> string list \<Rightarrow> xerror option \<Rightarrow> 'raw xstore \<Rightarrow> xerror option \<times> 'raw xstore" where
  "record_due env now [] first st = (first, st)"
| "record_due env now (i # is) first st =
     (case Get env i st of
        (Inl _, st1) \<Rightarrow> record_due env now is first st1
      | (Inr (current, raw), st1) \<Rightarrow>
          if e_ExpiryRecorded current then record_due env now is first st1
          else (case commitLocked env i raw (expiry_change now) st1 of
                  (Inr _, st2) \<Rightarrow> record_due env now is first st2
                | (Inl err, st2) \<Rightarrow>
                    record_due env now is (if first = None then Some err else first)
                      (st2\<lparr>expiryFailed := i # expiryFailed st2\<rparr>)))"

definition RecordExpiries :: "'raw xenv \<Rightarrow> exception list \<Rightarrow> time \<Rightarrow> ('raw, unit) xm" where
  "RecordExpiries env exceptions now st =
     (let due = map e_ID (filter (\<lambda>e. e_ID e \<notin> set (expiryFailed st) \<and> \<not> e_ExpiryRecorded e \<and> Exception_Status e now = StateExpired) exceptions) in
      if due = [] then (Inr (), st)
      else xbind lock (\<lambda>_ st1.
        case record_due env now due None st1 of
          (None, st2) \<Rightarrow> (Inr (), st2) | (Some err, st2) \<Rightarrow> (Inl err, st2)) st)"

text \<open>The same monadic laws the error values have.\<close>

lemma xbind_ok: "xbind (xok x) f = f x"
  by (simp add: fun_eq_iff xbind_def xok_def)

lemma xbind_fail: "xbind (xfail e) f = xfail e"
  by (simp add: fun_eq_iff xbind_def xfail_def)

lemma xbind_assoc: "xbind (xbind m f) g = xbind m (\<lambda>x. xbind (f x) g)"
  by (simp add: fun_eq_iff xbind_def split: prod.splits sum.splits)


section \<open>The commands\<close>

definition checkExceptionReason :: "string \<Rightarrow> xerror + unit" where
  "checkExceptionReason reason =
     (if reason = [] \<or> length reason > 256 \<or> ContainsAny reason [CHR 0x00, CHR 0x0D, CHR 0x0A, CHR 0x1B]
      then Inl BadReason else Inr ())"

record proposal =
  q_source :: string
  q_policy :: string
  q_table :: string
  q_fields :: "string list"
  q_role :: string
  q_duration :: duration
  q_reason :: string
  q_lifetime :: string

text \<open>
  What the proposal finds in the project and in its source: the project's id, the
  environment and the source the flags resolve to, the tables of the source and their
  columns, the documents of the \<open>policies\<close> folder, whether the role already has a rule
  on a table of a document (\<open>dalgo\<close>'s explanation of a query) and a new id.  Unicode
  case folding is the parameter \<open>EqualFold\<close>.
\<close>

record policy_entry =
  pe_file :: string
  pe_base :: string
  pe_policy :: bool
  pe_data :: "string option"
  pe_name :: "string option"

record world =
  w_project :: "xerror + string"
  w_env :: "xerror + string"
  w_url :: "xerror + string"
  w_tables :: "xerror + string list"
  w_columns :: "string \<Rightarrow> xerror + string list"
  w_policies :: "policy_entry list option"
  w_role_free :: "string \<Rightarrow> string \<Rightarrow> string \<Rightarrow> xerror + unit"
  w_id :: "xerror + string"
  EqualFold :: "string \<Rightarrow> string \<Rightarrow> bool"
  sha256 :: "string \<Rightarrow> string"

record project_policy =
  pp_name :: string
  pp_rel :: string
  pp_data :: string

fun found_policies :: "string \<Rightarrow> policy_entry list \<Rightarrow> project_policy list \<Rightarrow> xerror + project_policy list" where
  "found_policies want [] found = Inr found"
| "found_policies want (p # ps) found =
     (if \<not> pe_policy p then found_policies want ps found
      else case pe_data p of
        None \<Rightarrow> Inl PolicyUnreadable
      | Some content \<Rightarrow> (case pe_name p of
          None \<Rightarrow> Inl PolicyUnreadable
        | Some name \<Rightarrow>
            if want \<noteq> [] \<and> want \<noteq> name \<and> want \<noteq> pe_base p then found_policies want ps found
            else found_policies want ps
              (found @ [\<lparr>pp_name = name, pp_rel = ''policies/'' @ pe_file p, pp_data = content\<rparr>])))"

definition findProjectPolicy :: "policy_entry list option \<Rightarrow> string \<Rightarrow> xerror + project_policy" where
  "findProjectPolicy entries want =
     (case entries of
        None \<Rightarrow> Inl NoPolicies
      | Some ps \<Rightarrow> rbind (found_policies want ps []) (\<lambda>found.
          case found of
            [p] \<Rightarrow> Inr p
          | _ \<Rightarrow> if want = [] \<and> length found > 1 then Inl SeveralPolicies else Inl (NoSuchPolicy want)))"

fun canonical_table :: "(string \<Rightarrow> string \<Rightarrow> bool) \<Rightarrow> string \<Rightarrow> string list \<Rightarrow> string \<Rightarrow> xerror + string" where
  "canonical_table eqf table [] canonical = (if canonical = [] then Inl (NoSuchTable table) else Inr canonical)"
| "canonical_table eqf table (name # names) canonical =
     (if \<not> eqf name table then canonical_table eqf table names canonical
      else if canonical \<noteq> [] then Inl (AmbiguousTable table)
      else canonical_table eqf table names name)"

definition sourceColumns :: "world \<Rightarrow> string \<Rightarrow> xerror + string \<times> string list" where
  "sourceColumns w table =
     rbind (w_tables w) (\<lambda>tables.
     rbind (canonical_table (EqualFold w) table tables []) (\<lambda>canonical.
     rbind (w_columns w canonical) (\<lambda>columns.
       if columns = [] then Inl (NoColumns canonical) else Inr (canonical, columns))))"

definition match_column :: "(string \<Rightarrow> string \<Rightarrow> bool) \<Rightarrow> string list \<Rightarrow> string \<Rightarrow> string" where
  "match_column eqf columns name = foldl (\<lambda>m column. if eqf column name then column else m) [] columns"

fun canonicalFields :: "(string \<Rightarrow> string \<Rightarrow> bool) \<Rightarrow> string list \<Rightarrow> string list \<Rightarrow> string list \<Rightarrow> xerror + string list" where
  "canonicalFields eqf columns [] out = Inr out"
| "canonicalFields eqf columns (name # names) out =
     (let column = match_column eqf columns name in
      if column = [] then Inl (NoSuchColumn name)
      else canonicalFields eqf columns names (if column \<in> set out then out else out @ [column]))"

definition proposal_checks :: "proposal \<Rightarrow> xerror + unit" where
  "proposal_checks q =
     (if q_lifetime q \<noteq> [] \<and> q_lifetime q \<noteq> LifetimeSession \<and> q_lifetime q \<noteq> LifetimeDeadline then Inl BadLifetime
      else rbind (CheckName ''--source'' (q_source q)) (\<lambda>_.
           rbind (CheckName ''--table'' (q_table q)) (\<lambda>_.
           rbind (CheckName ''--role'' (q_role q)) (\<lambda>_.
           if q_fields q = [] then Inl EmptyFields
           else rbind (rmapl (CheckName ''field'') (q_fields q)) (\<lambda>_.
           rbind (CheckDuration (q_duration q)) (\<lambda>_. checkExceptionReason (q_reason q)))))))"

definition bound_session :: "caller option \<Rightarrow> session_binding option" where
  "bound_session c = (case c of
      None \<Rightarrow> None
    | Some k \<Rightarrow> if Harness k \<noteq> [] \<and> caller_Session k \<noteq> []
        then Some \<lparr>sb_Harness = Harness k, sb_Session = caller_Session k\<rparr> else None)"

definition proposal_lifetime :: "string \<Rightarrow> session_binding option \<Rightarrow> xerror + string \<times> session_binding option" where
  "proposal_lifetime lifetime bound =
     (if lifetime = [] \<and> bound \<noteq> None then Inr (LifetimeSession, bound)
      else if lifetime = [] then Inr (LifetimeDeadline, None)
      else if lifetime = LifetimeSession \<and> bound = None then Inl NoSession
      else Inr (lifetime, if lifetime = LifetimeDeadline then None else bound))"

definition proposed_exception :: "'raw xenv \<Rightarrow> world \<Rightarrow> proposal \<Rightarrow> time \<Rightarrow> xerror + exception" where
  "proposed_exception env w q now =
     rbind (proposal_checks q) (\<lambda>_.
     rbind (w_project w) (\<lambda>project.
     rbind (proposal_lifetime (q_lifetime q) (bound_session (store_Caller env))) (\<lambda>(lifetime, bound).
     rbind (w_env w) (\<lambda>envID.
     rbind (w_url w) (\<lambda>url.
     rbind (sourceColumns w (q_table q)) (\<lambda>(canonical, columns).
     rbind (canonicalFields (EqualFold w) columns (q_fields q) []) (\<lambda>flds.
     rbind (findProjectPolicy (w_policies w) (q_policy q)) (\<lambda>policy.
     rbind (w_role_free w (pp_data policy) (q_role q) canonical) (\<lambda>_.
     rbind (w_id w) (\<lambda>i.
       Inr \<lparr>e_ID = i, e_Kind = Kind, e_ProjectID = project, e_Env = envID, e_Source = q_source q,
            e_SourceIdentity = sha256 w url,
            e_Policy = \<lparr>p_Name = pp_name policy, p_Path = pp_rel policy, p_SHA256 = sha256 w (pp_data policy)\<rparr>,
            e_Role = q_role q, e_Table = canonical, e_Fields = flds, e_AppliedFields = [], e_Reason = q_reason q,
            e_DurationSeconds = q_duration q div Second, e_State = StatePending, e_ProposedAt = now,
            e_PendingExpiresAt = now + PendingTTL, e_DecidedAt = None, e_ExpiresAt = None, e_DecisionReason = [],
            e_ExpiryRecorded = False, e_Caller = store_Caller env, e_Lifetime = lifetime, e_BoundSession = bound\<rparr>))))))))))"

definition exceptionPropose :: "'raw xenv \<Rightarrow> world \<Rightarrow> proposal \<Rightarrow> time \<Rightarrow> ('raw, unit) xm" where
  "exceptionPropose env w q now =
     (case proposed_exception env w q now of Inl err \<Rightarrow> xfail err | Inr e \<Rightarrow> Propose env e)"

text \<open>
  What a person's command sees: whether it runs in a terminal, whether its project opens, the clock when it starts and
  when it commits, and for \<open>apply\<close> the fields flag, the policies folder and the line typed.
\<close>

record decision_input =
  c_id :: string
  c_terminal :: bool
  c_common :: "xerror + unit"
  c_now :: time
  c_at :: time
  c_fields_changed :: bool
  c_fields :: "string list"
  c_policies :: "policy_entry list option"
  c_line :: string
  c_reason :: string

definition personCommand :: "'raw xenv \<Rightarrow> decision_input \<Rightarrow> (exception \<Rightarrow> 'raw \<Rightarrow> ('raw, unit) xm) \<Rightarrow> ('raw, unit) xm" where
  "personCommand env c run =
     (if \<not> c_terminal c then xfail HumanTerminalRequired
      else xbind (\<lambda>st. (c_common c, st)) (\<lambda>_. xbind (Get env (c_id c)) (\<lambda>(e, raw). run e raw)))"

definition narrowed_fields :: "string list \<Rightarrow> string list \<Rightarrow> string list" where
  "narrowed_fields proposed narrowed = filter (\<lambda>f. f \<in> set narrowed) proposed"

definition apply_change :: "string list \<Rightarrow> time \<Rightarrow> time \<Rightarrow> exception \<Rightarrow> xerror + exception \<times> audit_record" where
  "apply_change flds expires at current =
     (if Exception_Status current at \<noteq> StatePending then Inl (NotPending (e_ID current))
      else if \<not> at < expires then Inl ScreenExpired
      else let e = current\<lparr>e_State := StateApplied, e_AppliedFields := flds, e_DecidedAt := Some at, e_ExpiresAt := Some expires\<rparr>;
               kind = (if length flds < length (e_Fields current) then ''narrowed'' else ''applied'')
           in Inr (e, NewEvent kind e flds at))"

definition trim_line :: "string \<Rightarrow> string" where
  "trim_line line = rev (dropWhile (\<lambda>c. c = CHR 0x0D \<or> c = CHR 0x0A) (rev line))"

definition policy_unchanged :: "world \<Rightarrow> policy_entry list option \<Rightarrow> policy_ref \<Rightarrow> bool" where
  "policy_unchanged w entries p =
     (case findProjectPolicy entries (p_Name p) of
        Inl _ \<Rightarrow> False | Inr policy \<Rightarrow> pp_rel policy = p_Path p \<and> sha256 w (pp_data policy) = p_SHA256 p)"

definition apply_run :: "'raw xenv \<Rightarrow> world \<Rightarrow> decision_input \<Rightarrow> exception \<Rightarrow> 'raw \<Rightarrow> ('raw, unit) xm" where
  "apply_run env w c e raw =
     (if Exception_Status e (c_now c) \<noteq> StatePending then xfail (NotPending (e_ID e))
      else if c_fields_changed c \<and> c_fields c = [] then xfail EmptyFields
      else if c_fields c \<noteq> [] \<and> \<not> Subset (c_fields c) (e_Fields e) then xfail NotNarrowing
      else
        let flds = (if c_fields c \<noteq> [] then narrowed_fields (e_Fields e) (c_fields c) else e_Fields e);
            expires = c_now c + Duration e in
        if \<not> policy_unchanged w (c_policies c) (e_Policy e) then xfail PolicyChanged
        else if trim_line (c_line c) \<noteq> e_Table e then xfail Cancelled
        else Commit env (e_ID e) raw (apply_change flds expires (c_at c)))"

definition exceptionApply :: "'raw xenv \<Rightarrow> world \<Rightarrow> decision_input \<Rightarrow> ('raw, unit) xm" where
  "exceptionApply env w c = personCommand env c (apply_run env w c)"

definition reject_change :: "string \<Rightarrow> time \<Rightarrow> exception \<Rightarrow> xerror + exception \<times> audit_record" where
  "reject_change reason at current =
     (let e = current\<lparr>e_State := StateRejected, e_DecidedAt := Some at, e_DecisionReason := reason\<rparr> in
      Inr (e, (NewEvent ''rejected'' e [] at)\<lparr>v_Reason := reason\<rparr>))"

definition reject_run :: "'raw xenv \<Rightarrow> decision_input \<Rightarrow> exception \<Rightarrow> 'raw \<Rightarrow> ('raw, unit) xm" where
  "reject_run env c e raw =
     (if Exception_Status e (c_now c) \<noteq> StatePending then xfail (NotPending (e_ID e))
      else case (if c_reason c \<noteq> [] then checkExceptionReason (c_reason c) else Inr ()) of
        Inl err \<Rightarrow> xfail err
      | Inr _ \<Rightarrow> Commit env (e_ID e) raw (reject_change (c_reason c) (c_at c)))"

definition exceptionReject :: "'raw xenv \<Rightarrow> decision_input \<Rightarrow> ('raw, unit) xm" where
  "exceptionReject env c = personCommand env c (reject_run env c)"

definition revoke_change :: "time \<Rightarrow> exception \<Rightarrow> xerror + exception \<times> audit_record" where
  "revoke_change at current =
     (let e = current\<lparr>e_State := StateRevoked, e_DecidedAt := Some at\<rparr> in Inr (e, NewEvent ''revoked'' e [] at))"

definition revoke_run :: "'raw xenv \<Rightarrow> decision_input \<Rightarrow> exception \<Rightarrow> 'raw \<Rightarrow> ('raw, unit) xm" where
  "revoke_run env c e raw =
     (if Exception_Status e (c_now c) \<noteq> StateApplied then xfail (NotApplied (e_ID e))
      else Commit env (e_ID e) raw (revoke_change (c_at c)))"

definition exceptionRevoke :: "'raw xenv \<Rightarrow> decision_input \<Rightarrow> ('raw, unit) xm" where
  "exceptionRevoke env c = personCommand env c (revoke_run env c)"

definition eventsOfSession :: "audit_record list \<Rightarrow> string \<Rightarrow> string \<Rightarrow> audit_record list" where
  "eventsOfSession events harness session =
     (let is' = (\<lambda>h s. s = session \<and> (harness = [] \<or> h = harness)) in
      filter (\<lambda>e. (case v_BoundSession e of None \<Rightarrow> False | Some b \<Rightarrow> is' (sb_Harness b) (sb_Session b)) \<or>
                  (case v_Caller e of None \<Rightarrow> False | Some k \<Rightarrow> is' (Harness k) (caller_Session k))) events)"


section \<open>The overlay on a policy document\<close>

text \<open>
  A policy document as far as the overlay reads and writes it: its rule sets by name and
  the rule sets each role is bound to.  A rule set of the document itself and the rest of
  the document are opaque.
\<close>

record added_rule =
  rule_ID :: string
  Effect :: string
  Operations :: "string list"
  Fields_allowed :: "string list"

datatype 'o rule_set = Existing 'o | Added string added_rule

record ('o, 'x) document =
  RuleSets :: "(string \<times> 'o rule_set) list"
  Roles :: "(string \<times> string list) list option"
  document_rest :: 'x

record ('o, 'x) policy_codec =
  codec_decode :: "string \<Rightarrow> ('o, 'x) document option"
  codec_encode :: "('o, 'x) document \<Rightarrow> string option"
  Fingerprint :: "string \<Rightarrow> string"

record binding =
  b_ProjectID :: string
  b_Env :: string
  b_Source :: string
  b_SourceIdentity :: string
  b_PolicyPath :: string
  b_Reader :: session_binding

definition matches :: "binding \<Rightarrow> exception \<Rightarrow> bool" where
  "matches b e \<longleftrightarrow>
     (e_Lifetime e \<noteq> [] \<and> e_Lifetime e \<noteq> LifetimeDeadline \<longrightarrow>
        IsSession e \<and> (case e_BoundSession e of
          None \<Rightarrow> False
        | Some bound \<Rightarrow> sb_Harness bound \<noteq> [] \<and> sb_Session bound \<noteq> [] \<and> sb_Harness (b_Reader b) \<noteq> [] \<and> bound = b_Reader b)) \<and>
     e_ProjectID e = b_ProjectID b \<and> e_Env e = b_Env b \<and> e_Source e = b_Source b \<and>
     e_SourceIdentity e = b_SourceIdentity b \<and> p_Path (e_Policy e) = b_PolicyPath b"

definition exception_rule :: "exception \<Rightarrow> 'o rule_set" where
  "exception_rule e = Added (''/'' @ e_Table e)
     \<lparr>rule_ID = RuleID e, Effect = ''allow'', Operations = [''query''], Fields_allowed = e_AppliedFields e\<rparr>"

definition bind_role :: "string \<Rightarrow> string \<Rightarrow> (string \<times> string list) list \<Rightarrow> (string \<times> string list) list" where
  "bind_role role name roles =
     AList.update role ((case map_of roles role of None \<Rightarrow> [] | Some names \<Rightarrow> names) @ [name]) roles"

fun overlay_rules :: "exception list \<Rightarrow> (string \<times> 'o rule_set) list \<Rightarrow> (string \<times> string list) list \<Rightarrow> string list \<Rightarrow>
    (string \<times> 'o rule_set) list \<times> (string \<times> string list) list \<times> string list" where
  "overlay_rules [] rule_sets roles applied = (rule_sets, roles, applied)"
| "overlay_rules (e # es) rule_sets roles applied =
     (if map_of rule_sets (RuleID e) \<noteq> None then overlay_rules es rule_sets roles applied
      else overlay_rules es (AList.update (RuleID e) (exception_rule e) rule_sets)
             (bind_role (e_Role e) (RuleID e) roles) (applied @ [e_ID e]))"

datatype overlay_error = DecodeError | EncodeError | NotApplicable

definition Applicable :: "('o, 'x) policy_codec \<Rightarrow> string \<Rightarrow> overlay_error + unit" where
  "Applicable codec data =
     (case codec_decode codec data of
        None \<Rightarrow> Inl DecodeError
      | Some doc \<Rightarrow> if Roles doc = None \<or> RuleSets doc = [] then Inl NotApplicable else Inr ())"

definition overlaid :: "('o, 'x) policy_codec \<Rightarrow> string \<Rightarrow> binding \<Rightarrow> time \<Rightarrow> exception \<Rightarrow> bool" where
  "overlaid codec data b now e \<longleftrightarrow>
     Active e now \<and> matches b e \<and> p_SHA256 (e_Policy e) = Fingerprint codec data \<and> e_AppliedFields e \<noteq> []"

definition Overlay :: "('o, 'x) policy_codec \<Rightarrow> string \<Rightarrow> binding \<Rightarrow> exception list \<Rightarrow> time \<Rightarrow>
    overlay_error + string \<times> string list" where
  "Overlay codec data b exceptions now =
     (let matching = filter (overlaid codec data b now) exceptions in
      if matching = [] then Inr (data, [])
      else case codec_decode codec data of
        None \<Rightarrow> Inl DecodeError
      | Some doc \<Rightarrow>
          (case Roles doc of
             None \<Rightarrow> Inr (data, [])
           | Some roles \<Rightarrow>
               if RuleSets doc = [] then Inr (data, [])
               else case overlay_rules matching (RuleSets doc) roles [] of
                 (rule_sets, roles', applied) \<Rightarrow>
                   (case codec_encode codec (doc\<lparr>RuleSets := rule_sets, Roles := Some roles'\<rparr>) of
                      None \<Rightarrow> Inl EncodeError
                    | Some out \<Rightarrow> Inr (out, applied))))"

end
