(* ===== verification/Exceptions_Facts.thy ===== *)
theory Exceptions_Facts
  imports Exceptions
begin

text \<open>
  The steps of the exception store and what they keep.  \<open>store_relation\<close> is the
  interface between the operations and the properties: a relation on stores that holds
  between a store and itself, composes, and does not see reads and audit lines.  Inside it
  every operation is shown to keep the relation as soon as the one write it makes does.
\<close>


section \<open>What is stored, and what JSON represents\<close>

definition stored :: "'raw xenv \<Rightarrow> 'raw xstore \<Rightarrow> string \<Rightarrow> exception option" where
  "stored env st i =
     (case map_of (files st) i of
        None \<Rightarrow> None
      | Some raw \<Rightarrow> (case decode env raw of Inl _ \<Rightarrow> None | Inr e \<Rightarrow> if e_ID e = i then Some e else None))"

definition binding_texts :: "session_binding option \<Rightarrow> string list" where
  "binding_texts b = (case b of None \<Rightarrow> [] | Some s \<Rightarrow> [sb_Harness s, sb_Session s])"

definition caller_texts :: "caller option \<Rightarrow> string list" where
  "caller_texts c = (case c of None \<Rightarrow> []
     | Some k \<Rightarrow> [Harness k, HarnessVersion k, caller_Session k, caller_Source k])"

definition texts :: "exception \<Rightarrow> string list" where
  "texts e = [e_ID e, e_Kind e, e_ProjectID e, e_Env e, e_Source e, e_SourceIdentity e, p_Name (e_Policy e),
     p_Path (e_Policy e), p_SHA256 (e_Policy e), e_Role e, e_Table e, e_Reason e, e_State e,
     e_DecisionReason e, e_Lifetime e] @ e_Fields e @ e_AppliedFields e @ caller_texts (e_Caller e) @
     binding_texts (e_BoundSession e)"

text \<open>The years 0 to 9999, the ones \<open>time.Time\<close> encodes as JSON, less a margin of a day for \<open>clock_ok\<close>.\<close>

definition year_ok :: "time \<Rightarrow> bool" where
  "year_ok t \<longleftrightarrow> - 62167219200 * Second \<le> t \<and> t < 253402300800 * Second"

definition clock_ok :: "time \<Rightarrow> bool" where
  "clock_ok t \<longleftrightarrow> - 62167219200 * Second \<le> t \<and> t + 24 * Hour < 253402300800 * Second"

definition times :: "exception \<Rightarrow> time list" where
  "times e = [e_ProposedAt e, e_PendingExpiresAt e] @
     (case e_DecidedAt e of None \<Rightarrow> [] | Some t \<Rightarrow> [t]) @ (case e_ExpiresAt e of None \<Rightarrow> [] | Some t \<Rightarrow> [t])"

definition representable :: "exception \<Rightarrow> bool" where
  "representable e \<longleftrightarrow> list_all ValidString (texts e) \<and> list_all year_ok (times e)"

text \<open>What \<open>encoding/json\<close> documents: a value it represents is read back, and it reads nothing else.\<close>

definition json_codec :: "'raw xenv \<Rightarrow> bool" where
  "json_codec env \<longleftrightarrow>
     (\<forall>e. representable e \<longrightarrow> unmarshal env (marshal env e) = Some e) \<and>
     (\<forall>raw e. unmarshal env raw = Some e \<longrightarrow> representable e)"

lemma json_codec_back: "json_codec env \<Longrightarrow> representable e \<Longrightarrow> unmarshal env (marshal env e) = Some e"
  by (simp add: json_codec_def)

lemma decode_representable: "json_codec env \<Longrightarrow> decode env raw = Inr e \<Longrightarrow> representable e"
  by (auto simp: json_codec_def decode_def split: option.splits if_splits)

lemma stored_decode: "stored env st i = Some e \<Longrightarrow> \<exists>raw. map_of (files st) i = Some raw \<and> decode env raw = Inr e \<and> e_ID e = i"
  by (auto simp: stored_def split: option.splits sum.splits if_splits)

definition well_stored :: "exception \<Rightarrow> bool" where
  "well_stored e \<longleftrightarrow> e_Kind e = Kind \<and> ValidID (e_ID e) \<and>
     (e_Lifetime e = [] \<or> e_Lifetime e = LifetimeSession \<or> e_Lifetime e = LifetimeDeadline)"

lemma decode_well_stored: "decode env raw = Inr e \<Longrightarrow> well_stored e"
  by (auto simp: decode_def well_stored_def split: option.splits if_splits)

lemma stored_update:
  assumes "json_codec env" "representable u" "stored env (st\<lparr>files := AList.update (e_ID u) (marshal env u) (files st)\<rparr>) i = Some e'"
  shows "(i = e_ID u \<and> e' = u) \<or> (i \<noteq> e_ID u \<and> stored env st i = Some e')"
  using assms
  by (auto simp: stored_def AList.update_conv' decode_def json_codec_back split: if_splits option.splits sum.splits)

lemma stored_update_same:
  assumes "json_codec env" "representable u" "well_stored u"
  shows "stored env (st\<lparr>files := AList.update (e_ID u) (marshal env u) (files st)\<rparr>) i =
    (if i = e_ID u then Some u else stored env st i)"
  using assms by (auto simp: stored_def AList.update_conv' decode_def well_stored_def json_codec_back)


section \<open>Relations the operations keep\<close>

definition keeps :: "('raw xstore \<Rightarrow> 'raw xstore \<Rightarrow> bool) \<Rightarrow> ('raw, 'a) xm \<Rightarrow> bool" where
  "keeps R m \<longleftrightarrow> (\<forall>st. R st (snd (m st)))"

definition grows :: "'raw xstore \<Rightarrow> 'raw xstore \<Rightarrow> bool" where
  "grows st st' \<longleftrightarrow> files st' = files st \<and> (\<exists>new. audit st' = audit st @ new)"

lemma grows_refl [simp]: "grows st st"
  by (simp add: grows_def)

lemma grows_trans: "grows a b \<Longrightarrow> grows b c \<Longrightarrow> grows a c"
  by (auto simp: grows_def)

lemma grows_next_io: "next_io st = (r, st') \<Longrightarrow> grows st st'"
  by (auto simp: next_io_def grows_def split: list.splits)

lemma grows_io_step: "grows st (snd (io_step err st))"
  by (auto simp: io_step_def split: prod.splits io.splits dest: grows_next_io)

lemma grows_lock: "grows st (snd (lock st))"
  using grows_io_step [of st FileError]
  by (auto simp: lock_def xbind_def split: prod.splits sum.splits intro: grows_trans grows_io_step)

lemma grows_readFile: "grows st (snd (readFile i st))"
  by (auto simp: readFile_def split: prod.splits io.splits dest: grows_next_io)

lemma grows_appendAudit: "grows st (snd (appendAudit env ev st))"
  by (auto simp: appendAudit_def Let_def split: prod.splits io.splits dest!: grows_next_io)
     (auto simp: grows_def)

lemma appendAudit_line:
  "appendAudit env ev st = (Inr (), st') \<Longrightarrow> \<exists>v \<in> set (audit st'). v\<lparr>v_Caller := v_Caller ev\<rparr> = ev"
  by (auto simp: appendAudit_def Let_def split: prod.splits io.splits if_splits)

lemma grows_Get: "grows st (snd (Get env i st))"
  using grows_readFile [of st i]
  by (auto simp: Get_def xbind_def xfail_def xok_def split: prod.splits sum.splits option.splits if_splits)

lemma Get_stored:
  "Get env i st = (Inr (e, raw), st') \<Longrightarrow>
     stored env st i = Some e \<and> map_of (files st) i = Some raw \<and> decode env raw = Inr e \<and> grows st st'"
  using grows_Get [of st env i] grows_readFile [of st i]
  by (auto simp: Get_def xbind_def xfail_def xok_def readFile_def stored_def grows_def
      split: prod.splits sum.splits option.splits if_splits io.splits dest!: grows_next_io)

lemma write_cases:
  "write_exception env e st = (r, st') \<Longrightarrow>
     ((\<exists>err. r = Inl err) \<and> grows st st') \<or>
     (r = Inr () \<and> (\<exists>st1. grows st st1 \<and> st' = st1\<lparr>files := AList.update (e_ID e) (marshal env e) (files st1)\<rparr>))"
  by (auto simp: write_exception_def xbind_def io_step_def split: prod.splits sum.splits io.splits
      dest!: grows_next_io intro: grows_trans)

lemma grows_remove: "\<exists>new. audit (remove i st) = audit st @ new"
  by (auto simp: remove_def split: prod.splits io.splits dest!: grows_next_io) (auto simp: grows_def)

lemma files_remove: "files (remove i st) = files st \<or> files (remove i st) = AList.delete i (files st)"
  by (auto simp: remove_def split: prod.splits io.splits dest!: grows_next_io) (auto simp: grows_def)

lemma xbind_snd: "snd (xbind m f st) = (case fst (m st) of Inl _ \<Rightarrow> snd (m st) | Inr x \<Rightarrow> snd (f x (snd (m st))))"
  by (simp add: xbind_def split: prod.splits sum.splits)

lemma files_write:
  "files (snd (write_exception env e st)) = files st \<or>
   files (snd (write_exception env e st)) = AList.update (e_ID e) (marshal env e) (files st)"
  using write_cases [of env e st "fst (write_exception env e st)" "snd (write_exception env e st)"]
  by (auto simp: grows_def)



lemma grows_read_all: "grows st (snd (read_all env is es bad st))"
proof (induction "is" arbitrary: es bad st)
  case (Cons i "is")
  have "grows st (snd (Get env i st))" by (rule grows_Get)
  then show ?case using Cons.IH by (auto split: prod.splits sum.splits intro: grows_trans)
qed simp

lemma grows_List: "grows st (snd (List_exceptions env st))"
proof (cases "next_io st")
  case (Pair r st')
  then have "grows st (snd (read_all env is es bad st'))" for "is" es bad
    using grows_trans [OF grows_next_io grows_read_all] by blast
  then show ?thesis using Pair grows_next_io [OF Pair]
    by (auto simp: List_exceptions_def split: io.splits prod.splits) (metis snd_conv)
qed

lemma Propose_effect:
  "(files (snd (Propose env e st)) = files st \<or>
    files (snd (Propose env e st)) = AList.update (e_ID e) (marshal env e) (files st) \<or>
    files (snd (Propose env e st)) = AList.delete (e_ID e) (AList.update (e_ID e) (marshal env e) (files st))) \<and>
   (\<exists>new. audit (snd (Propose env e st)) = audit st @ new)"
proof -
  obtain r0 st0 where l: "lock st = (r0, st0)" by fastforce
  obtain r1 st1 where rd: "readFile (e_ID e) st0 = (r1, st1)" by fastforce
  obtain r2 st2 where w: "write_exception env e st1 = (r2, st2)" by fastforce
  obtain r3 st3 where ap: "appendAudit env (NewEvent ''proposed'' e (e_Fields e) (e_ProposedAt e)) st2 = (r3, st3)" by fastforce
  have g: "grows st st0" "grows st st1" "grows st2 st3"
    using grows_lock [of st] grows_readFile [of st0 "e_ID e"] grows_appendAudit [of st2] l rd ap
    by (auto intro: grows_trans) (metis grows_appendAudit snd_conv)
  have result: "snd (Propose env e st) \<in> {st0, st1, st2, st3, remove (e_ID e) st3}"
    and failed: "r2 = Inl err \<Longrightarrow> snd (Propose env e st) \<in> {st0, st1, st2}" for err
    using l rd w ap by (auto simp: Propose_def xbind_def split: sum.splits option.splits)
  show ?thesis
  proof (cases r2)
    case (Inl err)
    then have "grows st1 st2" using write_cases [OF w] by auto
    then show ?thesis using failed [OF Inl] g by (auto simp: grows_def)
  next
    case (Inr ok)
    then obtain st' where "grows st1 st'" "st2 = st'\<lparr>files := AList.update (e_ID e) (marshal env e) (files st')\<rparr>"
      using write_cases [OF w] by auto
    then show ?thesis using result g grows_remove [of "e_ID e" st3] files_remove [of "e_ID e" st3]
      by (auto simp: grows_def)
  qed
qed

locale store_relation =
  fixes R :: "'raw xstore \<Rightarrow> 'raw xstore \<Rightarrow> bool"
  assumes unseen: "grows st st' \<Longrightarrow> R st st'"
    and compose: "R a b \<Longrightarrow> R b c \<Longrightarrow> R a c"
begin

lemma quiet: "(\<And>st. grows st (snd (m st))) \<Longrightarrow> keeps R m"
  by (simp add: keeps_def unseen)

lemma refuse: "keeps R (xfail err)"
  by (simp add: keeps_def xfail_def unseen)

lemma sequence:
  assumes "keeps R m" "\<And>st x st'. m st = (Inr x, st') \<Longrightarrow> R st st' \<Longrightarrow> R st' (snd (f x st'))"
  shows "keeps R (xbind m f)"
  unfolding keeps_def
proof
  fix st
  obtain r st' where m: "m st = (r, st')" by fastforce
  then have "R st st'" using assms(1) by (auto simp: keeps_def dest: spec [of _ st])
  then show "R st (snd (xbind m f st))"
    using m assms(2) [of st _ st'] by (cases r) (auto simp: xbind_def intro: compose)
qed

lemma commitLocked_keeps:
  assumes "\<And>st e u ev v. stored env st i = Some e \<Longrightarrow> map_of (files st) i = Some expected \<Longrightarrow> change e = Inr (u, ev) \<Longrightarrow>
      v \<in> set (audit st) \<Longrightarrow> v\<lparr>v_Caller := v_Caller ev\<rparr> = ev \<Longrightarrow>
      R st (st\<lparr>files := AList.update (e_ID u) (marshal env u) (files st)\<rparr>)"
  shows "keeps R (commitLocked env i expected change)"
  unfolding commitLocked_def
proof (rule sequence [OF quiet [OF grows_Get]])
  fix st x st'
  assume get: "Get env i st = (Inr x, st')"
  obtain e raw where x: "x = (e, raw)" by fastforce
  have e: "stored env st' i = Some e" "map_of (files st') i = Some raw"
    using Get_stored [OF get [unfolded x]] by (auto simp: grows_def stored_def split: if_splits)
  have "R st' (snd (xbind (appendAudit env ev) (\<lambda>_ st.
             case write_exception env u st of
               (Inr _, st') \<Rightarrow> (Inr (), st')
             | (Inl err, st') \<Rightarrow>
                 (Inl err, snd (appendAudit env (ev\<lparr>v_Event := v_Event ev @ ''-failed''\<rparr>) st'))) st'))"
    if change: "change e = Inr (u, ev)" "raw = expected" for u ev
  proof (cases "appendAudit env ev st'")
    case (Pair r st1)
    have g1: "grows st' st1" using grows_appendAudit [of st' env ev] Pair by simp
    show ?thesis
    proof (cases r)
      case (Inl err)
      then show ?thesis using Pair g1 by (simp add: xbind_def unseen)
    next
      case (Inr ok)
      obtain v where v: "v \<in> set (audit st1)" "v\<lparr>v_Caller := v_Caller ev\<rparr> = ev"
        using appendAudit_line Pair Inr by (metis old.unit.exhaust)
      obtain r2 st2 where w: "write_exception env u st1 = (r2, st2)" by fastforce
      consider "grows st1 st2" "\<exists>err. r2 = Inl err"
        | st3 where "grows st1 st3" "r2 = Inr ()" "st2 = st3\<lparr>files := AList.update (e_ID u) (marshal env u) (files st3)\<rparr>"
        using write_cases [OF w] by blast
      then show ?thesis
      proof cases
        case 1
        have "grows st' (snd (appendAudit env line st2))" for line
          by (rule grows_trans [OF grows_trans [OF g1 1(1)] grows_appendAudit])
        then show ?thesis using 1 Pair Inr w by (auto simp: xbind_def unseen)
      next
        case (2 st3)
        have g: "grows st' st3" using g1 2(1) by (rule grows_trans)
        have "R st3 st2" unfolding 2(3)
        proof (rule assms [OF _ _ change(1) _ v(2)])
          show "v \<in> set (audit st3)" using v(1) 2(1) by (auto simp: grows_def)
          show "stored env st3 i = Some e" "map_of (files st3) i = Some expected"
            using e g change(2) by (auto simp: grows_def stored_def)
        qed
        then show ?thesis using Pair Inr w g 2(2) by (auto simp: xbind_def intro: compose [OF unseen])
      qed
    qed
  qed
  then show "R st' (snd ((case x of (current, raw) \<Rightarrow>
         if raw \<noteq> expected then xfail Changed
         else case change current of Inl err \<Rightarrow> xfail err
              | Inr (updated, ev) \<Rightarrow> xbind (appendAudit env ev) (\<lambda>_ st.
                  case write_exception env updated st of
                    (Inl err, st') \<Rightarrow> (Inl err, snd (appendAudit env (ev\<lparr>v_Event := v_Event ev @ ''-failed''\<rparr>) st'))
                  | (Inr _, st') \<Rightarrow> (Inr (), st'))) st'))"
    by (auto simp: x xfail_def unseen split: sum.splits)
qed

lemma Commit_keeps:
  assumes "keeps R (commitLocked env i expected change)"
  shows "keeps R (Commit env i expected change)"
  unfolding Commit_def by (rule sequence [OF quiet [OF grows_lock]]) (use assms in \<open>auto simp: keeps_def\<close>)

lemma Propose_keeps:
  assumes "\<And>st1 new. files st1 = AList.update (e_ID e) (marshal env e) (files st) \<Longrightarrow> audit st1 = audit st @ new \<Longrightarrow> R st st1"
    and "\<And>st1 new. files st1 = AList.delete (e_ID e) (AList.update (e_ID e) (marshal env e) (files st)) \<Longrightarrow>
      audit st1 = audit st @ new \<Longrightarrow> R st st1"
  shows "R st (snd (Propose env e st))"
  using Propose_effect [of env e st] assms unseen [of st "snd (Propose env e st)"]
  by (auto simp: grows_def)

lemma end_all_keeps:
  assumes "\<And>i raw. keeps R (commitLocked env i raw (end_change now))"
  shows "R st (snd (end_all env bound now es ended st))"
proof (induction es arbitrary: ended st)
  case (Cons e es)
  let ?m = "xbind (Get env (e_ID e)) (\<lambda>(_, raw). commitLocked env (e_ID e) raw (end_change now))"
  have "keeps R ?m"
    by (rule sequence [OF quiet [OF grows_Get]]) (use assms in \<open>auto simp: keeps_def split: prod.splits\<close>)
  then have "R st (snd (?m st))" by (simp add: keeps_def)
  then show ?case using Cons.IH by (auto split: prod.splits sum.splits intro: compose)
qed (simp add: unseen)

lemma EndSession_keeps:
  assumes "\<And>i raw. keeps R (commitLocked env i raw (end_change now))"
  shows "R st (snd (EndSession env bound now st))"
proof -
  have "keeps R (xbind lock (\<lambda>_. List_exceptions env))"
    by (rule sequence [OF quiet [OF grows_lock]]) (simp add: unseen grows_List)
  then have "R st (snd (xbind lock (\<lambda>_. List_exceptions env) st))" by (simp add: keeps_def)
  then show ?thesis using end_all_keeps [OF assms]
    by (auto simp: EndSession_def split: prod.splits sum.splits intro: compose)
qed

lemma record_due_keeps:
  assumes "\<And>i raw. keeps R (commitLocked env i raw (expiry_change now))"
  shows "R st (snd (record_due env now due first st))"
proof (induction due arbitrary: first st)
  case (Cons i due)
  obtain r st1 where get: "Get env i st = (r, st1)" by fastforce
  then have g: "R st st1" using grows_Get [of st env i] by (simp add: unseen)
  have mark: "R s (s\<lparr>expiryFailed := failed\<rparr>)" for s failed by (simp add: unseen grows_def)
  have "R st1 (snd (commitLocked env i raw (expiry_change now) st1))" for raw
    using assms by (simp add: keeps_def)
  then show ?case using get g Cons.IH mark
    by (auto split: prod.splits sum.splits intro: compose) (metis compose snd_conv)+
qed (simp add: unseen)

lemma RecordExpiries_keeps:
  assumes "\<And>i raw. keeps R (commitLocked env i raw (expiry_change now))"
  shows "R st (snd (RecordExpiries env es now st))"
proof -
  have "keeps R (xbind lock (\<lambda>_ st1. case record_due env now due None st1 of
          (None, st2) \<Rightarrow> (Inr (), st2) | (Some err, st2) \<Rightarrow> (Inl err, st2)))" for due
    by (rule sequence [OF quiet [OF grows_lock]])
      (use record_due_keeps [OF assms] in \<open>auto split: prod.splits option.splits; metis snd_conv\<close>)
  then show ?thesis by (simp add: RecordExpiries_def Let_def keeps_def unseen)
qed

lemma Record_keeps: "R st (snd (Record env ev st))"
proof -
  have "keeps R (xbind lock (\<lambda>_. appendAudit env ev))"
    by (rule sequence [OF quiet [OF grows_lock]]) (simp add: unseen grows_appendAudit)
  then show ?thesis by (simp add: Record_def keeps_def)
qed

end

end
