(* ===== verification/Exceptions_System.thy ===== *)
theory Exceptions_System
  imports Exceptions_Facts
begin

text \<open>
  The exception store as a transition system.  A step is one command of one process; a
  decision of the person is a step of its own from the moment the screen was read, with
  whatever bytes it was read from, so that every interleaving of other commands between
  the screen and the commit is covered.  Three relations between stores are interpreted as
  \<open>store_relation\<close>: keeping the invariant that every exception in force was decided and
  audited, adding no access, and leaving decisions in place.
\<close>


section \<open>Steps\<close>

abbreviation by_caller :: "'raw xenv \<Rightarrow> caller option \<Rightarrow> 'raw xenv" where
  "by_caller env k \<equiv> env\<lparr>store_Caller := k\<rparr>"

inductive agent_step :: "'raw xenv \<Rightarrow> 'raw xstore \<Rightarrow> 'raw xstore \<Rightarrow> bool" for env where
  proposes: "proposed_exception (by_caller env k) w q now = Inr e \<Longrightarrow> representable e \<Longrightarrow>
    agent_step env st (snd (exceptionPropose (by_caller env k) w q now st))"
| ends: "agent_step env st (snd (EndSession (by_caller env k) bound now st))"
| expires: "agent_step env st (snd (RecordExpiries (by_caller env k) es now st))"
| records: "agent_step env st (snd (Record (by_caller env k) ev st))"
| applies_without_terminal: "\<not> c_terminal c \<Longrightarrow> agent_step env st (snd (exceptionApply (by_caller env k) w c st))"
| rejects_without_terminal: "\<not> c_terminal c \<Longrightarrow> agent_step env st (snd (exceptionReject (by_caller env k) c st))"
| revokes_without_terminal: "\<not> c_terminal c \<Longrightarrow> agent_step env st (snd (exceptionRevoke (by_caller env k) c st))"

inductive xstep :: "'raw xenv \<Rightarrow> 'raw xstore \<Rightarrow> 'raw xstore \<Rightarrow> bool" for env where
  agent: "agent_step env st st' \<Longrightarrow> xstep env st st'"
| applies: "decode env raw = Inr e \<Longrightarrow> c_now c \<le> c_at c \<Longrightarrow> clock_ok (c_now c) \<Longrightarrow> clock_ok (c_at c) \<Longrightarrow>
    xstep env st (snd (apply_run (by_caller env k) w c e raw st))"
| rejects: "decode env raw = Inr e \<Longrightarrow> ValidString (c_reason c) \<Longrightarrow> clock_ok (c_at c) \<Longrightarrow>
    xstep env st (snd (reject_run (by_caller env k) c e raw st))"
| revokes: "decode env raw = Inr e \<Longrightarrow> clock_ok (c_at c) \<Longrightarrow>
    xstep env st (snd (revoke_run (by_caller env k) c e raw st))"
| faults: "xstep env st (st\<lparr>outcomes := os, expiryFailed := failed\<rparr>)"

definition fresh_store :: "'raw xstore" where
  "fresh_store = \<lparr>files = [], audit = [], expiryFailed = [], outcomes = []\<rparr>"

definition reachable :: "'raw xenv \<Rightarrow> 'raw xstore \<Rightarrow> bool" where
  "reachable env st \<longleftrightarrow> (xstep env)\<^sup>*\<^sup>* fresh_store st"

lemma decode_by_caller [simp]: "decode (by_caller env k) = decode env"
  by (simp add: fun_eq_iff decode_def)

lemma stored_by_caller [simp]: "stored (by_caller env k) = stored env"
  by (simp add: fun_eq_iff stored_def split: option.split)

lemma no_terminal [simp]: "\<not> c_terminal c \<Longrightarrow> personCommand env c run st = (Inl HumanTerminalRequired, st)"
  by (simp add: personCommand_def xfail_def)

lemma person_reads:
  "c_terminal c \<Longrightarrow> c_common c = Inr () \<Longrightarrow> Get env (c_id c) st = (Inr (e, raw), st') \<Longrightarrow>
     personCommand env c run st = run e raw st'"
  by (simp add: personCommand_def xbind_def)


section \<open>Every exception in force was decided and audited\<close>

definition decides :: "audit_record \<Rightarrow> exception \<Rightarrow> bool" where
  "decides v e \<longleftrightarrow> (v_Event v = ''applied'' \<or> v_Event v = ''narrowed'') \<and> v_Kind v = Kind \<and> v_ID v = e_ID e \<and>
     v_ProjectID v = e_ProjectID e \<and> v_Env v = e_Env e \<and> v_Source v = e_Source e \<and> v_Policy v = p_Path (e_Policy e) \<and>
     v_Role v = e_Role e \<and> v_Table v = e_Table e \<and> v_Fields v = e_AppliedFields e \<and> v_ExpiresAt v = e_ExpiresAt e \<and>
     v_Lifetime v = e_Lifetime e \<and> v_BoundSession v = e_BoundSession e \<and> e_DecidedAt e = Some (v_At v)"

definition granted :: "audit_record list \<Rightarrow> exception \<Rightarrow> bool" where
  "granted log e \<longleftrightarrow> e_AppliedFields e \<noteq> [] \<and> set (e_AppliedFields e) \<subseteq> set (e_Fields e) \<and>
     (\<exists>d x. e_DecidedAt e = Some d \<and> e_ExpiresAt e = Some x \<and> d < x \<and> x \<le> d + MaxDuration) \<and>
     (\<exists>v \<in> set log. decides v e)"

definition sound_exception :: "audit_record list \<Rightarrow> exception \<Rightarrow> bool" where
  "sound_exception log e \<longleftrightarrow> e_Fields e \<noteq> [] \<and> 0 \<le> e_DurationSeconds e \<and> e_DurationSeconds e * Second \<le> MaxDuration \<and>
     (e_State e = StateApplied \<longrightarrow> granted log e)"

definition audited :: "'raw xenv \<Rightarrow> 'raw xstore \<Rightarrow> bool" where
  "audited env st \<longleftrightarrow> (\<forall>i e. stored env st i = Some e \<longrightarrow> sound_exception (audit st) e)"

lemma sound_mono: "sound_exception log e \<Longrightarrow> set log \<subseteq> set log' \<Longrightarrow> sound_exception log' e"
  by (auto simp: sound_exception_def granted_def)

lemma audited_write:
  assumes "json_codec env" "audited env st" "representable u" "sound_exception (audit st) u"
    "files st1 = AList.update (e_ID u) (marshal env u) (files st)" "audit st1 = audit st @ new"
  shows "audited env st1"
proof -
  have *: "stored env st1 = stored env (st\<lparr>files := AList.update (e_ID u) (marshal env u) (files st)\<rparr>)"
    using assms(5) by (simp add: stored_def fun_eq_iff)
  show ?thesis unfolding audited_def *
    using assms(2,4,6) stored_update [OF assms(1,3)] by (fastforce simp: audited_def intro: sound_mono)
qed

lemma audited_delete:
  assumes "audited env st" "files st1 = AList.delete i (AList.update i raw (files st))" "audit st1 = audit st @ new"
  shows "audited env st1"
  using assms by (fastforce simp: audited_def stored_def AList.delete_conv' AList.update_conv'
      intro: sound_mono split: if_splits)

interpretation audited: store_relation "\<lambda>st st'. audited env st \<longrightarrow> audited env st'" for env
proof unfold_locales
  fix st st' :: "'a xstore"
  assume "grows st st'"
  then show "audited env st \<longrightarrow> audited env st'"
    by (fastforce simp: grows_def audited_def stored_def intro: sound_mono)
qed auto

lemma canonicalFields_keeps: "canonicalFields eqf columns names out = Inr flds \<Longrightarrow> set out \<subseteq> set flds \<and> (names \<noteq> [] \<longrightarrow> flds \<noteq> [])"
  by (induction names arbitrary: out) (fastforce simp: Let_def split: if_splits)+

lemma proposed_sound: "proposed_exception env w q now = Inr e \<Longrightarrow> sound_exception log e \<and> e_State e = StatePending"
  by (auto simp: proposed_exception_def rbind_eq_Inr proposal_checks_def CheckDuration_def if_Inl_eq_Inr
      sound_exception_def state_names Second_def split: if_splits dest!: canonicalFields_keeps)

lemma line_reads:
  "v\<lparr>v_Caller := c\<rparr> = w \<Longrightarrow> v_At v = v_At w \<and> v_Kind v = v_Kind w \<and> v_Event v = v_Event w \<and> v_ID v = v_ID w \<and>
     v_ProjectID v = v_ProjectID w \<and> v_Env v = v_Env w \<and> v_Source v = v_Source w \<and> v_Policy v = v_Policy w \<and>
     v_Role v = v_Role w \<and> v_Table v = v_Table w \<and> v_Fields v = v_Fields w \<and> v_ExpiresAt v = v_ExpiresAt w \<and>
     v_Lifetime v = v_Lifetime w \<and> v_BoundSession v = v_BoundSession w"
  by auto

lemma Duration_exact:
  assumes "0 \<le> e_DurationSeconds e" "e_DurationSeconds e * Second \<le> MaxDuration"
  shows "Duration e = e_DurationSeconds e * Second"
proof -
  have "0 \<le> e_DurationSeconds e * Second + 2 ^ 63" "e_DurationSeconds e * Second + 2 ^ 63 < 2 ^ 64"
    using assms by (auto simp: Second_def MaxDuration_def Hour_def Minute_def)
  then show ?thesis by (simp add: Duration_def mod_pos_pos_trivial)
qed

lemma chosen_fields:
  assumes "e_Fields e \<noteq> []" "c_fields c \<noteq> [] \<longrightarrow> Subset (c_fields c) (e_Fields e)"
  defines "flds \<equiv> if c_fields c \<noteq> [] then narrowed_fields (e_Fields e) (c_fields c) else e_Fields e"
  shows "flds \<noteq> []" "set flds \<subseteq> set (e_Fields e)"
  using assms(1,2) by (cases "c_fields c"; auto simp: flds_def narrowed_fields_def Subset_def list_all_iff filter_empty_conv)+

lemma apply_change_sound:
  assumes change: "apply_change flds (now + Duration e) at e = Inr (u, ev)" and e: "sound_exception log e"
    and flds: "flds \<noteq> []" "set flds \<subseteq> set (e_Fields e)" and at: "now \<le> at"
    and v: "v \<in> set log" "v\<lparr>v_Caller := v_Caller ev\<rparr> = ev"
  shows "sound_exception log u" "at < now + Duration e" "now + Duration e \<le> now + MaxDuration"
proof -
  have d: "Duration e \<le> MaxDuration" using e Duration_exact [of e] by (simp add: sound_exception_def)
  then show "now + Duration e \<le> now + MaxDuration" by simp
  have u: "u = e\<lparr>e_State := StateApplied, e_AppliedFields := flds, e_DecidedAt := Some at, e_ExpiresAt := Some (now + Duration e)\<rparr>"
    and ev: "ev = NewEvent (if length flds < length (e_Fields e) then ''narrowed'' else ''applied'') u flds at"
    and x: "at < now + Duration e"
    using change by (auto simp: apply_change_def Let_def split: if_splits)
  show "at < now + Duration e" by (rule x)
  have "decides v u" using line_reads [OF v(2)] by (simp add: decides_def ev NewEvent_def) (simp add: u)
  moreover have "now + Duration e \<le> at + MaxDuration" using d at by simp
  ultimately show "sound_exception log u"
    using e flds x v(1) by (auto simp: sound_exception_def granted_def u)
qed

lemma valid_states [simp]:
  "ValidString StatePending" "ValidString StateApplied" "ValidString StateRejected" "ValidString StateRevoked" "ValidString StateEnded"
  by code_simp+

lemma clock_year:
  "clock_ok t \<Longrightarrow> year_ok t" "clock_ok t \<Longrightarrow> t \<le> x \<Longrightarrow> x \<le> t + MaxDuration \<Longrightarrow> year_ok x"
  by (auto simp: clock_ok_def year_ok_def MaxDuration_def Second_def Hour_def Minute_def)

lemma representable_applied:
  "representable e \<Longrightarrow> set flds \<subseteq> set (e_Fields e) \<Longrightarrow> year_ok at \<Longrightarrow> year_ok x \<Longrightarrow>
     representable (e\<lparr>e_State := StateApplied, e_AppliedFields := flds, e_DecidedAt := Some at, e_ExpiresAt := Some x\<rparr>)"
  by (auto simp: representable_def texts_def times_def list_all_iff)

lemma representable_decided:
  "representable e \<Longrightarrow> ValidString s \<Longrightarrow> ValidString r \<Longrightarrow> year_ok at \<Longrightarrow>
     representable (e\<lparr>e_State := s, e_DecidedAt := Some at, e_DecisionReason := r\<rparr>)"
  "representable e \<Longrightarrow> ValidString s \<Longrightarrow> year_ok at \<Longrightarrow> representable (e\<lparr>e_State := s, e_DecidedAt := Some at\<rparr>)"
  "representable e \<Longrightarrow> ValidString s \<Longrightarrow> representable (e\<lparr>e_State := s\<rparr>)"
  "representable (e\<lparr>e_ExpiryRecorded := b\<rparr>) = representable e"
  by (auto simp: representable_def texts_def times_def)

text \<open>Each decision writes an exception that JSON represents and that the log accounts for.\<close>

lemma read_bytes:
  "stored env st i = Some e' \<Longrightarrow> map_of (files st) i = Some raw \<Longrightarrow> decode env raw = Inr e \<Longrightarrow> e' = e \<and> e_ID e = i"
  by (auto simp: stored_def split: if_splits)

definition decided :: "exception \<Rightarrow> bool" where
  "decided e \<longleftrightarrow> e_State e = StateRejected \<or> e_State e = StateRevoked \<or> e_State e = StateEnded"

definition decisions_stand :: "'raw xenv \<Rightarrow> 'raw xstore \<Rightarrow> 'raw xstore \<Rightarrow> bool" where
  "decisions_stand env st st' \<longleftrightarrow>
     (\<forall>i e. stored env st i = Some e \<and> decided e \<longrightarrow> (\<exists>e'. stored env st' i = Some e' \<and> e_State e' = e_State e))"

definition lawful :: "'raw xenv \<Rightarrow> 'raw xstore \<Rightarrow> 'raw xstore \<Rightarrow> bool" where
  "lawful env st st' \<longleftrightarrow> (audited env st \<longrightarrow> audited env st' \<and> decisions_stand env st st')"

lemma decisions_stand_trans: "decisions_stand env a b \<Longrightarrow> decisions_stand env b c \<Longrightarrow> decisions_stand env a c"
  by (fastforce simp: decisions_stand_def decided_def)

interpretation lawful: store_relation "lawful env" for env
proof unfold_locales
  fix st st' :: "'a xstore"
  assume g: "grows st st'"
  then have "stored env st' = stored env st" by (simp add: grows_def stored_def fun_eq_iff)
  then show "lawful env st st'" using audited.unseen [OF g, of env] by (auto simp: lawful_def decisions_stand_def)
next
  fix a b c :: "'a xstore"
  assume "lawful env a b" "lawful env b c"
  then show "lawful env a c" by (auto simp: lawful_def intro: decisions_stand_trans)
qed

definition good_change :: "audit_record list \<Rightarrow> exception \<Rightarrow> exception \<Rightarrow> bool" where
  "good_change log e u \<longleftrightarrow> representable u \<and> sound_exception log u \<and> e_ID u = e_ID e \<and> e_Kind u = e_Kind e \<and>
     e_Lifetime u = e_Lifetime e \<and> (decided e \<longrightarrow> e_State u = e_State e)"

lemma lawful_write:
  assumes codec: "json_codec env" and e: "stored env st i = Some e"
    and u: "sound_exception (audit st) e \<Longrightarrow> good_change (audit st) e u"
  shows "lawful env st (st\<lparr>files := AList.update (e_ID u) (marshal env u) (files st)\<rparr>)"
proof -
  have "audited env st' \<and> decisions_stand env st st'"
    if a: "audited env st" and st': "st' = st\<lparr>files := AList.update (e_ID u) (marshal env u) (files st)\<rparr>" for st'
  proof -
    have g: "good_change (audit st) e u" using u a e by (simp add: audited_def)
    obtain raw where raw: "decode env raw = Inr e" "e_ID e = i" using stored_decode [OF e] by auto
    have ws: "well_stored u" using decode_well_stored [OF raw(1)] g by (simp add: well_stored_def good_change_def)
    have "audited env st'" using g audited_write [OF codec a, of u st' "[]"] by (simp add: good_change_def st')
    moreover have "decisions_stand env st st'"
      using g e raw(2) stored_update_same [OF codec _ ws] by (auto simp: decisions_stand_def st' good_change_def)
    ultimately show ?thesis by simp
  qed
  then show ?thesis by (simp add: lawful_def)
qed

lemma lawful_commit:
  assumes codec: "json_codec env"
    and good: "\<And>st e u ev v. stored env st i = Some e \<Longrightarrow> map_of (files st) i = Some raw \<Longrightarrow> change e = Inr (u, ev) \<Longrightarrow>
      v \<in> set (audit st) \<Longrightarrow> v\<lparr>v_Caller := v_Caller ev\<rparr> = ev \<Longrightarrow> sound_exception (audit st) e \<Longrightarrow> good_change (audit st) e u"
  shows "keeps (lawful env) (commitLocked (by_caller env k) i raw change)"
proof (rule lawful.commitLocked_keeps)
  fix st e u ev v
  assume e: "stored (by_caller env k) st i = Some e" and w: "map_of (files st) i = Some raw" "change e = Inr (u, ev)"
    "v \<in> set (audit st)" "v\<lparr>v_Caller := v_Caller ev\<rparr> = ev"
  have "lawful env st (st\<lparr>files := AList.update (e_ID u) (marshal env u) (files st)\<rparr>)"
    using e by (intro lawful_write [OF codec, of st i e]) (auto intro: good [OF _ w])
  then show "lawful env st (st\<lparr>files := AList.update (e_ID u) (marshal (by_caller env k) u) (files st)\<rparr>)" by simp
qed

lemma stored_representable: "json_codec env \<Longrightarrow> stored env st i = Some e \<Longrightarrow> representable e"
  by (auto dest!: stored_decode intro: decode_representable)

lemma Status_live:
  "Exception_Status e t = StatePending \<Longrightarrow> e_State e = StatePending" "Exception_Status e t = StateApplied \<Longrightarrow> e_State e = StateApplied"
  "e_State e = StatePending \<or> e_State e = StateApplied \<Longrightarrow> \<not> decided e"
  by (auto simp: Exception_Status_def decided_def state_names split: if_splits)

lemma lawful_apply:
  assumes codec: "json_codec env" and e: "decode env raw = Inr e" and clocks: "c_now c \<le> c_at c" "clock_ok (c_now c)" "clock_ok (c_at c)"
  shows "lawful env st (snd (apply_run (by_caller env k) w c e raw st))"
proof -
  let ?flds = "if c_fields c \<noteq> [] then narrowed_fields (e_Fields e) (c_fields c) else e_Fields e"
  let ?x = "c_now c + Duration e"
  have good: "good_change log e u"
    if change: "apply_change ?flds ?x (c_at c) e = Inr (u, ev)" and v: "v \<in> set log" "v\<lparr>v_Caller := v_Caller ev\<rparr> = ev"
      and s: "sound_exception log e" and sub: "c_fields c \<noteq> [] \<longrightarrow> Subset (c_fields c) (e_Fields e)" for log u ev v
  proof -
    note flds = chosen_fields [OF conjunct1 [OF s [unfolded sound_exception_def]] sub]
    note sound = apply_change_sound [OF change s flds clocks(1) v]
    have "year_ok (c_at c)" "year_ok ?x" using clocks sound(2,3) clock_year(2) [of "c_now c" ?x] clock_year(1) [of "c_at c"] by auto
    then have "representable u"
      using change flds representable_applied [OF decode_representable [OF codec e] flds(2)]
      by (auto simp: apply_change_def Let_def split: if_splits)
    then show ?thesis using change sound(1) Status_live
      by (auto simp: good_change_def apply_change_def Let_def split: if_splits)
  qed
  have "keeps (lawful env) (commitLocked (by_caller env k) (e_ID e) raw (apply_change ?flds ?x (c_at c)))"
    if "c_fields c \<noteq> [] \<longrightarrow> Subset (c_fields c) (e_Fields e)"
    using that by (intro lawful_commit [OF codec]) (metis good read_bytes e)
  then have "keeps (lawful env) (apply_run (by_caller env k) w c e raw)"
    using lawful.refuse lawful.Commit_keeps by (auto simp: apply_run_def Let_def)
  then show ?thesis by (simp add: keeps_def)
qed

lemma lawful_reject:
  assumes codec: "json_codec env" and e: "decode env raw = Inr e" and c: "ValidString (c_reason c)" "clock_ok (c_at c)"
  shows "lawful env st (snd (reject_run (by_caller env k) c e raw st))"
proof -
  have good: "good_change log e u"
    if "reject_change (c_reason c) (c_at c) e = Inr (u, ev)" "sound_exception log e" "Exception_Status e (c_now c) = StatePending" for log u ev
    using that representable_decided(1) [OF decode_representable [OF codec e] valid_states(3) c(1) clock_year(1) [OF c(2)]] Status_live
    by (auto simp: good_change_def reject_change_def Let_def sound_exception_def state_names)
  have "keeps (lawful env) (commitLocked (by_caller env k) (e_ID e) raw (reject_change (c_reason c) (c_at c)))"
    if "Exception_Status e (c_now c) = StatePending"
    using that by (intro lawful_commit [OF codec]) (metis good read_bytes e)
  then have "keeps (lawful env) (reject_run (by_caller env k) c e raw)"
    using lawful.refuse lawful.Commit_keeps by (auto simp: reject_run_def split: sum.splits)
  then show ?thesis by (simp add: keeps_def)
qed

lemma lawful_revoke:
  assumes codec: "json_codec env" and e: "decode env raw = Inr e" and c: "clock_ok (c_at c)"
  shows "lawful env st (snd (revoke_run (by_caller env k) c e raw st))"
proof -
  have good: "good_change log e u"
    if "revoke_change (c_at c) e = Inr (u, ev)" "sound_exception log e" "Exception_Status e (c_now c) = StateApplied" for log u ev
    using that representable_decided(2) [OF decode_representable [OF codec e] valid_states(4) clock_year(1) [OF c]] Status_live
    by (auto simp: good_change_def revoke_change_def Let_def sound_exception_def state_names)
  have "keeps (lawful env) (commitLocked (by_caller env k) (e_ID e) raw (revoke_change (c_at c)))"
    if "Exception_Status e (c_now c) = StateApplied"
    using that by (intro lawful_commit [OF codec]) (metis good read_bytes e)
  then have "keeps (lawful env) (revoke_run (by_caller env k) c e raw)"
    using lawful.refuse lawful.Commit_keeps by (auto simp: revoke_run_def)
  then show ?thesis by (simp add: keeps_def)
qed

lemma granted_flag: "granted log (e\<lparr>e_ExpiryRecorded := b\<rparr>) = granted log e"
  by (simp add: granted_def decides_def)

lemma lawful_end: "json_codec env \<Longrightarrow> keeps (lawful env) (commitLocked (by_caller env k) i raw (end_change now))"
  using Status_live
  by (intro lawful_commit)
     (auto simp: good_change_def end_change_def Let_def sound_exception_def state_names
       intro: representable_decided(3) [OF stored_representable valid_states(5), unfolded state_names] split: if_splits)

lemma lawful_expiry: "json_codec env \<Longrightarrow> keeps (lawful env) (commitLocked (by_caller env k) i raw (expiry_change now))"
  by (intro lawful_commit)
     (auto simp: good_change_def expiry_change_def Let_def sound_exception_def granted_flag representable_decided(4)
       intro: stored_representable)

lemma propose_audited:
  assumes codec: "json_codec env" and e: "proposed_exception (by_caller env k) w q now = Inr e" "representable e" and a: "audited env st"
  shows "audited env (snd (exceptionPropose (by_caller env k) w q now st))"
proof -
  have "audited env st \<longrightarrow> audited env (snd (Propose (by_caller env k) e st))"
    using proposed_sound [OF e(1)] e(2)
    by (intro audited.Propose_keeps) (auto intro: audited_write [OF codec] audited_delete)
  then show ?thesis using a e(1) by (simp add: exceptionPropose_def)
qed

lemma agent_step_lawful:
  assumes codec: "json_codec env" and step: "agent_step env st st'"
  shows "audited env st \<Longrightarrow> audited env st'"
  using step
proof cases
  case (proposes k w q now e)
  then show "audited env st \<Longrightarrow> audited env st'" using propose_audited [OF codec] by simp
next
  case (ends k bound now)
  then show "audited env st \<Longrightarrow> audited env st'"
    using lawful.EndSession_keeps [OF lawful_end [OF codec], of st k bound now] by (simp add: lawful_def)
next
  case (expires k es now)
  then show "audited env st \<Longrightarrow> audited env st'"
    using lawful.RecordExpiries_keeps [OF lawful_expiry [OF codec], of st k es now] by (simp add: lawful_def)
next
  case (records k ev)
  then show "audited env st \<Longrightarrow> audited env st'" using lawful.Record_keeps [of env st] by (simp add: lawful_def)
qed (simp_all add: exceptionApply_def exceptionReject_def exceptionRevoke_def)

lemma xstep_audited:
  assumes codec: "json_codec env" and step: "xstep env st st'"
  shows "audited env st \<Longrightarrow> audited env st'"
  using step
proof cases
  case agent
  then show "audited env st \<Longrightarrow> audited env st'" by (rule agent_step_lawful [OF codec])
next
  case faults
  then show "audited env st \<Longrightarrow> audited env st'" by (simp add: audited_def stored_def)
qed (use lawful_apply [OF codec] lawful_reject [OF codec] lawful_revoke [OF codec] in \<open>auto simp: lawful_def\<close>)

lemma reachable_audited:
  assumes "json_codec env" "reachable env st"
  shows "audited env st"
  using assms(2) unfolding reachable_def
proof (induction rule: rtranclp_induct)
  case base
  show ?case by (simp add: audited_def stored_def fresh_store_def)
qed (rule xstep_audited [OF assms(1)])


section \<open>What an agent can do adds no access\<close>

definition narrows :: "'raw xenv \<Rightarrow> 'raw xstore \<Rightarrow> 'raw xstore \<Rightarrow> bool" where
  "narrows env st st' \<longleftrightarrow>
     (\<forall>i e' t. stored env st' i = Some e' \<and> Active e' t \<longrightarrow>
        (\<exists>e. stored env st i = Some e \<and> Active e t \<and> e\<lparr>e_ExpiryRecorded := e_ExpiryRecorded e'\<rparr> = e'))"

lemma flag_again: "(e::exception)\<lparr>e_ExpiryRecorded := a\<rparr>\<lparr>e_ExpiryRecorded := b\<rparr> = e\<lparr>e_ExpiryRecorded := b\<rparr>"
  by simp

interpretation narrows: store_relation "narrows env" for env
proof unfold_locales
  fix st st' :: "'a xstore"
  assume "grows st st'"
  then have "stored env st' = stored env st" by (simp add: grows_def stored_def fun_eq_iff)
  then show "narrows env st st'" by (auto simp: narrows_def)
next
  fix a b c :: "'a xstore"
  assume ab: "narrows env a b" and bc: "narrows env b c"
  show "narrows env a c" unfolding narrows_def
  proof (intro allI impI)
    fix i e'' t
    assume "stored env c i = Some e'' \<and> Active e'' t"
    then obtain e' where e': "stored env b i = Some e'" "Active e' t" "e'\<lparr>e_ExpiryRecorded := e_ExpiryRecorded e''\<rparr> = e''"
      using bc unfolding narrows_def by blast
    then obtain e where "stored env a i = Some e" "Active e t" "e\<lparr>e_ExpiryRecorded := e_ExpiryRecorded e'\<rparr> = e'"
      using ab unfolding narrows_def by blast
    then show "\<exists>e. stored env a i = Some e \<and> Active e t \<and> e\<lparr>e_ExpiryRecorded := e_ExpiryRecorded e''\<rparr> = e''"
      using e'(3) by (metis flag_again)
  qed
qed

lemma Active_state: "Active e t \<Longrightarrow> e_State e = StateApplied"
  by (simp add: Active_def Status_live)

lemma Active_flag [simp]: "Active (e\<lparr>e_ExpiryRecorded := b\<rparr>) t = Active e t"
  by (simp add: Active_def Exception_Status_def)

lemma narrows_write:
  assumes "json_codec env" "representable u" "files st1 = AList.update (e_ID u) (marshal env u) (files st)"
    "e_State u \<noteq> StateApplied \<or> (\<exists>e b. stored env st (e_ID u) = Some e \<and> u = e\<lparr>e_ExpiryRecorded := b\<rparr>)"
  shows "narrows env st st1"
proof -
  have *: "stored env st1 = stored env (st\<lparr>files := AList.update (e_ID u) (marshal env u) (files st)\<rparr>)"
    using assms(3) by (simp add: stored_def fun_eq_iff)
  show ?thesis unfolding narrows_def *
    using assms(4) stored_update [OF assms(1,2)] Active_state by fastforce
qed

lemma narrows_commit:
  assumes codec: "json_codec env" and change: "\<And>st e u ev. stored env st i = Some e \<Longrightarrow> change e = Inr (u, ev) \<Longrightarrow>
      representable u \<and> (e_State u \<noteq> StateApplied \<or> (\<exists>b. u = e\<lparr>e_ExpiryRecorded := b\<rparr>))"
  shows "keeps (narrows env) (commitLocked (by_caller env k) i raw change)"
proof (rule narrows.commitLocked_keeps)
  fix st e u ev
  assume "stored (by_caller env k) st i = Some e" "change e = Inr (u, ev)"
  then have e: "stored env st i = Some e" "change e = Inr (u, ev)" by simp_all
  have "e_ID e = i" using stored_decode [OF e(1)] by auto
  then show "narrows env st (st\<lparr>files := AList.update (e_ID u) (marshal (by_caller env k) u) (files st)\<rparr>)"
    using change [OF e] e(1) by (intro narrows_write [OF codec, of u]) auto
qed

lemma narrows_end: "json_codec env \<Longrightarrow> keeps (narrows env) (commitLocked (by_caller env k) i raw (end_change now))"
  by (intro narrows_commit)
     (auto simp: end_change_def Let_def state_names
       intro: representable_decided(3) [OF stored_representable valid_states(5), unfolded state_names] split: if_splits)

lemma narrows_expiry: "json_codec env \<Longrightarrow> keeps (narrows env) (commitLocked (by_caller env k) i raw (expiry_change now))"
  by (intro narrows_commit) (auto simp: expiry_change_def Let_def representable_decided(4) intro: stored_representable)

lemma narrows_propose:
  assumes codec: "json_codec env" and e: "proposed_exception (by_caller env k) w q now = Inr e" "representable e"
  shows "narrows env st (snd (exceptionPropose (by_caller env k) w q now st))"
proof -
  have "narrows env st (snd (Propose (by_caller env k) e st))"
    using proposed_sound [OF e(1)] e(2) narrows_write [OF codec e(2), of _ st]
    by (intro narrows.Propose_keeps)
       (auto simp: state_names narrows_def stored_def AList.delete_conv' AList.update_conv' split: if_splits)
  then show ?thesis using e(1) by (simp add: exceptionPropose_def)
qed

end
