(* ===== verification/Exceptions_Runs.thy ===== *)
theory Exceptions_Runs
  imports Exceptions_System
begin

text \<open>
  What the operations compute when no file-system step fails, the exact effect of ending a
  session, and the exact effect of the overlay on the rule sets and the roles of a policy
  document.
\<close>


section \<open>Runs without a failing file-system step\<close>

lemma quiet_io [simp]: "outcomes st = [] \<Longrightarrow> next_io st = (Done, st)"
  by (simp add: next_io_def)

lemma quiet_io_step [simp]: "outcomes st = [] \<Longrightarrow> io_step err st = (Inr (), st)"
  by (simp add: io_step_def)

lemma quiet_lock [simp]: "outcomes st = [] \<Longrightarrow> lock st = (Inr (), st)"
  by (simp add: lock_def xbind_def)

lemma quiet_read [simp]: "outcomes st = [] \<Longrightarrow> readFile i st = (Inr (map_of (files st) i), st)"
  by (simp add: readFile_def)

lemma quiet_write [simp]:
  "outcomes st = [] \<Longrightarrow> write_exception env e st = (Inr (), st\<lparr>files := AList.update (e_ID e) (marshal env e) (files st)\<rparr>)"
  by (simp add: write_exception_def xbind_def)

definition logged :: "'raw xenv \<Rightarrow> audit_record \<Rightarrow> audit_record" where
  "logged env ev = (if v_Caller ev = None then ev\<lparr>v_Caller := store_Caller env\<rparr> else ev)"

lemma quiet_append [simp]:
  "outcomes st = [] \<Longrightarrow> appendAudit env ev st = (Inr (), st\<lparr>audit := audit st @ [logged env ev]\<rparr>)"
  by (simp add: appendAudit_def logged_def Let_def)

lemma stored_ValidID: "stored env st i = Some e \<Longrightarrow> ValidID i"
  by (auto dest!: stored_decode decode_well_stored simp: well_stored_def)

lemma quiet_Get:
  assumes "outcomes st = []"
  shows "case stored env st i of
    Some e \<Rightarrow> \<exists>raw. map_of (files st) i = Some raw \<and> decode env raw = Inr e \<and> Get env i st = (Inr (e, raw), st)
  | None \<Rightarrow> \<exists>err. Get env i st = (Inl err, st)"
  using assms stored_ValidID [of env st i]
  by (auto simp: Get_def xbind_def xfail_def xok_def stored_def split: option.splits sum.splits if_splits)

lemma quiet_read_all:
  assumes "outcomes st = []"
  shows "snd (read_all env is es bad st) = st \<and>
    set (fst (fst (read_all env is es bad st))) = set es \<union> {e. \<exists>i \<in> set is. stored env st i = Some e}"
proof (induction "is" arbitrary: es bad)
  case (Cons i "is")
  show ?case
  proof (cases "stored env st i")
    case None
    then obtain err where "Get env i st = (Inl err, st)" using quiet_Get [OF assms, of env i] by auto
    then show ?thesis using None Cons.IH [of es "bad @ [i @ ''.json'']"] by simp
  next
    case (Some e)
    then obtain raw where "Get env i st = (Inr (e, raw), st)" using quiet_Get [OF assms, of env i] by auto
    then show ?thesis using Some Cons.IH [of "es @ [e]" bad] by auto
  qed
qed simp

lemma quiet_List:
  assumes "outcomes st = []"
  obtains es bad where "List_exceptions env st = (Inr (es, bad), st)"
    "set es = {e. \<exists>i. stored env st i = Some e}"
proof -
  let ?r = "read_all env (sort_key (\<lambda>i. i @ ''.json'') (map fst (files st))) [] [] st"
  have known: "stored env st i = Some e \<Longrightarrow> i \<in> set (map fst (files st))" for i e
    using stored_decode [of env st i e] by (force dest: map_of_SomeD)
  have known_all: "{e. \<exists>x \<in> set (files st). stored env st (fst x) = Some e} = {e. \<exists>i. stored env st i = Some e}"
    using known unfolding set_map by blast
  show thesis
  proof (rule that)
    show "List_exceptions env st = (Inr (sort_key e_ProposedAt (fst (fst ?r)), snd (fst ?r)), st)"
      using assms quiet_read_all [OF assms, of env "sort_key (\<lambda>i. i @ ''.json'') (map fst (files st))" "[]" "[]"]
      by (cases ?r) (auto simp: List_exceptions_def)
    show "set (sort_key e_ProposedAt (fst (fst ?r))) = {e. \<exists>i. stored env st i = Some e}"
      using quiet_read_all [OF assms, of env "sort_key (\<lambda>i. i @ ''.json'') (map fst (files st))" "[]" "[]"]
      by (simp add: known_all)
  qed
qed


section \<open>Ending a session\<close>

definition to_end :: "session_binding \<Rightarrow> time \<Rightarrow> exception \<Rightarrow> bool" where
  "to_end bound now e \<longleftrightarrow> IsSession e \<and> e_BoundSession e = Some bound \<and>
     (Exception_Status e now = StatePending \<or> Exception_Status e now = StateApplied)"

definition end_one :: "session_binding \<Rightarrow> time \<Rightarrow> exception \<Rightarrow> exception" where
  "end_one bound now e = (if to_end bound now e then e\<lparr>e_State := StateEnded\<rparr> else e)"

lemma end_one_simps [simp]:
  "e_ID (end_one bound now e) = e_ID e" "IsSession (end_one bound now e) = IsSession e"
  "e_BoundSession (end_one bound now e) = e_BoundSession e" "\<not> to_end bound now (end_one bound now e)"
  by (auto simp: end_one_def IsSession_def to_end_def Exception_Status_def state_names)

lemma end_one_again [simp]: "end_one bound now (end_one bound now e) = end_one bound now e"
  by (simp add: end_one_def [of _ _ "end_one bound now e"])

lemma quiet_end_one:
  fixes now :: time
  assumes codec: "json_codec env" and quiet: "outcomes st = []" and e: "stored env st i = Some e"
    and bound: "IsSession e" "e_BoundSession e = Some bound"
  defines "m \<equiv> xbind (Get env i) (\<lambda>(_, raw). commitLocked env i raw (end_change now)) st"
  shows "fst m = (if to_end bound now e then Inr () else Inl NotLive)"
    "outcomes (snd m) = []" "stored env (snd m) j = (if j = i then Some (end_one bound now e) else stored env st j)"
proof -
  obtain raw where raw: "decode env raw = Inr e" "Get env i st = (Inr (e, raw), st)"
    using quiet_Get [OF quiet, of env i] e by auto
  have i: "e_ID e = i" using stored_decode [OF e] by auto
  have u: "representable (e\<lparr>e_State := StateEnded\<rparr>)" "well_stored (e\<lparr>e_State := StateEnded\<rparr>)"
    using representable_decided(3) [OF stored_representable [OF codec e] valid_states(5)] decode_well_stored [OF raw(1)]
    by (auto simp: well_stored_def)
  have m: "m = (if to_end bound now e
      then (Inr (), st\<lparr>audit := audit st @ [logged env (NewEvent ''ended'' (e\<lparr>e_State := StateEnded\<rparr>) [] now)],
              files := AList.update i (marshal env (e\<lparr>e_State := StateEnded\<rparr>)) (files st)\<rparr>)
      else (Inl NotLive, st))"
    using raw(2) quiet bound i
    by (simp add: m_def xbind_def commitLocked_def end_change_def to_end_def Let_def xfail_def)
  show "fst m = (if to_end bound now e then Inr () else Inl NotLive)" "outcomes (snd m) = []"
    using quiet by (simp_all add: m)
  show "stored env (snd m) j = (if j = i then Some (end_one bound now e) else stored env st j)"
    using stored_update_same [OF codec u, of "st\<lparr>audit := x\<rparr>" j for x] i e
    by (auto simp: m end_one_def stored_def)
qed

definition session_listed :: "'raw xenv \<Rightarrow> 'raw xstore \<Rightarrow> exception list \<Rightarrow> bool" where
  "session_listed env st es \<longleftrightarrow> (\<forall>e \<in> set es. \<exists>cur. stored env st (e_ID e) = Some cur \<and>
     IsSession cur = IsSession e \<and> e_BoundSession cur = e_BoundSession e)"

definition ends_exactly :: "'raw xenv \<Rightarrow> session_binding \<Rightarrow> time \<Rightarrow> string set \<Rightarrow> 'raw xstore \<Rightarrow> string list \<Rightarrow> 'raw xstore \<Rightarrow> string list \<Rightarrow> bool" where
  "ends_exactly env bound now is st ended st' ids \<longleftrightarrow>
     (\<forall>i. i \<in> set ids \<longleftrightarrow> i \<in> set ended \<or> (i \<in> is \<and> (\<exists>e. stored env st i = Some e \<and> to_end bound now e))) \<and>
     (\<forall>i. stored env st' i = (if i \<in> is then map_option (end_one bound now) (stored env st i) else stored env st i))"

lemma ends_exactly_skip:
  assumes "ends_exactly env bound now is st ended st' ids" "stored env st i = Some e" "\<not> to_end bound now e"
  shows "ends_exactly env bound now (insert i is) st ended st' ids"
  using assms by (auto simp: ends_exactly_def end_one_def)

lemma ends_exactly_step:
  assumes "ends_exactly env bound now is st1 ended1 st' ids" "stored env st i = Some e"
    "\<And>j. stored env st1 j = (if j = i then Some (end_one bound now e) else stored env st j)"
    "set ended1 = set ended \<union> {j. j = i \<and> to_end bound now e}"
  shows "ends_exactly env bound now (insert i is) st ended st' ids"
  unfolding ends_exactly_def
proof (intro conjI allI)
  fix j
  show "stored env st' j = (if j \<in> insert i is then map_option (end_one bound now) (stored env st j) else stored env st j)"
    using assms(1-3) by (cases "j = i") (auto simp: ends_exactly_def)
  show "(j \<in> set ids) = (j \<in> set ended \<or> j \<in> insert i is \<and> (\<exists>e. stored env st j = Some e \<and> to_end bound now e))"
    using assms by (cases "j = i") (auto simp: ends_exactly_def)
qed

lemma quiet_end_all:
  assumes codec: "json_codec env"
  shows "outcomes st = [] \<Longrightarrow> session_listed env st es \<Longrightarrow>
    \<exists>ids st'. end_all env bound now es ended st = ((ids, None), st') \<and> ends_exactly env bound now (e_ID ` set es) st ended st' ids"
proof (induction es arbitrary: ended st)
  case (Cons e es)
  let ?i = "e_ID e"
  obtain cur where cur: "stored env st ?i = Some cur" "IsSession cur = IsSession e" "e_BoundSession cur = e_BoundSession e"
    using Cons.prems(2) by (auto simp: session_listed_def)
  show ?case
  proof (cases "IsSession e \<and> e_BoundSession e = Some bound")
    case False
    then have "\<not> to_end bound now cur" using cur by (auto simp: to_end_def)
    moreover obtain ids st' where "end_all env bound now es ended st = ((ids, None), st')" "ends_exactly env bound now (e_ID ` set es) st ended st' ids"
      using Cons.IH [OF Cons.prems(1), of ended] Cons.prems(2) by (auto simp: session_listed_def)
    ultimately show ?thesis using False ends_exactly_skip [OF _ cur(1)] by auto
  next
    case True
    let ?m = "xbind (Get env ?i) (\<lambda>(_, raw). commitLocked env ?i raw (end_change now)) st"
    let ?ended = "if to_end bound now cur then ended @ [?i] else ended"
    have b: "IsSession cur" "e_BoundSession cur = Some bound" using cur True by auto
    note m = quiet_end_one [OF codec Cons.prems(1) cur(1) b, of now]
    have "session_listed env (snd ?m) es"
      using Cons.prems(2) cur unfolding session_listed_def m(3) by auto
    then obtain ids st' where rest: "end_all env bound now es ?ended (snd ?m) = ((ids, None), st')"
      "ends_exactly env bound now (e_ID ` set es) (snd ?m) ?ended st' ids"
      using Cons.IH [OF m(2), of ?ended] by auto
    have "end_all env bound now (e # es) ended st = ((ids, None), st')"
      using True m(1) rest(1) by (cases ?m) (auto split: if_splits)
    moreover have "ends_exactly env bound now (insert ?i (e_ID ` set es)) st ended st' ids"
      by (rule ends_exactly_step [OF rest(2) cur(1) m(3)]) auto
    ultimately show ?thesis by auto
  qed
qed (simp add: ends_exactly_def)

section \<open>The overlay\<close>

definition role_sets :: "(string \<times> string list) list \<Rightarrow> string \<Rightarrow> string list" where
  "role_sets roles role = (case map_of roles role of None \<Rightarrow> [] | Some names \<Rightarrow> names)"

lemma role_sets_bind: "role_sets (bind_role role name roles) r = role_sets roles r @ (if r = role then [name] else [])"
  by (auto simp: role_sets_def bind_role_def AList.update_conv' split: option.splits)

text \<open>The exceptions the overlay adds: the first of each rule id that the document does not have.\<close>

fun fresh_rules :: "exception list \<Rightarrow> string set \<Rightarrow> exception list" where
  "fresh_rules [] taken = []"
| "fresh_rules (e # es) taken =
     (if RuleID e \<in> taken then fresh_rules es taken else e # fresh_rules es (insert (RuleID e) taken))"

lemma fresh_rules_sub: "e \<in> set (fresh_rules es taken) \<Longrightarrow> e \<in> set es \<and> RuleID e \<notin> taken"
  by (induction es taken rule: fresh_rules.induct) (auto split: if_splits)

lemma fresh_rules_all: "RuleID ` set (fresh_rules es taken) = RuleID ` set es - taken"
  by (induction es taken rule: fresh_rules.induct) auto

lemma fresh_rules_distinct: "distinct (map RuleID (fresh_rules es taken))"
  by (induction es taken rule: fresh_rules.induct) (auto dest: fresh_rules_sub)

lemma overlay_rules_fresh:
  "overlay_rules es rule_sets roles applied = (rule_sets', roles', applied') \<Longrightarrow>
     (let added = fresh_rules es (dom (map_of rule_sets)) in
      applied' = applied @ map e_ID added \<and>
      (\<forall>name. map_of rule_sets' name = (case find (\<lambda>e. RuleID e = name) added of
         Some e \<Rightarrow> Some (exception_rule e) | None \<Rightarrow> map_of rule_sets name)) \<and>
      (\<forall>role. role_sets roles' role = role_sets roles role @ map RuleID (filter (\<lambda>e. e_Role e = role) added)))"
proof (induction es rule_sets roles applied rule: overlay_rules.induct)
  case (2 e es rule_sets roles applied)
  show ?case
  proof (cases "map_of rule_sets (RuleID e) = None")
    case False
    then show ?thesis using 2(1,3) by (auto simp: domIff)
  next
    case True
    let ?rs = "AList.update (RuleID e) (exception_rule e) rule_sets"
    let ?added = "fresh_rules es (insert (RuleID e) (dom (map_of rule_sets)))"
    have dom: "dom (map_of ?rs) = insert (RuleID e) (dom (map_of rule_sets))" by (simp add: AList.update_conv')
    have later: "find (\<lambda>x. RuleID x = RuleID e) ?added = None"
      by (auto simp: find_None_iff dest: fresh_rules_sub)
    have run: "overlay_rules es ?rs (bind_role (e_Role e) (RuleID e) roles) (applied @ [e_ID e]) = (rule_sets', roles', applied')"
      using 2(3) True by simp
    have IH: "applied' = (applied @ [e_ID e]) @ map e_ID ?added"
      "\<And>name. map_of rule_sets' name = (case find (\<lambda>e. RuleID e = name) ?added of
         Some e \<Rightarrow> Some (exception_rule e) | None \<Rightarrow> map_of ?rs name)"
      "\<And>role. role_sets roles' role =
        role_sets (bind_role (e_Role e) (RuleID e) roles) role @ map RuleID (filter (\<lambda>e. e_Role e = role) ?added)"
      using 2(2) [OF _ run] True unfolding dom Let_def by blast+
    have added: "fresh_rules (e # es) (dom (map_of rule_sets)) = e # ?added" using True by (simp add: domIff)
    show ?thesis unfolding Let_def added
    proof (intro conjI allI)
      show "applied' = applied @ map e_ID (e # ?added)" using IH(1) by simp
      show "map_of rule_sets' name = (case find (\<lambda>e. RuleID e = name) (e # ?added) of
         Some e \<Rightarrow> Some (exception_rule e) | None \<Rightarrow> map_of rule_sets name)" for name
        using IH(2) [of name] later by (auto simp: AList.update_conv' split: option.splits)
      show "role_sets roles' role = role_sets roles role @ map RuleID (filter (\<lambda>e. e_Role e = role) (e # ?added))" for role
        using IH(3) [of role] by (auto simp: role_sets_bind)
    qed
  qed
qed simp

lemma read_all_stored:
  "e \<in> set (fst (fst (read_all env is es bad st))) \<Longrightarrow> e \<in> set es \<or> (\<exists>i. stored env st i = Some e)"
proof (induction "is" arbitrary: es bad st)
  case (Cons i "is")
  obtain r st1 where get: "Get env i st = (r, st1)" by fastforce
  have same: "stored env st1 = stored env st"
    using grows_Get [of st env i] get by (simp add: grows_def stored_def fun_eq_iff)
  show ?case
  proof (cases r)
    case (Inl err)
    then show ?thesis using Cons.IH [of es _ st1] Cons.prems get by (simp add: same)
  next
    case (Inr x)
    then obtain x1 raw where x: "r = Inr (x1, raw)" by (cases x) auto
    then show ?thesis using Cons.IH [of "es @ [x1]" bad st1] Cons.prems get Get_stored [of env i st x1 raw st1]
      by (auto simp: same)
  qed
qed simp

lemma List_stored:
  assumes "List_exceptions env st = (Inr (es, bad), st1)" "e \<in> set es"
  shows "\<exists>i. stored env st i = Some e"
proof -
  obtain r st0 where io: "next_io st = (r, st0)" by fastforce
  have "stored env st0 = stored env st" using grows_next_io [OF io] by (simp add: grows_def stored_def fun_eq_iff)
  moreover have "e \<in> set (fst (fst (read_all env (sort_key (\<lambda>i. i @ ''.json'') (map fst (files st0))) [] [] st0)))"
    using assms io by (auto simp: List_exceptions_def split: io.splits prod.splits)
  ultimately show ?thesis using read_all_stored by fastforce
qed

lemma Overlay_cases:
  assumes "Overlay codec data b es now = Inr (out, applied)"
  shows "(out = data \<and> applied = []) \<or>
    (\<exists>doc roles doc' roles' added. codec_decode codec data = Some doc \<and> Roles doc = Some roles \<and>
       codec_encode codec doc' = Some out \<and> Roles doc' = Some roles' \<and> document_rest doc' = document_rest doc \<and>
       applied = map e_ID added \<and> added = fresh_rules (filter (overlaid codec data b now) es) (dom (map_of (RuleSets doc))) \<and>
       (\<forall>name. map_of (RuleSets doc') name = (case find (\<lambda>e. RuleID e = name) added of
          Some e \<Rightarrow> Some (exception_rule e) | None \<Rightarrow> map_of (RuleSets doc) name)) \<and>
       (\<forall>role. role_sets roles' role = role_sets roles role @ map RuleID (filter (\<lambda>e. e_Role e = role) added)))"
proof (cases "out = data \<and> applied = []")
  case False
  let ?es = "filter (overlaid codec data b now) es"
  obtain doc roles where doc: "codec_decode codec data = Some doc" "Roles doc = Some roles" "?es \<noteq> []" "RuleSets doc \<noteq> []"
    using assms False by (auto simp: Overlay_def Let_def split: if_splits option.splits)
  obtain rule_sets' roles' applied' where run: "overlay_rules ?es (RuleSets doc) roles [] = (rule_sets', roles', applied')"
    by (metis prod_cases3)
  let ?doc' = "doc\<lparr>RuleSets := rule_sets', Roles := Some roles'\<rparr>"
  have "codec_encode codec ?doc' = Some out" "applied = applied'"
    using assms doc run by (auto simp: Overlay_def Let_def split: option.splits)
  then show ?thesis using doc overlay_rules_fresh [OF run]
    by (intro disjI2 exI [of _ doc] exI [of _ roles] exI [of _ ?doc'] exI [of _ roles']) (simp add: Let_def)
qed simp

end
