(* ===== verification/Exceptions_Properties.thy ===== *)
theory Exceptions_Properties
  imports Exceptions_Runs
begin

text \<open>
  The properties of local policy exceptions: what is in force was decided by the person
  and audited, an agent adds no access, decisions stand, ending a session ends exactly its
  live exceptions, a commit audits before it writes, and the overlay adds exactly the
  rules of the exceptions that apply.
\<close>


section \<open>A concrete store\<close>

text \<open>
  JSON as the identity on representable exceptions, a project with one source, one table
  and one policy, a proposal for one field of it, and the person's two commands on it.
\<close>

definition demo_env :: "exception xenv" where
  "demo_env = \<lparr>marshal = (\<lambda>e. e), unmarshal = (\<lambda>e. if representable e then Some e else None), store_Caller = None\<rparr>"

definition demo_world :: world where
  "demo_world = \<lparr>w_project = Inr ''p'', w_env = Inr ''local'', w_url = Inr ''db'', w_tables = Inr [''Employee''],
     w_columns = (\<lambda>_. Inr [''Id'', ''Title'']),
     w_policies = Some [\<lparr>pe_file = ''a.yaml'', pe_base = ''a'', pe_policy = True, pe_data = Some ''policy'', pe_name = Some ''a''\<rparr>],
     w_role_free = (\<lambda>_ _ _. Inr ()), w_id = Inr ''0123456789abcdef'', EqualFold = (=), sha256 = (\<lambda>s. s)\<rparr>"

definition demo_proposal :: proposal where
  "demo_proposal = \<lparr>q_source = ''db'', q_policy = [], q_table = ''Employee'', q_fields = [''Id'', ''Title''], q_role = ''agent'',
     q_duration = Hour, q_reason = ''list'', q_lifetime = []\<rparr>"

definition demo_input :: "time \<Rightarrow> decision_input" where
  "demo_input t = \<lparr>c_id = ''0123456789abcdef'', c_terminal = True, c_common = Inr (), c_now = t, c_at = t, c_fields_changed = True,
     c_fields = [''Id''], c_policies = w_policies demo_world, c_line = ''Employee'', c_reason = []\<rparr>"

definition proposed_store :: "exception xstore" where
  "proposed_store = snd (exceptionPropose demo_env demo_world demo_proposal 0 fresh_store)"

definition demo_exception :: exception where
  "demo_exception = (case proposed_exception demo_env demo_world demo_proposal 0 of Inr e \<Rightarrow> e | Inl _ \<Rightarrow> undefined)"

definition applied_store :: "exception xstore" where
  "applied_store = snd (apply_run demo_env demo_world (demo_input Minute) demo_exception demo_exception proposed_store)"

definition rejected_store :: "exception xstore" where
  "rejected_store = snd (reject_run demo_env (demo_input Minute) demo_exception demo_exception proposed_store)"

lemma demo_codec: "json_codec demo_env"
  by (simp add: json_codec_def demo_env_def)

lemma demo_caller: "by_caller demo_env None = demo_env"
  by (simp add: demo_env_def)

lemma demo_proposed: "proposed_exception demo_env demo_world demo_proposal 0 = Inr demo_exception" "representable demo_exception"
  "decode demo_env demo_exception = Inr demo_exception"
  by code_simp+

lemma demo_reachable: "reachable demo_env proposed_store" "reachable demo_env applied_store" "reachable demo_env rejected_store"
proof -
  have "xstep demo_env fresh_store proposed_store"
    using agent_step.proposes [where env = demo_env and k = None and st = fresh_store, OF _ demo_proposed(2)] demo_proposed(1)
    by (auto simp: proposed_store_def demo_caller intro: xstep.agent)
  then show p: "reachable demo_env proposed_store" by (simp add: reachable_def)
  have "xstep demo_env proposed_store applied_store" "xstep demo_env proposed_store rejected_store"
    using xstep.applies [OF demo_proposed(3), where c = "demo_input Minute" and st = proposed_store and k = None and w = demo_world]
      xstep.rejects [OF demo_proposed(3), where c = "demo_input Minute" and st = proposed_store and k = None]
    by (simp_all add: applied_store_def rejected_store_def demo_caller demo_input_def clock_ok_def Minute_def Second_def Hour_def)
  then show "reachable demo_env applied_store" "reachable demo_env rejected_store"
    using p by (auto simp: reachable_def)
qed



section \<open>Properties\<close>

text \<open>
  C20: in every store the commands can reach, whatever their order and their failures, an
  exception that is in force at a time was decided: the log holds an applied or narrowed
  event with its scope, its fields and its expiry; its fields are among the proposed ones and not empty;
  and it ends after that time and at most eight hours after the decision.
\<close>

theorem exception_in_force_audited:
  assumes "json_codec env" "reachable env st" "stored env st i = Some e" "Active e t"
  shows "(\<exists>v \<in> set (audit st). decides v e) \<and> e_AppliedFields e \<noteq> [] \<and> set (e_AppliedFields e) \<subseteq> set (e_Fields e) \<and>
    (\<exists>d x. e_DecidedAt e = Some d \<and> e_ExpiresAt e = Some x \<and> t < x \<and> x \<le> d + MaxDuration)"
proof -
  have "granted (audit st) e"
    using reachable_audited [OF assms(1,2)] assms(3) Active_state [OF assms(4)] by (simp add: audited_def sound_exception_def)
  moreover have "e_ExpiresAt e = Some x \<Longrightarrow> t < x" for x
    using assms(4) by (auto simp: Active_def Exception_Status_def state_names split: if_splits)
  ultimately show ?thesis by (auto simp: granted_def)
qed

lemma applied_demo: "map_option (\<lambda>e. (e_AppliedFields e, e_ExpiresAt e, Active e (30 * Minute), Active e (61 * Minute)))
    (stored demo_env applied_store ''0123456789abcdef'') = Some ([''Id''], Some (Minute + Hour), True, False)"
  by code_simp

theorem exception_in_force_audited_witness:
  "\<exists>e v. stored demo_env applied_store ''0123456789abcdef'' = Some e \<and> v \<in> set (audit applied_store) \<and> decides v e"
proof -
  obtain e where e: "stored demo_env applied_store ''0123456789abcdef'' = Some e" "Active e (30 * Minute)"
    using applied_demo by (auto simp: map_option_case split: option.splits)
  show ?thesis using exception_in_force_audited [OF demo_codec demo_reachable(2) e] e(1) by blast
qed

text \<open>
  C21: what can run without the person's terminal (proposing, ending a session, recording
  expiries and events, and the person's commands refused for want of a terminal) adds no
  access: an exception in force afterwards at any time is, but for its expiry mark, one
  that was in force before.
\<close>

theorem agent_never_widens:
  assumes "json_codec env" "agent_step env st st'" "stored env st' i = Some e'" "Active e' t"
  shows "\<exists>e. stored env st i = Some e \<and> Active e t \<and> e\<lparr>e_ExpiryRecorded := e_ExpiryRecorded e'\<rparr> = e'"
proof -
  have "narrows env st st'" using assms(2)
  proof cases
    case (proposes k w q now e)
    then show ?thesis using narrows_propose [OF assms(1)] by simp
  next
    case (ends k bound now)
    then show ?thesis using narrows.EndSession_keeps [OF narrows_end [OF assms(1)]] by simp
  next
    case (expires k es now)
    then show ?thesis using narrows.RecordExpiries_keeps [OF narrows_expiry [OF assms(1)]] by simp
  next
    case (records k ev)
    then show ?thesis using narrows.Record_keeps by simp
  qed (auto simp: exceptionApply_def exceptionReject_def exceptionRevoke_def narrows_def)
  then show ?thesis using assms(3,4) unfolding narrows_def by blast
qed

theorem agent_never_widens_witness:
  "\<exists>e'. stored demo_env (snd (EndSession demo_env \<lparr>sb_Harness = ''h'', sb_Session = ''s''\<rparr> Minute applied_store)) ''0123456789abcdef'' = Some e' \<and>
     (\<exists>e. stored demo_env applied_store ''0123456789abcdef'' = Some e \<and> e\<lparr>e_ExpiryRecorded := e_ExpiryRecorded e'\<rparr> = e')"
proof -
  let ?st = "snd (EndSession demo_env \<lparr>sb_Harness = ''h'', sb_Session = ''s''\<rparr> Minute applied_store)"
  have "map_option (\<lambda>e. Active e (30 * Minute)) (stored demo_env ?st ''0123456789abcdef'') = Some True" by code_simp
  then obtain e' where e': "stored demo_env ?st ''0123456789abcdef'' = Some e'" "Active e' (30 * Minute)"
    by (auto simp: map_option_case split: option.splits)
  have "agent_step demo_env applied_store ?st"
    using agent_step.ends [where env = demo_env and k = None and st = applied_store] by (simp add: demo_caller)
  from agent_never_widens [OF demo_codec this e'] e'(1) show ?thesis by blast
qed

text \<open>What a proposal does when its reads succeed: a taken id is refused.\<close>

lemma quiet_propose_stands:
  assumes codec: "json_codec env" and e: "proposed_exception (by_caller env k) w q now = Inr e" "representable e" and quiet: "outcomes st = []"
  shows "decisions_stand env st (snd (exceptionPropose (by_caller env k) w q now st))"
proof (cases "map_of (files st) (e_ID e)")
  case None
  have f: "files (snd (exceptionPropose (by_caller env k) w q now st)) = AList.update (e_ID e) (marshal env e) (files st)"
    using e(1) None quiet by (simp add: exceptionPropose_def Propose_def xbind_def)
  show ?thesis unfolding decisions_stand_def
  proof (intro allI impI)
    fix i x
    assume x: "stored env st i = Some x \<and> decided x"
    then have "i \<noteq> e_ID e" using None by (auto simp: stored_def)
    then have "stored env (snd (exceptionPropose (by_caller env k) w q now st)) i = stored env st i"
      using f by (simp add: stored_def AList.update_conv')
    then show "\<exists>e'. stored env (snd (exceptionPropose (by_caller env k) w q now st)) i = Some e' \<and> e_State e' = e_State x"
      using x by simp
  qed
next
  case (Some raw)
  then show ?thesis using e(1) quiet
    by (simp add: exceptionPropose_def Propose_def xbind_def decisions_stand_def)
qed

lemma quiet_step_stands:
  assumes codec: "json_codec env" and step: "xstep env st st'" and quiet: "outcomes st = []" and a: "audited env st"
  shows "decisions_stand env st st'"
  using step
proof cases
  case agent
  then show ?thesis
  proof cases
    case (proposes k w q now e)
    then show ?thesis using quiet_propose_stands [OF codec _ _ quiet] by simp
  next
    case (ends k bound now)
    then show ?thesis using lawful.EndSession_keeps [OF lawful_end [OF codec], of st k bound now] a by (simp add: lawful_def)
  next
    case (expires k es now)
    then show ?thesis using lawful.RecordExpiries_keeps [OF lawful_expiry [OF codec], of st k es now] a by (simp add: lawful_def)
  next
    case (records k ev)
    then show ?thesis using lawful.Record_keeps [of env st] a by (simp add: lawful_def)
  qed (auto simp: exceptionApply_def exceptionReject_def exceptionRevoke_def decisions_stand_def)
next
  case faults
  then show ?thesis by (simp add: decisions_stand_def stored_def)
qed (use lawful_apply [OF codec] lawful_reject [OF codec] lawful_revoke [OF codec] a in \<open>auto simp: lawful_def\<close>)

text \<open>
  C22: a rejected, revoked or ended exception stays so for good: along any sequence of
  commands that starts from a reachable store and whose file-system steps succeed, it keeps
  that state and is never in force again.
\<close>

theorem decision_is_final:
  assumes codec: "json_codec env" and st: "reachable env st"
    and steps: "(\<lambda>a b. xstep env a b \<and> outcomes a = [])\<^sup>*\<^sup>* st st'" and e: "stored env st i = Some e" "decided e"
  shows "\<exists>e'. stored env st' i = Some e' \<and> e_State e' = e_State e \<and> \<not> Active e' t"
proof -
  have "reachable env st' \<and> decisions_stand env st st'" using steps
  proof (induction rule: rtranclp_induct)
    case base
    show ?case using st by (auto simp: decisions_stand_def)
  next
    case (step b c)
    then have "decisions_stand env b c" using quiet_step_stands [OF codec] reachable_audited [OF codec] by blast
    then show ?case using step by (auto simp: reachable_def intro: decisions_stand_trans)
  qed
  then obtain e' where "stored env st' i = Some e'" "e_State e' = e_State e" using e by (auto simp: decisions_stand_def)
  moreover have "\<not> Active e' t" using e(2) calculation(2) Active_state [of e' t] by (auto simp: decided_def state_names)
  ultimately show ?thesis by blast
qed

theorem decision_is_final_witness:
  "\<exists>e'. stored demo_env (snd (exceptionPropose demo_env demo_world demo_proposal Hour rejected_store)) ''0123456789abcdef'' = Some e' \<and>
     e_State e' = StateRejected \<and> \<not> Active e' 0"
proof -
  let ?st = "snd (exceptionPropose demo_env demo_world demo_proposal Hour rejected_store)"
  have "map_option e_State (stored demo_env rejected_store ''0123456789abcdef'') = Some StateRejected" by code_simp
  then obtain e where e: "stored demo_env rejected_store ''0123456789abcdef'' = Some e" "e_State e = StateRejected"
    by (auto simp: map_option_case split: option.splits)
  have again: "(case proposed_exception demo_env demo_world demo_proposal Hour of Inr x \<Rightarrow> representable x | Inl _ \<Rightarrow> False)"
    "outcomes rejected_store = []"
    by code_simp+
  then obtain x where "proposed_exception demo_env demo_world demo_proposal Hour = Inr x" "representable x" by (auto split: sum.splits)
  then have "xstep demo_env rejected_store ?st"
    using agent_step.proposes [where env = demo_env and k = None and st = rejected_store and w = demo_world and q = demo_proposal and now = Hour]
    by (auto simp: demo_caller intro: xstep.agent)
  then have steps: "(\<lambda>a b. xstep demo_env a b \<and> outcomes a = [])\<^sup>*\<^sup>* rejected_store ?st" using again(2) by blast
  have "decided e" using e(2) by (simp add: decided_def)
  from decision_is_final [OF demo_codec demo_reachable(3) steps e(1) this, of 0] e(2) show ?thesis by simp
qed

text \<open>
  When its file-system steps succeed, ending a session ends exactly the pending and
  applied exceptions bound to that harness session, names their ids, and changes nothing
  else that is stored; it does not fail.
\<close>

theorem end_session_exact:
  assumes codec: "json_codec env" and quiet: "outcomes st = []"
  shows "\<exists>ids st'. EndSession env bound now st = ((ids, None), st') \<and>
    (\<forall>i. i \<in> set ids \<longleftrightarrow> (\<exists>e. stored env st i = Some e \<and> to_end bound now e)) \<and>
    (\<forall>i. stored env st' i = map_option (end_one bound now) (stored env st i))"
proof -
  obtain es bad where es: "List_exceptions env st = (Inr (es, bad), st)" "set es = {e. \<exists>i. stored env st i = Some e}"
    using quiet_List [OF quiet] .
  have at: "stored env st i = Some e \<Longrightarrow> e_ID e = i" for i e using stored_decode by blast
  have ids: "e_ID ` set es = {i. \<exists>e. stored env st i = Some e}" using at es(2) by force
  have "session_listed env st es" using at es(2) by (fastforce simp: session_listed_def)
  then obtain ids st' where run: "end_all env bound now es [] st = ((ids, None), st')"
    "ends_exactly env bound now (e_ID ` set es) st [] st' ids"
    using quiet_end_all [OF codec quiet] by blast
  have "EndSession env bound now st = ((ids, None), st')"
    using quiet es(1) run(1) by (simp add: EndSession_def xbind_def)
  moreover have "stored env st' i = map_option (end_one bound now) (stored env st i)" for i
    using run(2) by (cases "stored env st i") (auto simp: ends_exactly_def ids)
  ultimately show ?thesis using run(2) by (auto simp: ends_exactly_def ids)
qed

theorem end_session_exact_witness:
  "\<exists>ids st'. EndSession demo_env \<lparr>sb_Harness = ''h'', sb_Session = ''s''\<rparr> Minute applied_store = ((ids, None), st') \<and>
    (\<forall>i. i \<in> set ids \<longleftrightarrow> (\<exists>e. stored demo_env applied_store i = Some e \<and> to_end \<lparr>sb_Harness = ''h'', sb_Session = ''s''\<rparr> Minute e))"
proof -
  have quiet: "outcomes applied_store = []" by code_simp
  from end_session_exact [OF demo_codec quiet, of "\<lparr>sb_Harness = ''h'', sb_Session = ''s''\<rparr>" Minute] show ?thesis by blast
qed

text \<open>Reads and locks change neither files nor log; a write changes files last.\<close>

lemma next_io_same: "next_io st = (r, st') \<Longrightarrow> audit st' = audit st \<and> files st' = files st"
  by (auto simp: next_io_def split: list.splits)

lemma io_step_same: "io_step err st = (r, st') \<Longrightarrow> audit st' = audit st \<and> files st' = files st"
  by (auto simp: io_step_def split: prod.splits io.splits dest: next_io_same)

lemma lock_same: "lock st = (r, st') \<Longrightarrow> audit st' = audit st \<and> files st' = files st"
  by (auto simp: lock_def xbind_def split: prod.splits sum.splits dest!: io_step_same)

lemma Get_same: "Get env i st = (r, st') \<Longrightarrow> audit st' = audit st \<and> files st' = files st"
  by (auto simp: Get_def xbind_def xfail_def xok_def readFile_def dest!: next_io_same
      split: prod.splits sum.splits option.splits if_splits io.splits)

lemma appendAudit_same:
  "appendAudit env ev st = (r, st') \<Longrightarrow> files st' = files st \<and> (\<forall>ok. r = Inr ok \<longrightarrow> audit st' = audit st @ [logged env ev])"
  by (auto simp: appendAudit_def Let_def logged_def dest!: next_io_same split: prod.splits io.splits if_splits)

lemma write_same:
  "write_exception env u st = (r, st') \<Longrightarrow> audit st' = audit st \<and>
     (case r of Inl _ \<Rightarrow> files st' = files st | Inr _ \<Rightarrow> files st' = AList.update (e_ID u) (marshal env u) (files st))"
  by (auto simp: write_exception_def xbind_def split: prod.splits sum.splits dest!: io_step_same)

lemma commitLocked_effect:
  assumes run: "commitLocked env i raw change st = (r, st')"
  shows "case r of
     Inl _ \<Rightarrow> files st' = files st
   | Inr _ \<Rightarrow> \<exists>e u ev. map_of (files st) i = Some raw \<and> decode env raw = Inr e \<and> e_ID e = i \<and> change e = Inr (u, ev) \<and>
       audit st' = audit st @ [logged env ev] \<and> files st' = AList.update (e_ID u) (marshal env u) (files st)"
proof -
  obtain g st1 where get: "Get env i st = (g, st1)" by fastforce
  note same = Get_same [OF get]
  show ?thesis
  proof (cases "\<exists>e u ev. g = Inr (e, raw) \<and> change e = Inr (u, ev)")
    case False
    have "r \<in> range Inl \<and> st' = st1"
      using run get False by (auto simp: commitLocked_def xbind_def xfail_def split: sum.splits prod.splits if_splits)
    then show ?thesis using same by auto
  next
    case True
    then obtain e u ev where g: "g = Inr (e, raw)" "change e = Inr (u, ev)" by blast
    have e: "map_of (files st) i = Some raw" "decode env raw = Inr e" "e_ID e = i"
      using Get_stored [OF get [unfolded g(1)]] read_bytes [of env st i e raw e] by simp_all
    obtain a st2 where app: "appendAudit env ev st1 = (a, st2)" by fastforce
    obtain w st3 where wr: "write_exception env u st2 = (w, st3)" by fastforce
    obtain b st4 where fail: "appendAudit env (ev\<lparr>v_Event := v_Event ev @ ''-failed''\<rparr>) st3 = (b, st4)" by fastforce
    have result: "commitLocked env i raw change st = (case a of Inl err \<Rightarrow> (Inl err, st2)
        | Inr _ \<Rightarrow> (case w of Inl err \<Rightarrow> (Inl err, st4) | Inr _ \<Rightarrow> (Inr (), st3)))"
      using get g app wr fail by (cases a; cases w) (simp_all add: commitLocked_def xbind_def)
    have files: "files st2 = files st" "files st4 = files st3"
      using same appendAudit_same [OF app] appendAudit_same [OF fail] by auto
    show ?thesis
    proof (cases a)
      case Inl
      then show ?thesis using run result files by auto
    next
      case (Inr ok)
      have log: "audit st2 = audit st @ [logged env ev]" using same appendAudit_same [OF app] Inr by simp
      show ?thesis using run result files write_same [OF wr] log e g(2) Inr by (cases w) auto
    qed
  qed
qed

text \<open>
  C24: a commit audits first.  If it reports an error, no stored exception changed; if it
  succeeds, the file held exactly the bytes it was given, the change accepted the exception
  they encode, the event of the change is the one line added to the log, and the file of
  the changed exception is the only one written.
\<close>

theorem commit_audits_first:
  "case Commit env i raw change st of
     (Inl _, st') \<Rightarrow> files st' = files st
   | (Inr _, st') \<Rightarrow> \<exists>e u ev. map_of (files st) i = Some raw \<and> decode env raw = Inr e \<and> e_ID e = i \<and> change e = Inr (u, ev) \<and>
       audit st' = audit st @ [logged env ev] \<and> files st' = AList.update (e_ID u) (marshal env u) (files st)"
proof -
  obtain r st1 where lock: "lock st = (r, st1)" by fastforce
  obtain r' st2 where run: "commitLocked env i raw change st1 = (r', st2)" by fastforce
  show ?thesis using lock_same [OF lock] commitLocked_effect [OF run] lock run
    by (cases r; cases r') (auto simp: Commit_def xbind_def)
qed

lemma find_distinct: "distinct (map f xs) \<Longrightarrow> x \<in> set xs \<Longrightarrow> find (\<lambda>y. f y = f x) xs = Some x"
  by (induction xs) (auto simp: image_iff)

text \<open>
  C25: the overlay of exceptions on a policy document.  Either the bytes are returned
  untouched, or the document they encode gains, for each of the exceptions that are active,
  match the reader in full and are bound to exactly these bytes, and whose rule id it does
  not have yet, one rule set with the exception's rule bound to its role; every other rule
  set, the other roles' rule sets and the rest of the document are as they were.
\<close>

theorem overlay_exact:
  assumes "Overlay codec data b es now = Inr (out, applied)"
  shows "(out = data \<and> applied = []) \<or>
    (\<exists>doc roles doc' roles' added. codec_decode codec data = Some doc \<and> Roles doc = Some roles \<and>
       codec_encode codec doc' = Some out \<and> Roles doc' = Some roles' \<and> document_rest doc' = document_rest doc \<and>
       applied = map e_ID added \<and> distinct (map RuleID added) \<and>
       RuleID ` set added = RuleID ` {e \<in> set es. Active e now \<and> matches b e \<and>
         p_SHA256 (e_Policy e) = Fingerprint codec data \<and> e_AppliedFields e \<noteq> []} - dom (map_of (RuleSets doc)) \<and>
       (\<forall>e \<in> set added. e \<in> set es \<and> Active e now \<and> matches b e \<and> p_SHA256 (e_Policy e) = Fingerprint codec data \<and>
          map_of (RuleSets doc') (RuleID e) = Some (Added (''/'' @ e_Table e)
            \<lparr>rule_ID = RuleID e, Effect = ''allow'', Operations = [''query''], Fields_allowed = e_AppliedFields e\<rparr>)) \<and>
       (\<forall>name. name \<notin> RuleID ` set added \<longrightarrow> map_of (RuleSets doc') name = map_of (RuleSets doc) name) \<and>
       (\<forall>role. role_sets roles' role = role_sets roles role @ map RuleID (filter (\<lambda>e. e_Role e = role) added)))"
proof (cases "out = data \<and> applied = []")
  case False
  let ?es = "filter (overlaid codec data b now) es"
  obtain doc roles doc' roles' where doc: "codec_decode codec data = Some doc" "Roles doc = Some roles"
      "codec_encode codec doc' = Some out" "Roles doc' = Some roles'" "document_rest doc' = document_rest doc"
    and added: "applied = map e_ID (fresh_rules ?es (dom (map_of (RuleSets doc))))"
    and rules: "\<And>name. map_of (RuleSets doc') name = (case find (\<lambda>e. RuleID e = name) (fresh_rules ?es (dom (map_of (RuleSets doc)))) of
          Some e \<Rightarrow> Some (exception_rule e) | None \<Rightarrow> map_of (RuleSets doc) name)"
    and roles: "\<And>role. role_sets roles' role = role_sets roles role @
          map RuleID (filter (\<lambda>e. e_Role e = role) (fresh_rules ?es (dom (map_of (RuleSets doc)))))"
    using Overlay_cases [OF assms] False by blast
  let ?added = "fresh_rules ?es (dom (map_of (RuleSets doc)))"
  have found: "map_of (RuleSets doc') (RuleID e) = Some (exception_rule e)" if "e \<in> set ?added" for e
    using rules find_distinct [OF fresh_rules_distinct that] by simp
  have other: "map_of (RuleSets doc') name = map_of (RuleSets doc) name" if "name \<notin> RuleID ` set ?added" for name
  proof -
    have "find (\<lambda>e. RuleID e = name) ?added = None" using that by (force simp: find_None_iff)
    then show ?thesis using rules by simp
  qed
  have all: "RuleID ` set ?added = RuleID ` {e \<in> set es. Active e now \<and> matches b e \<and>
      p_SHA256 (e_Policy e) = Fingerprint codec data \<and> e_AppliedFields e \<noteq> []} - dom (map_of (RuleSets doc))"
    by (simp add: fresh_rules_all overlaid_def)
  have sub: "e \<in> set es \<and> Active e now \<and> matches b e \<and> p_SHA256 (e_Policy e) = Fingerprint codec data"
    if "e \<in> set ?added" for e using fresh_rules_sub [OF that] by (simp add: overlaid_def)
  have own: "\<forall>e \<in> set ?added. e \<in> set es \<and> Active e now \<and> matches b e \<and> p_SHA256 (e_Policy e) = Fingerprint codec data \<and>
      map_of (RuleSets doc') (RuleID e) = Some (Added (''/'' @ e_Table e)
        \<lparr>rule_ID = RuleID e, Effect = ''allow'', Operations = [''query''], Fields_allowed = e_AppliedFields e\<rparr>)"
    using sub found unfolding exception_rule_def by blast
  have rest: "\<forall>name. name \<notin> RuleID ` set ?added \<longrightarrow> map_of (RuleSets doc') name = map_of (RuleSets doc) name"
    using other by blast
  show ?thesis
    by (rule disjI2, rule exI [of _ doc], rule exI [of _ roles], rule exI [of _ doc'], rule exI [of _ roles'],
        rule exI [of _ ?added], intro conjI) (fact doc added all own rest fresh_rules_distinct | (rule allI, fact roles))+
qed simp


text \<open>
  C26: the store and the overlay together.  When the overlay of the exceptions the store
  lists opens anything, each exception it names is stored, was decided by the person with
  an event in the log, is not past its expiry, is bound to exactly the policy bytes being
  loaded, and matches the project, environment, source and session of the read.
\<close>

theorem overlay_opens_only_decided:
  assumes "json_codec env" "reachable env st" "List_exceptions env st = (Inr (es, bad), st1)"
    "Overlay codec data b es now = Inr (out, applied)" "i \<in> set applied"
  shows "\<exists>e v x. stored env st i = Some e \<and> v \<in> set (audit st) \<and> decides v e \<and> e_ExpiresAt e = Some x \<and> now < x \<and>
    p_SHA256 (e_Policy e) = Fingerprint codec data \<and> matches b e"
proof -
  obtain taken where "applied = map e_ID (fresh_rules (filter (overlaid codec data b now) es) taken)"
    using Overlay_cases [OF assms(4)] assms(5) by (elim disjE exE conjE) auto
  then obtain e where "e \<in> set (fresh_rules (filter (overlaid codec data b now) es) taken)" "e_ID e = i"
    using assms(5) by auto
  then have e: "e \<in> set es" "e_ID e = i" "overlaid codec data b now e" using fresh_rules_sub by fastforce+
  obtain j where j: "stored env st j = Some e" using List_stored [OF assms(3) e(1)] by blast
  then have "stored env st i = Some e" using e(2) stored_decode [OF j] by auto
  moreover have "granted (audit st) e" "Active e now"
    using reachable_audited [OF assms(1,2)] j Active_state [of e now] e(3) by (auto simp: audited_def sound_exception_def overlaid_def)
  moreover have "now < x" if "e_ExpiresAt e = Some x" for x
    using calculation(3) that by (auto simp: Active_def Exception_Status_def state_names split: if_splits)
  ultimately show ?thesis using e(3) by (auto simp: granted_def overlaid_def)
qed

definition demo_codec_of :: "(unit, unit) policy_codec" where
  "demo_codec_of = \<lparr>codec_decode = (\<lambda>_. Some \<lparr>RuleSets = [(''base'', Existing ())], Roles = Some [], document_rest = ()\<rparr>),
     codec_encode = (\<lambda>d. if map fst (RuleSets d) = [''base'', ''exception-0123456789abcdef''] then Some ''opened'' else None),
     Fingerprint = (\<lambda>s. s)\<rparr>"

definition demo_binding :: binding where
  "demo_binding = \<lparr>b_ProjectID = ''p'', b_Env = ''local'', b_Source = ''db'', b_SourceIdentity = ''db'', b_PolicyPath = ''policies/a.yaml'',
     b_Reader = \<lparr>sb_Harness = [], sb_Session = []\<rparr>\<rparr>"

lemma demo_overlay:
  "(case fst (List_exceptions demo_env applied_store) of Inl _ \<Rightarrow> None
    | Inr (es, _) \<Rightarrow> Some (Overlay demo_codec_of ''policy'' demo_binding es Hour)) = Some (Inr (''opened'', [''0123456789abcdef'']))"
  by code_simp

lemma demo_listed:
  obtains es bad st1 where "List_exceptions demo_env applied_store = (Inr (es, bad), st1)"
    "Overlay demo_codec_of ''policy'' demo_binding es Hour = Inr (''opened'', [''0123456789abcdef''])"
  using demo_overlay that by (cases "List_exceptions demo_env applied_store") (auto split: sum.splits)

theorem overlay_exact_witness:
  "\<exists>es doc' added. Overlay demo_codec_of ''policy'' demo_binding es Hour = Inr (''opened'', map e_ID added) \<and>
     codec_encode demo_codec_of doc' = Some ''opened'' \<and> (\<forall>e \<in> set added. matches demo_binding e)"
proof -
  obtain es bad st1 where run: "Overlay demo_codec_of ''policy'' demo_binding es Hour = Inr (''opened'', [''0123456789abcdef''])"
    using demo_listed by blast
  from overlay_exact [OF run] obtain doc' added where "[''0123456789abcdef''] = map e_ID added"
    "codec_encode demo_codec_of doc' = Some ''opened''" "\<forall>e \<in> set added. matches demo_binding e"
    by (elim disjE exE conjE) auto
  then show ?thesis using run by metis
qed

theorem overlay_opens_only_decided_witness:
  "\<exists>e v. stored demo_env applied_store ''0123456789abcdef'' = Some e \<and> v \<in> set (audit applied_store) \<and> decides v e"
proof -
  obtain es bad st1 where run: "List_exceptions demo_env applied_store = (Inr (es, bad), st1)"
    "Overlay demo_codec_of ''policy'' demo_binding es Hour = Inr (''opened'', [''0123456789abcdef''])"
    using demo_listed by blast
  from overlay_opens_only_decided [OF demo_codec demo_reachable(2) run, of "''0123456789abcdef''"] show ?thesis by auto
qed

text \<open>
  The id check of a proposal reads the file of the id and takes any failed read as a free
  id: when that read fails and the other steps succeed, whatever was stored under the id is
  replaced by the new pending proposal, and the command reports success.
\<close>

theorem propose_replaces_unreadable:
  assumes "outcomes st = [Done, Done, Failed]"
  shows "fst (Propose env e st) = Inr () \<and>
    files (snd (Propose env e st)) = AList.update (e_ID e) (marshal env e) (files st)"
  using assms
  by (simp add: Propose_def xbind_def lock_def io_step_def next_io_def readFile_def write_exception_def appendAudit_def Let_def)

theorem propose_replaces_unreadable_witness:
  "map_option e_State (stored demo_env rejected_store ''0123456789abcdef'') = Some StateRejected \<and>
   files (snd (Propose demo_env demo_exception (rejected_store\<lparr>outcomes := [Done, Done, Failed]\<rparr>))) =
     AList.update (e_ID demo_exception) (marshal demo_env demo_exception) (files rejected_store)"
proof
  show "map_option e_State (stored demo_env rejected_store ''0123456789abcdef'') = Some StateRejected" by code_simp
  show "files (snd (Propose demo_env demo_exception (rejected_store\<lparr>outcomes := [Done, Done, Failed]\<rparr>))) =
     AList.update (e_ID demo_exception) (marshal demo_env demo_exception) (files rejected_store)"
    using propose_replaces_unreadable [of "rejected_store\<lparr>outcomes := [Done, Done, Failed]\<rparr>" demo_env demo_exception] by simp
qed

end
