(* ===== verification/Licensing.thy ===== *)
theory Licensing
  imports Go_Text Go_Number
begin

text \<open>
  Commercial licences (\<open>src/commercial/licensing\<close>): the four base64 decoders the code
  tries, the two formats of a licence key, offline verification with its grace period, the
  active licence of the process, and the entitlement check of the Watch coordinator.
  Ed25519 and the JSON of the claims and of the envelope are parameters.
\<close>


section \<open>Base64\<close>

text \<open>
  \<open>encoding/base64\<close>: the alphabet is standard or URL-safe, padding is required or
  forbidden, and carriage returns and newlines are skipped wherever they are.
\<close>

definition val64 :: "bool \<Rightarrow> char \<Rightarrow> nat option" where
  "val64 url c =
     (let n = of_char c :: nat in
      if 65 \<le> n \<and> n \<le> 90 then Some (n - 65)
      else if 97 \<le> n \<and> n \<le> 122 then Some (n - 71)
      else if 48 \<le> n \<and> n \<le> 57 then Some (n + 4)
      else if n = (if url then 45 else 43) then Some 62
      else if n = (if url then 95 else 47) then Some 63 else None)"

definition chr64 :: "bool \<Rightarrow> nat \<Rightarrow> char" where
  "chr64 url v =
     (char_of :: nat \<Rightarrow> char)
       (if v < 26 then v + 65 else if v < 52 then v + 71 else if v < 62 then v - 4
        else if v = 62 then (if url then 45 else 43) else (if url then 95 else 47))"

fun EncodeToString :: "bool \<Rightarrow> string \<Rightarrow> string" where
  "EncodeToString url [] = []"
| "EncodeToString url [x] =
     (let a = of_char x in [chr64 url (a div 4), chr64 url (a mod 4 * 16)])"
| "EncodeToString url [x, y] =
     (let a = of_char x; b = of_char y in
      [chr64 url (a div 4), chr64 url (a mod 4 * 16 + b div 16), chr64 url (b mod 16 * 4)])"
| "EncodeToString url (x # y # z # s) =
     (let a = of_char x; b = of_char y; c = of_char z in
      chr64 url (a div 4) # chr64 url (a mod 4 * 16 + b div 16) # chr64 url (b mod 16 * 4 + c div 64) #
      chr64 url (c mod 64) # EncodeToString url s)"

definition byte_of :: "nat \<Rightarrow> char" where "byte_of n = char_of n"

definition quantum2 :: "bool \<Rightarrow> char \<Rightarrow> char \<Rightarrow> string option" where
  "quantum2 url a b =
     (case (val64 url a, val64 url b) of
        (Some p, Some q) \<Rightarrow> Some [byte_of (p * 4 + q div 16)] | _ \<Rightarrow> None)"

definition quantum3 :: "bool \<Rightarrow> char \<Rightarrow> char \<Rightarrow> char \<Rightarrow> string option" where
  "quantum3 url a b c =
     (case (val64 url a, val64 url b, val64 url c) of
        (Some p, Some q, Some r) \<Rightarrow> Some [byte_of (p * 4 + q div 16), byte_of (q mod 16 * 16 + r div 4)]
      | _ \<Rightarrow> None)"

definition quantum4 :: "bool \<Rightarrow> char \<Rightarrow> char \<Rightarrow> char \<Rightarrow> char \<Rightarrow> string option" where
  "quantum4 url a b c d =
     (case (val64 url a, val64 url b, val64 url c, val64 url d) of
        (Some p, Some q, Some r, Some t) \<Rightarrow>
          Some [byte_of (p * 4 + q div 16), byte_of (q mod 16 * 16 + r div 4), byte_of (r mod 4 * 64 + t)]
      | _ \<Rightarrow> None)"

fun decodeQuanta :: "bool \<Rightarrow> bool \<Rightarrow> string \<Rightarrow> string option" where
  "decodeQuanta url padded [] = Some []"
| "decodeQuanta url padded [a] = None"
| "decodeQuanta url padded [a, b] = (if padded then None else quantum2 url a b)"
| "decodeQuanta url padded [a, b, c] = (if padded then None else quantum3 url a b c)"
| "decodeQuanta url padded (a # b # c # d # s) =
     (if padded \<and> s = [] \<and> d = CHR ''='' then (if c = CHR ''='' then quantum2 url a b else quantum3 url a b c)
      else case quantum4 url a b c d of
        None \<Rightarrow> None
      | Some q \<Rightarrow> map_option (\<lambda>rest. q @ rest) (decodeQuanta url padded s))"

definition DecodeString :: "bool \<Rightarrow> bool \<Rightarrow> string \<Rightarrow> string option" where
  "DecodeString url padded s = decodeQuanta url padded (filter (\<lambda>c. c \<noteq> CHR 0x0A \<and> c \<noteq> CHR 0x0D) s)"

definition decodeBase64 :: "string \<Rightarrow> string option" where
  "decodeBase64 s =
     (case DecodeString False True s of Some b \<Rightarrow> Some b | None \<Rightarrow>
      (case DecodeString False False s of Some b \<Rightarrow> Some b | None \<Rightarrow>
       (case DecodeString True True s of Some b \<Rightarrow> Some b | None \<Rightarrow> DecodeString True False s)))"

text \<open>Reading back what was written.\<close>

lemma val64_chr64 [simp]: "v < 64 \<Longrightarrow> val64 url (chr64 url v) = Some v"
  by (auto simp: val64_def chr64_def Let_def)

lemma chr64_plain: "v < 64 \<Longrightarrow> 42 < (of_char (chr64 True v) :: nat) \<and> (of_char (chr64 True v) :: nat) < 123 \<and>
    chr64 True v \<noteq> CHR ''.'' \<and> chr64 True v \<noteq> CHR ''=''"
  by (auto simp: chr64_def char_of_eq_iff take_bit_eq_mod)

lemma val64_agree: "val64 url c = Some v \<Longrightarrow> val64 True c = Some w \<Longrightarrow> w = v"
  by (auto simp: val64_def Let_def split: if_splits)

lemma char_bound: "(of_char c :: nat) < 256"
  by (metis mod_less_divisor of_char_mod_256 zero_less_numeral)

lemma six_bits [simp]:
  "(of_char c :: nat) div 4 < 64" "(of_char c :: nat) mod 4 * 16 + of_char d div 16 < 64"
  "(of_char c :: nat) mod 16 * 4 + of_char d div 64 < 64" "(of_char c :: nat) mod 4 * 16 < 64" "(of_char c :: nat) mod 16 * 4 < 64"
proof -
  have d: "(of_char c :: nat) div 4 < 64" "(of_char d :: nat) div 16 < 16" "(of_char d :: nat) div 64 < 4"
    using char_bound [of c] char_bound [of d] by (auto intro: less_mult_imp_div_less)
  have m: "(of_char c :: nat) mod 4 < 4" "(of_char c :: nat) mod 16 < 16" by simp_all
  show "(of_char c :: nat) div 4 < 64" by (rule d)
  show "(of_char c :: nat) mod 4 * 16 + of_char d div 16 < 64" "(of_char c :: nat) mod 16 * 4 + of_char d div 64 < 64"
    "(of_char c :: nat) mod 4 * 16 < 64" "(of_char c :: nat) mod 16 * 4 < 64"
    using d m by linarith+
qed

lemma high_bits [simp]:
  "(of_char c :: nat) div 16 div 16 = 0" "(of_char c :: nat) div 16 mod 16 * 16 + of_char c mod 16 = of_char c"
  "(of_char c :: nat) div 64 div 4 = 0" "(of_char c :: nat) div 64 mod 4 * 64 + of_char c mod 64 = of_char c"
proof -
  have d: "(of_char c :: nat) div 16 < 16" "(of_char c :: nat) div 64 < 4"
    using char_bound [of c] by (auto intro: less_mult_imp_div_less)
  show "(of_char c :: nat) div 16 div 16 = 0" "(of_char c :: nat) div 64 div 4 = 0" using d by simp_all
  show "(of_char c :: nat) div 16 mod 16 * 16 + of_char c mod 16 = of_char c"
    "(of_char c :: nat) div 64 mod 4 * 64 + of_char c mod 64 = of_char c"
    unfolding mod_less [OF d(1)] mod_less [OF d(2)] by simp_all
qed

lemma byte_of_char [simp]: "byte_of (of_char c) = c"
  by (simp add: byte_of_def)

lemma decodeQuanta_encode: "decodeQuanta True False (EncodeToString True s) = Some s"
  by (induction True s rule: EncodeToString.induct)
     (simp_all add: Let_def quantum2_def quantum3_def quantum4_def)

lemma encoded_plain: "set (EncodeToString True s) \<subseteq> chr64 True ` {..<64}"
  by (induction True s rule: EncodeToString.induct) (auto simp: Let_def intro!: imageI)

lemma quantum_agree:
  "\<forall>x \<in> {a, b}. val64 True x \<noteq> None \<Longrightarrow> quantum2 url a b = Some q \<Longrightarrow> quantum2 True a b = Some q"
  "\<forall>x \<in> {a, b, c}. val64 True x \<noteq> None \<Longrightarrow> quantum3 url a b c = Some q \<Longrightarrow> quantum3 True a b c = Some q"
  "\<forall>x \<in> {a, b, c, d}. val64 True x \<noteq> None \<Longrightarrow> quantum4 url a b c d = Some q \<Longrightarrow> quantum4 True a b c d = Some q"
  by (auto simp: quantum2_def quantum3_def quantum4_def split: option.splits dest: val64_agree)

text \<open>On the characters of the URL alphabet the four decoders differ only in what they refuse.\<close>

lemma decodeQuanta_agree:
  "\<forall>x \<in> set s. val64 True x \<noteq> None \<Longrightarrow> CHR ''='' \<notin> set s \<Longrightarrow> decodeQuanta url padded s = Some b \<Longrightarrow>
     decodeQuanta True False s = Some b"
proof (induction url padded s arbitrary: b rule: decodeQuanta.induct)
  case (5 url padded a b' c d s)
  obtain q r where q: "quantum4 url a b' c d = Some q" "decodeQuanta url padded s = Some r" "b = q @ r"
    using 5(3,4) by (auto split: option.splits if_splits)
  then show ?case using 5(1) [OF _ q(1), of r] 5(2,3) quantum_agree(3) [of a b' c d url q] by (auto split: if_splits)
qed (auto split: if_splits intro: quantum_agree)

lemma decodeBase64_encoded: "decodeBase64 (EncodeToString True s) = Some s"
proof -
  let ?e = "EncodeToString True s"
  have of: "\<exists>v < 64. x = chr64 True v" if "x \<in> set ?e" for x using encoded_plain [of s] that by auto
  have plain: "\<forall>x \<in> set ?e. val64 True x \<noteq> None" "CHR ''='' \<notin> set ?e"
    using of chr64_plain by (metis val64_chr64 option.distinct(1))+
  have "x \<noteq> CHR 0x0A \<and> x \<noteq> CHR 0x0D" if "x \<in> set ?e" for x
  proof -
    have "42 < (of_char x :: nat)" using of [OF that] chr64_plain by auto
    then show ?thesis by auto
  qed
  then have kept: "filter (\<lambda>c. c \<noteq> CHR 0x0A \<and> c \<noteq> CHR 0x0D) ?e = ?e" by (simp add: filter_id_conv)
  then have each: "DecodeString url padded ?e = None \<or> DecodeString url padded ?e = Some s" for url padded
    using decodeQuanta_agree [OF plain, of url padded] decodeQuanta_encode [of s]
    by (cases "decodeQuanta url padded ?e") (auto simp: DecodeString_def)
  have raw: "DecodeString True False ?e = Some s"
    using kept decodeQuanta_encode by (simp add: DecodeString_def)
  show ?thesis
    using each [of False True] each [of False False] each [of True True] raw by (auto simp: decodeBase64_def)
qed


section \<open>Licences\<close>

definition FeatureCentralWatchCoordinator :: string where
  "FeatureCentralWatchCoordinator = ''central_watch_coordinator''"
definition TierPro :: string where "TierPro = ''pro''"
definition TierEnterpriseSelfHosted :: string where "TierEnterpriseSelfHosted = ''enterprise_self_hosted''"
definition GracePeriodDuration :: duration where "GracePeriodDuration = 14 * 24 * Hour"

datatype license_error =
    ErrLicenseMissing | ErrInvalidLicense | ErrInvalidSignature | ErrLicenseExpired | ErrFeatureNotEntitled string
  | ErrCapacityExceeded int int | ErrInvalidTier string | KeyNotConfigured | LicenseFileUnreadable string

record capacity =
  MaxCoordinators :: int
  MaxRunners :: int
  MaxUsers :: int

record claims =
  l_ID :: string
  Organization :: string
  IssuedAt :: time
  l_ExpiresAt :: time
  Tier :: string
  l_Capacity :: capacity
  Features :: "string list"

record license =
  Claims :: claims
  InGrace :: bool
  DaysInGrace :: int

text \<open>What is not under \<open>src\<close>: Ed25519, and the JSON of the claims and of the envelope.\<close>

record license_env =
  ed25519_Verify :: "string \<Rightarrow> string \<Rightarrow> string \<Rightarrow> bool"
  ed25519_Sign :: "string \<Rightarrow> string \<Rightarrow> string"
  marshalClaims :: "claims \<Rightarrow> string option"
  unmarshalClaims :: "string \<Rightarrow> claims option"
  unmarshalEnvelope :: "string \<Rightarrow> (string \<times> string) option"

text \<open>What the process keeps: the trusted key, the active licence, and the notices it wrote.\<close>

datatype notice = GraceWarning string time int | EvaluationNotice

record license_state =
  trustedPubKey :: string
  activeLicense :: "license option"
  notices :: "notice list"

text \<open>
  \<open>math.Ceil(d.Hours() / 24)\<close> of a non-negative duration: \<open>Hours\<close> adds the whole hours
  and the rest of the hour as two rounded floating-point numbers.
\<close>

definition f64_nat :: "nat \<Rightarrow> float64" where "f64_nat n = round64 False (n * 2 ^ 1074) 1"

definition f64_quot :: "float64 \<Rightarrow> nat \<Rightarrow> float64" where
  "f64_quot w n = round64 (f64_units w < 0) (nat \<bar>f64_units w\<bar>) n"

definition Hours :: "duration \<Rightarrow> float64" where
  "Hours d = f64_add (f64_nat (nat (d div Hour))) (f64_quot (f64_nat (nat (d mod Hour))) (60 * 60 * 1000000000))"

definition remaining_days :: "duration \<Rightarrow> int" where
  "remaining_days d = - ((- f64_units (f64_quot (Hours d) 24)) div 2 ^ 1074)"

definition parseLicenseKey :: "license_env \<Rightarrow> string \<Rightarrow> license_error + string \<times> string" where
  "parseLicenseKey env key =
     (if CHR ''.'' \<in> set key then
        (case decodeBase64 (takeWhile (\<lambda>c. c \<noteq> CHR ''.'') key) of
           None \<Rightarrow> Inl ErrInvalidLicense
         | Some payload \<Rightarrow>
             (case decodeBase64 (tl (dropWhile (\<lambda>c. c \<noteq> CHR ''.'') key)) of
                None \<Rightarrow> Inl ErrInvalidLicense
              | Some sig \<Rightarrow> Inr (payload, sig)))
      else case decodeBase64 key of
        None \<Rightarrow> Inl ErrInvalidLicense
      | Some decodedJSON \<Rightarrow>
          (case unmarshalEnvelope env decodedJSON of
             None \<Rightarrow> Inl ErrInvalidLicense
           | Some (p, s) \<Rightarrow>
               if p = [] \<or> s = [] then Inl ErrInvalidLicense
               else (case (decodeBase64 p, decodeBase64 s) of
                       (Some payload, Some sig) \<Rightarrow> Inr (payload, sig) | _ \<Rightarrow> Inl ErrInvalidLicense)))"

definition graced :: "time \<Rightarrow> claims \<Rightarrow> license_state \<Rightarrow> (license_error + license) \<times> license_state" where
  "graced now c st =
     (if l_ExpiresAt c \<noteq> time_zero \<and> now > l_ExpiresAt c then
        (let graceDeadline = l_ExpiresAt c + GracePeriodDuration in
         if now > graceDeadline then (Inl ErrLicenseExpired, st)
         else let days = remaining_days (graceDeadline - now) in
           (Inr \<lparr>Claims = c, InGrace = True, DaysInGrace = days\<rparr>,
            st\<lparr>notices := notices st @ [GraceWarning (Organization c) (l_ExpiresAt c) days]\<rparr>))
      else (Inr \<lparr>Claims = c, InGrace = False, DaysInGrace = 0\<rparr>, st))"

definition verified_claims :: "license_env \<Rightarrow> string \<Rightarrow> string \<Rightarrow> license_error + claims" where
  "verified_claims env pub licenseKey =
     (let trimmed = TrimSpace licenseKey in
      if trimmed = [] then Inl ErrLicenseMissing
      else rbind (parseLicenseKey env trimmed) (\<lambda>(payload, sig).
        if length pub \<noteq> 32 then Inl KeyNotConfigured
        else if length sig \<noteq> 64 then Inl ErrInvalidSignature
        else if \<not> ed25519_Verify env pub payload sig then Inl ErrInvalidSignature
        else case unmarshalClaims env payload of
          None \<Rightarrow> Inl ErrInvalidLicense
        | Some c \<Rightarrow>
            if l_ID c = [] \<or> Organization c = [] then Inl ErrInvalidLicense
            else if Tier c \<noteq> TierPro \<and> Tier c \<noteq> TierEnterpriseSelfHosted then Inl (ErrInvalidTier (Tier c))
            else Inr c))"

definition VerifyLicense :: "license_env \<Rightarrow> time \<Rightarrow> string \<Rightarrow> license_state \<Rightarrow> (license_error + license) \<times> license_state" where
  "VerifyLicense env now licenseKey st =
     (case verified_claims env (trustedPubKey st) licenseKey of Inl err \<Rightarrow> (Inl err, st) | Inr c \<Rightarrow> graced now c st)"

definition license_CheckFeature :: "license option \<Rightarrow> string \<Rightarrow> license_error + unit" where
  "license_CheckFeature l feature =
     (case l of None \<Rightarrow> Inl ErrLicenseMissing
      | Some lic \<Rightarrow> if list_ex (\<lambda>f. f = feature \<or> f = ''*'') (Features (Claims lic)) then Inr ()
          else Inl (ErrFeatureNotEntitled feature))"

definition check_capacity :: "(capacity \<Rightarrow> int) \<Rightarrow> license option \<Rightarrow> int \<Rightarrow> license_error + unit" where
  "check_capacity limit l n =
     (case l of None \<Rightarrow> Inl ErrLicenseMissing
      | Some lic \<Rightarrow> let m = limit (l_Capacity (Claims lic)) in
          if m > 0 \<and> n > m then Inl (ErrCapacityExceeded n m) else Inr ())"

definition CheckCoordinatorCapacity :: "license option \<Rightarrow> int \<Rightarrow> license_error + unit" where
  "CheckCoordinatorCapacity = check_capacity MaxCoordinators"

definition CheckRunnerCapacity :: "license option \<Rightarrow> int \<Rightarrow> license_error + unit" where
  "CheckRunnerCapacity = check_capacity MaxRunners"

definition CheckUserCapacity :: "license option \<Rightarrow> int \<Rightarrow> license_error + unit" where
  "CheckUserCapacity = check_capacity MaxUsers"

definition SetActiveLicense :: "license option \<Rightarrow> license_state \<Rightarrow> license_state" where
  "SetActiveLicense l st = st\<lparr>activeLicense := l\<rparr>"

definition CheckFeature :: "license_state \<Rightarrow> string \<Rightarrow> license_error + unit" where
  "CheckFeature st feature = license_CheckFeature (activeLicense st) feature"

text \<open>The two environment variables, and the files of the machine.\<close>

record license_vars =
  DATATUG_LICENSE_KEY :: string
  DATATUG_LICENSE_FILE :: string
  ReadFile :: "string \<Rightarrow> string option"

definition env_key :: "license_vars \<Rightarrow> license_error + string" where
  "env_key v =
     (if DATATUG_LICENSE_KEY v = [] \<and> DATATUG_LICENSE_FILE v \<noteq> [] then
        (case ReadFile v (DATATUG_LICENSE_FILE v) of
           None \<Rightarrow> Inl (LicenseFileUnreadable (DATATUG_LICENSE_FILE v)) | Some content \<Rightarrow> Inr content)
      else Inr (DATATUG_LICENSE_KEY v))"

definition LoadLicenseFromEnv :: "license_env \<Rightarrow> time \<Rightarrow> license_vars \<Rightarrow> license_state \<Rightarrow> (license_error + license) \<times> license_state" where
  "LoadLicenseFromEnv env now v st =
     (case env_key v of
        Inl err \<Rightarrow> (Inl err, st)
      | Inr key \<Rightarrow>
          if TrimSpace key = [] then (Inl ErrLicenseMissing, st)
          else case VerifyLicense env now key st of
            (Inl err, st') \<Rightarrow> (Inl err, st')
          | (Inr lic, st') \<Rightarrow> (Inr lic, SetActiveLicense (Some lic) st'))"

definition SignLicense :: "license_env \<Rightarrow> claims \<Rightarrow> string \<Rightarrow> string option" where
  "SignLicense env c privKey =
     map_option (\<lambda>payload. EncodeToString True payload @ ''.'' @ EncodeToString True (ed25519_Sign env privKey payload))
       (marshalClaims env c)"

definition CheckEntitlement :: "license_env \<Rightarrow> time \<Rightarrow> license_vars \<Rightarrow> string \<Rightarrow> license_state \<Rightarrow> (license_error + unit) \<times> license_state" where
  "CheckEntitlement env now v licenseKey st =
     (let key = TrimSpace licenseKey in
      if key \<noteq> [] then
        (case VerifyLicense env now key st of
           (Inl err, st') \<Rightarrow> (Inl err, st')
         | (Inr lic, st') \<Rightarrow> (license_CheckFeature (Some lic) FeatureCentralWatchCoordinator, st'))
      else
        (case LoadLicenseFromEnv env now v st of
           (Inl err, st') \<Rightarrow> if err = ErrLicenseMissing then (Inr (), st'\<lparr>notices := notices st' @ [EvaluationNotice]\<rparr>) else (Inl err, st')
         | (Inr lic, st') \<Rightarrow> (license_CheckFeature (Some lic) FeatureCentralWatchCoordinator, st')))"

end
