(* ===== verification/Licensing_Properties.thy ===== *)
theory Licensing_Properties
  imports Licensing
begin

text \<open>
  The properties of licences: a key that was signed is accepted with its claims, a licence
  that is accepted was signed and is within its grace period, and the coordinator is
  entitled only by such a licence or in evaluation mode.
\<close>

definition not_plain :: "string \<Rightarrow> bool" where
  "not_plain r \<longleftrightarrow> r \<noteq> [] \<longrightarrow> (of_char (hd r) :: nat) \<le> 32 \<or> 128 \<le> (of_char (hd r) :: nat)"

lemma leading_plain:
  assumes "32 < (of_char c :: nat)" "(of_char c :: nat) < 128"
  shows "leading space_runes (c # s) = None" "leading (map rev space_runes) (c # s) = None"
proof -
  have "list_all not_plain space_runes" "list_all not_plain (map rev space_runes)" by code_simp+
  moreover have "leading rs (c # s) = None" if "list_all not_plain rs" for rs
  proof -
    have "\<not> (r \<noteq> [] \<and> has_prefix r (c # s))" if "not_plain r" for r
      using that assms by (cases r) (auto simp: not_plain_def)
    then show ?thesis using that by (auto simp: leading_def find_None_iff list_all_iff)
  qed
  ultimately show "leading space_runes (c # s) = None" "leading (map rev space_runes) (c # s) = None" by blast+
qed

lemma TrimSpace_plain:
  assumes "s \<noteq> []" "\<forall>c \<in> {hd s, last s}. 32 < (of_char c :: nat) \<and> (of_char c :: nat) < 128"
  shows "TrimSpace s = s"
proof -
  obtain c t where s: "s = c # t" using assms(1) by (cases s) auto
  obtain d u where r: "rev s = d # u" using assms(1) by (cases "rev s") auto
  have "d = last s" using r by (metis last_rev list.sel(1) rev_rev_ident rev_is_Nil_conv list.distinct(1) hd_rev)
  then have "trim_by space_runes s = s" "trim_by (map rev space_runes) (rev s) = rev s"
    using assms(2) leading_plain s r by (simp_all add: trim_by.simps)
  then show ?thesis by (simp add: TrimSpace_def)
qed

text \<open>
  C28: a licence key round trip.  A key that \<open>SignLicense\<close> makes with the private key of
  the trusted public key is accepted, whatever its claims contain, with exactly those
  claims, as long as they name a licence, an organisation and a known tier and are not more
  than fourteen days past their expiry; it is in its grace period exactly when it is past its expiry.
\<close>

theorem license_roundtrip:
  assumes sign: "SignLicense env c privKey = Some key"
    and json: "\<And>payload. marshalClaims env c = Some payload \<Longrightarrow> unmarshalClaims env payload = Some c"
    and ed25519: "\<And>m. ed25519_Verify env (trustedPubKey st) m (ed25519_Sign env privKey m) \<and> length (ed25519_Sign env privKey m) = 64"
    and pub: "length (trustedPubKey st) = 32"
    and claims: "l_ID c \<noteq> []" "Organization c \<noteq> []" "Tier c \<in> {TierPro, TierEnterpriseSelfHosted}"
    and live: "l_ExpiresAt c = time_zero \<or> now \<le> l_ExpiresAt c + GracePeriodDuration"
  shows "\<exists>lic st'. VerifyLicense env now key st = (Inr lic, st') \<and> Claims lic = c \<and>
    (InGrace lic \<longleftrightarrow> l_ExpiresAt c \<noteq> time_zero \<and> l_ExpiresAt c < now)"
proof -
  obtain payload where p: "marshalClaims env c = Some payload" and
    key: "key = EncodeToString True payload @ ''.'' @ EncodeToString True (ed25519_Sign env privKey payload)"
    using sign by (auto simp: SignLicense_def)
  have plain: "c \<noteq> CHR ''.'' \<and> 32 < (of_char c :: nat) \<and> (of_char c :: nat) < 128" if m: "c \<in> set (EncodeToString True s)" for c s
  proof -
    obtain v where "v < 64" "c = chr64 True v" using encoded_plain [of s] m by auto
    then show ?thesis using chr64_plain [of v] by auto
  qed
  have dot: "32 < (of_char (CHR ''.'') :: nat) \<and> (of_char (CHR ''.'') :: nat) < 128" by simp
  have ne: "key \<noteq> []" using key by simp
  have all: "c \<in> set key \<Longrightarrow> 32 < (of_char c :: nat) \<and> (of_char c :: nat) < 128" for c
    using key plain by (auto dest: plain)
  have trim: "TrimSpace key = key"
    by (rule TrimSpace_plain [OF ne]) (use all [OF hd_in_set [OF ne]] all [OF last_in_set [OF ne]] in simp)
  have "CHR ''.'' \<notin> set (EncodeToString True payload)" using plain by blast
  then have "takeWhile (\<lambda>c. c \<noteq> CHR ''.'') key = EncodeToString True payload"
    "tl (dropWhile (\<lambda>c. c \<noteq> CHR ''.'') key) = EncodeToString True (ed25519_Sign env privKey payload)"
    unfolding key by (subst takeWhile_append2 dropWhile_append2, auto)+
  then have "parseLicenseKey env key = Inr (payload, ed25519_Sign env privKey payload)"
    using key by (simp add: parseLicenseKey_def decodeBase64_encoded)
  then have "verified_claims env (trustedPubKey st) key = Inr c"
    using trim key pub ed25519 json [OF p] claims by (auto simp: verified_claims_def rbind_def)
  then show ?thesis using live by (auto simp: VerifyLicense_def graced_def Let_def)
qed

text \<open>An instance: a "signature" that repeats the message's length, and claims read back as one fixed licence.\<close>

definition demo_claims :: claims where
  "demo_claims = \<lparr>l_ID = ''L1'', Organization = ''Acme'', IssuedAt = 0, l_ExpiresAt = Hour, Tier = TierPro,
     l_Capacity = \<lparr>MaxCoordinators = 1, MaxRunners = 5, MaxUsers = 0\<rparr>, Features = [''central_watch_coordinator'']\<rparr>"

definition demo_license_env :: license_env where
  "demo_license_env = \<lparr>ed25519_Verify = (\<lambda>pub m sig. sig = replicate 64 (CHR ''s'')), ed25519_Sign = (\<lambda>key m. replicate 64 (CHR ''s'')),
     marshalClaims = (\<lambda>c. Some ''{claims}''), unmarshalClaims = (\<lambda>s. if s = ''{claims}'' then Some demo_claims else None),
     unmarshalEnvelope = (\<lambda>s. None)\<rparr>"

definition demo_license_state :: license_state where
  "demo_license_state = \<lparr>trustedPubKey = replicate 32 (CHR ''k''), activeLicense = None, notices = []\<rparr>"

definition demo_key :: string where
  "demo_key = (case SignLicense demo_license_env demo_claims [] of Some k \<Rightarrow> k | None \<Rightarrow> [])"

lemma demo_signed: "SignLicense demo_license_env demo_claims [] = Some demo_key"
  by (simp add: demo_key_def SignLicense_def demo_license_env_def)

theorem license_roundtrip_witness:
  "\<exists>lic st'. VerifyLicense demo_license_env 0 demo_key demo_license_state = (Inr lic, st') \<and> Claims lic = demo_claims \<and> \<not> InGrace lic"
  using license_roundtrip [OF demo_signed, of demo_license_state 0]
  by (auto simp: demo_license_env_def demo_license_state_def demo_claims_def TierPro_def Hour_def Minute_def Second_def
      time_zero_def GracePeriodDuration_def)

text \<open>
  C29: nothing else is accepted.  A licence that verifies comes from a key whose payload
  carries a 64-byte Ed25519 signature of the trusted key over exactly the bytes its claims
  were read from; its tier is known, its id and organisation are present, and it is not
  more than fourteen days past its expiry.
\<close>

theorem license_sound:
  assumes "VerifyLicense env now key st = (Inr lic, st')"
  shows "\<exists>payload sig. parseLicenseKey env (TrimSpace key) = Inr (payload, sig) \<and> length (trustedPubKey st) = 32 \<and> length sig = 64 \<and>
    ed25519_Verify env (trustedPubKey st) payload sig \<and> unmarshalClaims env payload = Some (Claims lic) \<and>
    l_ID (Claims lic) \<noteq> [] \<and> Organization (Claims lic) \<noteq> [] \<and> Tier (Claims lic) \<in> {TierPro, TierEnterpriseSelfHosted} \<and>
    (l_ExpiresAt (Claims lic) = time_zero \<or> now \<le> l_ExpiresAt (Claims lic) + 14 * 24 * Hour) \<and>
    (InGrace lic \<longleftrightarrow> l_ExpiresAt (Claims lic) \<noteq> time_zero \<and> l_ExpiresAt (Claims lic) < now) \<and>
    trustedPubKey st' = trustedPubKey st \<and> activeLicense st' = activeLicense st"
proof -
  obtain c where c: "verified_claims env (trustedPubKey st) key = Inr c" "graced now c st = (Inr lic, st')"
    using assms by (auto simp: VerifyLicense_def split: sum.splits)
  obtain payload sig where p: "parseLicenseKey env (TrimSpace key) = Inr (payload, sig)" "length (trustedPubKey st) = 32" "length sig = 64"
    "ed25519_Verify env (trustedPubKey st) payload sig" "unmarshalClaims env payload = Some c"
    "l_ID c \<noteq> [] \<and> Organization c \<noteq> [] \<and> Tier c \<in> {TierPro, TierEnterpriseSelfHosted}"
    using c(1) by (auto simp: verified_claims_def Let_def rbind_eq_Inr split: if_splits option.splits prod.splits)
  have "Claims lic = c" "l_ExpiresAt c = time_zero \<or> now \<le> l_ExpiresAt c + 14 * 24 * Hour"
    "InGrace lic \<longleftrightarrow> l_ExpiresAt c \<noteq> time_zero \<and> l_ExpiresAt c < now" "trustedPubKey st' = trustedPubKey st" "activeLicense st' = activeLicense st"
    using c(2) by (auto simp: graced_def GracePeriodDuration_def Hour_def Minute_def Second_def Let_def split: if_splits)
  then show ?thesis using p by auto
qed

lemma demo_accepted: "fst (VerifyLicense demo_license_env 0 demo_key demo_license_state) = Inr \<lparr>Claims = demo_claims, InGrace = False, DaysInGrace = 0\<rparr>"
  by code_simp

theorem license_sound_witness:
  "\<exists>payload sig. parseLicenseKey demo_license_env (TrimSpace demo_key) = Inr (payload, sig) \<and> unmarshalClaims demo_license_env payload = Some demo_claims"
proof -
  obtain st' where "VerifyLicense demo_license_env 0 demo_key demo_license_state = (Inr \<lparr>Claims = demo_claims, InGrace = False, DaysInGrace = 0\<rparr>, st')"
    using demo_accepted by (metis prod.collapse)
  from license_sound [OF this] show ?thesis by auto
qed

text \<open>
  The entitlement of the Watch coordinator.  The check succeeds only in evaluation
  mode, when neither the deployment nor the environment names a key, or with a licence that
  verifies now and lists the coordinator feature or all features; a key that does not
  verify never falls back to evaluation mode, and the active licence is replaced only by a
  licence read from the environment.
\<close>

theorem entitlement_needs_license:
  assumes "CheckEntitlement env now v key st = (Inr (), st')"
  shows "(TrimSpace key = [] \<and> (\<exists>k. env_key v = Inr k \<and> TrimSpace k = []) \<and> activeLicense st' = activeLicense st) \<or>
    (\<exists>k lic st1. (if TrimSpace key \<noteq> [] then k = TrimSpace key else env_key v = Inr k) \<and>
       VerifyLicense env now k st = (Inr lic, st1) \<and>
       (FeatureCentralWatchCoordinator \<in> set (Features (Claims lic)) \<or> ''*'' \<in> set (Features (Claims lic))) \<and>
       activeLicense st' = (if TrimSpace key \<noteq> [] then activeLicense st else Some lic))"
proof (cases "TrimSpace key = []")
  case False
  then obtain lic where lic: "VerifyLicense env now (TrimSpace key) st = (Inr lic, st')"
    "license_CheckFeature (Some lic) FeatureCentralWatchCoordinator = Inr ()"
    using assms by (auto simp: CheckEntitlement_def Let_def split: prod.splits sum.splits)
  moreover have "activeLicense st' = activeLicense st"
    using lic(1) by (auto simp: VerifyLicense_def graced_def Let_def split: sum.splits if_splits)
  ultimately show ?thesis using False
    by (auto simp: license_CheckFeature_def list_ex_iff split: if_splits)
next
  case True
  obtain r st1 where load: "LoadLicenseFromEnv env now v st = (r, st1)" by fastforce
  show ?thesis
  proof (cases r)
    case (Inl err)
    then have err: "err = ErrLicenseMissing" "st' = st1\<lparr>notices := notices st1 @ [EvaluationNotice]\<rparr>"
      using assms True load by (auto simp: CheckEntitlement_def split: if_splits)
    have missing: "VerifyLicense env now k st = (Inl ErrLicenseMissing, st2) \<Longrightarrow> TrimSpace k = []" for k st2
      by (auto simp: VerifyLicense_def verified_claims_def rbind_def parseLicenseKey_def graced_def Let_def
          split: sum.splits if_splits option.splits prod.splits)
    show ?thesis using load Inl err True missing
      by (auto simp: LoadLicenseFromEnv_def env_key_def split: sum.splits if_splits prod.splits option.splits)
  next
    case (Inr lic)
    then have "license_CheckFeature (Some lic) FeatureCentralWatchCoordinator = Inr ()" "st' = st1"
      using assms True load by (auto simp: CheckEntitlement_def)
    moreover obtain k st2 where "env_key v = Inr k" "VerifyLicense env now k st = (Inr lic, st2)" "st1 = SetActiveLicense (Some lic) st2"
      using load Inr by (auto simp: LoadLicenseFromEnv_def split: sum.splits if_splits prod.splits)
    ultimately show ?thesis using True
      by (auto simp: license_CheckFeature_def list_ex_iff SetActiveLicense_def split: if_splits)
  qed
qed

theorem entitlement_needs_license_witness:
  "\<exists>lic st1. VerifyLicense demo_license_env 0 (TrimSpace demo_key) demo_license_state = (Inr lic, st1) \<and>
     (FeatureCentralWatchCoordinator \<in> set (Features (Claims lic)) \<or> ''*'' \<in> set (Features (Claims lic)))"
proof -
  let ?v = "\<lparr>DATATUG_LICENSE_KEY = [], DATATUG_LICENSE_FILE = [], ReadFile = (\<lambda>_. None)\<rparr>"
  have key: "TrimSpace demo_key = demo_key" "demo_key \<noteq> []" by code_simp+
  have feature: "license_CheckFeature (Some \<lparr>Claims = demo_claims, InGrace = False, DaysInGrace = 0\<rparr>) FeatureCentralWatchCoordinator = Inr ()"
    by code_simp
  obtain st' where "VerifyLicense demo_license_env 0 demo_key demo_license_state = (Inr \<lparr>Claims = demo_claims, InGrace = False, DaysInGrace = 0\<rparr>, st')"
    using demo_accepted by (metis prod.collapse)
  then have run: "CheckEntitlement demo_license_env 0 ?v demo_key demo_license_state = (Inr (), st')"
    by (simp add: CheckEntitlement_def key feature)
  from entitlement_needs_license [OF run] key show ?thesis by auto
qed

end
