(* ===== verification/Narrowing.thy ===== *)
theory Narrowing
  imports Go_Text Go_Number
begin

text \<open>
  Narrowing a chat turn to the tables it needs (\<open>src/pkg/chat/narrowing\<close>): the
  candidates and their descriptions, the ladder of project rules, decision engine and full
  schema with the cool-down after a failure, the widening of a selection along foreign
  keys, and the decision to apply a narrowing.  The decision library (rules chain, engine,
  validation, selection policy), the schema formatter, \<open>strconv.Quote\<close> and Unicode case
  mapping are parameters.
\<close>


section \<open>Candidates\<close>

record relation =
  r_Schema :: string
  r_Name :: string
  r_Columns :: "string list"
  r_rest :: string

definition maxCandidates :: nat where "maxCandidates = 255"
definition maxColumnBytes :: nat where "maxColumnBytes = 64"
definition maxDescriptionBytes :: nat where "maxDescriptionBytes = 512"
definition maxRecordedScores :: nat where "maxRecordedScores = 32"
definition maxPreviousQuestions :: nat where "maxPreviousQuestions = 3"
definition maxQuestionBytes :: nat where "maxQuestionBytes = 500"
definition maxPathHops :: nat where "maxPathHops = 5"
definition maxOmittedBytes :: nat where "maxOmittedBytes = 4096"
definition minReductionPercent :: nat where "minReductionPercent = 25"

definition suffixed :: "string \<Rightarrow> nat \<Rightarrow> string" where
  "suffixed base n = base @ ''#'' @ show_nat n"

lemma suffixed_inj: "suffixed base m = suffixed base n \<longleftrightarrow> m = n"
  by (simp add: suffixed_def show_nat_inj)

lemma finite_suffixes: "finite {m. n \<le> m \<and> suffixed base m \<in> set seen}"
proof (rule finite_imageD)
  show "finite (suffixed base ` {m. n \<le> m \<and> suffixed base m \<in> set seen})"
    by (rule finite_subset [of _ "set seen"]) auto
  show "inj_on (suffixed base) {m. n \<le> m \<and> suffixed base m \<in> set seen}" by (simp add: inj_on_def suffixed_inj)
qed

text \<open>The suffixes tried are all different, so one of them is free.\<close>

function fresh_id :: "string \<Rightarrow> nat \<Rightarrow> string list \<Rightarrow> string" where
  "fresh_id base n seen =
     (if suffixed base n \<in> set seen then fresh_id base (Suc n) seen else suffixed base n)"
  by pat_completeness auto
termination
proof (relation "measure (\<lambda>(base, n, seen). card {m. n \<le> m \<and> suffixed base m \<in> set seen})")
  fix base n and seen :: "string list"
  assume taken: "suffixed base n \<in> set seen"
  let ?tried = "\<lambda>n. {m. n \<le> m \<and> suffixed base m \<in> set seen}"
  have "?tried (Suc n) \<subseteq> ?tried n" "n \<in> ?tried n" "n \<notin> ?tried (Suc n)" using taken by auto
  then have "?tried (Suc n) \<subset> ?tried n" by blast
  then show "((base, Suc n, seen), base, n, seen) \<in> measure (\<lambda>(base, n, seen). card {m. n \<le> m \<and> suffixed base m \<in> set seen})"
    using psubset_card_mono [OF finite_suffixes] by simp
qed simp

declare fresh_id.simps [simp del]

definition count_name :: "relation list \<Rightarrow> string \<Rightarrow> nat" where
  "count_name relations name = length (filter (\<lambda>r. r_Name r = name) relations)"

definition base_id :: "relation list \<Rightarrow> relation \<Rightarrow> string" where
  "base_id relations r =
     (if count_name relations (r_Name r) > 1 \<and> r_Schema r \<noteq> [] then r_Schema r @ ''.'' @ r_Name r else r_Name r)"

fun ids_from :: "relation list \<Rightarrow> relation list \<Rightarrow> string list \<Rightarrow> string list" where
  "ids_from relations [] seen = []"
| "ids_from relations (r # rs) seen =
     (if TrimSpace (r_Name r) = [] then [] # ids_from relations rs seen
      else let base = base_id relations r;
               i = (if base \<in> set seen then fresh_id base 2 seen else base)
           in i # ids_from relations rs (i # seen))"

definition candidateIDs :: "relation list \<Rightarrow> string list" where
  "candidateIDs relations = ids_from relations relations []"

definition RuneStart :: "char \<Rightarrow> bool" where
  "RuneStart c \<longleftrightarrow> (of_char c :: nat) div 64 \<noteq> 2"

fun cut_at :: "string \<Rightarrow> nat \<Rightarrow> nat" where
  "cut_at s 0 = 0"
| "cut_at s (Suc c) = (if RuneStart (s ! Suc c) then Suc c else cut_at s c)"

definition truncateBytes :: "string \<Rightarrow> nat \<Rightarrow> string" where
  "truncateBytes s limit = (if length s \<le> limit then s else take (cut_at s limit) s @ ''~'')"

fun describe_columns :: "string list \<Rightarrow> bool \<Rightarrow> string \<Rightarrow> string" where
  "describe_columns [] first b = b"
| "describe_columns (column # columns) first b =
     (let piece = (if first then [] else '', '') @ truncateBytes column maxColumnBytes in
      if length b + length piece > maxDescriptionBytes then b @ '' ...''
      else describe_columns columns False (b @ piece))"

definition describe :: "relation \<Rightarrow> string" where
  "describe r = describe_columns (r_Columns r) True []"


section \<open>The narrower\<close>

record link =
  FromSchema :: string
  From :: string
  ToSchema :: string
  To :: string

text \<open>The names the narrower is built with, and the external functions it calls.\<close>

record narrower =
  n_relations :: "relation list"
  n_ids :: "string list"
  n_candidates :: "nat list"
  byQual :: "(string \<times> nat) list"
  byName :: "(string \<times> nat) list"
  n_coolDown :: duration
  n_fullBytes :: nat
  n_product :: string
  n_policyName :: string
  schema_format :: "relation list \<Rightarrow> string"
  str_ToLower :: "string \<Rightarrow> string"
  str_EqualFold :: "string \<Rightarrow> string \<Rightarrow> bool"
  strconv_Quote :: "string \<Rightarrow> string"
  coolUntil :: time
  coolStop :: string

definition defaultCoolDown :: duration where "defaultCoolDown = 5 * Minute"

definition lower_names :: "narrower \<Rightarrow> string list" where
  "lower_names n = map (\<lambda>i. str_ToLower n (r_Name (n_relations n ! i))) (n_candidates n)"

definition index :: "narrower \<Rightarrow> narrower" where
  "index n =
     (let ids = candidateIDs (n_relations n);
          cs = filter (\<lambda>i. ids ! i \<noteq> []) [0..<length (n_relations n)];
          n1 = n\<lparr>n_ids := ids, n_candidates := cs\<rparr>;
          qual = (\<lambda>i. str_ToLower n (r_Schema (n_relations n ! i) @ ''.'' @ r_Name (n_relations n ! i)));
          name = (\<lambda>i. str_ToLower n (r_Name (n_relations n ! i)))
      in n1\<lparr>byQual := foldl (\<lambda>m i. AList.update (qual i) i m) [] cs,
            byName := filter (\<lambda>(name', _). length (filter (\<lambda>x. x = name') (lower_names n1)) \<le> 1)
              (foldl (\<lambda>m i. AList.update (name i) i m) [] cs)\<rparr>)"

definition Candidates :: "narrower \<Rightarrow> string list" where
  "Candidates n = map (\<lambda>i. n_ids n ! i) (n_candidates n)"

definition lookup_id :: "narrower \<Rightarrow> string \<Rightarrow> bool \<Rightarrow> nat option" where
  "lookup_id n name exact =
     find (\<lambda>i. if exact then n_ids n ! i = name else str_EqualFold n (n_ids n ! i) name) (n_candidates n)"

definition Describe :: "narrower \<Rightarrow> string \<Rightarrow> string option" where
  "Describe n name =
     (case (case lookup_id n name True of Some i \<Rightarrow> Some i | None \<Rightarrow> lookup_id n (TrimSpace name) False) of
        None \<Rightarrow> None
      | Some i \<Rightarrow> Some (schema_format n [n_relations n ! i]))"

definition indexesOf :: "narrower \<Rightarrow> string list \<Rightarrow> nat list" where
  "indexesOf n ids = filter (\<lambda>i. n_ids n ! i \<in> set ids) (n_candidates n)"

definition idsOf :: "narrower \<Rightarrow> nat list \<Rightarrow> string list" where
  "idsOf n indexes = map (\<lambda>i. n_ids n ! i) (filter (\<lambda>i. i \<in> set indexes) (n_candidates n))"


section \<open>Foreign-key paths\<close>

type_synonym graph = "(nat \<times> nat list) list"

definition edges :: "graph \<Rightarrow> nat \<Rightarrow> nat list" where
  "edges g here = (case map_of g here of None \<Rightarrow> [] | Some l \<Rightarrow> l)"

definition add_edge :: "nat \<Rightarrow> nat \<Rightarrow> graph \<Rightarrow> graph" where
  "add_edge from to g = AList.update from (edges g from @ [to]) g"

definition resolve_end :: "narrower \<Rightarrow> string \<Rightarrow> string \<Rightarrow> nat option" where
  "resolve_end n schema name =
     (case map_of (byQual n) (str_ToLower n (schema @ ''.'' @ name)) of
        Some i \<Rightarrow> Some i | None \<Rightarrow> map_of (byName n) (str_ToLower n name))"

definition add_link :: "narrower \<Rightarrow> graph \<Rightarrow> link \<Rightarrow> graph" where
  "add_link n g l =
     (case (resolve_end n (FromSchema l) (From l), resolve_end n (ToSchema l) (To l)) of
        (Some from, Some to) \<Rightarrow> if from \<noteq> to then add_edge to from (add_edge from to g) else g
      | _ \<Rightarrow> g)"

definition adjacency :: "narrower \<Rightarrow> link list option \<Rightarrow> graph" where
  "adjacency n links = (case links of None \<Rightarrow> [] | Some ls \<Rightarrow> foldl (add_link n) [] ls)"

text \<open>
  The breadth-first search of \<open>reaches\<close> and \<open>pathTables\<close>: a node that was seen has its
  parent (none for the start, \<open>-1\<close> in the code) and its depth; \<open>reaches\<close> stops at the
  first target it takes from the queue and has no use for the parents.
\<close>

type_synonym seen = "(nat \<times> nat option \<times> nat) list"

definition depth_of :: "seen \<Rightarrow> nat \<Rightarrow> nat" where
  "depth_of s x = (case map_of s x of None \<Rightarrow> 0 | Some (_, d) \<Rightarrow> d)"

fun visit :: "nat \<Rightarrow> nat list \<Rightarrow> nat list \<Rightarrow> seen \<Rightarrow> nat list \<times> seen" where
  "visit here [] queue s = (queue, s)"
| "visit here (x # xs) queue s =
     (if map_of s x \<noteq> None then visit here xs queue s
      else visit here xs (queue @ [x]) ((x, Some here, depth_of s here + 1) # s))"

definition nodes :: "graph \<Rightarrow> nat set" where
  "nodes g = set (concat (map snd g))"

lemma edges_nodes: "set (edges g here) \<subseteq> nodes g"
  by (cases "map_of g here") (force simp: edges_def nodes_def dest: map_of_SomeD)+

lemma finite_nodes [simp]: "finite (nodes g)"
  by (simp add: nodes_def)

lemma visit_measure:
  "set xs \<subseteq> nodes g \<Longrightarrow> visit here xs queue s = (queue', s') \<Longrightarrow>
     length queue' + 2 * card (nodes g - dom (map_of s')) \<le> length queue + 2 * card (nodes g - dom (map_of s))"
proof (induction here xs queue s rule: visit.induct)
  case (2 here x xs queue s)
  show ?case
  proof (cases "map_of s x = None")
    case True
    let ?s = "(x, Some here, depth_of s here + 1) # s"
    have "nodes g - dom (map_of ?s) = (nodes g - dom (map_of s)) - {x}" by auto
    moreover have "x \<in> nodes g - dom (map_of s)" using 2(3) True by auto
    ultimately have "card (nodes g - dom (map_of ?s)) < card (nodes g - dom (map_of s))"
      by (metis card_Diff1_less finite_Diff finite_nodes)
    moreover have "length queue' + 2 * card (nodes g - dom (map_of s')) \<le> length (queue @ [x]) + 2 * card (nodes g - dom (map_of ?s))"
      by (rule 2(2)) (use 2(3,4) True in auto)
    ultimately show ?thesis by simp
  next
    case False
    then show ?thesis using 2(1,3,4) by simp
  qed
qed simp

lemma visit_shrinks:
  "(case visit here (edges g here) rest s of (queue', s') \<Rightarrow> length queue' + 2 * card (nodes g - dom (map_of s'))) <
     Suc (length rest + 2 * card (nodes g - dom (map_of s)))"
proof (cases "visit here (edges g here) rest s")
  case (Pair queue' s')
  from visit_measure [OF edges_nodes this] Pair show ?thesis by simp
qed

function search :: "graph \<Rightarrow> (nat \<Rightarrow> bool) \<Rightarrow> nat list \<Rightarrow> seen \<Rightarrow> bool \<times> seen" where
  "search g stop queue s =
     (case queue of
        [] \<Rightarrow> (False, s)
      | here # rest \<Rightarrow>
          if stop here then (True, s)
          else if depth_of s here = maxPathHops then search g stop rest s
          else (case visit here (edges g here) rest s of (queue', s') \<Rightarrow> search g stop queue' s'))"
  by pat_completeness auto
termination
  by (relation "measure (\<lambda>(g, stop, queue, s). length queue + 2 * card (nodes g - dom (map_of s)))")
     (auto simp: visit_shrinks)

declare search.simps [simp del]

definition reaches :: "nat \<Rightarrow> nat list \<Rightarrow> graph \<Rightarrow> bool" where
  "reaches from targets g = fst (search g (\<lambda>x. x \<in> set targets) [from] [(from, None, 0)])"

text \<open>Following the parents back to the start; the fuel is the number of nodes seen.\<close>

fun trace_back :: "nat \<Rightarrow> seen \<Rightarrow> nat \<Rightarrow> nat list option" where
  "trace_back 0 s here = None"
| "trace_back (Suc fuel) s here =
     (case map_of s here of
        Some (None, _) \<Rightarrow> Some [here]
      | Some (Some p, _) \<Rightarrow> map_option (\<lambda>path. here # path) (trace_back fuel s p)
      | None \<Rightarrow> map_option (\<lambda>path. here # path) (trace_back fuel s 0))"

fun paths_to :: "seen \<Rightarrow> nat \<Rightarrow> nat list \<Rightarrow> nat list option" where
  "paths_to s from [] = Some []"
| "paths_to s from (to # tos) =
     (if map_of s to = None \<or> to = from then paths_to s from tos
      else case trace_back (length s) s to of
        None \<Rightarrow> None
      | Some path \<Rightarrow> map_option (\<lambda>rest. path @ rest) (paths_to s from tos))"

fun paths_from :: "graph \<Rightarrow> nat list \<Rightarrow> nat list \<Rightarrow> nat list option" where
  "paths_from g endpoints [] = Some []"
| "paths_from g endpoints (from # froms) =
     (case paths_to (snd (search g (\<lambda>_. False) [from] [(from, None, 0)])) from endpoints of
        None \<Rightarrow> None
      | Some out \<Rightarrow> map_option (\<lambda>rest. out @ rest) (paths_from g endpoints froms))"

definition pathTables :: "nat list \<Rightarrow> graph \<Rightarrow> nat list option" where
  "pathTables endpoints g = paths_from g endpoints endpoints"

section \<open>One decision\<close>

record score =
  s_ID :: string
  s_Probability :: float64

record attempt =
  a_Provider :: string
  a_Outcome :: string
  a_Detail :: string
  a_LatencyMs :: int

record nrecord =
  DecidedAt :: time
  Mechanism :: string
  Engine :: string
  Model :: string
  Provenance :: string
  Policy :: string
  DeciderEnabled :: bool
  Verdict :: string
  Narrowed :: bool
  FallbackReason :: string
  StoppedBy :: string
  CandidatesBefore :: nat
  CandidatesAfter :: nat
  Selected :: "string list"
  rec_Strong :: "string list"
  rec_Potential :: "string list"
  Proposed :: "string list"
  Carried :: "string list"
  Closure :: "string list"
  Kept :: "string list"
  Scores :: "score list"
  ContextBytesBefore :: nat
  ContextBytesAfter :: nat
  Attempts :: "attempt list"
  LatencyMs :: int
  InputTokens :: int
  OutputTokens :: int

record history_t =
  Questions :: "string list"
  history_Kept :: "string list"

record request_t =
  rq_Product :: string
  rq_Text :: string
  rq_Candidates :: "(string \<times> string) list"
  previousQuestions :: "string list"

record selection =
  sel_Outcome :: string
  sel_Actionable :: bool
  sel_Detail :: string
  Picks :: "string list"
  Strong :: "string list"
  Potential :: "string list"
  Proposals :: "string list"

record answer_t =
  answer_Scores :: "score list"
  Calibrated :: bool
  answer_Engine :: string
  answer_Model :: string
  answer_In :: int
  answer_Out :: int
  answer_invalid :: "string option"

text \<open>Which of the library's errors an engine error wraps, and whether the call's deadline passed.\<close>

record engine_error =
  is_Quota :: bool
  is_Budget :: bool
  is_Misconfigured :: bool
  is_Unavailable :: bool
  is_Unsupported :: bool
  is_Auth :: bool
  is_InvalidRequest :: bool
  is_Deadline :: bool
  is_Canceled :: bool
  error_text :: string

datatype engine_reply = Fails engine_error "attempt list" | Answers answer_t "attempt list"

text \<open>
  The decision library: the rules chain (an actionable decision with its provenance, its
  outcome and the tables it requires, and the attempts it made), the engine, the selection
  policy, the ranking of scores and the texts of its errors.
\<close>

record decision_lib =
  chain_Decide :: "string \<Rightarrow> (string \<times> string \<times> string list) option \<times> attempt list"
  engine_of :: "(string \<times> (request_t \<Rightarrow> engine_reply)) option"
  Evaluate :: "answer_t \<Rightarrow> selection"
  NewAnswer :: "score list \<Rightarrow> score list"
  MergeReport :: "attempt list \<Rightarrow> attempt \<Rightarrow> attempt list"
  InvalidDetail :: "string \<Rightarrow> string"

text \<open>The clock readings of one turn, in the order the code takes them.\<close>

record clock_t =
  k_start :: time
  k_cool :: time
  k_began :: time
  k_answered :: time
  k_remember :: time
  k_end :: time

definition Milliseconds :: "duration \<Rightarrow> int" where
  "Milliseconds d = (if 0 \<le> d then d div 1000000 else - ((- d) div 1000000))"

definition boundedDetail :: "string \<Rightarrow> string" where
  "boundedDetail text' = (if length text' \<le> 200 then text' else take 200 text' @ ''...'')"

definition outcomeOf :: "engine_error \<Rightarrow> string" where
  "outcomeOf e =
     (if is_Quota e then ''quota'' else if is_Budget e then ''budget'' else if is_Misconfigured e then ''misconfigured''
      else if is_Unavailable e then ''unavailable'' else if is_Unsupported e then ''unsupported'' else if is_Auth e then ''auth''
      else if is_InvalidRequest e then ''rejected'' else if is_Deadline e then ''timeout''
      else if is_Canceled e then ''cancelled'' else ''error'')"

definition coolsDown :: "string \<Rightarrow> bool" where "coolsDown outcome \<longleftrightarrow> outcome \<noteq> ''cancelled''"

definition coolingDown :: "narrower \<Rightarrow> time \<Rightarrow> bool" where "coolingDown n now \<longleftrightarrow> now < coolUntil n"

definition remember :: "string \<Rightarrow> time \<Rightarrow> narrower \<Rightarrow> narrower" where
  "remember stop now n = n\<lparr>coolUntil := now + n_coolDown n, coolStop := stop\<rparr>"

definition request :: "narrower \<Rightarrow> string \<Rightarrow> history_t \<Rightarrow> request_t" where
  "request n prompt history =
     \<lparr>rq_Product = n_product n, rq_Text = prompt,
      rq_Candidates = map (\<lambda>i. (n_ids n ! i, describe (n_relations n ! i))) (n_candidates n),
      previousQuestions = map (\<lambda>q. truncateBytes q maxQuestionBytes)
        (drop (length (Questions history) - maxPreviousQuestions) (Questions history))\<rparr>"

definition complete :: "narrower \<Rightarrow> score list \<Rightarrow> string option" where
  "complete n scores =
     (if \<not> distinct (map s_ID scores) then Some ''a candidate was scored twice''
      else if length scores \<noteq> length (n_candidates n) then Some ''not every candidate was scored''
      else None)"

definition index_of :: "narrower \<Rightarrow> string \<Rightarrow> nat" where
  "index_of n i = (case lookup_id n i True of None \<Rightarrow> 0 | Some k \<Rightarrow> k)"

definition topicChanged :: "narrower \<Rightarrow> selection \<Rightarrow> nat list \<Rightarrow> graph \<Rightarrow> bool" where
  "topicChanged n sel previous g \<longleftrightarrow>
     previous \<noteq> [] \<and> Strong sel \<noteq> [] \<and> g \<noteq> [] \<and>
     list_all (\<lambda>i. index_of n i \<notin> set previous \<and> \<not> reaches (index_of n i) previous g) (Strong sel)"

definition widen :: "narrower \<Rightarrow> link list option \<Rightarrow> selection \<Rightarrow> history_t \<Rightarrow> nrecord \<Rightarrow> (nat list \<times> nrecord) option" where
  "widen n links sel history rec =
     (let chosen = map (index_of n) (Picks sel @ Potential sel);
          previous = List.map_filter (\<lambda>i. lookup_id n i True) (history_Kept history);
          g = adjacency n links;
          carried = (if topicChanged n sel previous g then [] else filter (\<lambda>i. i \<notin> set chosen) previous);
          keep = chosen @ carried
      in map_option (\<lambda>paths.
           let closure = filter (\<lambda>i. i \<notin> set keep) paths in
           (filter (\<lambda>i. i \<in> set keep \<or> i \<in> set closure) (n_candidates n),
            rec\<lparr>Carried := idsOf n carried, Closure := idsOf n closure\<rparr>))
         (pathTables (sort (remdups keep)) g))"

definition failed_ask :: "string \<Rightarrow> string \<Rightarrow> attempt list \<Rightarrow> attempt \<Rightarrow> nrecord \<Rightarrow> nrecord" where
  "failed_ask outcome stop report judged rec =
     rec\<lparr>Attempts := Attempts rec @ report @ [judged], FallbackReason := outcome, StoppedBy := stop\<rparr>"

definition judged_record :: "decision_lib \<Rightarrow> answer_t \<Rightarrow> attempt list \<Rightarrow> attempt \<Rightarrow> selection \<Rightarrow> nrecord \<Rightarrow> nrecord" where
  "judged_record lib answer report judged sel rec =
     rec\<lparr>Attempts := Attempts rec @ MergeReport lib report judged,
         Engine := (if answer_Engine answer \<noteq> [] then answer_Engine answer else Engine rec),
         Model := answer_Model answer, Verdict := sel_Detail sel,
         InputTokens := answer_In answer, OutputTokens := answer_Out answer,
         Provenance := (if Calibrated answer then ''calibrated'' else ''self_reported''),
         Scores := Scores rec @ take maxRecordedScores (NewAnswer lib (answer_Scores answer)),
         rec_Strong := Strong sel, rec_Potential := Potential sel, Proposed := Proposals sel\<rparr>"

text \<open>The result is the candidates to keep (none: keep everything), the record and the narrower.\<close>

definition ask :: "decision_lib \<Rightarrow> string \<Rightarrow> (request_t \<Rightarrow> engine_reply) \<Rightarrow> link list option \<Rightarrow> clock_t \<Rightarrow> string \<Rightarrow> history_t \<Rightarrow>
    nrecord \<Rightarrow> narrower \<Rightarrow> (nat list \<times> nrecord \<times> narrower) option" where
  "ask lib name engine links k prompt history rec n =
     (let rec = rec\<lparr>Engine := name\<rparr>;
          judged = (\<lambda>outcome detail. \<lparr>a_Provider = name, a_Outcome = outcome, a_Detail = detail,
                     a_LatencyMs = Milliseconds (k_answered k - k_began k)\<rparr>)
      in case engine (request n prompt history) of
        Fails err report \<Rightarrow>
          (let outcome = outcomeOf err;
               stop = (if outcome \<in> set [''quota'', ''budget'', ''misconfigured''] then outcome else []) in
           Some ([], failed_ask outcome (if stop \<noteq> [] then stop else StoppedBy rec) report (judged outcome (boundedDetail (error_text err))) rec,
                 if coolsDown outcome then remember stop (k_remember k) n else n))
      | Answers answer report \<Rightarrow>
          (case (case answer_invalid answer of None \<Rightarrow> complete n (answer_Scores answer) | Some v \<Rightarrow> Some v) of
             Some verr \<Rightarrow>
               Some ([], failed_ask ''invalid'' (StoppedBy rec) report (judged ''invalid'' (InvalidDetail lib verr)) rec,
                     remember [] (k_remember k) n)
           | None \<Rightarrow>
               (let sel = Evaluate lib answer;
                    rec1 = judged_record lib answer report
                      (judged (if sel_Actionable sel then ''decided'' else ''uncertain'') (sel_Detail sel)) sel rec
                in if \<not> sel_Actionable sel then Some ([], rec1\<lparr>FallbackReason := sel_Outcome sel\<rparr>, n)
                   else map_option (\<lambda>(kept, rec2). (kept, rec2, n))
                     (widen n links sel history (rec1\<lparr>Mechanism := ''engine'', Selected := Picks sel\<rparr>)))))"

definition decide :: "decision_lib \<Rightarrow> link list option \<Rightarrow> clock_t \<Rightarrow> string \<Rightarrow> history_t \<Rightarrow> nrecord \<Rightarrow> narrower \<Rightarrow>
    (nat list \<times> nrecord \<times> narrower) option" where
  "decide lib links k prompt history rec n =
     (if n_candidates n = [] then Some ([], rec\<lparr>FallbackReason := ''no_candidates''\<rparr>, n)
      else case chain_Decide lib prompt of
        (Some (provenance, outcome, scopes), attempts) \<Rightarrow>
          Some (indexesOf n scopes,
                rec\<lparr>Attempts := attempts, Mechanism := ''deterministic'', Provenance := provenance, Verdict := outcome, Selected := scopes\<rparr>, n)
      | (None, attempts) \<Rightarrow>
          (let rec = rec\<lparr>Attempts := attempts\<rparr> in
           case engine_of lib of
             None \<Rightarrow> Some ([], rec\<lparr>FallbackReason := ''disabled''\<rparr>, n)
           | Some (name, engine) \<Rightarrow>
               if length (n_candidates n) > maxCandidates then Some ([], rec\<lparr>FallbackReason := ''too_many_candidates''\<rparr>, n)
               else if coolingDown n (k_cool k)
               then Some ([], rec\<lparr>FallbackReason := ''cooling_down'', StoppedBy := coolStop n\<rparr>, n)
               else ask lib name engine links k prompt history rec n))"

fun list_omitted :: "(string \<Rightarrow> string) \<Rightarrow> string list \<Rightarrow> string \<Rightarrow> nat \<Rightarrow> string \<times> nat" where
  "list_omitted quote [] b listed = (b, listed)"
| "list_omitted quote (name # names) b listed =
     (let piece = '' '' @ quote name in
      if length b + length piece > maxOmittedBytes then (b, listed)
      else list_omitted quote names (b @ piece) (Suc listed))"

definition noteFor :: "(string \<Rightarrow> string) \<Rightarrow> nat \<Rightarrow> nat \<Rightarrow> string list \<Rightarrow> string" where
  "noteFor quote kept candidates omitted =
     (case list_omitted quote omitted
             (''Note: DataTug narrowed this schema to the '' @ show_nat kept @ '' of '' @ show_nat candidates @
              '' relations judged relevant to this request. Omitted relations (names only):'') 0 of
        (b, listed) \<Rightarrow>
          b @ (if listed < length omitted then '' and '' @ show_nat (length omitted - listed) @ '' more'' else []) @
          ''. If the request needs one of them, call describe_relation with its exact name to read its definition; do not guess the names of other relations.'')"

definition kept_relations :: "narrower \<Rightarrow> nat list \<Rightarrow> nat list" where
  "kept_relations n kept = filter (\<lambda>i. n_ids n ! i = [] \<or> i \<in> set kept) [0..<length (n_relations n)]"

definition apply_kept :: "narrower \<Rightarrow> nat list \<Rightarrow> nrecord \<Rightarrow> string \<times> nrecord" where
  "apply_kept n kept rec =
     (let all = [0..<length (n_relations n)];
          relations = map (\<lambda>i. n_relations n ! i) (kept_relations n kept);
          ids = map (\<lambda>i. n_ids n ! i) (filter (\<lambda>i. n_ids n ! i \<noteq> [] \<and> i \<in> set kept) all);
          omitted = map (\<lambda>i. n_ids n ! i) (filter (\<lambda>i. n_ids n ! i \<noteq> [] \<and> i \<notin> set kept) all)
      in if omitted = [] then ([], rec\<lparr>FallbackReason := ''no_reduction''\<rparr>)
         else let text' = noteFor (strconv_Quote n) (length ids) (length (n_candidates n)) omitted @ [CHR 0x0A] @ schema_format n relations in
              if length text' * 100 > n_fullBytes n * (100 - minReductionPercent) then ([], rec\<lparr>FallbackReason := ''no_reduction''\<rparr>)
              else (text', rec\<lparr>Narrowed := True, Kept := ids, CandidatesAfter := length ids, ContextBytesAfter := length text'\<rparr>))"

definition empty_record :: "decision_lib \<Rightarrow> narrower \<Rightarrow> time \<Rightarrow> nrecord" where
  "empty_record lib n start =
     \<lparr>DecidedAt = start, Mechanism = [], Engine = [], Model = [], Provenance = [], Policy = n_policyName n,
      DeciderEnabled = (engine_of lib \<noteq> None), Verdict = [], Narrowed = False, FallbackReason = [], StoppedBy = [],
      CandidatesBefore = length (n_candidates n), CandidatesAfter = length (n_candidates n), Selected = [], rec_Strong = [],
      rec_Potential = [], Proposed = [], Carried = [], Closure = [], Kept = [], Scores = [],
      ContextBytesBefore = n_fullBytes n, ContextBytesAfter = n_fullBytes n, Attempts = [], LatencyMs = 0,
      InputTokens = 0, OutputTokens = 0\<rparr>"

definition Narrow :: "decision_lib \<Rightarrow> link list option \<Rightarrow> clock_t \<Rightarrow> string \<Rightarrow> history_t \<Rightarrow> narrower \<Rightarrow> (string \<times> nrecord \<times> narrower) option" where
  "Narrow lib links k prompt history n =
     map_option (\<lambda>(kept, rec, n').
       (case (if kept \<noteq> [] then apply_kept n kept rec else ([], rec)) of
          (context', rec') \<Rightarrow> (context', rec'\<lparr>LatencyMs := Milliseconds (k_end k - k_start k)\<rparr>, n')))
       (decide lib links k prompt history (empty_record lib n (k_start k)) n)"

text \<open>The record's summaries.\<close>

definition Summary :: "nrecord \<Rightarrow> string" where
  "Summary r =
     (if Narrowed r then ''narrowed:before='' @ show_nat (CandidatesBefore r) @ '':after='' @ show_nat (CandidatesAfter r)
      else ''full_schema:reason='' @ (if StoppedBy r \<noteq> [] then ''stopped_'' @ StoppedBy r else FallbackReason r) @
        '':before='' @ show_nat (CandidatesBefore r))"

definition maxNoticeTables :: nat where "maxNoticeTables = 12"

definition Notice :: "(string \<Rightarrow> string) \<Rightarrow> nrecord \<Rightarrow> string" where
  "Notice quote r =
     (if \<not> Narrowed r then []
      else ''Context narrowed to '' @ show_nat (CandidatesAfter r) @ '' of '' @ show_nat (CandidatesBefore r) @ '' tables: '' @
        Join (map quote (take maxNoticeTables (Kept r))) '', '' @
        (if length (Kept r) > maxNoticeTables then '' and '' @ show_nat (length (Kept r) - maxNoticeTables) @ '' more'' else []) @ ''.'')"

definition safeDimension :: "string \<Rightarrow> string" where
  "safeDimension s =
     (if length s \<le> 64 \<and> list_all (\<lambda>c. is_digit c \<or> (65 \<le> (of_char c :: nat) \<and> (of_char c :: nat) \<le> 90) \<or>
         (97 \<le> (of_char c :: nat) \<and> (of_char c :: nat) \<le> 122) \<or> c \<in> set ''-_.:/+='') s then s else [])"

definition engineMethod :: "string \<Rightarrow> string" where
  "engineMethod engine =
     (let name = ToLower engine in
      if str_contains name ''jev'' then ''jev'' else if str_contains name ''llm'' then ''llm'' else ''decision_engine'')"


section \<open>Project rules\<close>

text \<open>
  The rules of the settings file: a decoded YAML value as far as the code inspects it, and
  the warnings by the number of the rule they name.  \<open>rules.Normalize\<close> is a parameter.
\<close>

record rule =
  Phrase :: string
  Tables :: "string list"

datatype yaml = YText string | YSeq "yaml list" | YMapping "(string \<times> yaml) list" | YScalar

datatype rule_problem = UnknownKey string | NoPhrase | NoTables string | RepeatedPhrase | NotMapping | NotList

definition texts_of :: "yaml \<Rightarrow> string list" where
  "texts_of v = (case v of YSeq items \<Rightarrow>
       List.map_filter (\<lambda>item. case item of YText name \<Rightarrow> if name \<noteq> [] then Some name else None | _ \<Rightarrow> None) items
     | _ \<Rightarrow> [])"

fun rule_keys :: "(string \<times> yaml) list \<Rightarrow> rule \<Rightarrow> rule_problem + rule" where
  "rule_keys [] r = Inr r"
| "rule_keys ((key, value) # entries) r =
     (if key = ''phrase'' then rule_keys entries (r\<lparr>Phrase := (case value of YText s \<Rightarrow> s | _ \<Rightarrow> [])\<rparr>)
      else if key = ''tables'' then rule_keys entries (r\<lparr>Tables := Tables r @ texts_of value\<rparr>)
      else Inl (UnknownKey key))"

definition parseRule :: "(string \<Rightarrow> string) \<Rightarrow> (string \<times> yaml) list \<Rightarrow> rule_problem + rule" where
  "parseRule canon entry =
     rbind (rule_keys (sort_key fst entry) \<lparr>Phrase = [], Tables = []\<rparr>) (\<lambda>r.
       if canon (Phrase r) = [] then Inl NoPhrase
       else if Tables r = [] then Inl (NoTables (Phrase r)) else Inr r)"

fun parse_items :: "(string \<Rightarrow> string) \<Rightarrow> yaml list \<Rightarrow> nat \<Rightarrow> string list \<Rightarrow> rule list \<times> (nat \<times> rule_problem) list" where
  "parse_items canon [] n seen = ([], [])"
| "parse_items canon (item # items) n seen =
     (case item of
        YMapping entry \<Rightarrow>
          (case parseRule canon entry of
             Inl problem \<Rightarrow> (case parse_items canon items (Suc n) seen of (rules, warnings) \<Rightarrow> (rules, (n, problem) # warnings))
           | Inr r \<Rightarrow>
               (let phrase = canon (Phrase r) in
                case parse_items canon items (Suc n) (phrase # seen) of (rules, warnings) \<Rightarrow>
                  if phrase \<in> set seen then (rules, (n, RepeatedPhrase) # warnings) else (r # rules, warnings)))
      | _ \<Rightarrow> (case parse_items canon items (Suc n) seen of (rules, warnings) \<Rightarrow> (rules, (n, NotMapping) # warnings)))"

definition parseRules :: "(string \<Rightarrow> string) \<Rightarrow> yaml \<Rightarrow> rule list \<times> (nat \<times> rule_problem) list" where
  "parseRules canon v = (case v of YSeq items \<Rightarrow> parse_items canon items 1 [] | _ \<Rightarrow> ([], [(0, NotList)]))"

text \<open>The rules a provider is built from: each by its normalized phrase.\<close>

fun rulesProvider :: "(string \<Rightarrow> string) \<Rightarrow> rule list \<Rightarrow> nat \<Rightarrow> (string \<times> string list) list \<Rightarrow> (nat \<times> rule_problem) + (string \<times> string list) list" where
  "rulesProvider canon [] n byPhrase = Inr byPhrase"
| "rulesProvider canon (r # rs) n byPhrase =
     (let phrase = canon (Phrase r) in
      if phrase = [] \<or> Tables r = [] then Inl (n, NoPhrase)
      else if map_of byPhrase phrase \<noteq> None then Inl (n, RepeatedPhrase)
      else rulesProvider canon rs (Suc n) (byPhrase @ [(phrase, Tables r)]))"

end
