(* ===== verification/Narrowing_Paths.thy ===== *)
theory Narrowing_Paths
  imports Narrowing
begin

text \<open>
  The breadth-first search over foreign keys: its invariant, and from it what \<open>reaches\<close>
  decides and which tables \<open>pathTables\<close> collects.
\<close>

definition edge :: "graph \<Rightarrow> nat \<Rightarrow> nat \<Rightarrow> bool" where
  "edge g x y \<longleftrightarrow> y \<in> set (edges g x)"

lemma visit_spec:
  assumes "map_of s here \<noteq> None"
  shows "visit here xs queue s = (queue', s') \<Longrightarrow>
    \<exists>new. queue' = queue @ new \<and> distinct new \<and> set new = set xs - dom (map_of s) \<and>
      (\<forall>x. map_of s' x = (if x \<in> set new then Some (Some here, depth_of s here + 1) else map_of s x))"
  using assms
proof (induction here xs queue s rule: visit.induct)
  case (1 here queue s)
  then show ?case by simp
next
  case (2 here x xs queue s)
  show ?case
  proof (cases "map_of s x = None")
    case False
    then show ?thesis using 2(1) 2(3,4) by (auto simp: insert_absorb)
  next
    case True
    let ?s = "(x, Some here, depth_of s here + 1) # s"
    have d: "depth_of ?s here = depth_of s here" "map_of ?s here \<noteq> None" using 2(4) True by (auto simp: depth_of_def)
    have run: "visit here xs (queue @ [x]) ?s = (queue', s')" using 2(3) True by simp
    have "\<exists>new. queue' = (queue @ [x]) @ new \<and> distinct new \<and> set new = set xs - dom (map_of ?s) \<and>
      (\<forall>y. map_of s' y = (if y \<in> set new then Some (Some here, depth_of ?s here + 1) else map_of ?s y))"
      by (rule 2(2) [OF _ run d(2)]) (use True in simp)
    then obtain new where new: "queue' = (queue @ [x]) @ new" "distinct new" "set new = set xs - dom (map_of ?s)"
      "\<And>y. map_of s' y = (if y \<in> set new then Some (Some here, depth_of s here + 1) else map_of ?s y)"
      unfolding d(1) by blast
    show ?thesis
      by (rule exI [of _ "x # new"]) (use new True in auto)
  qed
qed

text \<open>
  The search invariant: the nodes seen form a tree of edges from the start, each one deeper
  than its parent; the neighbours of a node that left the queue below the hop limit were seen
  at most one deeper; the queue is in order of depth, and nothing seen is more than one
  deeper than its head, nor anything outside the queue deeper than it.
\<close>

definition tree :: "graph \<Rightarrow> nat \<Rightarrow> seen \<Rightarrow> bool" where
  "tree g from s \<longleftrightarrow> map_of s from = Some (None, 0) \<and>
     (\<forall>x p d. map_of s x = Some (p, d) \<longrightarrow> d \<le> maxPathHops \<and>
        (case p of None \<Rightarrow> x = from \<and> d = 0 | Some y \<Rightarrow> edge g y x \<and> 0 < d \<and> (\<exists>q. map_of s y = Some (q, d - 1))))"

definition expanded :: "graph \<Rightarrow> nat list \<Rightarrow> seen \<Rightarrow> bool" where
  "expanded g queue s \<longleftrightarrow> (\<forall>x y. map_of s x \<noteq> None \<and> x \<notin> set queue \<and> depth_of s x < maxPathHops \<and> edge g x y \<longrightarrow>
     map_of s y \<noteq> None \<and> depth_of s y \<le> depth_of s x + 1)"

definition in_order :: "nat list \<Rightarrow> seen \<Rightarrow> bool" where
  "in_order queue s \<longleftrightarrow> distinct queue \<and> (\<forall>x \<in> set queue. map_of s x \<noteq> None) \<and> sorted (map (depth_of s) queue) \<and>
     (queue \<noteq> [] \<longrightarrow> (\<forall>x. map_of s x \<noteq> None \<longrightarrow> depth_of s x \<le> depth_of s (hd queue) + 1 \<and>
        (x \<notin> set queue \<longrightarrow> depth_of s x \<le> depth_of s (hd queue))))"

definition bfs_inv :: "graph \<Rightarrow> nat \<Rightarrow> nat list \<Rightarrow> seen \<Rightarrow> bool" where
  "bfs_inv g from queue s \<longleftrightarrow> tree g from s \<and> expanded g queue s \<and> in_order queue s"

lemma bfs_start: "bfs_inv g from [from] [(from, None, 0)]"
  by (auto simp: bfs_inv_def tree_def expanded_def in_order_def depth_of_def)

lemma depth_of_Some: "map_of s x = Some (p, d) \<Longrightarrow> depth_of s x = d"
  by (simp add: depth_of_def)

lemma tree_parent:
  assumes "tree g from s" "map_of s x = Some (p, d)"
  shows "d \<le> maxPathHops" "p = None \<Longrightarrow> x = from \<and> d = 0"
    "p = Some y \<Longrightarrow> edge g y x \<and> 0 < d \<and> (\<exists>q. map_of s y = Some (q, d - 1))"
  using assms unfolding tree_def by (fastforce split: option.splits)+

lemma tree_depth: "tree g from s \<Longrightarrow> depth_of s x \<le> maxPathHops"
  using tree_parent(1) [of g "from" s x] by (auto simp: depth_of_def split: option.splits)

lemma tree_sound: "tree g from s \<Longrightarrow> map_of s x = Some (p, d) \<Longrightarrow> (edge g ^^ d) from x"
proof (induction d arbitrary: x p)
  case 0
  then show ?case using tree_parent(2,3) [OF 0(1,2)] by (cases p) auto
next
  case (Suc d)
  then obtain y q where "edge g y x" "map_of s y = Some (q, d)"
    using tree_parent(2,3) [OF Suc.prems] by (cases p) auto
  then show ?case using Suc.IH [OF Suc.prems(1)] by auto
qed

lemma expandedD:
  "expanded g queue s \<Longrightarrow> map_of s x \<noteq> None \<Longrightarrow> x \<notin> set queue \<Longrightarrow> depth_of s x < maxPathHops \<Longrightarrow> edge g x y \<Longrightarrow>
     map_of s y \<noteq> None \<and> depth_of s y \<le> depth_of s x + 1"
  unfolding expanded_def by blast

lemma expanded_complete:
  assumes "tree g from s" "expanded g [] s"
  shows "(edge g ^^ k) from x \<Longrightarrow> k \<le> maxPathHops \<Longrightarrow> map_of s x \<noteq> None \<and> depth_of s x \<le> k"
proof (induction k arbitrary: x)
  case 0
  then show ?case using assms(1) by (auto simp: tree_def depth_of_def)
next
  case (Suc k)
  then obtain y where y: "(edge g ^^ k) from y" "edge g y x" by auto
  then have "map_of s y \<noteq> None" "depth_of s y \<le> k" using Suc.IH Suc.prems(2) by auto
  then have "map_of s x \<noteq> None \<and> depth_of s x \<le> depth_of s y + 1"
    using expandedD [OF assms(2) _ _ _ y(2)] Suc.prems(2) by simp
  then show ?case using \<open>depth_of s y \<le> k\<close> by auto
qed

text \<open>Taking a node from the queue: at the hop limit it is dropped, else its neighbours are visited.\<close>

lemma bfs_drop:
  assumes inv: "bfs_inv g from (here # rest) s" and limit: "depth_of s here = maxPathHops"
  shows "bfs_inv g from rest s"
proof -
  have tree: "tree g from s" and exp: "expanded g (here # rest) s" and ord: "in_order (here # rest) s"
    using inv by (auto simp: bfs_inv_def)
  have top: "depth_of s x \<le> maxPathHops" for x by (rule tree_depth [OF tree])
  have "depth_of s (hd rest) = maxPathHops" if "rest \<noteq> []"
    using ord that top [of "hd rest"] limit by (cases rest) (auto simp: in_order_def)
  then have "in_order rest s" using ord top by (auto simp: in_order_def intro: le_SucI)
  moreover have "expanded g rest s" unfolding expanded_def
  proof (intro allI impI)
    fix x y
    assume "map_of s x \<noteq> None \<and> x \<notin> set rest \<and> depth_of s x < maxPathHops \<and> edge g x y"
    then show "map_of s y \<noteq> None \<and> depth_of s y \<le> depth_of s x + 1"
      using expandedD [OF exp, of x y] limit by (cases "x = here") auto
  qed
  ultimately show ?thesis using tree by (simp add: bfs_inv_def)
qed

lemma bfs_visit:
  assumes inv: "bfs_inv g from (here # rest) s" and below: "depth_of s here \<noteq> maxPathHops"
    and run: "visit here (edges g here) rest s = (queue', s')"
  shows "bfs_inv g from queue' s'"
proof -
  have tree: "tree g from s" and exp: "expanded g (here # rest) s" and ord: "in_order (here # rest) s"
    using inv by (auto simp: bfs_inv_def)
  have here: "map_of s here \<noteq> None" using ord by (auto simp: in_order_def)
  have limit: "depth_of s here < maxPathHops" using below tree_depth [OF tree, of here] by simp
  obtain new where new: "queue' = rest @ new" "distinct new" "set new = set (edges g here) - dom (map_of s)"
    "\<And>x. map_of s' x = (if x \<in> set new then Some (Some here, depth_of s here + 1) else map_of s x)"
    using visit_spec [OF here run] by auto
  have fresh: "x \<in> set new \<Longrightarrow> map_of s x = None \<and> edge g here x" for x using new(3) by (auto simp: edge_def)
  have depth: "depth_of s' x = (if x \<in> set new then depth_of s here + 1 else depth_of s x)" for x
    by (simp add: depth_of_def new(4))
  have old: "map_of s x \<noteq> None \<Longrightarrow> depth_of s x \<le> depth_of s here + 1" for x
    using ord by (auto simp: in_order_def)
  have "tree g from s'"
  proof -
    have "map_of s' from = Some (None, 0)" using tree fresh [of "from"] by (auto simp: new(4) tree_def)
    moreover have "d \<le> maxPathHops \<and> (case p of None \<Rightarrow> x = from \<and> d = 0
        | Some y \<Rightarrow> edge g y x \<and> 0 < d \<and> (\<exists>q. map_of s' y = Some (q, d - 1)))" if x: "map_of s' x = Some (p, d)" for x p d
    proof (cases "x \<in> set new")
      case True
      obtain q where "map_of s here = Some (q, depth_of s here)" using here by (auto simp: depth_of_def)
      moreover have "here \<notin> set new" using fresh here by auto
      ultimately show ?thesis using x True limit fresh [OF True] by (auto simp: new(4))
    next
      case False
      then have at: "map_of s x = Some (p, d)" using x by (simp add: new(4))
      show ?thesis
      proof (cases p)
        case None
        then show ?thesis using tree_parent [OF tree at] by auto
      next
        case (Some y)
        then obtain q where "map_of s y = Some (q, d - 1)" "edge g y x" "0 < d" using tree_parent(3) [OF tree at] by auto
        moreover have "y \<notin> set new" using calculation(1) fresh by auto
        ultimately show ?thesis using Some tree_parent(1) [OF tree at] by (auto simp: new(4))
      qed
    qed
    ultimately show ?thesis unfolding tree_def by blast
  qed
  moreover have "expanded g queue' s'"
    unfolding expanded_def
  proof (intro allI impI)
    fix x y
    assume a: "map_of s' x \<noteq> None \<and> x \<notin> set queue' \<and> depth_of s' x < maxPathHops \<and> edge g x y"
    then have x: "map_of s x \<noteq> None" "x \<notin> set rest" "x \<notin> set new" using new(1,4) by auto
    show "map_of s' y \<noteq> None \<and> depth_of s' y \<le> depth_of s' x + 1"
    proof (cases "x = here")
      case True
      have "y \<in> set new \<or> map_of s y \<noteq> None" using a True new(3) by (auto simp: edge_def)
      then show ?thesis using old [of y] x True by (auto simp: new(4) depth)
    next
      case False
      then have "map_of s y \<noteq> None \<and> depth_of s y \<le> depth_of s x + 1"
        using expandedD [OF exp x(1), of y] a x False by (simp add: depth)
      then show ?thesis using fresh x by (auto simp: new(4) depth)
    qed
  qed
  moreover have "in_order queue' s'"
  proof -
    have rest: "distinct rest" "here \<notin> set rest" "\<And>x. x \<in> set rest \<Longrightarrow> map_of s x \<noteq> None" "sorted (map (depth_of s) rest)"
      "\<And>x. x \<in> set rest \<Longrightarrow> depth_of s here \<le> depth_of s x"
      using ord by (auto simp: in_order_def)
    have apart: "x \<notin> set new" if "x \<in> set rest" for x using rest(3) [OF that] fresh [of x] by auto
    then have same: "x \<in> set rest \<Longrightarrow> depth_of s' x = depth_of s x" for x by (simp add: depth)
    have "sorted (map (depth_of s') queue')"
      using rest(4) old rest(3) same by (auto simp: new(1) sorted_append depth map_replicate_const cong: map_cong)
    moreover have "distinct queue'" using rest(1) new(2) apart by (auto simp: new(1))
    moreover have "map_of s' x \<noteq> None" if "x \<in> set queue'" for x using that rest(3) by (auto simp: new(1,4))
    moreover have "depth_of s' x \<le> depth_of s' (hd queue') + 1 \<and> (x \<notin> set queue' \<longrightarrow> depth_of s' x \<le> depth_of s' (hd queue'))"
      if "queue' \<noteq> []" "map_of s' x \<noteq> None" for x
    proof -
      have hd: "depth_of s here \<le> depth_of s' (hd queue')"
        using that(1) rest(5) same by (cases rest) (auto simp: new(1) depth hd_append)
      have "x \<notin> set new \<Longrightarrow> x \<notin> set rest \<Longrightarrow> depth_of s x \<le> depth_of s here"
        using ord that(2) unfolding new(4) in_order_def by (cases "x = here") simp_all
      then show ?thesis using hd that(2) old [of x] by (auto simp: new(1,4) depth split: if_splits)
    qed
    ultimately show ?thesis by (simp add: in_order_def)
  qed
  ultimately show ?thesis by (simp add: bfs_inv_def)
qed

lemma search_result:
  "bfs_inv g from queue s \<Longrightarrow> (\<And>x. map_of s x \<noteq> None \<Longrightarrow> x \<notin> set queue \<Longrightarrow> \<not> stop x) \<Longrightarrow> search g stop queue s = (found, s') \<Longrightarrow>
     tree g from s' \<and> (if found then \<exists>x. stop x \<and> map_of s' x \<noteq> None
       else expanded g [] s' \<and> (\<forall>x. map_of s' x \<noteq> None \<longrightarrow> \<not> stop x))"
proof (induction g stop queue s rule: search.induct)
  case (1 g stop queue s)
  show ?case
  proof (cases queue)
    case Nil
    then show ?thesis using 1(3-5) by (auto simp: search.simps bfs_inv_def)
  next
    case (Cons here rest)
    show ?thesis
    proof (cases "stop here \<or> depth_of s here = maxPathHops")
      case True
      show ?thesis
      proof (cases "stop here")
        case True
        then have "search g stop queue s = (True, s)" using Cons by (simp add: search.simps [of g stop "here # rest"])
        moreover have "tree g from s" "map_of s here \<noteq> None" using 1(3) Cons by (auto simp: bfs_inv_def in_order_def)
        ultimately show ?thesis using 1(5) True by auto
      next
        case False
        then have limit: "depth_of s here = maxPathHops" using True by simp
        have run: "search g stop rest s = (found, s')" using 1(5) Cons False limit by (simp add: search.simps [of g stop "here # rest"])
        have inv: "bfs_inv g from rest s" using bfs_drop [of g "from" here rest s] 1(3) Cons limit by simp
        have quiet: "\<not> stop x" if "map_of s x \<noteq> None" "x \<notin> set rest" for x
          using 1(4) [of x] that Cons False by (cases "x = here") auto
        show ?thesis by (rule 1(1) [OF Cons False limit inv quiet run])
      qed
    next
      case False
      obtain queue' s1 where v: "visit here (edges g here) rest s = (queue', s1)" by fastforce
      have run: "search g stop queue' s1 = (found, s')" using 1(5) Cons False v by (simp add: search.simps [of g stop "here # rest"])
      have inv: "bfs_inv g from (here # rest) s" using 1(3) Cons by simp
      have here: "map_of s here \<noteq> None" using inv by (auto simp: bfs_inv_def in_order_def)
      obtain new where new: "queue' = rest @ new" "\<And>x. map_of s1 x = (if x \<in> set new then Some (Some here, depth_of s here + 1) else map_of s x)"
        using visit_spec [OF here v] by auto
      have quiet: "\<not> stop x" if "map_of s1 x \<noteq> None" "x \<notin> set queue'" for x
        using 1(4) [of x] that Cons False new by (cases "x = here") auto
      have "\<not> stop here" "depth_of s here \<noteq> maxPathHops" using False by auto
      from 1(2) [OF Cons this v [symmetric] bfs_visit [OF inv this(2) v] quiet run] show ?thesis .
    qed
  qed
qed

lemma reaches_exact:
  "reaches from targets g \<longleftrightarrow> (\<exists>t \<in> set targets. \<exists>k \<le> maxPathHops. (edge g ^^ k) from t)"
proof -
  obtain found s' where run: "search g (\<lambda>x. x \<in> set targets) [from] [(from, None, 0)] = (found, s')" by fastforce
  have "\<not> x \<in> set targets" if "map_of [(from, None, 0)] x \<noteq> None" "x \<notin> set [from]" for x using that by (simp split: if_splits)
  note res = search_result [OF bfs_start this run]
  have tree: "tree g from s'" using res by simp
  show ?thesis
  proof (cases found)
    case True
    then obtain x p d where "x \<in> set targets" "map_of s' x = Some (p, d)" using res by auto
    then have "x \<in> set targets" "d \<le> maxPathHops" "(edge g ^^ d) from x"
      using tree_sound [OF tree] tree_parent(1) [OF tree] by blast+
    then show ?thesis using True run unfolding reaches_def by auto
  next
    case False
    then show ?thesis using res run expanded_complete [OF tree] by (auto simp: reaches_def)
  qed
qed


section \<open>The tables on the paths\<close>

fun walk :: "graph \<Rightarrow> nat list \<Rightarrow> bool" where
  "walk g [] = False"
| "walk g [x] = True"
| "walk g (x # y # path) = (edge g x y \<and> walk g (y # path))"

lemma walk_snoc: "walk g path \<Longrightarrow> edge g (last path) y \<Longrightarrow> walk g (path @ [y])"
  by (induction g path rule: walk.induct) auto

lemma walk_hops: "walk g path \<Longrightarrow> (edge g ^^ (length path - 1)) (hd path) (last path)"
proof (induction g path rule: walk.induct)
  case (3 g x y path)
  then have "(edge g ^^ length path) y (last (y # path))" by simp
  then show ?case using 3(2) relpowp_Suc_I2 [of "edge g" x y "length path" "last (y # path)"] by auto
qed auto

text \<open>A node at depth \<open>d\<close> has all smaller depths above it, so the nodes seen outnumber it.\<close>

lemma tree_levels: "tree g from s \<Longrightarrow> map_of s x = Some (p, d) \<Longrightarrow> j \<le> d \<Longrightarrow> \<exists>y q. map_of s y = Some (q, j)"
proof (induction d arbitrary: x p)
  case 0
  then show ?case by auto
next
  case (Suc d)
  show ?case
  proof (cases "j = Suc d")
    case True
    then show ?thesis using Suc.prems(2) by auto
  next
    case False
    obtain y q where "map_of s y = Some (q, d)" using tree_parent(2,3) [OF Suc.prems(1,2)] by (cases p) auto
    then show ?thesis using Suc.IH [OF Suc.prems(1)] Suc.prems(3) False by auto
  qed
qed

lemma tree_fuel:
  assumes "tree g from s" "map_of s x = Some (p, d)"
  shows "d < length s"
proof -
  have "j \<in> depth_of s ` dom (map_of s)" if "j \<le> d" for j
  proof -
    obtain y q where "map_of s y = Some (q, j)" using tree_levels [OF assms \<open>j \<le> d\<close>] by blast
    then show ?thesis by (metis depth_of_Some domI imageI)
  qed
  then have "card {..d} \<le> card (depth_of s ` dom (map_of s))" by (intro card_mono) (auto simp: finite_dom_map_of)
  also have "\<dots> \<le> card (dom (map_of s))" by (rule card_image_le) (simp add: finite_dom_map_of)
  also have "\<dots> \<le> length s" by (metis card_length dom_map_of_conv_image_fst length_map set_map)
  finally show ?thesis by simp
qed

lemma trace_back_path:
  assumes tree: "tree g from s"
  shows "map_of s x = Some (p, d) \<Longrightarrow> d < fuel \<Longrightarrow>
    \<exists>path. trace_back fuel s x = Some path \<and> walk g (rev path) \<and> hd (rev path) = from \<and> last (rev path) = x \<and> length path = Suc d"
proof (induction d arbitrary: x p fuel)
  case 0
  then have "p = None" "x = from" using tree_parent(2,3) [OF tree 0(1)] by (cases p; auto)+
  then show ?case using 0 by (cases fuel) auto
next
  case (Suc d)
  then obtain y q where y: "p = Some y" "edge g y x" "map_of s y = Some (q, d)"
    using tree_parent(2,3) [OF tree Suc.prems(1)] by (cases p) auto
  obtain f where f: "fuel = Suc f" using Suc.prems(2) by (cases fuel) auto
  obtain path where path: "trace_back f s y = Some path" "walk g (rev path)" "hd (rev path) = from" "last (rev path) = y" "length path = Suc d"
    using Suc.IH [OF y(3), of f] Suc.prems(2) f by auto
  have "rev path \<noteq> []" using path(5) by auto
  then have "hd (rev (x # path)) = from" using path(3) by (simp add: hd_append)
  then show ?case using path walk_snoc [OF path(2), of x] y(1,2) Suc.prems(1) f by auto
qed

definition joins :: "graph \<Rightarrow> nat \<Rightarrow> nat \<Rightarrow> nat list \<Rightarrow> bool" where
  "joins g a b path \<longleftrightarrow> walk g path \<and> hd path = a \<and> last path = b \<and> length path \<le> Suc maxPathHops \<and>
     (\<forall>k. (edge g ^^ k) a b \<longrightarrow> length path \<le> Suc k)"

lemma searched:
  obtains s where "snd (search g (\<lambda>_. False) [from] [(from, None, 0)]) = s" "tree g from s" "expanded g [] s"
proof -
  obtain found s where run: "search g (\<lambda>_. False) [from] [(from, None, 0)] = (found, s)" by fastforce
  from search_result [OF bfs_start _ run] have "tree g from s" "expanded g [] s" by (auto split: if_splits)
  then show thesis using that run by simp
qed

lemma trace_joins:
  assumes tree: "tree g from s" and exp: "expanded g [] s" and x: "map_of s x \<noteq> None"
  obtains path where "trace_back (length s) s x = Some path" "joins g from x (rev path)"
proof -
  obtain p d where d: "map_of s x = Some (p, d)" using x by auto
  obtain path where path: "trace_back (length s) s x = Some path" "walk g (rev path)" "hd (rev path) = from" "last (rev path) = x" "length path = Suc d"
    using trace_back_path [OF tree d tree_fuel [OF tree d]] by auto
  have "Suc d \<le> Suc k" if "(edge g ^^ k) from x" for k
  proof (cases "k \<le> maxPathHops")
    case True
    then show ?thesis using expanded_complete [OF tree exp that] d by (simp add: depth_of_Some)
  next
    case False
    then show ?thesis using tree_parent(1) [OF tree d] by simp
  qed
  then show thesis using that path tree_parent(1) [OF tree d] by (auto simp: joins_def)
qed

lemma paths_to_exact:
  assumes tree: "tree g from s" and exp: "expanded g [] s"
  shows "\<exists>out. paths_to s from tos = Some out \<and>
    (\<forall>b \<in> set tos. b \<noteq> from \<and> (\<exists>k \<le> maxPathHops. (edge g ^^ k) from b) \<longrightarrow> (\<exists>path. joins g from b path \<and> set path \<subseteq> set out)) \<and>
    (\<forall>x \<in> set out. \<exists>b \<in> set tos. \<exists>path. joins g from b path \<and> x \<in> set path \<and> set path \<subseteq> set out)"
proof (induction tos)
  case (Cons b tos)
  then obtain out where out: "paths_to s from tos = Some out"
    "\<And>b'. b' \<in> set tos \<Longrightarrow> b' \<noteq> from \<Longrightarrow> \<exists>k \<le> maxPathHops. (edge g ^^ k) from b' \<Longrightarrow> \<exists>path. joins g from b' path \<and> set path \<subseteq> set out"
    "\<And>x. x \<in> set out \<Longrightarrow> \<exists>b' \<in> set tos. \<exists>path. joins g from b' path \<and> x \<in> set path \<and> set path \<subseteq> set out"
    by blast
  show ?case
  proof (cases "map_of s b = None \<or> b = from")
    case True
    then have "\<not> (b \<noteq> from \<and> (\<exists>k \<le> maxPathHops. (edge g ^^ k) from b))" using expanded_complete [OF tree exp] by blast
    then show ?thesis using True out by (intro exI [of _ out]) auto
  next
    case False
    obtain path where path: "trace_back (length s) s b = Some path" "joins g from b (rev path)"
      using trace_joins [OF tree exp, of b] False by auto
    then have eq: "paths_to s from (b # tos) = Some (path @ out)" using False out(1) by auto
    have "\<exists>p. joins g from b' p \<and> set p \<subseteq> set (path @ out)"
      if "b' \<in> set (b # tos)" "b' \<noteq> from" "\<exists>k \<le> maxPathHops. (edge g ^^ k) from b'" for b'
    proof (cases "b' = b")
      case True
      then show ?thesis using path(2) by (intro exI [of _ "rev path"]) auto
    next
      case False
      then show ?thesis using out(2) [of b'] that by auto
    qed
    moreover have "\<exists>b' \<in> set (b # tos). \<exists>p. joins g from b' p \<and> x \<in> set p \<and> set p \<subseteq> set (path @ out)" if m: "x \<in> set (path @ out)" for x
    proof (cases "x \<in> set path")
      case True
      then show ?thesis using path(2) by (intro bexI [of _ b] exI [of _ "rev path"]) auto
    next
      case False
      then obtain b' p where "b' \<in> set tos" "joins g from b' p" "x \<in> set p" "set p \<subseteq> set out" using out(3) [of x] m by auto
      then show ?thesis by (intro bexI [of _ b'] exI [of _ p]) auto
    qed
    ultimately show ?thesis using eq by blast
  qed
qed simp

lemma paths_from_exact:
  "\<exists>out. paths_from g tos froms = Some out \<and>
    (\<forall>a \<in> set froms. \<forall>b \<in> set tos. b \<noteq> a \<and> (\<exists>k \<le> maxPathHops. (edge g ^^ k) a b) \<longrightarrow> (\<exists>path. joins g a b path \<and> set path \<subseteq> set out)) \<and>
    (\<forall>x \<in> set out. \<exists>a \<in> set froms. \<exists>b \<in> set tos. \<exists>path. joins g a b path \<and> x \<in> set path)"
proof (induction froms)
  case (Cons a froms)
  then obtain rest where rest: "paths_from g tos froms = Some rest"
    "\<forall>a' \<in> set froms. \<forall>b \<in> set tos. b \<noteq> a' \<and> (\<exists>k \<le> maxPathHops. (edge g ^^ k) a' b) \<longrightarrow> (\<exists>path. joins g a' b path \<and> set path \<subseteq> set rest)"
    "\<forall>x \<in> set rest. \<exists>a' \<in> set froms. \<exists>b \<in> set tos. \<exists>path. joins g a' b path \<and> x \<in> set path"
    by (elim exE conjE)
  obtain s where s: "snd (search g (\<lambda>_. False) [a] [(a, None, 0)]) = s" "tree g a s" "expanded g [] s" by (rule searched)
  obtain out where out: "paths_to s a tos = Some out"
    "\<forall>b \<in> set tos. b \<noteq> a \<and> (\<exists>k \<le> maxPathHops. (edge g ^^ k) a b) \<longrightarrow> (\<exists>path. joins g a b path \<and> set path \<subseteq> set out)"
    "\<forall>x \<in> set out. \<exists>b \<in> set tos. \<exists>path. joins g a b path \<and> x \<in> set path \<and> set path \<subseteq> set out"
    using paths_to_exact [OF s(2,3), of tos] by (elim exE conjE)
  have eq: "paths_from g tos (a # froms) = Some (out @ rest)" using rest(1) out(1) s(1) by simp
  have joined: "\<exists>path. joins g a' b path \<and> set path \<subseteq> set (out @ rest)"
    if ab: "a' \<in> set (a # froms)" "b \<in> set tos" "b \<noteq> a' \<and> (\<exists>k \<le> maxPathHops. (edge g ^^ k) a' b)" for a' b
  proof (cases "a' = a")
    case True
    then obtain path where "joins g a' b path" "set path \<subseteq> set out" using bspec [OF out(2) ab(2)] ab(3) by auto
    then show ?thesis by (intro exI [of _ path]) auto
  next
    case False
    then obtain path where "joins g a' b path" "set path \<subseteq> set rest" using bspec [OF bspec [OF rest(2), of a'] ab(2)] ab(1,3) by auto
    then show ?thesis by (intro exI [of _ path]) auto
  qed
  have needed: "\<exists>a' \<in> set (a # froms). \<exists>b \<in> set tos. \<exists>path. joins g a' b path \<and> x \<in> set path" if "x \<in> set (out @ rest)" for x
    using that bspec [OF out(3), of x] bspec [OF rest(3), of x] by auto
  show ?case using eq joined needed by (intro exI [of _ "out @ rest"]) blast
qed simp

end
