(* ===== verification/Narrowing_Properties.thy ===== *)
theory Narrowing_Properties
  imports Narrowing_Paths
begin

text \<open>
  The properties of table narrowing: the names of the candidates, the bounds of what is
  sent to the engine, what the foreign-key searches decide, and what a turn's decision may
  do to the schema context.
\<close>

lemma fresh_id_found:
  "\<exists>m \<ge> n. fresh_id base n seen = suffixed base m \<and> suffixed base m \<notin> set seen \<and> (\<forall>j. n \<le> j \<and> j < m \<longrightarrow> suffixed base j \<in> set seen)"
proof (induction base n seen rule: fresh_id.induct)
  case (1 base n seen)
  show ?case
  proof (cases "suffixed base n \<in> set seen")
    case False
    then show ?thesis by (intro exI [of _ n]) (auto simp: fresh_id.simps)
  next
    case True
    then obtain m where m: "Suc n \<le> m" "fresh_id base (Suc n) seen = suffixed base m" "suffixed base m \<notin> set seen"
      "\<And>j. Suc n \<le> j \<Longrightarrow> j < m \<Longrightarrow> suffixed base j \<in> set seen"
      using 1 by auto
    have "suffixed base j \<in> set seen" if "n \<le> j" "j < m" for j using m(4) [of j] that True by (cases "j = n") auto
    then show ?thesis using m True by (intro exI [of _ m]) (auto simp: fresh_id.simps [of base n])
  qed
qed

lemma ids_from_facts:
  "length (ids_from relations rs seen) = length rs \<and> distinct (filter (\<lambda>i. i \<noteq> []) (ids_from relations rs seen)) \<and>
   set (filter (\<lambda>i. i \<noteq> []) (ids_from relations rs seen)) \<inter> set seen = {} \<and>
   (\<forall>k < length rs. ids_from relations rs seen ! k = [] \<longleftrightarrow> TrimSpace (r_Name (rs ! k)) = [])"
proof (induction rs arbitrary: seen)
  case (Cons r rs)
  show ?case
  proof (cases "TrimSpace (r_Name r) = []")
    case True
    then show ?thesis using Cons.IH [of seen] by (auto simp: nth_Cons split: nat.splits)
  next
    case False
    let ?base = "base_id relations r"
    let ?i = "if ?base \<in> set seen then fresh_id ?base 2 seen else ?base"
    have "r_Name r \<noteq> []" using False by (auto simp: TrimSpace_def trim_by.simps leading_def space_runes_def)
    then have "?i \<noteq> []" using fresh_id_found [of 2 ?base seen] by (auto simp: base_id_def suffixed_def)
    moreover have "?i \<notin> set seen" using fresh_id_found [of 2 ?base seen] by auto
    ultimately show ?thesis using False Cons.IH [of "?i # seen"] by (auto simp: Let_def nth_Cons split: nat.splits)
  qed
qed simp

lemma distinct_filter_nth:
  "distinct (filter P xs) \<Longrightarrow> i < length xs \<Longrightarrow> j < length xs \<Longrightarrow> xs ! i = xs ! j \<Longrightarrow> P (xs ! i) \<Longrightarrow> i = j"
proof (induction xs arbitrary: i j)
  case (Cons x xs)
  have out: "P (xs ! k) \<Longrightarrow> k < length xs \<Longrightarrow> P x \<Longrightarrow> x \<noteq> xs ! k" for k
    using Cons.prems(1) by auto
  show ?case
  proof (cases i; cases j)
    fix a b assume "i = Suc a" "j = Suc b"
    then show ?thesis using Cons.IH [of a b] Cons.prems by (auto split: if_splits)
  qed (use Cons.prems out in auto)
qed simp

lemma candidate_ids_distinct:
  assumes "i < length relations" "j < length relations" "candidateIDs relations ! i = candidateIDs relations ! j"
  shows "i = j \<or> candidateIDs relations ! i = []"
  using ids_from_facts [of relations relations "[]"] assms
  by (auto simp: candidateIDs_def dest: distinct_filter_nth)

text \<open>
  Every table with a name that is not blank gets a candidate id, every other table gets
  none, and no two tables share an id.
\<close>

theorem candidate_ids_unique:
  "length (candidateIDs relations) = length relations \<and>
   (\<forall>i < length relations. \<forall>j < length relations. candidateIDs relations ! i = candidateIDs relations ! j \<longrightarrow>
      i = j \<or> candidateIDs relations ! i = []) \<and>
   (\<forall>k < length relations. candidateIDs relations ! k = [] \<longleftrightarrow> TrimSpace (r_Name (relations ! k)) = [])"
  using ids_from_facts [of relations relations "[]"] candidate_ids_distinct [of _ relations]
  by (auto simp: candidateIDs_def)

text \<open>
  C31: the search for a free candidate id ends: the suffix it settles on is the first free
  one, and it is found after at most as many tries as there are ids in use.
\<close>

theorem suffix_search_ends:
  "\<exists>m. n \<le> m \<and> m \<le> n + length seen \<and> fresh_id base n seen = suffixed base m \<and> suffixed base m \<notin> set seen \<and>
     (\<forall>j. n \<le> j \<and> j < m \<longrightarrow> suffixed base j \<in> set seen)"
proof -
  obtain m where m: "n \<le> m" "fresh_id base n seen = suffixed base m" "suffixed base m \<notin> set seen"
    "\<forall>j. n \<le> j \<and> j < m \<longrightarrow> suffixed base j \<in> set seen"
    using fresh_id_found [of n base seen] by blast
  have "suffixed base ` {n..<m} \<subseteq> set seen" using m(4) by auto
  then have "card (suffixed base ` {n..<m}) \<le> card (set seen)" by (intro card_mono) simp_all
  moreover have "card (suffixed base ` {n..<m}) = m - n"
    by (subst card_image) (auto simp: inj_on_def suffixed_inj)
  ultimately have "m \<le> n + length seen" using card_length [of seen] by linarith
  then show ?thesis using m by blast
qed

theorem suffix_search_ends_witness:
  "\<exists>m. 2 \<le> m \<and> m \<le> 2 + 2 \<and> fresh_id ''t'' 2 [''t'', ''t#2''] = suffixed ''t'' m \<and> suffixed ''t'' m \<notin> {''t'', ''t#2''}"
  using suffix_search_ends [of 2 "[''t'', ''t#2'']" "''t''"] by auto

theorem candidate_ids_unique_witness:
  "let rs = [\<lparr>r_Schema = ''a'', r_Name = ''t'', r_Columns = [], r_rest = []\<rparr>, \<lparr>r_Schema = ''b'', r_Name = ''t'', r_Columns = [], r_rest = []\<rparr>]
   in length (candidateIDs rs) = 2 \<and> candidateIDs rs = [''a.t'', ''b.t'']"
proof -
  let ?rs = "[\<lparr>r_Schema = ''a'', r_Name = ''t'', r_Columns = [], r_rest = []\<rparr>, \<lparr>r_Schema = ''b'', r_Name = ''t'', r_Columns = [], r_rest = []\<rparr>]"
  have "candidateIDs ?rs = [''a.t'', ''b.t'']" by code_simp
  then show ?thesis using candidate_ids_unique [of ?rs] by (simp add: Let_def)
qed

text \<open>
  What describes a table to the engine is bounded: a text cut at a limit is a prefix of
  the text of at most that many bytes and one mark, and the description of a table never
  exceeds 516 bytes, whatever its columns.
\<close>

lemma cut_at_le: "cut_at s n \<le> n"
  by (induction n) auto

lemma describe_columns_bound:
  "length b \<le> maxDescriptionBytes \<Longrightarrow> length (describe_columns columns first b) \<le> maxDescriptionBytes + 4"
  by (induction columns first b rule: describe_columns.induct) (auto simp: Let_def)

theorem description_bounded:
  "length (describe r) \<le> 516 \<and> length (truncateBytes s limit) \<le> limit + 1 \<and>
   (\<exists>kept. kept \<le> limit \<and> (truncateBytes s limit = s \<or> truncateBytes s limit = take kept s @ ''~''))"
  using describe_columns_bound [of "[]" "r_Columns r" True] cut_at_le [of s limit]
  by (auto simp: describe_def maxDescriptionBytes_def truncateBytes_def intro: le_refl)

text \<open>
  \<open>reaches\<close> answers exactly whether one of the targets can be reached over at most
  five foreign keys; it always answers.
\<close>

theorem reaches_iff:
  "reaches from targets g \<longleftrightarrow> (\<exists>t \<in> set targets. \<exists>k \<le> 5. (edge g ^^ k) from t)"
  using reaches_exact [of "from" targets g] by (simp add: maxPathHops_def)

lemma path_tables_total: "\<exists>out. pathTables endpoints g = Some out"
  using paths_from_exact [of g endpoints endpoints] by (auto simp: pathTables_def)

text \<open>
  C32: \<open>pathTables\<close> always returns, and closes the selection: for every two endpoints that
  at most five foreign keys join, the result has all the tables of a shortest path between
  them, and it has no table that is not on such a path.
\<close>

theorem path_tables_closed:
  "\<exists>out. pathTables endpoints g = Some out \<and>
    (\<forall>a \<in> set endpoints. \<forall>b \<in> set endpoints. b \<noteq> a \<and> (\<exists>k \<le> 5. (edge g ^^ k) a b) \<longrightarrow>
       (\<exists>path. walk g path \<and> hd path = a \<and> last path = b \<and> length path \<le> 6 \<and> set path \<subseteq> set out \<and>
          (\<forall>k. (edge g ^^ k) a b \<longrightarrow> length path \<le> Suc k))) \<and>
    (\<forall>x \<in> set out. \<exists>a \<in> set endpoints. \<exists>b \<in> set endpoints. \<exists>path. walk g path \<and> hd path = a \<and> last path = b \<and>
       length path \<le> 6 \<and> x \<in> set path)"
proof -
  obtain out where out: "paths_from g endpoints endpoints = Some out"
    "\<forall>a \<in> set endpoints. \<forall>b \<in> set endpoints. b \<noteq> a \<and> (\<exists>k \<le> 5. (edge g ^^ k) a b) \<longrightarrow> (\<exists>path. joins g a b path \<and> set path \<subseteq> set out)"
    "\<forall>x \<in> set out. \<exists>a \<in> set endpoints. \<exists>b \<in> set endpoints. \<exists>path. joins g a b path \<and> x \<in> set path"
    using paths_from_exact [of g endpoints endpoints] unfolding maxPathHops_def by (elim exE conjE)
  have joins: "joins g a b path \<longleftrightarrow> walk g path \<and> hd path = a \<and> last path = b \<and> length path \<le> 6 \<and>
      (\<forall>k. (edge g ^^ k) a b \<longrightarrow> length path \<le> Suc k)" for a b path
    by (simp add: joins_def maxPathHops_def)
  show ?thesis
    by (rule exI [of _ out]) (use out in \<open>simp only: pathTables_def joins; meson\<close>)
qed

definition chain_graph :: graph where
  "chain_graph = [(0, [1]), (1, [0, 2]), (2, [1])]"

lemma chain_near: "\<exists>k \<le> 5. (edge chain_graph ^^ k) 0 2"
proof -
  have "edge chain_graph 0 1" "edge chain_graph 1 2" by (simp_all add: chain_graph_def edge_def edges_def)
  then have "(edge chain_graph ^^ Suc (Suc 0)) 0 2" by (intro relpowp_Suc_I [of _ _ 0 1] relpowp_Suc_I [of 0 _ 0 0]) (simp_all add: relcompp_apply)
  then show ?thesis by (intro exI [of _ "Suc (Suc 0)"]) simp
qed

theorem path_tables_closed_witness:
  "\<exists>out path. pathTables [0, 2] chain_graph = Some out \<and>
     walk chain_graph path \<and> hd path = 0 \<and> last path = 2 \<and> set path \<subseteq> set out"
proof -
  obtain out where out: "pathTables [0, 2] chain_graph = Some out"
    "\<forall>a \<in> set [0, 2]. \<forall>b \<in> set [0, 2]. b \<noteq> a \<and> (\<exists>k \<le> 5. (edge chain_graph ^^ k) a b) \<longrightarrow>
       (\<exists>path. walk chain_graph path \<and> hd path = a \<and> last path = b \<and> length path \<le> 6 \<and> set path \<subseteq> set out \<and>
          (\<forall>k. (edge chain_graph ^^ k) a b \<longrightarrow> length path \<le> Suc k))"
    using path_tables_closed [of "[0, 2]" chain_graph] by (elim exE conjE)
  have in0: "0 \<in> set [0, 2 :: nat]" and in2: "2 \<in> set [0, 2 :: nat]" by simp_all
  have "(2 :: nat) \<noteq> 0 \<and> (\<exists>k \<le> 5. (edge chain_graph ^^ k) 0 2)" using chain_near by simp
  from mp [OF bspec [OF bspec [OF out(2) in0] in2] this]
  obtain path where "walk chain_graph path" "hd path = 0" "last path = 2" "set path \<subseteq> set out" by (elim exE conjE)
  then show ?thesis using out(1) by blast
qed


section \<open>What a turn's decision may do\<close>

definition built :: "narrower \<Rightarrow> bool" where
  "built n \<longleftrightarrow> n_ids n = candidateIDs (n_relations n) \<and>
     n_candidates n = filter (\<lambda>i. n_ids n ! i \<noteq> []) [0..<length (n_relations n)]"

lemma built_index: "built (index n)"
  by (simp add: built_def index_def Let_def)

lemma built_remember: "built n \<Longrightarrow> built (remember stop now n)"
  by (simp add: built_def remember_def)

lemma lookup_exact: "i \<in> set (n_candidates n) \<Longrightarrow> built n \<Longrightarrow> lookup_id n (n_ids n ! i) True = Some i"
proof -
  assume i: "i \<in> set (n_candidates n)" and n: "built n"
  have "n_ids n ! j \<noteq> n_ids n ! i" if "j \<in> set (n_candidates n)" "j \<noteq> i" for j
    using candidate_ids_distinct [of j "n_relations n" i] that i n by (auto simp: built_def)
  then have "find (\<lambda>j. n_ids n ! j = n_ids n ! i) cs = Some i" if "i \<in> set cs" "set cs \<subseteq> set (n_candidates n)" for cs
    using that by (induction cs) auto
  then show ?thesis using i by (simp add: lookup_id_def)
qed

lemma indexesOf_kept: "set (indexesOf n ids) \<subseteq> set (n_candidates n)"
  "i \<in> set (n_candidates n) \<Longrightarrow> n_ids n ! i \<in> set ids \<Longrightarrow> i \<in> set (indexesOf n ids)"
  by (auto simp: indexesOf_def)

definition keeps_selected :: "narrower \<Rightarrow> nat list \<Rightarrow> nrecord \<Rightarrow> bool" where
  "keeps_selected n kept rec \<longleftrightarrow> set kept \<subseteq> set (n_candidates n) \<and> sorted kept \<and> distinct kept \<and>
     (kept \<noteq> [] \<longrightarrow> (\<forall>i \<in> set (n_candidates n). n_ids n ! i \<in> set (Selected rec) \<or>
        (Mechanism rec = ''engine'' \<and> n_ids n ! i \<in> set (rec_Potential rec)) \<longrightarrow> i \<in> set kept))"

lemma built_sorted: "built n \<Longrightarrow> sorted (filter P (n_candidates n)) \<and> distinct (filter P (n_candidates n))"
  by (simp add: built_def sorted_wrt_filter)

lemma widen_keeps:
  assumes n: "built n" and rec: "Selected rec = Picks sel" "rec_Potential rec = Potential sel"
  shows "\<exists>kept rec'. widen n links sel history rec = Some (kept, rec') \<and> keeps_selected n kept rec' \<and>
    Narrowed rec' = Narrowed rec \<and> Kept rec' = Kept rec \<and> CandidatesBefore rec' = CandidatesBefore rec"
proof -
  obtain kept rec' where run: "widen n links sel history rec = Some (kept, rec')"
    using path_tables_total by (fastforce simp: widen_def Let_def)
  have "i \<in> set kept" if "i \<in> set (n_candidates n)" "n_ids n ! i \<in> set (Picks sel) \<union> set (Potential sel)" for i
  proof -
    have "index_of n (n_ids n ! i) = i" using lookup_exact [OF that(1) n] by (simp add: index_of_def)
    then have "i \<in> index_of n ` (set (Picks sel) \<union> set (Potential sel))" using that(2) by (metis image_eqI)
    then show ?thesis using run that(1) by (auto simp: widen_def Let_def)
  qed
  moreover have "\<exists>P. kept = filter P (n_candidates n)" "Selected rec' = Picks sel" "rec_Potential rec' = Potential sel"
    "Narrowed rec' = Narrowed rec" "Kept rec' = Kept rec" "CandidatesBefore rec' = CandidatesBefore rec"
    using run rec by (auto simp: widen_def Let_def)
  ultimately show ?thesis using run built_sorted [OF n] by (auto simp: keeps_selected_def)
qed


lemma decide_keeps:
  assumes n: "built n"
  shows "\<exists>kept rec' n'. decide lib links k prompt history rec n = Some (kept, rec', n') \<and> keeps_selected n kept rec' \<and>
    Narrowed rec' = Narrowed rec \<and> Kept rec' = Kept rec \<and>
    n' = n\<lparr>coolUntil := coolUntil n', coolStop := coolStop n'\<rparr>"
proof -
  have none: "keeps_selected n [] r" for r by (simp add: keeps_selected_def)
  have rules: "keeps_selected n (indexesOf n scopes) (r\<lparr>Mechanism := ''deterministic'', Provenance := p, Verdict := v, Selected := scopes\<rparr>)" for scopes r p v
    using built_sorted [OF n] by (auto simp: keeps_selected_def indexesOf_def)
  have same: "n = n\<lparr>coolUntil := coolUntil n, coolStop := coolStop n\<rparr>" by simp
  have asked: "\<exists>kept rec' n'. ask lib name engine links k prompt history r n = Some (kept, rec', n') \<and> keeps_selected n kept rec' \<and>
    Narrowed rec' = Narrowed r \<and> Kept rec' = Kept r \<and> n' = n\<lparr>coolUntil := coolUntil n', coolStop := coolStop n'\<rparr>" for name engine r
  proof (cases "engine (request n prompt history)")
    case (Fails err report)
    then show ?thesis using none by (simp add: ask_def Let_def failed_ask_def remember_def)
  next
    case (Answers answer report)
    let ?verr = "case answer_invalid answer of None \<Rightarrow> complete n (answer_Scores answer) | Some v \<Rightarrow> Some v"
    show ?thesis
    proof (cases "?verr = None \<and> sel_Actionable (Evaluate lib answer)")
      case True
      obtain r1 where r1: "ask lib name engine links k prompt history r n =
          map_option (\<lambda>(kept, rec2). (kept, rec2, n)) (widen n links (Evaluate lib answer) history r1)"
        "Selected r1 = Picks (Evaluate lib answer)" "rec_Potential r1 = Potential (Evaluate lib answer)"
        "Narrowed r1 = Narrowed r" "Kept r1 = Kept r"
        using True Answers by (simp add: ask_def Let_def judged_record_def)
      from widen_keeps [OF n r1(2,3)] r1(1,4,5) same show ?thesis by fastforce
    next
      case False
      then show ?thesis using none Answers
        by (cases ?verr) (simp_all add: ask_def Let_def failed_ask_def remember_def judged_record_def)
    qed
  qed
  note asked = asked [of _ _ "rec\<lparr>Attempts := report\<rparr>" for report, simplified]
  show ?thesis using none rules same asked by (auto simp: decide_def Let_def split: prod.splits option.splits)
qed

text \<open>A schema of three tables, an engine that picks the first and one that is out of quota.\<close>

definition ex_table :: "string \<Rightarrow> relation" where
  "ex_table name = \<lparr>r_Schema = ''main'', r_Name = name, r_Columns = [''id''], r_rest = []\<rparr>"

definition ex_narrower :: narrower where
  "ex_narrower = \<lparr>n_relations = [ex_table ''orders'', ex_table ''users'', ex_table ''audit''], n_ids = [], n_candidates = [],
     byQual = [], byName = [], n_coolDown = defaultCoolDown, n_fullBytes = 4000, n_product = ''datatug'', n_policyName = ''default'',
     schema_format = (\<lambda>rs. concat (map r_Name rs)), str_ToLower = (\<lambda>s. s), str_EqualFold = (\<lambda>a b. a = b),
     strconv_Quote = (\<lambda>s. s), coolUntil = 0, coolStop = []\<rparr>"

definition ex_answer :: answer_t where
  "ex_answer = \<lparr>answer_Scores = [\<lparr>s_ID = ''orders'', s_Probability = 1\<rparr>, \<lparr>s_ID = ''users'', s_Probability = 0\<rparr>,
       \<lparr>s_ID = ''audit'', s_Probability = 0\<rparr>],
     Calibrated = True, answer_Engine = [], answer_Model = ''m'', answer_In = 10, answer_Out = 2, answer_invalid = None\<rparr>"

definition ex_lib :: "engine_reply \<Rightarrow> decision_lib" where
  "ex_lib reply = \<lparr>chain_Decide = (\<lambda>_. (None, [])), engine_of = Some (''jev'', \<lambda>_. reply),
     Evaluate = (\<lambda>_. \<lparr>sel_Outcome = ''decided'', sel_Actionable = True, sel_Detail = [], Picks = [''orders''], Strong = [''orders''],
       Potential = [''users''], Proposals = []\<rparr>),
     NewAnswer = (\<lambda>s. s), MergeReport = (\<lambda>r a. r @ [a]), InvalidDetail = (\<lambda>s. s)\<rparr>"

definition ex_clock :: clock_t where
  "ex_clock = \<lparr>k_start = 1, k_cool = 2, k_began = 3, k_answered = 4, k_remember = 5, k_end = 6\<rparr>"

definition ex_quota :: engine_error where
  "ex_quota = \<lparr>is_Quota = True, is_Budget = False, is_Misconfigured = False, is_Unavailable = False, is_Unsupported = False,
     is_Auth = False, is_InvalidRequest = False, is_Deadline = False, is_Canceled = False, error_text = ''quota''\<rparr>"



lemma index_fields [simp]:
  "n_relations (index n) = n_relations n" "n_fullBytes (index n) = n_fullBytes n"
  "schema_format (index n) = schema_format n" "strconv_Quote (index n) = strconv_Quote n"
  "n_ids (index n) = candidateIDs (n_relations n)" "n_coolDown (index n) = n_coolDown n"
  by (simp_all add: index_def Let_def)

lemma noteFor_nonempty: "noteFor quote a b omitted \<noteq> []"
  by (simp add: noteFor_def split: prod.splits)

text \<open>The relations whose definitions stay: those without an id and those kept.\<close>

definition staying :: "narrower \<Rightarrow> string list \<Rightarrow> relation list" where
  "staying n kept = map (\<lambda>i. n_relations n ! i)
     (filter (\<lambda>i. n_ids n ! i = [] \<or> n_ids n ! i \<in> set kept) [0..<length (n_relations n)])"

lemma apply_kept_cases:
  assumes n: "built n" and kept: "set kept \<subseteq> set (n_candidates n)"
  obtains (full) "apply_kept n kept rec = ([], rec\<lparr>FallbackReason := ''no_reduction''\<rparr>)"
  | (narrowed) ids hint context' where "apply_kept n kept rec =
        (context', rec\<lparr>Narrowed := True, Kept := ids, CandidatesAfter := length ids, ContextBytesAfter := length context'\<rparr>)"
      "set ids = (\<lambda>i. n_ids n ! i) ` set kept" "length ids < length (n_candidates n)"
      "context' = hint @ [CHR 0x0A] @ schema_format n (staying n ids)" "100 * length context' \<le> 75 * n_fullBytes n"
proof -
  let ?all = "[0..<length (n_relations n)]"
  let ?ids = "map (\<lambda>i. n_ids n ! i) (filter (\<lambda>i. n_ids n ! i \<noteq> [] \<and> i \<in> set kept) ?all)"
  let ?omitted = "filter (\<lambda>i. n_ids n ! i \<noteq> [] \<and> i \<notin> set kept) ?all"
  have cs: "n_candidates n = filter (\<lambda>i. n_ids n ! i \<noteq> []) ?all" using n by (simp add: built_def)
  have ids: "set ?ids = (\<lambda>i. n_ids n ! i) ` set kept" using kept cs by auto
  have count: "length ?ids + length ?omitted = length (n_candidates n)"
    using sum_length_filter_compl [of "\<lambda>i. i \<in> set kept" "n_candidates n"] by (simp add: cs conj_commute)
  have "i \<in> set kept" if i: "n_ids n ! i \<in> set ?ids" "n_ids n ! i \<noteq> []" "i < length (n_relations n)" for i
  proof -
    obtain j where j: "j \<in> set kept" "n_ids n ! i = n_ids n ! j" using i(1) ids by auto
    then have "lookup_id n (n_ids n ! i) True = Some j" using lookup_exact [OF _ n, of j] kept by auto
    moreover have "lookup_id n (n_ids n ! i) True = Some i" using lookup_exact [OF _ n, of i] i(2,3) cs by simp
    ultimately show ?thesis using j(1) by simp
  qed
  then have "(n_ids n ! i = [] \<or> i \<in> set kept) = (n_ids n ! i = [] \<or> n_ids n ! i \<in> set ?ids)"
    if "i \<in> set ?all" for i using that unfolding ids by (metis atLeastLessThan_iff image_eqI set_upt)
  then have stay: "map (\<lambda>i. n_relations n ! i) (kept_relations n kept) = staying n ?ids"
    unfolding kept_relations_def staying_def by (intro arg_cong [of _ _ "map _"] filter_cong refl)
  let ?hint = "noteFor (strconv_Quote n) (length ?ids) (length (n_candidates n)) (map (\<lambda>i. n_ids n ! i) ?omitted)"
  let ?text = "?hint @ [CHR 0x0A] @ schema_format n (staying n ?ids)"
  show thesis
  proof (cases "?omitted = [] \<or> length ?text * 100 > n_fullBytes n * 75")
    case True
    then show thesis by (intro full) (auto simp: apply_kept_def Let_def minReductionPercent_def stay)
  next
    case False
    then have "length ?ids < length (n_candidates n)" using count length_greater_0_conv [of ?omitted] by linarith
    then show thesis using False
      by (intro narrowed [OF _ ids _ refl, of ?hint]) (auto simp: apply_kept_def Let_def minReductionPercent_def stay)
  qed
qed

text \<open>
  C34: a turn's narrowing always returns, and it either leaves the full schema (no context
  and nothing recorded as kept) or replaces it by a context that is at most three quarters
  of its size: the note, then the definitions of the kept relations and of those that have
  no id.  The kept relations are candidates, fewer than all of them, and they have every
  candidate a rule or the engine selected and every one the engine called potential.
\<close>

theorem narrow_safe:
  "\<exists>context' rec n'. Narrow lib links k prompt history (index n) = Some (context', rec, n') \<and>
     (if Narrowed rec
      then (\<exists>hint. context' = hint @ [CHR 0x0A] @ schema_format n (staying (index n) (Kept rec))) \<and>
        100 * length context' \<le> 75 * n_fullBytes n \<and>
        set (Kept rec) \<subseteq> set (Candidates (index n)) \<and> length (Kept rec) < length (Candidates (index n)) \<and>
        set (Selected rec) \<inter> set (Candidates (index n)) \<subseteq> set (Kept rec) \<and>
        (Mechanism rec = ''engine'' \<longrightarrow> set (rec_Potential rec) \<inter> set (Candidates (index n)) \<subseteq> set (Kept rec))
      else context' = [] \<and> Kept rec = [])"
proof -
  let ?n = "index n" and ?rec = "empty_record lib (index n) (k_start k)"
  obtain kept rec n' where run: "decide lib links k prompt history ?rec ?n = Some (kept, rec, n')"
    and ok: "keeps_selected ?n kept rec" and rec: "\<not> Narrowed rec" "Kept rec = []"
    using decide_keeps [OF built_index, of lib links k prompt history ?rec n] by (auto simp: empty_record_def)
  have kept: "set kept \<subseteq> set (n_candidates ?n)" using ok by (simp add: keeps_selected_def)
  show ?thesis
  proof (cases "kept = []")
    case True
    then show ?thesis using run rec by (simp add: Narrow_def)
  next
    case False
    have chosen: "\<lbrakk>Mechanism r = Mechanism rec; Selected r = Selected rec; rec_Potential r = rec_Potential rec;
        set ids = (\<lambda>i. n_ids ?n ! i) ` set kept\<rbrakk> \<Longrightarrow>
        set (Selected r) \<inter> set (Candidates ?n) \<subseteq> set ids \<and>
        (Mechanism r = ''engine'' \<longrightarrow> set (rec_Potential r) \<inter> set (Candidates ?n) \<subseteq> set ids)" for r ids
      using ok False by (auto simp: keeps_selected_def Candidates_def simp del: index_fields)
    have among: "(\<lambda>i. n_ids ?n ! i) ` set kept \<subseteq> set (Candidates ?n)" using kept by (auto simp: Candidates_def simp del: index_fields)
    show ?thesis
    proof (rule apply_kept_cases [OF built_index kept, of rec])
      assume "apply_kept ?n kept rec = ([], rec\<lparr>FallbackReason := ''no_reduction''\<rparr>)"
      then show ?thesis using run rec False by (simp add: Narrow_def)
    next
      fix ids hint context'
      assume apply': "apply_kept ?n kept rec =
          (context', rec\<lparr>Narrowed := True, Kept := ids, CandidatesAfter := length ids, ContextBytesAfter := length context'\<rparr>)"
        and ids: "set ids = (\<lambda>i. n_ids ?n ! i) ` set kept" "length ids < length (n_candidates ?n)"
        and text': "context' = hint @ [CHR 0x0A] @ schema_format ?n (staying ?n ids)" "100 * length context' \<le> 75 * n_fullBytes ?n"
      have "length ids < length (Candidates ?n)" using ids(2) by (simp add: Candidates_def)
      then show ?thesis using run apply' False chosen [OF _ _ _ ids(1)] among ids(1) text'
        by (auto simp: Narrow_def)
    qed
  qed
qed

lemma ex_applied:
  "Narrowed (snd (apply_kept (index ex_narrower) [0, 1] rec))"
  "Mechanism (snd (apply_kept (index ex_narrower) [0, 1] rec)) = Mechanism rec"
proof -
  have fields: "strconv_Quote ex_narrower = (\<lambda>s. s)" "n_fullBytes ex_narrower = 4000"
    "schema_format ex_narrower = (\<lambda>rs. concat (map r_Name rs))" "n_relations ex_narrower = [ex_table ''orders'', ex_table ''users'', ex_table ''audit'']"
    by (simp_all add: ex_narrower_def)
  have ids: "candidateIDs [ex_table ''orders'', ex_table ''users'', ex_table ''audit''] = [''orders'', ''users'', ''audit'']" by code_simp
  have cs: "n_candidates (index ex_narrower) = [0, 1, 2]" by code_simp
  have digits: "show_nat (Suc (Suc 0)) = ''2''" "show_nat (Suc (Suc (Suc 0))) = ''3''" by code_simp+
  have names: "r_Name (ex_table name) = name" for name by (simp add: ex_table_def)
  have hint: "length (noteFor (\<lambda>s. s) (Suc (Suc 0)) (Suc (Suc (Suc 0))) [''audit'']) \<le> 400"
    by (simp add: noteFor_def digits maxOmittedBytes_def)
  show "Narrowed (snd (apply_kept (index ex_narrower) [0, 1] rec))"
    using hint by (simp add: apply_kept_def ids cs kept_relations_def fields minReductionPercent_def names Let_def)
  show "Mechanism (snd (apply_kept (index ex_narrower) [0, 1] rec)) = Mechanism rec" by (simp add: apply_kept_def Let_def)
qed

theorem narrow_safe_witness:
  "\<exists>context' rec n'. Narrow (ex_lib (Answers ex_answer [])) None ex_clock ''q'' \<lparr>Questions = [], history_Kept = []\<rparr> (index ex_narrower) =
       Some (context', rec, n') \<and> Narrowed rec \<and> Mechanism rec = ''engine'' \<and> 100 * length context' \<le> 75 * n_fullBytes ex_narrower \<and>
     set (rec_Potential rec) \<inter> set (Candidates (index ex_narrower)) \<subseteq> set (Kept rec)"
proof -
  let ?run = "Narrow (ex_lib (Answers ex_answer [])) None ex_clock ''q'' \<lparr>Questions = [], history_Kept = []\<rparr> (index ex_narrower)"
  note safe = narrow_safe [of "ex_lib (Answers ex_answer [])" None ex_clock "''q''" "\<lparr>Questions = [], history_Kept = []\<rparr>" ex_narrower]
  let ?decided = "decide (ex_lib (Answers ex_answer [])) None ex_clock ''q'' \<lparr>Questions = [], history_Kept = []\<rparr>
    (empty_record (ex_lib (Answers ex_answer [])) (index ex_narrower) (k_start ex_clock)) (index ex_narrower)"
  have "map_option (\<lambda>(kept, r, m). (kept, Mechanism r)) ?decided = Some ([0, 1], ''engine'')" by code_simp
  then obtain r m where decided: "?decided = Some ([0, 1], r, m)" "Mechanism r = ''engine''"
    by (auto simp only: map_option_eq_Some prod.case prod.inject)
  obtain context' rec n' where run: "?run = Some (context', rec, n')" and rec: "Narrowed rec" "Mechanism rec = ''engine''"
    using ex_applied [of r] decided(2) by (cases "apply_kept (index ex_narrower) [0, 1] r") (simp add: Narrow_def decided(1))
  from safe [unfolded run option.inject prod.inject] rec
  have "100 * length context' \<le> 75 * n_fullBytes ex_narrower"
    "set (rec_Potential rec) \<inter> set (Candidates (index ex_narrower)) \<subseteq> set (Kept rec)" by metis+
  then show ?thesis using run rec by (intro exI [of _ context'] exI [of _ rec] exI [of _ n'] conjI)
qed

text \<open>
  An engine that failed is left alone.  After a turn in which it was asked and failed
  (other than by the user's cancelling), until the cool-down is over no turn asks it: the
  turn keeps the full schema, whatever the engine would answer, with the reason of the
  failure when it was a stop.  From then on it is asked again, and a cancelled call
  starts no cool-down.
\<close>

theorem cool_down:
  assumes "n_candidates n \<noteq> []" "length (n_candidates n) \<le> 255" "chain_Decide lib prompt = (None, attempts)"
    and "engine_of lib = Some (name, engine)" "coolUntil n \<le> k_cool k"
    and "engine (request n prompt history) = Fails err report"
  shows "\<exists>rec' n'. decide lib links k prompt history rec n = Some ([], rec', n') \<and> FallbackReason rec' = outcomeOf err \<and>
    (if outcomeOf err = ''cancelled'' then n' = n
     else \<forall>lib2 links2 k2 prompt2 history2 rec2 attempts2 name2 engine2.
       chain_Decide lib2 prompt2 = (None, attempts2) \<and> engine_of lib2 = Some (name2, engine2) \<longrightarrow>
         decide lib2 links2 k2 prompt2 history2 rec2 n' =
           (if k_cool k2 < k_remember k + n_coolDown n
            then Some ([], rec2\<lparr>Attempts := attempts2, FallbackReason := ''cooling_down'',
                StoppedBy := (if outcomeOf err \<in> {''quota'', ''budget'', ''misconfigured''} then outcomeOf err else [])\<rparr>, n')
            else ask lib2 name2 engine2 links2 k2 prompt2 history2 (rec2\<lparr>Attempts := attempts2\<rparr>) n'))"
  using assms by (simp add: decide_def ask_def Let_def maxCandidates_def coolingDown_def coolsDown_def failed_ask_def remember_def)

theorem cool_down_witness:
  "\<exists>rec' n'. decide (ex_lib (Fails ex_quota [])) None ex_clock ''q'' \<lparr>Questions = [], history_Kept = []\<rparr>
       (empty_record (ex_lib (Fails ex_quota [])) ex_narrower 1) (index ex_narrower) = Some ([], rec', n') \<and>
     FallbackReason rec' = ''quota''"
proof -
  let ?lib = "ex_lib (Fails ex_quota [])" and ?n = "index ex_narrower"
  have "n_candidates ?n = [0, 1, 2]" by code_simp
  then have some: "n_candidates ?n \<noteq> []" and few: "length (n_candidates ?n) \<le> 255" by simp_all
  have lib: "chain_Decide ?lib ''q'' = (None, [])" "engine_of ?lib = Some (''jev'', \<lambda>_. Fails ex_quota [])" by (simp_all add: ex_lib_def)
  have ready: "coolUntil ?n \<le> k_cool ex_clock" by (simp add: index_def Let_def ex_narrower_def ex_clock_def)
  obtain rec' n' where "decide ?lib None ex_clock ''q'' \<lparr>Questions = [], history_Kept = []\<rparr> (empty_record ?lib ex_narrower 1) ?n = Some ([], rec', n')"
    "FallbackReason rec' = outcomeOf ex_quota"
    using cool_down [OF some few lib ready refl, of None "\<lparr>Questions = [], history_Kept = []\<rparr>" "empty_record ?lib ex_narrower 1"] by (elim exE conjE)
  then show ?thesis by (auto simp: outcomeOf_def ex_quota_def)
qed


section \<open>Project rules\<close>

lemma parseRule_ok: "parseRule canon entry = Inr r \<Longrightarrow> canon (Phrase r) \<noteq> [] \<and> Tables r \<noteq> []"
  by (auto simp: parseRule_def res_simps split: if_splits)

lemma parse_items_ok:
  "parse_items canon items n seen = (rs, ws) \<Longrightarrow>
     (\<forall>r \<in> set rs. canon (Phrase r) \<noteq> [] \<and> Tables r \<noteq> [] \<and> canon (Phrase r) \<notin> set seen) \<and>
     distinct (map (\<lambda>r. canon (Phrase r)) rs) \<and> length rs + length ws = length items"
proof (induction items arbitrary: n seen rs ws)
  case (Cons item items)
  have skip: ?case if "\<exists>p. parse_items canon (item # items) n seen =
      (case parse_items canon items (Suc n) seen of (rs', ws') \<Rightarrow> (rs', (n, p) # ws'))"
    using that Cons.IH [of "Suc n" seen] Cons.prems by (auto split: prod.splits)
  show ?case
  proof (cases item)
    case (YMapping entry)
    show ?thesis
    proof (cases "parseRule canon entry")
      case (Inr r)
      obtain rs' ws' where rest: "parse_items canon items (Suc n) (canon (Phrase r) # seen) = (rs', ws')" by fastforce
      show ?thesis using Cons.IH [OF rest] Cons.prems YMapping Inr rest parseRule_ok [OF Inr]
        by (fastforce simp: Let_def split: if_splits)
    qed (use skip YMapping in auto)
  qed (use skip in auto)
qed simp

lemma rulesProvider_builds:
  "\<forall>r \<in> set rs. canon (Phrase r) \<noteq> [] \<and> Tables r \<noteq> [] \<and> canon (Phrase r) \<notin> fst ` set built' \<Longrightarrow>
     distinct (map (\<lambda>r. canon (Phrase r)) rs) \<Longrightarrow>
     rulesProvider canon rs n built' = Inr (built' @ map (\<lambda>r. (canon (Phrase r), Tables r)) rs)"
proof (induction rs arbitrary: n built')
  case (Cons r rs)
  then have "map_of built' (canon (Phrase r)) = None" by (simp add: map_of_eq_None_iff)
  moreover have "\<forall>r' \<in> set rs. canon (Phrase r') \<noteq> [] \<and> Tables r' \<noteq> [] \<and> canon (Phrase r') \<notin> fst ` set (built' @ [(canon (Phrase r), Tables r)])"
    using Cons.prems by (auto simp: image_iff eq_commute)
  ultimately show ?case using Cons by (simp add: Let_def)
qed simp

text \<open>
  Every settings file the parser reads gives rules the provider accepts: whatever the
  decoded value, the rules that were not skipped have distinct normalized phrases and
  tables, \<open>rulesProvider\<close> builds each of them, and every skipped item has its warning.
\<close>

theorem parsed_rules_build:
  "case parseRules canon v of (rs, ws) \<Rightarrow>
     rulesProvider canon rs 1 [] = Inr (map (\<lambda>r. (canon (Phrase r), Tables r)) rs) \<and>
     distinct (map (\<lambda>r. canon (Phrase r)) rs) \<and>
     (case v of YSeq items \<Rightarrow> length rs + length ws = length items | _ \<Rightarrow> rs = [] \<and> ws = [(0, NotList)])"
proof (cases v)
  case (YSeq items)
  obtain rs ws where run: "parse_items canon items (Suc 0) [] = (rs, ws)" by fastforce
  from parse_items_ok [OF run] rulesProvider_builds [of rs canon "[]" "Suc 0"] show ?thesis
    by (simp add: parseRules_def YSeq run)
qed (simp_all add: parseRules_def)

end
