(* ===== verification/Filters.thy ===== *)
theory Filters
  imports Go_Text Go_Number
begin

text \<open>
  Which tables and rows a database copy takes: the filter package
  (\<open>src/pkg/dbcopy/filter\<close>: flags, operators, validation, coercion, edit distance, table
  selection, compilation), the commands that build it
  (\<open>cmd_db_copy.go\<close>, \<open>cmd_db_copy_faithful.go\<close>) and the WHERE clause of the faithful
  engine (\<open>faithful/rowfilter.go\<close>, with the declared types of \<open>decl.go\<close>).  Parsing of
  floating-point and time texts and the formatting of times are parameters.
\<close>


section \<open>Directives\<close>

record predicate =
  p_Field :: string
  p_Operator :: string
  p_Value :: string

datatype group_operator = And_group | Or_group

datatype predicate_group = PredicateGroup group_operator "predicate list" "predicate_group list"

fun group_Conditions :: "predicate_group \<Rightarrow> predicate list" where
  "group_Conditions (PredicateGroup _ conditions _) = conditions"

record column_rule =
  c_Include :: "string list"
  c_Exclude :: "string list"

record directives =
  IncludeTables :: "string list"
  ExcludeTables :: "string list"
  d_Where :: "(string \<times> predicate_group) list"
  LimitsByTable :: "(string \<times> int) list"
  PerTableColumns :: "(string \<times> column_rule option) list"
  GlobalExcludeColumns :: "string list"

definition no_directives :: directives where
  "no_directives = \<lparr>IncludeTables = [], ExcludeTables = [], d_Where = [], LimitsByTable = [], PerTableColumns = [], GlobalExcludeColumns = []\<rparr>"

definition IsEmpty :: "directives \<Rightarrow> bool" where
  "IsEmpty d \<longleftrightarrow> IncludeTables d = [] \<and> ExcludeTables d = [] \<and> d_Where d = [] \<and> LimitsByTable d = [] \<and>
     PerTableColumns d = [] \<and> GlobalExcludeColumns d = []"

definition HasRowFilters :: "directives \<Rightarrow> bool" where
  "HasRowFilters d \<longleftrightarrow> d_Where d \<noteq> [] \<or> LimitsByTable d \<noteq> []"

datatype filter_error =
    IncludeAndExclude | ColumnsAndExclude string | MissingTables string "string list"
  | WhereParts nat | WhereNames | UnsupportedOperator string | LimitShape | LimitTable | LimitNotInteger string
  | LimitNotPositive int | LimitTwice string | MixedConfig | ConfigError
  | UnknownField string string string | KnownFields string string "string list" | NoField string string
  | NotInteger string | NotNumber string | NotBoolean string | NotDate string
  | Coercion string string string filter_error | Compiling string string filter_error
  | TableMissing string | TableNotCopied string

definition PreValidate :: "directives \<Rightarrow> filter_error + unit" where
  "PreValidate d =
     (if IncludeTables d \<noteq> [] \<and> ExcludeTables d \<noteq> [] then Inl IncludeAndExclude
      else case find (\<lambda>(_, rule). case rule of None \<Rightarrow> False | Some r \<Rightarrow> c_Include r \<noteq> [] \<and> c_Exclude r \<noteq> []) (PerTableColumns d) of
        Some (table, _) \<Rightarrow> Inl (ColumnsAndExclude table)
      | None \<Rightarrow> Inr ())"

definition check_present :: "string list \<Rightarrow> string list \<Rightarrow> string \<Rightarrow> filter_error + unit" where
  "check_present present names flag =
     (let missing = filter (\<lambda>n. n \<notin> set present) names in
      if missing \<noteq> [] then Inl (MissingTables flag missing) else Inr ())"

text \<open>The collections of the source, by the function that names one.\<close>

definition ApplyTableFilter :: "('r \<Rightarrow> string) \<Rightarrow> 'r list \<Rightarrow> directives \<Rightarrow> filter_error + 'r list" where
  "ApplyTableFilter name refs d =
     (if IsEmpty d then Inr refs
      else rbind (check_present (map name refs) (IncludeTables d) ''--include'') (\<lambda>_.
           rbind (check_present (map name refs) (ExcludeTables d) ''--exclude'') (\<lambda>_.
             if IncludeTables d \<noteq> [] then Inr (filter (\<lambda>r. name r \<in> set (IncludeTables d)) refs)
             else if ExcludeTables d \<noteq> [] then Inr (filter (\<lambda>r. name r \<notin> set (ExcludeTables d)) refs)
             else Inr refs)))"


section \<open>Operators and coercion\<close>

datatype dal_operator = Equal | LessThen | LessOrEqual | GreaterThen | GreaterOrEqual | In_list

definition supportedOperators :: "string list" where
  "supportedOperators = [''='', ''<'', ''<='', ''>'', ''>='', ''in'']"

definition operatorToDal :: "string \<Rightarrow> dal_operator option" where
  "operatorToDal = map_of [(''='', Equal), (''<'', LessThen), (''<='', LessOrEqual), (''>'', GreaterThen),
     (''>='', GreaterOrEqual), (''in'', In_list)]"

definition ParseOperator :: "string \<Rightarrow> filter_error + dal_operator" where
  "ParseOperator token = (case operatorToDal token of None \<Rightarrow> Inl (UnsupportedOperator token) | Some op \<Rightarrow> Inr op)"

datatype schema_type = TNull | TBool | TInt | TFloat | TDecimal | TString | TBytes | TTime

text \<open>A time is its instant and the offset of its zone in seconds.\<close>

record zoned =
  z_instant :: time
  z_offset :: int

datatype coerced = CInt int | CFloat float64 | CBool bool | CTime zoned | CText string

record filter_env =
  strconv_ParseFloat :: "string \<Rightarrow> float64 option"
  parse_DateOnly :: "string \<Rightarrow> zoned option"
  parse_RFC3339 :: "string \<Rightarrow> zoned option"
  format_UTC :: "string \<Rightarrow> time \<Rightarrow> string"

definition ParseBool :: "string \<Rightarrow> bool option" where
  "ParseBool s =
     (if s \<in> set [''1'', ''t'', ''T'', ''TRUE'', ''true'', ''True''] then Some True
      else if s \<in> set [''0'', ''f'', ''F'', ''FALSE'', ''false'', ''False''] then Some False else None)"

definition CoerceValue :: "filter_env \<Rightarrow> string \<Rightarrow> schema_type \<Rightarrow> filter_error + coerced" where
  "CoerceValue env raw colType =
     (case colType of
        TInt \<Rightarrow> (case ParseInt raw of None \<Rightarrow> Inl (NotInteger raw) | Some v \<Rightarrow> Inr (CInt v))
      | TFloat \<Rightarrow> (case strconv_ParseFloat env raw of None \<Rightarrow> Inl (NotNumber raw) | Some v \<Rightarrow> Inr (CFloat v))
      | TDecimal \<Rightarrow> (case strconv_ParseFloat env raw of None \<Rightarrow> Inl (NotNumber raw) | Some v \<Rightarrow> Inr (CFloat v))
      | TBool \<Rightarrow> (case ParseBool (ToLower raw) of None \<Rightarrow> Inl (NotBoolean raw) | Some v \<Rightarrow> Inr (CBool v))
      | TTime \<Rightarrow>
          (case parse_DateOnly env raw of
             Some t \<Rightarrow> Inr (CTime t)
           | None \<Rightarrow> (case parse_RFC3339 env raw of Some t \<Rightarrow> Inr (CTime t) | None \<Rightarrow> Inl (NotDate raw)))
      | _ \<Rightarrow> Inr (CText raw))"


section \<open>Edit distance and validation\<close>

definition min3 :: "nat \<Rightarrow> nat \<Rightarrow> nat \<Rightarrow> nat" where
  "min3 a b c = (if a < b then (if a < c then a else c) else if b < c then b else c)"

text \<open>One row of the table from the row before; \<open>left\<close> is the entry just written.\<close>

fun fill_row :: "char \<Rightarrow> string \<Rightarrow> nat list \<Rightarrow> nat \<Rightarrow> nat list" where
  "fill_row x (y # ys) (p # q # prev) left =
     (let curr = min3 (q + 1) (left + 1) (p + (if x = y then 0 else 1))
      in curr # fill_row x ys (q # prev) curr)"
| "fill_row x ys prev left = []"

fun lev_rows :: "string \<Rightarrow> string \<Rightarrow> nat \<Rightarrow> nat list \<Rightarrow> nat list" where
  "lev_rows [] b i prev = prev"
| "lev_rows (x # a) b i prev = lev_rows a b (i + 1) (i # fill_row x b prev i)"

definition levenshtein :: "string \<Rightarrow> string \<Rightarrow> nat" where
  "levenshtein a b =
     (let (a, b) = (if length a < length b then (b, a) else (a, b))
      in lev_rows a b 1 [0..<length b + 1] ! length b)"

type_synonym field_def = "string \<times> schema_type"

definition findColumn :: "field_def list \<Rightarrow> string \<Rightarrow> field_def option" where
  "findColumn def name = find (\<lambda>c. fst c = name) def"

definition knownColumnNames :: "field_def list \<Rightarrow> string list" where
  "knownColumnNames def = map fst def"

fun closest_from :: "field_def list \<Rightarrow> string \<Rightarrow> string \<Rightarrow> nat \<Rightarrow> string" where
  "closest_from [] want best bestDist = best"
| "closest_from (c # cs) want best bestDist =
     (let d = levenshtein (fst c) want in
      if d < bestDist then closest_from cs want (fst c) d else closest_from cs want best bestDist)"

definition closestColumnName :: "field_def list \<Rightarrow> string \<Rightarrow> string" where
  "closestColumnName def want = closest_from def want [] 3"

definition ValidateWhereAgainstSchema :: "filter_env \<Rightarrow> string \<Rightarrow> predicate \<Rightarrow> field_def list \<Rightarrow> filter_error + unit" where
  "ValidateWhereAgainstSchema env table p def =
     (case findColumn def (p_Field p) of
        None \<Rightarrow>
          (let suggestion = closestColumnName def (p_Field p) in
           if suggestion \<noteq> [] then Inl (UnknownField table (p_Field p) suggestion)
           else if knownColumnNames def \<noteq> [] then Inl (KnownFields table (p_Field p) (knownColumnNames def))
           else Inl (NoField table (p_Field p)))
      | Some col \<Rightarrow>
          (case CoerceValue env (p_Value p) (snd col) of
             Inl err \<Rightarrow> Inl (Coercion table (p_Field p) (p_Value p) err) | Inr _ \<Rightarrow> Inr ()))"

fun compile_conditions :: "filter_env \<Rightarrow> string \<Rightarrow> predicate list \<Rightarrow> field_def list \<Rightarrow>
    filter_error + (string \<times> dal_operator \<times> coerced) list" where
  "compile_conditions env table [] def = Inr []"
| "compile_conditions env table (p # ps) def =
     rbind (ValidateWhereAgainstSchema env table p def) (\<lambda>_.
       case ParseOperator (p_Operator p) of
         Inl err \<Rightarrow> Inl (Compiling table (p_Field p) err)
       | Inr op \<Rightarrow>
           (case CoerceValue env (p_Value p) (snd (the (findColumn def (p_Field p)))) of
              Inl err \<Rightarrow> Inl (Compiling table (p_Field p) err)
            | Inr value \<Rightarrow> rbind (compile_conditions env table ps def) (\<lambda>conds. Inr ((p_Field p, op, value) # conds))))"

definition CompileWhereForTable :: "filter_env \<Rightarrow> string \<Rightarrow> predicate_group option \<Rightarrow> field_def list \<Rightarrow>
    filter_error + (string \<times> dal_operator \<times> coerced) list" where
  "CompileWhereForTable env table grp def =
     (case grp of None \<Rightarrow> Inr [] | Some g \<Rightarrow> compile_conditions env table (group_Conditions g) def)"


section \<open>Flags\<close>

definition ParseTableList :: "string \<Rightarrow> string list" where
  "ParseTableList s = (if s = [] then [] else filter (\<lambda>p. p \<noteq> []) (map TrimSpace (SplitByte (CHR '','') s)))"

fun split_from :: "char \<Rightarrow> char \<Rightarrow> string \<Rightarrow> string \<Rightarrow> string list" where
  "split_from sep escape [] cur = [cur]"
| "split_from sep escape [c] cur = (if c = sep then [cur, []] else [cur @ [c]])"
| "split_from sep escape (c # d # s) cur =
     (if c = escape \<and> d = sep then split_from sep escape s (cur @ [sep])
      else if c = sep then cur # split_from sep escape (d # s) []
      else split_from sep escape (d # s) (cur @ [c]))"

definition splitUnescaped :: "string \<Rightarrow> char \<Rightarrow> char \<Rightarrow> string list" where
  "splitUnescaped s sep escape = split_from sep escape s []"

definition ParseWhereFlag :: "string \<Rightarrow> filter_error + string \<times> predicate" where
  "ParseWhereFlag s =
     (case splitUnescaped s (CHR '':'') (CHR 0x5C) of
        [table, field, op, value] \<Rightarrow>
          (let table = TrimSpace table; field = TrimSpace field; op = TrimSpace op in
           if table = [] \<or> field = [] then Inl WhereNames
           else rbind (ParseOperator op) (\<lambda>_. Inr (table, \<lparr>p_Field = field, p_Operator = op, p_Value = value\<rparr>)))
      | parts \<Rightarrow> Inl (WhereParts (length parts)))"

definition ParseLimitFlag :: "string \<Rightarrow> filter_error + string \<times> int" where
  "ParseLimitFlag s =
     (case IndexByte s (CHR '':'') of
        None \<Rightarrow> Inl LimitShape
      | Some idx \<Rightarrow>
          (let table = TrimSpace (take idx s); nStr = TrimSpace (drop (idx + 1) s) in
           if table = [] then Inl LimitTable
           else case ParseInt nStr of
             None \<Rightarrow> Inl (LimitNotInteger nStr)
           | Some n \<Rightarrow> if n \<le> 0 then Inl (LimitNotPositive n) else Inr (table, n)))"

definition add_condition :: "directives \<Rightarrow> string \<Rightarrow> predicate \<Rightarrow> directives" where
  "add_condition d table pred =
     (let conditions = (case map_of (d_Where d) table of None \<Rightarrow> [] | Some g \<Rightarrow> group_Conditions g)
      in d\<lparr>d_Where := AList.update table (PredicateGroup And_group (conditions @ [pred]) []) (d_Where d)\<rparr>)"

fun where_flags :: "string list \<Rightarrow> directives \<Rightarrow> filter_error + directives" where
  "where_flags [] d = Inr d"
| "where_flags (raw # raws) d =
     rbind (ParseWhereFlag raw) (\<lambda>(table, pred). where_flags raws (add_condition d table pred))"

fun limit_flags :: "string list \<Rightarrow> directives \<Rightarrow> filter_error + directives" where
  "limit_flags [] d = Inr d"
| "limit_flags (raw # raws) d =
     rbind (ParseLimitFlag raw) (\<lambda>(table, n).
       if map_of (LimitsByTable d) table \<noteq> None then Inl (LimitTwice table)
       else limit_flags raws (d\<lparr>LimitsByTable := LimitsByTable d @ [(table, n)]\<rparr>))"

definition buildDirectivesFromFlags :: "(string \<Rightarrow> directives option) \<Rightarrow> string \<Rightarrow> string \<Rightarrow> string \<Rightarrow> string list \<Rightarrow> string list \<Rightarrow>
    filter_error + directives" where
  "buildDirectivesFromFlags ParseConfigFile configPath include exclude where' limit =
     (if configPath \<noteq> [] \<and> (include \<noteq> [] \<or> exclude \<noteq> [] \<or> where' \<noteq> [] \<or> limit \<noteq> []) then Inl MixedConfig
      else if configPath \<noteq> [] then
        (case ParseConfigFile configPath of
           None \<Rightarrow> Inl ConfigError
         | Some d \<Rightarrow> rbind (PreValidate d) (\<lambda>_. Inr d))
      else
        rbind (where_flags where' (no_directives\<lparr>IncludeTables := ParseTableList include, ExcludeTables := ParseTableList exclude\<rparr>)) (\<lambda>d.
        rbind (limit_flags limit d) (\<lambda>d.
        rbind (PreValidate d) (\<lambda>_. Inr d))))"


section \<open>The WHERE clause of the faithful engine\<close>

record condition =
  cond_Field :: string
  cond_Op :: string
  cond_Value :: string

record row_filter =
  rf_Where :: "condition list"
  rf_Limit :: int

definition rowFilters :: "directives \<Rightarrow> (string \<times> row_filter) list" where
  "rowFilters d =
     (let wheres = map (\<lambda>(table, g). (table, \<lparr>rf_Where = map (\<lambda>p. \<lparr>cond_Field = p_Field p, cond_Op = p_Operator p, cond_Value = p_Value p\<rparr>) (group_Conditions g),
            rf_Limit = 0\<rparr>)) (d_Where d)
      in foldl (\<lambda>out (table, n). AList.update table
           ((case map_of out table of None \<Rightarrow> \<lparr>rf_Where = [], rf_Limit = 0\<rparr> | Some f \<Rightarrow> f)\<lparr>rf_Limit := n\<rparr>) out) wheres (LimitsByTable d))"

datatype engine = SQLite | Postgres

datatype kind = KindOther | KindInt | KindFloat | KindDecimal | KindText | KindBytes | KindBool | KindDate | KindTimestamp
  | KindTimestampTZ | KindTime

record table_column =
  tc_Name :: string
  tc_SourceType :: string
  tc_Kind :: kind

datatype decl_class = declNone | declInt | declFloat | declDecimal | declBareNumeric | declBool | declDate | declTimestamp
  | declTimestampTZ | declTime | declChar | declText | declBlob | declSpecial | declUnknown

record decl_info =
  di_class :: decl_class
  di_base :: string
  di_p :: int
  di_s :: int
  di_n :: int
  di_width :: nat
  di_text :: bool
  di_special :: string

definition re_space :: "char \<Rightarrow> bool" where
  "re_space c \<longleftrightarrow> c \<in> set [CHR '' '', CHR 0x09, CHR 0x0A, CHR 0x0C, CHR 0x0D]"

text \<open>\<open>strconv.Atoi\<close> of digits, its range error dropped: the value is cut at the largest integer.\<close>

definition atoi_digits :: "string \<Rightarrow> int" where
  "atoi_digits ds = min (int (nat_of_digits ds)) (2 ^ 63 - 1)"

text \<open>
  The regular expression \<open>declArgs\<close> on the text after the opening parenthesis: one or two
  numbers, the closing parenthesis and white space.
\<close>

definition decl_args :: "string \<Rightarrow> (int \<times> int) option" where
  "decl_args s =
     (let s1 = dropWhile re_space s; a1 = takeWhile is_digit s1; r1 = dropWhile re_space (dropWhile is_digit s1) in
      if a1 = [] then None
      else case r1 of
        [] \<Rightarrow> None
      | c # r \<Rightarrow>
          if c = CHR '')'' then (if list_all re_space r then Some (atoi_digits a1, - 1) else None)
          else if c \<noteq> CHR '','' then None
          else (let s2 = dropWhile re_space r; a2 = takeWhile is_digit s2; r2 = dropWhile re_space (dropWhile is_digit s2) in
                if a2 \<noteq> [] \<and> r2 \<noteq> [] \<and> hd r2 = CHR '')'' \<and> list_all re_space (tl r2) then Some (atoi_digits a1, atoi_digits a2) else None))"

definition decl_parts :: "string \<Rightarrow> string \<times> int \<times> int" where
  "decl_parts decl =
     (let name = takeWhile (\<lambda>c. c \<noteq> CHR ''('') decl; rest = dropWhile (\<lambda>c. c \<noteq> CHR ''('') decl;
          plain = (\<lambda>s. ToUpper (Join (Fields (rev (dropWhile re_space (rev (dropWhile re_space s))))) '' ''))
      in case rest of
           [] \<Rightarrow> (plain name, - 1, - 1)
         | _ # args \<Rightarrow>
             (case decl_args args of
                Some (a1, a2) \<Rightarrow> (plain name, a1, a2)
              | None \<Rightarrow> (ToUpper (TrimSpace decl), - 1, - 1)))"

definition no_decl :: "string \<Rightarrow> decl_info" where
  "no_decl base = \<lparr>di_class = declUnknown, di_base = base, di_p = - 1, di_s = - 1, di_n = 0, di_width = 0, di_text = False, di_special = []\<rparr>"

definition numeric_decl :: "int \<Rightarrow> int \<Rightarrow> decl_info \<Rightarrow> decl_info" where
  "numeric_decl a1 a2 d = (if a1 \<ge> 1 then d\<lparr>di_class := declDecimal, di_p := a1, di_s := max a2 0\<rparr> else d\<lparr>di_class := declBareNumeric\<rparr>)"

definition parseDecl :: "string \<Rightarrow> decl_info" where
  "parseDecl decl =
     (case decl_parts decl of (base, a1, a2) \<Rightarrow>
      let d = no_decl base in
      if base = [] then d\<lparr>di_class := declNone\<rparr>
      else if base = ''JSON_TEXT'' \<or> base = ''JSONB_TEXT'' \<or> base = ''UUID_TEXT''
        then d\<lparr>di_class := declSpecial, di_special := ToLower (take (length base - 5) base)\<rparr>
      else if base = ''DECIMAL_TEXT'' then numeric_decl a1 a2 (d\<lparr>di_text := True\<rparr>)
      else if base = ''NUMERIC'' \<or> base = ''DECIMAL'' \<or> base = ''NUMBER'' then numeric_decl a1 a2 d
      else if base = ''MONEY'' then d\<lparr>di_class := declBareNumeric\<rparr>
      else if base = ''BOOLEAN'' \<or> base = ''BOOL'' then d\<lparr>di_class := declBool\<rparr>
      else if base = ''DATE'' then d\<lparr>di_class := declDate\<rparr>
      else if base = ''DATETIME'' \<or> base = ''TIMESTAMP'' then d\<lparr>di_class := declTimestamp\<rparr>
      else if base = ''TIMESTAMPTZ'' then d\<lparr>di_class := declTimestampTZ\<rparr>
      else if base = ''TIME'' then d\<lparr>di_class := declTime\<rparr>
      else if base = ''INT2'' then d\<lparr>di_class := declInt, di_width := 2\<rparr>
      else if base = ''INT4'' then d\<lparr>di_class := declInt, di_width := 4\<rparr>
      else if str_contains base ''INT'' then d\<lparr>di_class := declInt, di_width := 8\<rparr>
      else if base = ''FLOAT4'' then d\<lparr>di_class := declFloat, di_width := 4\<rparr>
      else if str_contains base ''REAL'' \<or> str_contains base ''FLOA'' \<or> str_contains base ''DOUB''
        then d\<lparr>di_class := declFloat, di_width := 8\<rparr>
      else if str_contains base ''CHAR'' \<and> a1 > 0 then d\<lparr>di_class := declChar, di_n := a1\<rparr>
      else if str_contains base ''CHAR'' \<or> str_contains base ''CLOB'' \<or> str_contains base ''TEXT'' \<or> base = ''STRING''
        then d\<lparr>di_class := declText\<rparr>
      else if str_contains base ''BLOB'' \<or> base = ''BYTEA'' \<or> base = ''BINARY'' \<or> base = ''VARBINARY'' then d\<lparr>di_class := declBlob\<rparr>
      else d)"

definition sqlite_kind :: "decl_class \<Rightarrow> kind" where
  "sqlite_kind c =
     (case c of declInt \<Rightarrow> KindInt | declFloat \<Rightarrow> KindFloat | declDecimal \<Rightarrow> KindDecimal | declBareNumeric \<Rightarrow> KindDecimal
      | declBool \<Rightarrow> KindBool | declDate \<Rightarrow> KindDate | declTimestamp \<Rightarrow> KindTimestamp | declTimestampTZ \<Rightarrow> KindTimestamp
      | declTime \<Rightarrow> KindTimestamp | declBlob \<Rightarrow> KindBytes | _ \<Rightarrow> KindText)"

definition dbschemaType :: "engine \<Rightarrow> table_column \<Rightarrow> schema_type" where
  "dbschemaType src c =
     (case (if src = SQLite then sqlite_kind (di_class (parseDecl (tc_SourceType c))) else tc_Kind c) of
        KindInt \<Rightarrow> TInt | KindFloat \<Rightarrow> TFloat | KindDecimal \<Rightarrow> TDecimal | KindBool \<Rightarrow> TBool | KindDate \<Rightarrow> TTime
      | KindTimestamp \<Rightarrow> TTime | KindTimestampTZ \<Rightarrow> TTime | KindBytes \<Rightarrow> TBytes | _ \<Rightarrow> TString)"

definition filterText :: "row_filter \<Rightarrow> string" where
  "filterText f =
     (let s = Join (map (\<lambda>c. cond_Field c @ '' '' @ cond_Op c @ '' '' @ cond_Value c) (rf_Where f)) '' AND '' in
      if rf_Limit f > 0 then s @ (if s \<noteq> [] then '', '' else []) @ ''limit '' @ show_int (rf_Limit f) else s)"

text \<open>A bound argument; \<open>BNil\<close> is the value \<open>nil\<close>, which the driver sends as NULL.\<close>

datatype bound = BNil | BInt int | BFloat float64 | BText string

definition day_nanos :: "zoned \<Rightarrow> int" where
  "day_nanos t = (z_instant t + z_offset t * Second) mod (24 * Hour)"

text \<open>\<open>None\<close> is the nil value a failed coercion returns.\<close>

definition whereValue :: "filter_env \<Rightarrow> coerced option \<Rightarrow> string \<Rightarrow> string \<times> bound" where
  "whereValue env v raw =
     (case v of
        Some (CTime x) \<Rightarrow>
          (let s = format_UTC env (if day_nanos x = 0 then ''2006-01-02'' else ''2006-01-02 15:04:05'') (z_instant x) in (s, BText s))
      | Some (CBool x) \<Rightarrow> if x then (''true'', BInt 1) else (''false'', BInt 0)
      | Some (CInt x) \<Rightarrow> (show_int x, BInt x)
      | Some (CFloat x) \<Rightarrow> (raw, BFloat x)
      | Some (CText x) \<Rightarrow> (raw, BText x)
      | None \<Rightarrow> (raw, BNil))"

record compiled_filter =
  cf_where :: string
  cf_args :: "bound list"
  cf_limit :: int
  cf_text :: string

fun quote_body :: "string \<Rightarrow> string" where
  "quote_body [] = []"
| "quote_body (c # s) = (if c = CHR 0x22 then [c, c] else [c]) @ quote_body s"

definition quoteIdent :: "string \<Rightarrow> string" where
  "quoteIdent s = [CHR 0x22] @ quote_body s @ [CHR 0x22]"

text \<open>The placeholder of an argument, which is added to those before it.\<close>

definition add_arg :: "engine \<Rightarrow> table_column \<Rightarrow> bound \<Rightarrow> string \<Rightarrow> bound list \<Rightarrow> string \<times> bound list" where
  "add_arg src col v raw args =
     (if src = Postgres
      then (''CAST($'' @ show_nat (length args + 1) @ ''::text AS '' @ tc_SourceType col @ '')'', args @ [BText raw])
      else (''?'', args @ [v]))"

definition value_of :: "filter_env \<Rightarrow> string \<Rightarrow> schema_type \<Rightarrow> coerced option" where
  "value_of env raw typ = (case CoerceValue env raw typ of Inl _ \<Rightarrow> None | Inr v \<Rightarrow> Some v)"

fun add_marks :: "filter_env \<Rightarrow> engine \<Rightarrow> table_column \<Rightarrow> string list \<Rightarrow> bound list \<Rightarrow> string list \<times> bound list" where
  "add_marks env src col [] args = ([], args)"
| "add_marks env src col (raw # raws) args =
     (let raw = TrimSpace raw; (text', v) = whereValue env (value_of env raw (dbschemaType src col)) raw;
          (mark, args1) = add_arg src col v text' args; (marks, args2) = add_marks env src col raws args1
      in (mark # marks, args2))"

definition condition_elems :: "condition \<Rightarrow> string list" where
  "condition_elems c = (if cond_Op c = ''in'' then SplitByte (CHR '','') (cond_Value c) else [cond_Value c])"

fun validate_elems :: "filter_env \<Rightarrow> string \<Rightarrow> condition \<Rightarrow> field_def list \<Rightarrow> string list \<Rightarrow> filter_error + unit" where
  "validate_elems env table c def [] = Inr ()"
| "validate_elems env table c def (el # els) =
     rbind (ValidateWhereAgainstSchema env table \<lparr>p_Field = cond_Field c, p_Operator = cond_Op c, p_Value = TrimSpace el\<rparr> def)
       (\<lambda>_. validate_elems env table c def els)"

definition column_named :: "table_column list \<Rightarrow> string \<Rightarrow> table_column option" where
  "column_named cols name = find (\<lambda>c. tc_Name c = name) cols"

fun compile_conds :: "filter_env \<Rightarrow> engine \<Rightarrow> string \<Rightarrow> table_column list \<Rightarrow> field_def list \<Rightarrow> condition list \<Rightarrow> bound list \<Rightarrow>
    filter_error + string list \<times> bound list" where
  "compile_conds env src table cols def [] args = Inr ([], args)"
| "compile_conds env src table cols def (c # cs) args =
     rbind (validate_elems env table c def (condition_elems c)) (\<lambda>_.
       let col = the (column_named cols (cond_Field c)); q = quoteIdent (cond_Field c) in
       if cond_Op c = ''in'' then
         (case add_marks env src col (SplitByte (CHR '','') (cond_Value c)) args of (marks, args1) \<Rightarrow>
            rbind (compile_conds env src table cols def cs args1) (\<lambda>(conds, args2).
              Inr ((q @ '' IN ('' @ Join marks '', '' @ '')'') # conds, args2)))
       else (case ParseOperator (cond_Op c) of
           Inl err \<Rightarrow> Inl (Compiling table (cond_Field c) err)
         | Inr _ \<Rightarrow>
             (case whereValue env (value_of env (cond_Value c) (dbschemaType src col)) (cond_Value c) of (text', v) \<Rightarrow>
              case add_arg src col v text' args of (mark, args1) \<Rightarrow>
                rbind (compile_conds env src table cols def cs args1) (\<lambda>(conds, args2).
                  Inr ((q @ '' '' @ cond_Op c @ '' '' @ mark) # conds, args2)))))"

definition compileRowFilter :: "filter_env \<Rightarrow> engine \<Rightarrow> string \<Rightarrow> table_column list \<Rightarrow> row_filter \<Rightarrow> filter_error + compiled_filter" where
  "compileRowFilter env src table cols f =
     (let def = map (\<lambda>c. (tc_Name c, dbschemaType src c)) cols in
      rbind (compile_conds env src table cols def (rf_Where f) []) (\<lambda>(conds, args).
        Inr \<lparr>cf_where = Join conds '' AND '', cf_args = args, cf_limit = rf_Limit f, cf_text = filterText f\<rparr>))"

text \<open>The filters by table, in the order of the names: the tables of the source and those of the copy.\<close>

fun compile_each :: "filter_env \<Rightarrow> engine \<Rightarrow> (string \<times> table_column list) list \<Rightarrow> string list \<Rightarrow> (string \<times> row_filter) list \<Rightarrow>
    filter_error + (string \<times> compiled_filter) list" where
  "compile_each env src cat inSource [] = Inr []"
| "compile_each env src cat inSource ((n, f) # rest) =
     (if n \<notin> set inSource then Inl (TableMissing n)
      else case map_of cat n of
        None \<Rightarrow> Inl (TableNotCopied n)
      | Some cols \<Rightarrow> rbind (compileRowFilter env src n cols f) (\<lambda>cf.
          rbind (compile_each env src cat inSource rest) (\<lambda>out. Inr ((n, cf) # out))))"

definition compileFilters :: "filter_env \<Rightarrow> engine \<Rightarrow> (string \<times> table_column list) list \<Rightarrow> string list \<Rightarrow> (string \<times> row_filter) list \<Rightarrow>
    filter_error + (string \<times> compiled_filter) list" where
  "compileFilters env src cat inSource filters = compile_each env src cat inSource (sort_key fst filters)"

end
