(* ===== verification/Filters_Distance.thy ===== *)
theory Filters_Distance
  imports Filters
begin

text \<open>
  The two-row computation of \<open>levenshtein\<close> against the definition of the edit distance: the
  least number of single-character insertions, deletions and replacements that turn one
  text into the other.
\<close>

text \<open>One edit: at one place at most one character is taken out and at most one put in.\<close>

definition edited :: "string \<Rightarrow> string \<Rightarrow> bool" where
  "edited s t \<longleftrightarrow> (\<exists>u x y v. s = u @ x @ v \<and> t = u @ y @ v \<and> length x \<le> 1 \<and> length y \<le> 1)"

text \<open>The distance by recursion on the first characters.\<close>

fun edit_dist :: "string \<Rightarrow> string \<Rightarrow> nat" where
  "edit_dist [] b = length b"
| "edit_dist a [] = length a"
| "edit_dist (x # a) (y # b) = min (edit_dist a (y # b) + 1) (min (edit_dist (x # a) b + 1) (edit_dist a b + (if x = y then 0 else 1)))"

lemma edit_dist_Nil2 [simp]: "edit_dist a [] = length a"
  by (cases a) auto

lemma edit_dist_commute: "edit_dist a b = edit_dist b a"
  by (induction a b rule: edit_dist.induct) (auto simp: min.left_commute min.commute)

lemma edit_dist_refl [simp]: "edit_dist a a = 0"
  by (induction a) auto

lemma min3_min: "min3 a b c = min a (min b c)"
  by (simp add: min3_def)


section \<open>The edit distance\<close>

lemma edit_dist_add_one: "edit_dist (x # a) b \<le> edit_dist a b + 1"
  by (cases b) auto

lemma edit_dist_drop_one: "edit_dist a b \<le> edit_dist (x # a) b + 1"
proof (induction b arbitrary: a x)
  case (Cons y b)
  have "edit_dist a (y # b) \<le> edit_dist a b + 1" using edit_dist_add_one [of y b a] by (simp add: edit_dist_commute)
  moreover have "edit_dist a b \<le> edit_dist (x # a) b + 1" by (rule Cons)
  ultimately show ?case by (auto simp: min_def)
qed simp

lemma edit_dist_swap_le: "edit_dist (x # a) (y # b) \<le> edit_dist a b + 1"
  by (simp add: min_def)

lemma edit_dist_replace_one: "edit_dist (x # a) b \<le> edit_dist (z # a) b + 1"
proof (induction b arbitrary: a)
  case (Cons y b)
  have "edit_dist (x # a) (y # b) \<le> edit_dist (x # a) b + 1" by simp
  moreover have "edit_dist (x # a) b \<le> edit_dist (z # a) b + 1" by (rule Cons)
  moreover note edit_dist_swap_le [of x a y b]
  moreover have "edit_dist (x # a) (y # b) \<le> edit_dist a (y # b) + 1" by simp
  ultimately show ?case by (auto simp del: edit_dist.simps simp: edit_dist.simps(3) [of z])
qed simp

lemma edit_dist_one_edit:
  assumes "length x \<le> 1" and "length y \<le> 1"
  shows "edit_dist (u @ x @ v) c \<le> edit_dist (u @ y @ v) c + 1"
proof (induction u arbitrary: c)
  case Nil
  show ?case
    using assms edit_dist_add_one edit_dist_drop_one edit_dist_replace_one
    by (cases x; cases y) auto
next
  case outer: (Cons p u)
  show ?case
  proof (induction c)
    case Nil
    show ?case using assms by simp
  next
    case (Cons q c)
    then show ?case using outer [of c] outer [of "q # c"] by simp
  qed
qed

lemma edited_refl: "edited a a"
  unfolding edited_def by (intro exI [of _ "[]"] exI [of _ a]) simp

lemma edited_sym: "edited a b \<Longrightarrow> edited b a"
  unfolding edited_def by blast

lemma edited_delete: "edited (x # a) a"
  unfolding edited_def by (rule exI [of _ "[]"], rule exI [of _ "[x]"], rule exI [of _ "[]"], rule exI [of _ a]) simp

lemma edited_replace: "edited (x # a) (y # a)"
  unfolding edited_def by (rule exI [of _ "[]"], rule exI [of _ "[x]"], rule exI [of _ "[y]"], rule exI [of _ a]) simp

lemma edited_Cons: "edited a b \<Longrightarrow> edited (x # a) (x # b)"
  unfolding edited_def by (metis append_Cons)

lemma edited_rev: "edited a b \<Longrightarrow> edited (rev a) (rev b)"
proof -
  assume "edited a b"
  then obtain u x y v where "a = u @ x @ v" "b = u @ y @ v" "length x \<le> 1" "length y \<le> 1" unfolding edited_def by blast
  then have "rev a = rev v @ rev x @ rev u" "rev b = rev v @ rev y @ rev u" "length (rev x) \<le> 1" "length (rev y) \<le> 1" by simp_all
  then show ?thesis unfolding edited_def by blast
qed

lemma edits_map: "(edited ^^ n) a b \<Longrightarrow> (\<And>s t. edited s t \<Longrightarrow> edited (f s) (f t)) \<Longrightarrow> (edited ^^ n) (f a) (f b)"
proof (induction n arbitrary: b)
  case (Suc n)
  then obtain c where "(edited ^^ n) a c" "edited c b" by (blast elim: relpowp_Suc_E)
  then show ?case using Suc by (blast intro: relpowp_Suc_I)
qed simp

lemma edits_mono: "(edited ^^ m) a b \<Longrightarrow> m \<le> n \<Longrightarrow> (edited ^^ n) a b"
proof (induction n)
  case (Suc n)
  show ?case
  proof (cases "m = Suc n")
    case False
    then have "(edited ^^ n) a b" using Suc by simp
    then show ?thesis using edited_refl by (rule relpowp_Suc_I)
  qed (use Suc in simp)
qed simp

lemma edits_bound: "(edited ^^ n) a b \<Longrightarrow> edit_dist a b \<le> n"
proof (induction n arbitrary: a)
  case (Suc n)
  then obtain c where "edited a c" "(edited ^^ n) c b" by (blast elim: relpowp_Suc_E2)
  moreover then have "edit_dist a b \<le> edit_dist c b + 1" using edit_dist_one_edit unfolding edited_def by blast
  ultimately show ?case using Suc.IH [of c] by simp
qed simp

lemma edits_reach: "(edited ^^ edit_dist a b) a b"
proof (induction a b rule: edit_dist.induct)
  case (1 b)
  show ?case by (induction b) (auto intro: relpowp_Suc_I edited_sym edited_delete)
next
  case (2 x a)
  show ?case
  proof (induction a arbitrary: x)
    case (Cons y a)
    from relpowp_Suc_I2 [OF edited_delete Cons] show ?case by simp
  qed (auto intro: edited_delete)
next
  case (3 x a y b)
  have del: "(edited ^^ Suc (edit_dist a (y # b))) (x # a) (y # b)" by (rule relpowp_Suc_I2 [OF edited_delete 3(1)])
  have ins: "(edited ^^ Suc (edit_dist (x # a) b)) (x # a) (y # b)" by (rule relpowp_Suc_I [OF 3(2) edited_sym [OF edited_delete]])
  have keep: "(edited ^^ edit_dist a b) (x # a) (x # b)" by (rule edits_map [OF 3(3) edited_Cons])
  have swap: "(edited ^^ (edit_dist a b + (if x = y then 0 else 1))) (x # a) (y # b)"
    using keep relpowp_Suc_I [OF keep edited_replace [of x b y]] by (cases "x = y") simp_all
  show ?case using del ins swap by (auto simp: min_def)
qed

lemma edits_iff: "(edited ^^ n) a b \<longleftrightarrow> edit_dist a b \<le> n"
  using edits_bound edits_reach edits_mono by blast

lemma edit_dist_rev: "edit_dist (rev a) (rev b) = edit_dist a b"
proof (rule antisym)
  show "edit_dist (rev a) (rev b) \<le> edit_dist a b"
    using edits_map [OF edits_reach [of a b], of rev, OF edited_rev] by (simp add: edits_bound)
  show "edit_dist a b \<le> edit_dist (rev a) (rev b)"
    using edits_map [OF edits_reach [of "rev a" "rev b"], of rev, OF edited_rev] by (simp add: edits_bound)
qed


section \<open>The rows of the table\<close>

text \<open>The row of a prefix \<open>p\<close> of the first text, from a prefix \<open>q\<close> of the second on.\<close>

fun row_of :: "string \<Rightarrow> string \<Rightarrow> string \<Rightarrow> nat list" where
  "row_of p q [] = [edit_dist (rev p) (rev q)]"
| "row_of p q (y # ys) = edit_dist (rev p) (rev q) # row_of p (q @ [y]) ys"

lemma row_of_head: "row_of p q ys = edit_dist (rev p) (rev q) # tl (row_of p q ys)"
  by (cases ys) auto

lemma fill_row_correct:
  "fill_row x ys (row_of p q ys) (edit_dist (rev (p @ [x])) (rev q)) = tl (row_of (p @ [x]) q ys)"
proof (induction ys arbitrary: q)
  case (Cons y ys)
  have "min3 (edit_dist (rev p) (rev (q @ [y])) + 1) (edit_dist (rev (p @ [x])) (rev q) + 1) (edit_dist (rev p) (rev q) + (if x = y then 0 else 1)) =
      edit_dist (rev (p @ [x])) (rev (q @ [y]))" by (simp add: min3_min)
  then show ?case
    using Cons [of "q @ [y]"] row_of_head [of p "q @ [y]" ys] row_of_head [of "p @ [x]" "q @ [y]" ys]
    by (metis fill_row.simps(1) list.sel(3) row_of.simps(2))
qed simp

lemma lev_rows_correct: "lev_rows a b (Suc (length p)) (row_of p [] b) = row_of (p @ a) [] b"
proof (induction a arbitrary: p)
  case (Cons x a)
  have "Suc (length p) # fill_row x b (row_of p [] b) (Suc (length p)) = row_of (p @ [x]) [] b"
    using fill_row_correct [of x b p "[]"] row_of_head [of "p @ [x]" "[]" b] by simp
  then show ?case using Cons [of "p @ [x]"] by simp
qed simp

lemma row_of_first: "row_of [] q ys = [length q..<length q + length ys + 1]"
  by (induction ys arbitrary: q) (auto simp: upt_rec)

lemma row_of_last: "row_of p q ys ! length ys = edit_dist (rev p) (rev (q @ ys))"
  by (induction ys arbitrary: q) auto

lemma levenshtein_edit_dist: "levenshtein a b = edit_dist a b"
proof -
  have "lev_rows a b 1 [0..<length b + 1] ! length b = edit_dist a b" for a b
    using lev_rows_correct [of a b "[]"] row_of_first [of "[]" b] row_of_last [of a "[]" b] by (simp add: edit_dist_rev)
  then show ?thesis by (simp add: levenshtein_def edit_dist_commute)
qed

text \<open>
  C36: \<open>levenshtein\<close> is the edit distance: a text can be turned into another by \<open>n\<close> edits exactly
  when it is at most \<open>n\<close>.
\<close>

theorem levenshtein_exact: "(edited ^^ n) a b \<longleftrightarrow> levenshtein a b \<le> n"
  by (simp add: levenshtein_edit_dist edits_iff)

end
