(* ===== verification/Filters_Properties.thy ===== *)
theory Filters_Properties
  imports Filters_Distance
begin

text \<open>
  The properties of the copy filters: a condition written with its colons escaped is read
  back, the tables that are selected, and when and to what clause and arguments a filter
  compiles.
\<close>


section \<open>The flag of a condition\<close>

definition escaped :: "string \<Rightarrow> string" where
  "escaped v = concat (map (\<lambda>c. if c = CHR '':'' then [CHR 0x5C, CHR '':''] else [c]) v)"

lemma escaped_Cons: "escaped (c # v) = (if c = CHR '':'' then [CHR 0x5C, CHR '':''] else [c]) @ escaped v"
  by (simp add: escaped_def)

lemma escaped_head: "escaped v = d # s \<Longrightarrow> d \<noteq> CHR '':''"
  by (cases v) (auto simp: escaped_Cons escaped_def split: if_splits)

lemma split_escaped: "split_from (CHR '':'') (CHR 0x5C) (escaped v) cur = [cur @ v]"
proof (induction v arbitrary: cur)
  case (Cons c v)
  show ?case
  proof (cases "c = CHR '':''")
    case False
    then show ?thesis
      using Cons [of "cur @ [c]"] escaped_head [of v] by (cases "escaped v") (auto simp: escaped_Cons)
  qed (use Cons [of "cur @ [c]"] in \<open>simp add: escaped_Cons\<close>)
qed (simp add: escaped_def)

lemma split_plain:
  "set p \<inter> {CHR '':'', CHR 0x5C} = {} \<Longrightarrow>
     split_from (CHR '':'') (CHR 0x5C) (p @ CHR '':'' # rest) cur = (cur @ p) # split_from (CHR '':'') (CHR 0x5C) rest []"
proof (induction p arbitrary: cur)
  case Nil
  show ?case by (cases rest) auto
next
  case (Cons c p)
  then show ?case using Cons.IH [of "cur @ [c]"] by (cases "p @ CHR '':'' # rest") auto
qed

lemma operators_plain:
  "op \<in> set supportedOperators \<Longrightarrow> set op \<inter> {CHR '':'', CHR 0x5C} = {} \<and> TrimSpace op = op \<and> (\<exists>d. operatorToDal op = Some d)"
proof -
  have "list_all (\<lambda>op. list_all (\<lambda>c. c \<noteq> CHR '':'' \<and> c \<noteq> CHR 0x5C) op \<and> TrimSpace op = op \<and> operatorToDal op \<noteq> None) supportedOperators"
    by code_simp
  then show "op \<in> set supportedOperators \<Longrightarrow> ?thesis" by (auto simp: list_all_iff)
qed

lemma operator_supported: "operatorToDal op = Some d \<Longrightarrow> op \<in> set supportedOperators"
  by (auto simp: operatorToDal_def supportedOperators_def split: if_splits)

text \<open>
  A condition round-trips through the \<open>--where\<close> flag: table, field, operator and the value
  with its colons escaped, joined by colons, are read back exactly, whatever characters
  the value has (backslashes and white space included).
\<close>

theorem where_flag_roundtrip:
  assumes "set (table @ field) \<inter> {CHR '':'', CHR 0x5C} = {}" and "TrimSpace table = table" "table \<noteq> []"
    and "TrimSpace field = field" "field \<noteq> []" and "op \<in> set supportedOperators"
  shows "ParseWhereFlag (table @ '':'' @ field @ '':'' @ op @ '':'' @ escaped v) =
    Inr (table, \<lparr>p_Field = field, p_Operator = op, p_Value = v\<rparr>)"
proof -
  have plain: "set table \<inter> {CHR '':'', CHR 0x5C} = {}" "set field \<inter> {CHR '':'', CHR 0x5C} = {}" "set op \<inter> {CHR '':'', CHR 0x5C} = {}"
    and op: "TrimSpace op = op" "\<exists>d. operatorToDal op = Some d"
    using assms(1) operators_plain [OF assms(6)] by auto
  have "splitUnescaped (table @ '':'' @ field @ '':'' @ op @ '':'' @ escaped v) (CHR '':'') (CHR 0x5C) = [table, field, op, v]"
    using split_plain [OF plain(1), of "field @ '':'' @ op @ '':'' @ escaped v" "[]"]
      split_plain [OF plain(2), of "op @ '':'' @ escaped v" "[]"] split_plain [OF plain(3), of "escaped v" "[]"] split_escaped [of v "[]"]
    by (simp add: splitUnescaped_def)
  then show ?thesis using assms op by (auto simp: ParseWhereFlag_def Let_def ParseOperator_def res_simps)
qed

theorem where_flag_roundtrip_witness:
  "ParseWhereFlag (''t'' @ '':'' @ ''at'' @ '':'' @ ''>='' @ '':'' @ escaped '' 10:30'') =
     Inr (''t'', \<lparr>p_Field = ''at'', p_Operator = ''>='', p_Value = '' 10:30''\<rparr>)"
proof -
  have trimmed: "TrimSpace ''t'' = ''t''" "TrimSpace ''at'' = ''at''" by code_simp+
  show ?thesis by (rule where_flag_roundtrip) (simp_all add: trimmed supportedOperators_def)
qed


section \<open>The clause of a filter\<close>

definition coercible :: "filter_env \<Rightarrow> string \<Rightarrow> schema_type \<Rightarrow> bool" where
  "coercible env raw typ \<longleftrightarrow> (case CoerceValue env raw typ of Inl _ \<Rightarrow> False | Inr _ \<Rightarrow> True)"

text \<open>A condition is well formed: its column exists, its operator is known and each value, trimmed, is one of the column's type.\<close>

definition condition_ok :: "filter_env \<Rightarrow> engine \<Rightarrow> table_column list \<Rightarrow> condition \<Rightarrow> bool" where
  "condition_ok env src cols c \<longleftrightarrow> cond_Op c \<in> set supportedOperators \<and>
     (case column_named cols (cond_Field c) of None \<Rightarrow> False
      | Some col \<Rightarrow> list_all (\<lambda>el. coercible env (TrimSpace el) (dbschemaType src col)) (condition_elems c))"

text \<open>The clause with one placeholder per value and the arguments bound to them, for SQLite.\<close>

definition sqlite_clause :: "condition \<Rightarrow> string" where
  "sqlite_clause c = quoteIdent (cond_Field c) @ (if cond_Op c = ''in''
     then '' IN ('' @ Join (replicate (length (condition_elems c)) ''?'') '', '' @ '')'' else '' '' @ cond_Op c @ '' ?'')"

definition sqlite_args :: "filter_env \<Rightarrow> table_column list \<Rightarrow> condition \<Rightarrow> bound list" where
  "sqlite_args env cols c = (let typ = dbschemaType SQLite (the (column_named cols (cond_Field c))) in
     map (\<lambda>raw. snd (whereValue env (value_of env raw typ) raw))
       (if cond_Op c = ''in'' then map TrimSpace (condition_elems c) else condition_elems c))"

lemma findColumn_named:
  "findColumn (map (\<lambda>c. (tc_Name c, f c)) cols) name = map_option (\<lambda>c. (tc_Name c, f c)) (column_named cols name)"
  by (induction cols) (auto simp: findColumn_def column_named_def)

lemma validate_iff:
  "(\<exists>u. ValidateWhereAgainstSchema env table p (map (\<lambda>c. (tc_Name c, dbschemaType src c)) cols) = Inr u) \<longleftrightarrow>
     (case column_named cols (p_Field p) of None \<Rightarrow> False | Some col \<Rightarrow> coercible env (p_Value p) (dbschemaType src col))"
  by (auto simp: ValidateWhereAgainstSchema_def findColumn_named coercible_def Let_def split: option.splits sum.splits)

lemma validate_elems_iff:
  "els \<noteq> [] \<Longrightarrow> (\<exists>u. validate_elems env table c (map (\<lambda>c. (tc_Name c, dbschemaType src c)) cols) els = Inr u) \<longleftrightarrow>
     (case column_named cols (cond_Field c) of None \<Rightarrow> False
      | Some col \<Rightarrow> list_all (\<lambda>el. coercible env (TrimSpace el) (dbschemaType src col)) els)"
proof (induction els)
  case (Cons el els)
  let ?p = "\<lparr>p_Field = cond_Field c, p_Operator = cond_Op c, p_Value = TrimSpace el\<rparr>"
  show ?case using Cons validate_iff [of env table ?p src cols]
    by (cases els) (auto simp: res_simps split: option.splits)
qed simp

lemma condition_elems_nonempty: "condition_elems c \<noteq> []"
  by (cases "cond_Value c") (auto simp: condition_elems_def split: list.splits)

lemma add_marks_sqlite:
  "add_marks env SQLite col raws args =
     (replicate (length raws) ''?'', args @ map (\<lambda>raw. snd (whereValue env (value_of env raw (dbschemaType SQLite col)) raw)) (map TrimSpace raws))"
  by (induction raws arbitrary: args) (auto simp: add_arg_def Let_def split: prod.splits)

lemma add_marks_length: "add_marks env src col raws args = (marks, args') \<Longrightarrow> length args' = length args + length raws"
  by (induction raws arbitrary: args marks args') (auto simp: add_arg_def Let_def split: prod.splits if_splits)

lemma validated:
  "(case column_named cols (cond_Field c) of None \<Rightarrow> False
      | Some col \<Rightarrow> list_all (\<lambda>el. coercible env (TrimSpace el) (dbschemaType src col)) (condition_elems c)) \<longleftrightarrow>
   (\<exists>u. validate_elems env table c (map (\<lambda>c. (tc_Name c, dbschemaType src c)) cols) (condition_elems c) = Inr u)"
  using validate_elems_iff [OF condition_elems_nonempty] by simp

lemma compile_conds_bad:
  "\<not> list_all (condition_ok env src cols) cs \<Longrightarrow>
     \<exists>e. compile_conds env src table cols (map (\<lambda>c. (tc_Name c, dbschemaType src c)) cols) cs args = Inl e"
proof (induction cs arbitrary: args)
  case (Cons c cs)
  let ?def = "map (\<lambda>c. (tc_Name c, dbschemaType src c)) cols"
  show ?case
  proof (cases "validate_elems env table c ?def (condition_elems c)")
    case (Inr u)
    then have "cond_Op c \<notin> set supportedOperators \<or> \<not> list_all (condition_ok env src cols) cs"
      using Cons.prems validated [of env src c cols table] unfolding condition_ok_def by auto
    moreover have "''in'' \<in> set supportedOperators" by (simp add: supportedOperators_def)
    moreover have "ParseOperator op = Inr d \<Longrightarrow> op \<in> set supportedOperators" for op d
      by (auto simp: ParseOperator_def split: option.splits dest: operator_supported)
    ultimately show ?thesis using Inr Cons.IH
      by (auto simp: Let_def res_simps split: prod.splits sum.splits)
  qed (simp add: res_simps)
qed simp

lemma compile_conds_ok:
  "list_all (condition_ok env src cols) cs \<Longrightarrow>
     \<exists>conds args'. compile_conds env src table cols (map (\<lambda>c. (tc_Name c, dbschemaType src c)) cols) cs args = Inr (conds, args') \<and>
       length args' = length args + sum_list (map (\<lambda>c. length (condition_elems c)) cs) \<and>
       (src = SQLite \<longrightarrow> conds = map sqlite_clause cs \<and> args' = args @ concat (map (sqlite_args env cols) cs))"
proof (induction cs arbitrary: args)
  case (Cons c cs)
  let ?def = "map (\<lambda>c. (tc_Name c, dbschemaType src c)) cols"
  let ?col = "the (column_named cols (cond_Field c))"
  have ok: "cond_Op c \<in> set supportedOperators" and rest: "list_all (condition_ok env src cols) cs"
    and valid: "\<exists>u. validate_elems env table c ?def (condition_elems c) = Inr u"
    using Cons.prems validated [of env src c cols table] unfolding condition_ok_def by auto
  show ?case
  proof (cases "cond_Op c = ''in''")
    case True
    then have elems: "condition_elems c = SplitByte (CHR '','') (cond_Value c)" by (simp add: condition_elems_def)
    obtain marks args1 where marks: "add_marks env src ?col (SplitByte (CHR '','') (cond_Value c)) args = (marks, args1)" by fastforce
    obtain conds args2 where more: "compile_conds env src table cols ?def cs args1 = Inr (conds, args2)"
      "length args2 = length args1 + sum_list (map (\<lambda>c. length (condition_elems c)) cs)"
      "src = SQLite \<longrightarrow> conds = map sqlite_clause cs \<and> args2 = args1 @ concat (map (sqlite_args env cols) cs)"
      using Cons.IH [OF rest, of args1] by blast
    have "src = SQLite \<longrightarrow> marks = replicate (length (condition_elems c)) ''?'' \<and> args1 = args @ sqlite_args env cols c"
      using marks add_marks_sqlite [of env ?col] True by (auto simp: sqlite_args_def condition_elems_def Let_def)
    then show ?thesis
      using valid marks more True add_marks_length [OF marks] elems
      by (auto simp: Let_def res_simps sqlite_clause_def)
  next
    case False
    then have elems: "condition_elems c = [cond_Value c]" by (simp add: condition_elems_def)
    obtain op where op: "ParseOperator (cond_Op c) = Inr op" using operators_plain [OF ok] by (auto simp: ParseOperator_def)
    obtain text' v where v: "whereValue env (value_of env (cond_Value c) (dbschemaType src ?col)) (cond_Value c) = (text', v)" by fastforce
    obtain mark args1 where mark: "add_arg src ?col v text' args = (mark, args1)" by fastforce
    obtain conds args2 where more: "compile_conds env src table cols ?def cs args1 = Inr (conds, args2)"
      "length args2 = length args1 + sum_list (map (\<lambda>c. length (condition_elems c)) cs)"
      "src = SQLite \<longrightarrow> conds = map sqlite_clause cs \<and> args2 = args1 @ concat (map (sqlite_args env cols) cs)"
      using Cons.IH [OF rest, of args1] by blast
    have "src = SQLite \<longrightarrow> mark = ''?'' \<and> args1 = args @ sqlite_args env cols c"
      using mark v False by (auto simp: add_arg_def sqlite_args_def condition_elems_def)
    moreover have "length args1 = length args + 1" using mark by (auto simp: add_arg_def split: if_splits)
    ultimately show ?thesis
      using valid v mark more False op elems by (auto simp: Let_def res_simps sqlite_clause_def)
  qed
qed simp


definition ex_columns :: "table_column list" where
  "ex_columns = [\<lparr>tc_Name = ''id'', tc_SourceType = ''INTEGER'', tc_Kind = KindInt\<rparr>]"

definition ex_filter_env :: filter_env where
  "ex_filter_env = \<lparr>strconv_ParseFloat = ParseFloat, parse_DateOnly = (\<lambda>_. None), parse_RFC3339 = (\<lambda>_. None), format_UTC = (\<lambda>_ _. [])\<rparr>"

lemma ex_columns_type: "column_named ex_columns ''id'' = Some \<lparr>tc_Name = ''id'', tc_SourceType = ''INTEGER'', tc_Kind = KindInt\<rparr>"
  "dbschemaType SQLite \<lparr>tc_Name = ''id'', tc_SourceType = ''INTEGER'', tc_Kind = KindInt\<rparr> = TInt"
  by code_simp+


text \<open>
  A value with white space around it passes the check and then selects nothing.  The check
  trims the value, the argument is coerced untrimmed and the error is dropped, so that for SQLite the
  condition compiles with NULL as its argument, which no row satisfies.
\<close>

theorem untrimmed_value_binds_null:
  assumes "column_named cols field = Some col" and "op \<in> set supportedOperators" "op \<noteq> ''in''"
    and "CoerceValue env (TrimSpace v) (dbschemaType SQLite col) = Inr x" and "CoerceValue env v (dbschemaType SQLite col) = Inl e"
  shows "\<exists>out. compileRowFilter env SQLite table cols \<lparr>rf_Where = [\<lparr>cond_Field = field, cond_Op = op, cond_Value = v\<rparr>], rf_Limit = n\<rparr> = Inr out \<and>
    cf_where out = quoteIdent field @ '' '' @ op @ '' ?'' \<and> cf_args out = [BNil]"
proof -
  let ?c = "\<lparr>cond_Field = field, cond_Op = op, cond_Value = v\<rparr>"
  have elems: "condition_elems ?c = [v]" using assms(3) by (simp add: condition_elems_def)
  have "list_all (condition_ok env SQLite cols) [?c]" using assms by (simp add: condition_ok_def elems coercible_def)
  from compile_conds_ok [OF this, of table "[]"] show ?thesis
    using assms elems by (auto simp: compileRowFilter_def res_simps sqlite_clause_def sqlite_args_def value_of_def whereValue_def)
qed

theorem untrimmed_value_binds_null_witness:
  "\<exists>out. compileRowFilter ex_filter_env SQLite ''t'' ex_columns
       \<lparr>rf_Where = [\<lparr>cond_Field = ''id'', cond_Op = ''='', cond_Value = '' 5''\<rparr>], rf_Limit = 0\<rparr> = Inr out \<and>
     cf_where out = quoteIdent ''id'' @ '' = ?'' \<and> cf_args out = [BNil]"
proof -
  have "CoerceValue ex_filter_env (TrimSpace '' 5'') TInt = Inr (CInt 5)" "CoerceValue ex_filter_env '' 5'' TInt = Inl (NotInteger '' 5'')"
    by code_simp+
  then show ?thesis
    using untrimmed_value_binds_null [OF ex_columns_type(1), of "''=''" ex_filter_env "'' 5''" "CInt 5" "NotInteger '' 5''" "''t''" 0] ex_columns_type(2)
    by (simp add: supportedOperators_def)
qed

text \<open>A time at midnight of its own zone is written as the date it has in UTC, without the time of day it has there.\<close>

lemma midnight_loses_time:
  "day_nanos t = 0 \<Longrightarrow> whereValue env (Some (CTime t)) raw =
     (format_UTC env ''2006-01-02'' (z_instant t), BText (format_UTC env ''2006-01-02'' (z_instant t)))"
  by (simp add: whereValue_def Let_def)

lemma midnight_elsewhere: "day_nanos \<lparr>z_instant = 22 * Hour, z_offset = 2 * 3600\<rparr> = 0"
  by (simp add: day_nanos_def duration_defs)


section \<open>The tables of a copy\<close>

lemma table_filter_selects:
  "ApplyTableFilter name refs d = Inr out \<Longrightarrow> PreValidate d = Inr () \<Longrightarrow>
     out = filter (\<lambda>r. (IncludeTables d = [] \<or> name r \<in> set (IncludeTables d)) \<and> name r \<notin> set (ExcludeTables d)) refs \<and>
     set (IncludeTables d) \<union> set (ExcludeTables d) \<subseteq> name ` set refs"
  by (auto simp: ApplyTableFilter_def IsEmpty_def check_present_def PreValidate_def res_simps Let_def filter_empty_conv
      split: if_splits option.splits)

end
