(* ===== verification/Compare_Values.thy ===== *)
theory Compare_Values
  imports Filters
begin

text \<open>
  The normalized values of a database comparison (\<open>src/pkg/dbcompare/compare.go\<close>): what a
  value read from either side is turned into before rows are compared.  Parsing and
  formatting of times and the shortest decimal form of a \<open>float64\<close> are parameters.
\<close>


section \<open>Values as the sources return them\<close>

text \<open>
  A Go integer of any width is its value; a \<open>json.Number\<close> its text; bytes are the text with
  those bytes.
\<close>

datatype raw_value =
    RNil | RBool bool | RInt int | RBig int | RBigNil | RFloat32 float32 | RFloat float64
  | RText string | RBytes string | RNumber string | RTime zoned | ROther

record normalized_value =
  nv_Kind :: string
  nv_Text :: string
  nv_Null :: bool
  nv_Absent :: bool

definition nv :: "string \<Rightarrow> string \<Rightarrow> normalized_value" where
  "nv kind text' = \<lparr>nv_Kind = kind, nv_Text = text', nv_Null = False, nv_Absent = False\<rparr>"

record value_env =
  type_String :: "schema_type \<Rightarrow> string"
  time_Parse :: "string \<Rightarrow> string \<Rightarrow> zoned option"
  time_Format :: "string \<Rightarrow> zoned \<Rightarrow> string"
  json_float :: "string \<Rightarrow> float64 option"
  format_float :: "float64 \<Rightarrow> string"

definition UTC_of :: "zoned \<Rightarrow> zoned" where
  "UTC_of t = t\<lparr>z_offset := 0\<rparr>"

datatype compare_error =
    UnsupportedBool | UnsupportedInteger | UnsupportedDecimal | InvalidDecimal | NoFiniteDecimal | UnsupportedFloat
  | UnsupportedText | UnsupportedBinary | UnsupportedTime | UnsupportedType
  | UnknownLeft string | UnknownRight string | BothTarget string
  | EmptyKey string | BadKeyColumn string | MissingKeyColumn string string | KeyTypes string string
  | IncompatibleColumn string | MissingColumn string | AtColumn string compare_error
  | KeyAbsent string | KeyNull string | SourceFailed | DiffFailed
  | NotDecoded | BadViewName string | EmptyCollectionName | DuplicateCollection string | DescribeFailed string
  | InconsistentMetadata string | BadFieldName string string | IndexesNotListed string | ListFailed | ViewsFailed
  | NoDatabase | NegativeLimit | LeftSchema | RightSchema | InspectLeft compare_error | InspectRight compare_error | UnknownKeyMap string
  | IncompatibleTypes string | ReadFailed string compare_error | CompareFailed string compare_error


section \<open>Integers and decimals\<close>

text \<open>\<open>big.Rat.SetFloat64\<close> followed by \<open>IsInt\<close>: the integer a float stands for.\<close>

definition float_integer :: "float64 \<Rightarrow> int option" where
  "float_integer v =
     (if \<not> is_finite64 v then None
      else case quotient_of (f64_value v) of (n, d) \<Rightarrow> if \<bar>n\<bar> > (2 ^ 53 - 1) * d \<or> d \<noteq> 1 then None else Some n)"

definition integerString :: "raw_value \<Rightarrow> string option" where
  "integerString v =
     (case v of
        RInt i \<Rightarrow> Some (show_int i)
      | RBig i \<Rightarrow> Some (show_int i)
      | RText s \<Rightarrow> map_option show_int (IntSetString s)
      | RBytes s \<Rightarrow> map_option show_int (IntSetString s)
      | RNumber s \<Rightarrow> map_option show_int (IntSetString s)
      | RFloat f \<Rightarrow> map_option show_int (float_integer f)
      | _ \<Rightarrow> None)"

definition decimalString :: "raw_value \<Rightarrow> string option" where
  "decimalString v =
     (case v of
        RText s \<Rightarrow> if s \<noteq> [] then Some s else None
      | RBytes s \<Rightarrow> if s \<noteq> [] then Some s else None
      | RNumber s \<Rightarrow> if s \<noteq> [] then Some s else None
      | _ \<Rightarrow> integerString v)"

text \<open>
  \<open>decimalLexeme\<close> and \<open>big.Rat.SetString\<close>: the first is the shape \<open>RatSetString\<close> accepts; the second
  refuses a power of ten beyond a million, unless the mantissa is zero, and an exponent that is
  no 64-bit integer.
\<close>

definition decimalLexeme :: "string \<Rightarrow> bool" where
  "decimalLexeme s \<longleftrightarrow> RatSetString s \<noteq> None"

definition mantissa_digits :: "string \<Rightarrow> string \<times> nat" where
  "mantissa_digits s =
     (let u = unsigned_part s; ip = takeWhile is_digit u; r = dropWhile is_digit u;
          fp = (if r \<noteq> [] \<and> hd r = CHR ''.'' then takeWhile is_digit (tl r) else [])
      in (ip @ fp, length fp))"

definition exponent_text :: "string \<Rightarrow> string" where
  "exponent_text s = (let u = dropWhile (\<lambda>c. c \<noteq> CHR ''e'' \<and> c \<noteq> CHR ''E'') s in if u = [] then ''0'' else tl u)"

definition ratSetString :: "string \<Rightarrow> rat option" where
  "ratSetString s =
     (case IntSetString (exponent_text s) of
        None \<Rightarrow> None
      | Some e \<Rightarrow>
          (case mantissa_digits s of (ds, fraction) \<Rightarrow>
             if e < - (2 ^ 63) \<or> e \<ge> 2 ^ 63 \<or> nat_of_digits ds \<noteq> 0 \<and> \<bar>e - int fraction\<bar> > 1000000 then None
             else RatSetString s))"

text \<open>How often a prime divides a number, and what is left.\<close>

function strip_factor :: "int \<Rightarrow> int \<Rightarrow> nat \<times> int" where
  "strip_factor p d =
     (if 1 < p \<and> 0 < d \<and> d mod p = 0 then (case strip_factor p (d div p) of (k, r) \<Rightarrow> (Suc k, r)) else (0, d))"
  by pat_completeness auto
termination
proof (relation "measure (\<lambda>(p, d). nat d)")
  fix p d :: int
  assume "1 < p \<and> 0 < d \<and> d mod p = 0"
  then have "d div p < d" by (simp add: int_div_less_self)
  then show "((p, d div p), (p, d)) \<in> measure (\<lambda>(p, d). nat d)" using \<open>1 < p \<and> 0 < d \<and> d mod p = 0\<close> by simp
qed simp

declare strip_factor.simps [simp del]

text \<open>
  \<open>big.Rat.FloatString\<close>: the quotient and \<open>prec\<close> digits, the last rounded half up.
\<close>

definition pad_left :: "nat \<Rightarrow> string \<Rightarrow> string" where
  "pad_left n s = replicate (n - length s) (CHR ''0'') @ s"

definition FloatString :: "rat \<Rightarrow> nat \<Rightarrow> string" where
  "FloatString q prec =
     (case quotient_of q of (a, b) \<Rightarrow>
        if b = 1 then show_int a @ (if prec > 0 then ''.'' @ replicate prec (CHR ''0'') else [])
        else
          (let i = \<bar>a\<bar> div b; r = \<bar>a\<bar> mod b; t = r * 10 ^ prec div b; r2 = r * 10 ^ prec mod b;
               t' = (if 2 * r2 \<ge> b then t + 1 else t);
               (i', t'') = (if t' \<ge> 10 ^ prec then (i + 1, t' - 10 ^ prec) else (i, t'))
           in (if a < 0 then ''-'' else []) @ show_int i' @ (if prec > 0 then ''.'' @ pad_left prec (show_int t'') else [])))"

definition TrimRight :: "char \<Rightarrow> string \<Rightarrow> string" where
  "TrimRight c s = rev (dropWhile (\<lambda>x. x = c) (rev s))"

definition canonicalDecimal :: "rat \<Rightarrow> string option" where
  "canonicalDecimal q =
     (case strip_factor 2 (snd (quotient_of q)) of (twos, d) \<Rightarrow>
      case strip_factor 5 d of (fives, d') \<Rightarrow>
        if d' \<noteq> 1 then None
        else
          (let t = FloatString q (if fives > twos then fives else twos);
               t' = (if CHR ''.'' \<in> set t then TrimRight (CHR ''.'') (TrimRight (CHR ''0'') t) else t)
           in Some (if t' = ''-0'' \<or> t' = [] then ''0'' else t')))"


section \<open>Floats and times\<close>

definition floatValue :: "value_env \<Rightarrow> raw_value \<Rightarrow> float64 option" where
  "floatValue env v =
     (case v of
        RFloat32 f \<Rightarrow> Some (f32_to_f64 f)
      | RFloat f \<Rightarrow> Some f
      | RInt i \<Rightarrow>
          (let f = round64 (i < 0) (nat \<bar>i\<bar> * 2 ^ 1074) 1 in if is_finite64 f \<and> f64_value f = of_int i then Some f else None)
      | RNumber s \<Rightarrow>
          (case json_float env s of
             None \<Rightarrow> None
           | Some f \<Rightarrow>
               (case (ratSetString s, ratSetString (format_float env f)) of
                  (Some a, Some b) \<Rightarrow> if a = b then Some f else None
                | _ \<Rightarrow> None))
      | _ \<Rightarrow> None)"

fun hex_nat :: "nat \<Rightarrow> string" where
  "hex_nat n = (let d = [char_of (if n mod 16 < 10 then 48 + n mod 16 else 87 + n mod 16)] in
     if n < 16 then d else hex_nat (n div 16) @ d)"

declare hex_nat.simps [simp del]

definition hex_byte :: "char \<Rightarrow> string" where
  "hex_byte c = (let n = of_char c :: nat; digit = (\<lambda>d. char_of (if d < 10 then 48 + d else 87 + d) :: char) in [digit (n div 16), digit (n mod 16)])"

definition hex_EncodeToString :: "string \<Rightarrow> string" where
  "hex_EncodeToString s = concat (map hex_byte s)"

text \<open>The text or the time of a temporal value.\<close>

definition temporalText :: "raw_value \<Rightarrow> (string + zoned) option" where
  "temporalText v = (case v of RTime t \<Rightarrow> Some (Inr t) | RText s \<Rightarrow> Some (Inl s) | RBytes s \<Rightarrow> Some (Inl s) | _ \<Rightarrow> None)"

definition dateValue :: "value_env \<Rightarrow> raw_value \<Rightarrow> string option" where
  "dateValue env v =
     (case temporalText v of
        None \<Rightarrow> None
      | Some (Inr t) \<Rightarrow> Some (time_Format env ''2006-01-02'' t)
      | Some (Inl s) \<Rightarrow>
          (case time_Parse env ''2006-01-02'' s of
             None \<Rightarrow> None | Some day \<Rightarrow> if time_Format env ''2006-01-02'' day = s then Some s else None))"

fun first_layout :: "value_env \<Rightarrow> string list \<Rightarrow> string \<Rightarrow> (string \<times> zoned) option" where
  "first_layout env [] s = None"
| "first_layout env (layout # layouts) s =
     (case time_Parse env layout s of Some t \<Rightarrow> Some (layout, t) | None \<Rightarrow> first_layout env layouts s)"

definition timeOfDayValue :: "value_env \<Rightarrow> raw_value \<Rightarrow> bool \<Rightarrow> string option" where
  "timeOfDayValue env v withZone =
     (case temporalText v of
        None \<Rightarrow> None
      | Some (Inr t) \<Rightarrow> Some (time_Format env (''15:04:05.999999999'' @ (if withZone then ''Z07:00'' else [])) t)
      | Some (Inl s) \<Rightarrow>
          map_option (\<lambda>(layout, t). time_Format env layout t)
            (first_layout env (if withZone then [''15:04:05.999999999Z07:00'', ''15:04:05Z07:00''] else [''15:04:05.999999999'', ''15:04:05'']) s))"

definition wallLayout :: string where "wallLayout = ''2006-01-02T15:04:05.999999999''"

definition wallTimestampValue :: "value_env \<Rightarrow> raw_value \<Rightarrow> string option" where
  "wallTimestampValue env v =
     (case temporalText v of
        None \<Rightarrow> None
      | Some (Inr t) \<Rightarrow> Some (time_Format env wallLayout t)
      | Some (Inl s) \<Rightarrow>
          map_option (\<lambda>(_, t). time_Format env wallLayout t)
            (first_layout env [''2006-01-02 15:04:05.999999999'', ''2006-01-02 15:04:05'', wallLayout] s))"

definition instantLayout :: string where "instantLayout = ''2006-01-02T15:04:05.999999999Z07:00''"

definition instantValue :: "value_env \<Rightarrow> raw_value \<Rightarrow> string option" where
  "instantValue env v =
     (case temporalText v of
        None \<Rightarrow> None
      | Some (Inr t) \<Rightarrow> Some (time_Format env instantLayout (UTC_of t))
      | Some (Inl s) \<Rightarrow>
          if \<not> ContainsAny s ''Zz+-'' then None
          else map_option (\<lambda>(_, t). time_Format env instantLayout (UTC_of t))
            (first_layout env [instantLayout, ''2006-01-02 15:04:05.999999999Z07:00'', ''2006-01-02 15:04:05Z07:00''] s))"

definition inferredTimeValue :: "value_env \<Rightarrow> raw_value \<Rightarrow> string option" where
  "inferredTimeValue env v =
     (case temporalText v of
        None \<Rightarrow> None
      | Some (Inr t) \<Rightarrow> Some (time_Format env instantLayout (UTC_of t))
      | Some (Inl s) \<Rightarrow>
          if ContainsAny s ''Zz+-'' \<and> (CHR ''T'' \<in> set s \<or> CHR '' '' \<in> set s) then instantValue env (RText s)
          else if length s = 10 then dateValue env (RText s)
          else if CHR '':'' \<in> set s \<and> CHR ''-'' \<notin> set s then timeOfDayValue env (RText s) False
          else wallTimestampValue env (RText s))"

definition timeValueForDeclaredType :: "value_env \<Rightarrow> raw_value \<Rightarrow> string \<Rightarrow> string \<Rightarrow> string option" where
  "timeValueForDeclaredType env v dialect declared =
     (let declared = ToLower (TrimSpace declared); dialect = ToLower (TrimSpace dialect) in
      if has_prefix ''date'' declared then dateValue env v
      else if declared = ''time'' \<or> has_prefix ''time '' declared then timeOfDayValue env v (str_contains declared ''with time zone'')
      else if declared \<in> set [''timestamp with time zone'', ''timestamptz'', ''timestamp_tz''] \<or> declared = ''timestamp'' \<and> dialect = ''bigquery''
        then instantValue env v
      else if has_prefix ''datetime'' declared \<or> declared \<in> set [''timestamp'', ''timestamp without time zone'', ''timestamp_ntz'']
        then wallTimestampValue env v
      else if declared = [] then inferredTimeValue env v
      else None)"

definition is_zero64 :: "float64 \<Rightarrow> bool" where "is_zero64 f \<longleftrightarrow> mag_bits f = 0"

definition normalizeValueForSource :: "value_env \<Rightarrow> schema_type \<Rightarrow> string \<Rightarrow> string \<Rightarrow> raw_value \<Rightarrow> compare_error + normalized_value" where
  "normalizeValueForSource env typ dialect declared v =
     (if v = RNil then Inr \<lparr>nv_Kind = type_String env typ, nv_Text = [], nv_Null = True, nv_Absent = False\<rparr>
      else case typ of
        TBool \<Rightarrow>
          (case v of
             RBool b \<Rightarrow> Inr (nv ''bool'' (if b then ''1'' else ''0''))
           | _ \<Rightarrow> (case integerString v of
                 Some s \<Rightarrow> if s = ''0'' \<or> s = ''1'' then Inr (nv ''bool'' s) else Inl UnsupportedBool
               | None \<Rightarrow> Inl UnsupportedBool))
      | TInt \<Rightarrow> (case integerString v of None \<Rightarrow> Inl UnsupportedInteger | Some s \<Rightarrow> Inr (nv ''int'' s))
      | TDecimal \<Rightarrow>
          (case decimalString v of
             None \<Rightarrow> Inl UnsupportedDecimal
           | Some s \<Rightarrow>
               if \<not> decimalLexeme s then Inl UnsupportedDecimal
               else (case ratSetString s of
                   None \<Rightarrow> Inl InvalidDecimal
                 | Some q \<Rightarrow> (case canonicalDecimal q of None \<Rightarrow> Inl NoFiniteDecimal | Some t \<Rightarrow> Inr (nv ''decimal'' t))))
      | TFloat \<Rightarrow>
          (case floatValue env v of
             None \<Rightarrow> Inl UnsupportedFloat
           | Some f \<Rightarrow>
               if \<not> is_finite64 f then Inl UnsupportedFloat
               else Inr (nv ''float'' (hex_nat (unat (if is_zero64 f then 0 else f)))))
      | TString \<Rightarrow> (case v of RText s \<Rightarrow> Inr (nv ''string'' s) | _ \<Rightarrow> Inl UnsupportedText)
      | TBytes \<Rightarrow> (case v of RBytes s \<Rightarrow> Inr (nv ''bytes'' (hex_EncodeToString s)) | _ \<Rightarrow> Inl UnsupportedBinary)
      | TTime \<Rightarrow> (case timeValueForDeclaredType env v dialect declared of None \<Rightarrow> Inl UnsupportedTime | Some s \<Rightarrow> Inr (nv ''time'' s))
      | TNull \<Rightarrow> Inl UnsupportedType)"

definition normalizeCompareValue :: "value_env \<Rightarrow> schema_type \<Rightarrow> raw_value \<Rightarrow> compare_error + normalized_value" where
  "normalizeCompareValue env typ v = normalizeValueForSource env typ [] [] v"

end
