(* ===== verification/Compare_Schema.thy ===== *)
theory Compare_Schema
  imports Compare_Values
begin

text \<open>
  Comparing two databases (\<open>src/pkg/dbcompare/compare.go\<close>), the schemas: the inventory of a
  database, the pairing of the relations of two inventories, the differences of their
  schemas and the key by which their rows are compared.  A database is what its adapter
  answers; Go maps are association lists, and where the code ranges over one (which of
  several errors is reported) the list's order stands for the order of the iteration.
\<close>


section \<open>Schemas\<close>

record cfield =
  f_Name :: string
  f_Type :: schema_type
  f_Nullable :: bool
  f_Length :: "int option"
  f_Precision :: "(int \<times> int) option"
  f_Default :: "string option"
  f_AutoIncrement :: bool

record foreign_key =
  fk_Namespace :: string
  fk_Collection :: string
  fk_Fields :: "string list"
  fk_Referenced :: "string list"
  fk_Enforcement :: string
  fk_OnUpdate :: string
  fk_OnDelete :: string

record index_def =
  ix_Unique :: bool
  ix_Fields :: "string list"

record source_definition =
  sd_Dialect :: string
  sd_Columns :: "(string \<times> string) list"

record collection_def =
  cd_Name :: string
  cd_Fields :: "cfield list"
  cd_PrimaryKey :: "string list"
  cd_ForeignKeys :: "foreign_key list"
  cd_Indexes :: "index_def list"
  cd_Source :: "source_definition option"

definition no_collection :: collection_def where
  "no_collection = \<lparr>cd_Name = [], cd_Fields = [], cd_PrimaryKey = [], cd_ForeignKeys = [], cd_Indexes = [], cd_Source = None\<rparr>"

definition fieldsByName :: "cfield list \<Rightarrow> string \<Rightarrow> cfield option" where
  "fieldsByName fs = map_of (rev (map (\<lambda>f. (f_Name f, f)) fs))"

definition fieldOrder :: "cfield list \<Rightarrow> string list" where
  "fieldOrder fs = map f_Name fs"

definition indexSignature :: "index_def \<Rightarrow> string" where
  "indexSignature i = (if ix_Unique i then ''true'' else ''false'') @ '':'' @ Join (ix_Fields i) [CHR 0x00]"

definition mergeIndexes :: "index_def list \<Rightarrow> index_def list \<Rightarrow> index_def list" where
  "mergeIndexes primary extra =
     foldl (\<lambda>result i. if indexSignature i \<in> set (map indexSignature result) then result else result @ [i]) primary extra"

definition foreignKeySignatures :: "foreign_key list \<Rightarrow> string list" where
  "foreignKeySignatures keys = sort (map (\<lambda>k. Join [fk_Namespace k, fk_Collection k, Join (fk_Fields k) [CHR 0x00],
     Join (fk_Referenced k) [CHR 0x00], fk_Enforcement k, fk_OnUpdate k, fk_OnDelete k] [CHR 0x01]) keys)"

definition indexSignatures :: "index_def list \<Rightarrow> string list" where
  "indexSignatures indexes = sort (map indexSignature indexes)"

definition relationColumns :: "collection_def \<Rightarrow> collection_def \<Rightarrow> string list" where
  "relationColumns left right = sort (rev (remdups (rev (fieldOrder (cd_Fields left) @ fieldOrder (cd_Fields right)))))"

definition declaredTypeChanges :: "source_definition option \<Rightarrow> source_definition option \<Rightarrow> string \<Rightarrow> string list" where
  "declaredTypeChanges left right collection =
     (case (left, right) of
        (Some l, Some r) \<Rightarrow>
          (let clean = (\<lambda>cols. map_of (rev (map (\<lambda>(n, t). (n, ToLower (TrimSpace t))) cols)));
               lc = clean (sd_Columns l); rc = clean (sd_Columns r) in
           List.map_filter (\<lambda>n. case (lc n, rc n) of
               (Some lt, Some rt) \<Rightarrow> if lt \<noteq> [] \<and> rt \<noteq> [] \<and> lt \<noteq> rt
                 then Some (collection @ ''.'' @ n @ '' declared source type differs: '' @ lt @ '' vs '' @ rt) else None
             | _ \<Rightarrow> None) (sort (remdups (map fst (sd_Columns l)))))
      | _ \<Rightarrow> [])"

definition field_changes :: "(schema_type \<Rightarrow> string) \<Rightarrow> string \<Rightarrow> string \<Rightarrow> cfield option \<Rightarrow> cfield option \<Rightarrow> string list" where
  "field_changes show_type name field lf rf =
     (case (lf, rf) of
        (None, _) \<Rightarrow> [name @ ''.'' @ field @ '' exists only in right'']
      | (Some _, None) \<Rightarrow> [name @ ''.'' @ field @ '' exists only in left'']
      | (Some l, Some r) \<Rightarrow>
          (if f_Type l \<noteq> f_Type r then [name @ ''.'' @ field @ '' type differs: '' @ show_type (f_Type l) @ '' vs '' @ show_type (f_Type r)] else []) @
          (if f_Nullable l \<noteq> f_Nullable r then [name @ ''.'' @ field @ '' nullability differs''] else []) @
          (if f_Length l \<noteq> f_Length r then [name @ ''.'' @ field @ '' length differs''] else []) @
          (if f_Precision l \<noteq> f_Precision r then [name @ ''.'' @ field @ '' decimal precision differs''] else []) @
          (if f_Default l \<noteq> f_Default r then [name @ ''.'' @ field @ '' default differs''] else []) @
          (if f_AutoIncrement l \<noteq> f_AutoIncrement r then [name @ ''.'' @ field @ '' auto-increment differs''] else []))"

definition same_types :: "collection_def \<Rightarrow> collection_def \<Rightarrow> string \<Rightarrow> bool" where
  "same_types left right field =
     (case (fieldsByName (cd_Fields left) field, fieldsByName (cd_Fields right) field) of
        (Some l, Some r) \<Rightarrow> f_Type l = f_Type r | _ \<Rightarrow> True)"

definition compareRelationSchema :: "(schema_type \<Rightarrow> string) \<Rightarrow> collection_def \<Rightarrow> collection_def \<Rightarrow> string \<Rightarrow> bool \<Rightarrow> string list \<times> bool" where
  "compareRelationSchema show_type left right name indexesKnown =
     (let fieldNames = sort (remdups (fieldOrder (cd_Fields left) @ fieldOrder (cd_Fields right)));
          lo = fieldOrder (cd_Fields left); ro = fieldOrder (cd_Fields right)
      in (concat (map (\<lambda>field. field_changes show_type name field (fieldsByName (cd_Fields left) field) (fieldsByName (cd_Fields right) field)) fieldNames) @
          (if length lo = length ro \<and> lo \<noteq> ro then [name @ '' column order differs''] else []) @
          (if cd_PrimaryKey left \<noteq> cd_PrimaryKey right then [name @ '' primary key differs''] else []) @
          (if foreignKeySignatures (cd_ForeignKeys left) \<noteq> foreignKeySignatures (cd_ForeignKeys right) then [name @ '' foreign keys differ''] else []) @
          (if indexesKnown \<and> indexSignatures (cd_Indexes left) \<noteq> indexSignatures (cd_Indexes right) then [name @ '' indexes differ''] else []) @
          declaredTypeChanges (cd_Source left) (cd_Source right) name,
          list_all (same_types left right) fieldNames))"


section \<open>The inventory of a database\<close>

record collection_ref =
  cr_Schema :: string
  cr_Name :: string

record view_def =
  v_Name :: string
  v_Columns :: "string list"
  v_CreateSQL :: string

datatype index_answer = Indexes "index_def list" | IndexesUnsupported | IndexesFailed

text \<open>The rows a source returns: those read, and whether reading failed after them.\<close>

type_synonym raw_row = "string \<Rightarrow> raw_value option"

record row_stream =
  rs_rows :: "raw_row list"
  rs_fails :: bool

text \<open>
  What an open database answers: its adapter's name, if it has an adapter; its collections
  and views, if the adapter can list views; the description and the indexes of a collection;
  its rows.
\<close>

record database =
  Adapter_Name :: "string option"
  ListCollections :: "collection_ref list option"
  ListSourceViews :: "view_def list option option"
  DescribeCollection :: "collection_ref \<Rightarrow> collection_def option option"
  ListIndexes :: "collection_ref \<Rightarrow> index_answer"
  source_rows :: "collection_ref \<Rightarrow> row_stream"

record compare_relation =
  rel_ref :: collection_ref
  rel_def :: collection_def
  rel_indexesKnown :: bool

record relation_inventory =
  inv_collections :: "(string \<times> compare_relation) list"
  inv_views :: "(string \<times> view_def) list"
  inv_adapterName :: string
  inv_warnings :: "string list"

definition relationName :: "collection_ref \<Rightarrow> string" where
  "relationName r = (if cr_Schema r \<noteq> [] then cr_Schema r @ ''.'' @ cr_Name r else cr_Name r)"

fun list_views :: "view_def list \<Rightarrow> (string \<times> view_def) list \<Rightarrow> compare_error + (string \<times> view_def) list" where
  "list_views [] seen = Inr seen"
| "list_views (v # vs) seen =
     (if v_Name v = [] \<or> v_Name v \<in> set (map fst seen) then Inl (BadViewName (v_Name v))
      else list_views vs (seen @ [(v_Name v, v)]))"

fun bad_field :: "string list \<Rightarrow> string list \<Rightarrow> string option" where
  "bad_field [] seen = None"
| "bad_field (f # fs) seen = (if f = [] \<or> f \<in> set seen then Some f else bad_field fs (f # seen))"

definition query_ref :: "string \<Rightarrow> string \<Rightarrow> collection_ref \<Rightarrow> collection_ref" where
  "query_ref querySchema adapter r =
     (if querySchema \<noteq> [] \<and> adapter = ''dalgo2postgres'' then \<lparr>cr_Schema = querySchema, cr_Name = cr_Name r\<rparr> else r)"

definition inspect_ref :: "database \<Rightarrow> string \<Rightarrow> collection_ref \<Rightarrow> relation_inventory \<Rightarrow> compare_error + relation_inventory" where
  "inspect_ref db querySchema r stock =
     (if cr_Name r = [] then Inl EmptyCollectionName
      else if cr_Name r \<in> set (map fst (inv_views stock)) then Inr stock
      else let name = relationName r in
      if map_of (inv_collections stock) name \<noteq> None then Inl (DuplicateCollection name)
      else case DescribeCollection db r of
        None \<Rightarrow> Inl (DescribeFailed name)
      | Some None \<Rightarrow> Inl (InconsistentMetadata name)
      | Some (Some def) \<Rightarrow>
          if cd_Name def \<noteq> cr_Name r then Inl (InconsistentMetadata name)
          else (case bad_field (fieldOrder (cd_Fields def)) [] of
              Some f \<Rightarrow> Inl (BadFieldName name f)
            | None \<Rightarrow>
                (let qref = query_ref querySchema (inv_adapterName stock) r in
                 case ListIndexes db r of
                   IndexesUnsupported \<Rightarrow> Inr (stock
                     \<lparr>inv_warnings := inv_warnings stock @ [''index metadata for '' @ name @ '' is unsupported by the source adapter; index differences were not compared''],
                      inv_collections := inv_collections stock @ [(name, \<lparr>rel_ref = qref, rel_def = def, rel_indexesKnown = False\<rparr>)]\<rparr>)
                 | IndexesFailed \<Rightarrow> Inl (IndexesNotListed name)
                 | Indexes ixs \<Rightarrow> Inr (stock\<lparr>inv_collections := inv_collections stock @
                     [(name, \<lparr>rel_ref = qref, rel_def = def\<lparr>cd_Indexes := mergeIndexes (cd_Indexes def) ixs\<rparr>, rel_indexesKnown = True\<rparr>)]\<rparr>))))"

definition inspect :: "database \<Rightarrow> string \<Rightarrow> compare_error + relation_inventory" where
  "inspect db querySchema =
     (case ListCollections db of
        None \<Rightarrow> Inl ListFailed
      | Some refs \<Rightarrow>
          (let adapter = (case Adapter_Name db of None \<Rightarrow> [] | Some n \<Rightarrow> n);
               stock = \<lparr>inv_collections = [], inv_views = [], inv_adapterName = adapter, inv_warnings = []\<rparr>
           in rbind (case ListSourceViews db of
                None \<Rightarrow> Inr (stock\<lparr>inv_warnings := [''view inventory is unsupported by the '' @ (if adapter = [] then ''database'' else adapter) @
                  '' adapter; views were not compared'']\<rparr>)
              | Some None \<Rightarrow> Inl ViewsFailed
              | Some (Some vs) \<Rightarrow> rbind (list_views vs []) (\<lambda>views. Inr (stock\<lparr>inv_views := views\<rparr>)))
              (rfold (inspect_ref db querySchema) refs)))"


section \<open>Pairing the relations\<close>

record 'r relation_pair =
  rp_name :: string
  rp_rightName :: string
  rp_left :: "'r option"
  rp_right :: "'r option"

fun check_mappings :: "(string \<times> 'r) list \<Rightarrow> (string \<times> 'r) list \<Rightarrow> (string \<times> string) list \<Rightarrow> (string \<times> string) list \<Rightarrow>
    compare_error + (string \<times> string) list" where
  "check_mappings left right [] used = Inr used"
| "check_mappings left right ((l, r) # mappings) used =
     (if map_of left l = None then Inl (UnknownLeft l)
      else if map_of right r = None then Inl (UnknownRight r)
      else if map_of used r \<noteq> None then Inl (BothTarget r)
      else check_mappings left right mappings ((r, l) # used))"

definition partner :: "(string \<times> 'r) list \<Rightarrow> (string \<times> string) list \<Rightarrow> (string \<times> string) list \<Rightarrow> string \<Rightarrow> string" where
  "partner right mappings used l =
     (case map_of mappings l of
        Some r \<Rightarrow> r
      | None \<Rightarrow> if map_of used l \<noteq> None then [] else if map_of right l \<noteq> None then l else [])"

definition left_pair :: "(string \<times> 'r) list \<Rightarrow> (string \<times> 'r) list \<Rightarrow> string \<Rightarrow> string \<Rightarrow> 'r relation_pair" where
  "left_pair left right l r =
     (if r = [] then \<lparr>rp_name = l, rp_rightName = [], rp_left = map_of left l, rp_right = None\<rparr>
      else \<lparr>rp_name = l, rp_rightName = r, rp_left = map_of left l, rp_right = map_of right r\<rparr>)"

definition matchRelations :: "(string \<times> 'r) list \<Rightarrow> (string \<times> 'r) list \<Rightarrow> (string \<times> string) list \<Rightarrow> compare_error + 'r relation_pair list" where
  "matchRelations left right mappings =
     rbind (check_mappings left right mappings []) (\<lambda>used.
       let leftNames = sort (map fst left);
           lefts = map (\<lambda>l. left_pair left right l (partner right mappings used l)) leftNames;
           matched = filter (\<lambda>r. r \<noteq> []) (map (partner right mappings used) leftNames);
           rights = map (\<lambda>r. \<lparr>rp_name = r, rp_rightName = r, rp_left = None, rp_right = map_of right r\<rparr>)
             (filter (\<lambda>r. r \<notin> set matched) (sort (map fst right)))
       in Inr (sort_key rp_name (lefts @ rights)))"

definition appendInventoryChanges :: "string \<Rightarrow> string \<Rightarrow> string \<Rightarrow> string \<Rightarrow> (string \<times> view_def) list \<Rightarrow> (string \<times> view_def) list \<Rightarrow>
    'r relation_pair list \<Rightarrow> string list" where
  "appendInventoryChanges leftName rightName leftAdapter rightAdapter leftViews rightViews pairs =
     concat (map (\<lambda>p. if rp_left p \<noteq> None \<and> rp_right p = None then [''relation only in '' @ leftName @ '': '' @ rp_name p]
         else if rp_right p \<noteq> None \<and> rp_left p = None then [''relation only in '' @ rightName @ '': '' @ rp_name p] else []) pairs) @
     concat (map (\<lambda>(name, lv). case map_of rightViews name of
         None \<Rightarrow> [''view only in '' @ leftName @ '': '' @ name]
       | Some rv \<Rightarrow>
           (if v_Columns lv \<noteq> v_Columns rv then [''view '' @ name @ '' has different ordered columns''] else []) @
           (if leftAdapter \<noteq> [] \<and> leftAdapter = rightAdapter \<and> v_CreateSQL lv \<noteq> [] \<and> v_CreateSQL rv \<noteq> [] \<and>
               TrimSpace (v_CreateSQL lv) \<noteq> TrimSpace (v_CreateSQL rv) then [''view '' @ name @ '' definition differs''] else [])) leftViews) @
     concat (map (\<lambda>(name, _). if map_of leftViews name = None then [''view only in '' @ rightName @ '': '' @ name] else []) rightViews)"


section \<open>The key of a comparison\<close>

definition sameUsablePrimaryKey :: "collection_def \<Rightarrow> collection_def \<Rightarrow> string list" where
  "sameUsablePrimaryKey left right =
     (let key = cd_PrimaryKey left in
      if key = [] \<or> key \<noteq> cd_PrimaryKey right then []
      else if list_all (\<lambda>n. case (fieldsByName (cd_Fields left) n, fieldsByName (cd_Fields right) n) of
          (Some l, Some r) \<Rightarrow> f_Type l = f_Type r \<and> \<not> f_Nullable l \<and> \<not> f_Nullable r | _ \<Rightarrow> False) key
      then key else [])"

fun check_key :: "string \<Rightarrow> collection_def \<Rightarrow> collection_def \<Rightarrow> string list \<Rightarrow> string list \<Rightarrow> compare_error + unit" where
  "check_key name left right [] seen = Inr ()"
| "check_key name left right (field # key) seen =
     (let lf = fieldsByName (cd_Fields left) field; rf = fieldsByName (cd_Fields right) field in
      if field = [] \<or> field \<in> set seen then Inl (BadKeyColumn name)
      else if cd_Fields left \<noteq> [] \<and> lf = None \<or> cd_Fields right \<noteq> [] \<and> rf = None then Inl (MissingKeyColumn name field)
      else if \<not> same_types left right field then Inl (KeyTypes name field)
      else check_key name left right key (field # seen))"

definition comparisonKey :: "string \<Rightarrow> collection_def \<Rightarrow> collection_def \<Rightarrow> (string \<times> string list) list \<Rightarrow> compare_error + string list" where
  "comparisonKey name left right mappings =
     (case map_of mappings name of
        None \<Rightarrow> Inr (sameUsablePrimaryKey left right)
      | Some key \<Rightarrow> if key = [] then Inl (EmptyKey name) else rbind (check_key name left right key []) (\<lambda>_. Inr key))"

end
