(* ===== verification/Compare_Rows.thy ===== *)
theory Compare_Rows
  imports Compare_Schema
begin

text \<open>
  Comparing two databases (\<open>src/pkg/dbcompare/compare.go\<close>), the rows: how a row is staged, the
  counts and details of the differences of two relations, and the comparison as a whole.
  The record-wise difference (\<open>recordops.Diff\<close>), JSON, SHA-256 and the quoting of texts are
  parameters.  The staging files (a temporary SQLite table ordered by the bytes of the sort
  key, then by insertion) are a stably sorted list; that they cannot be written is not
  modelled.  The report that accompanies an error is dropped: its caller drops it too.
\<close>


section \<open>Rows\<close>

definition declared_type :: "source_definition option \<Rightarrow> string \<Rightarrow> string" where
  "declared_type s field = (case s of None \<Rightarrow> [] | Some d \<Rightarrow> (case map_of (sd_Columns d) field of None \<Rightarrow> [] | Some t \<Rightarrow> t))"

definition sourceDialect :: "source_definition option \<Rightarrow> string" where
  "sourceDialect s = (case s of None \<Rightarrow> [] | Some d \<Rightarrow> ToLower (TrimSpace (sd_Dialect d)))"

definition union_columns :: "collection_def \<Rightarrow> collection_def \<Rightarrow> string list" where
  "union_columns own other =
     (let o1 = fieldOrder (cd_Fields own) in sort (o1 @ filter (\<lambda>n. n \<notin> set o1) (fieldOrder (cd_Fields other))))"

definition cell_of_row :: "value_env \<Rightarrow> collection_def \<Rightarrow> collection_def \<Rightarrow> raw_row \<Rightarrow> string \<Rightarrow> compare_error + normalized_value" where
  "cell_of_row env own other row field =
     (case fieldsByName (cd_Fields own) field of
        None \<Rightarrow>
          Inr \<lparr>nv_Kind = type_String env (case fieldsByName (cd_Fields other) field of None \<Rightarrow> TNull | Some f \<Rightarrow> f_Type f),
               nv_Text = [], nv_Null = False, nv_Absent = True\<rparr>
      | Some f \<Rightarrow>
          (case row field of
             None \<Rightarrow> Inl (MissingColumn field)
           | Some v \<Rightarrow>
               (case normalizeValueForSource env (f_Type f) (sourceDialect (cd_Source own)) (declared_type (cd_Source own) field) v of
                  Inl e \<Rightarrow> Inl (AtColumn field e) | Inr cell \<Rightarrow> Inr cell)))"

text \<open>\<open>sort.SearchStrings\<close>: the first position whose text is not before the name.\<close>

definition SearchStrings :: "string list \<Rightarrow> string \<Rightarrow> nat" where
  "SearchStrings xs name = length (takeWhile (\<lambda>x. x < name) xs)"

definition key_cell :: "string list \<Rightarrow> normalized_value list \<Rightarrow> string \<Rightarrow> compare_error + normalized_value" where
  "key_cell cols cells field =
     (let i = SearchStrings cols field in
      if i = length cols \<or> cols ! i \<noteq> field then Inl (KeyAbsent field)
      else if nv_Null (cells ! i) \<or> nv_Absent (cells ! i) then Inl (KeyNull field)
      else Inr (cells ! i))"

text \<open>A staged row: the values it is sorted by and all its values.\<close>

type_synonym staged = "normalized_value list \<times> normalized_value list"

definition stage_row :: "value_env \<Rightarrow> collection_def \<Rightarrow> collection_def \<Rightarrow> string list \<Rightarrow> raw_row \<Rightarrow> compare_error + staged" where
  "stage_row env own other key row =
     (let cols = union_columns own other in
      rbind (rmapl (cell_of_row env own other row) cols) (\<lambda>cells.
      rbind (rmapl (key_cell cols cells) key) (\<lambda>keyCells.
        Inr (if keyCells \<noteq> [] then keyCells else cells, cells))))"

definition readRows :: "value_env \<Rightarrow> row_stream \<Rightarrow> collection_def \<Rightarrow> collection_def \<Rightarrow> string list \<Rightarrow> compare_error + staged list" where
  "readRows env source own other key =
     (case find (\<lambda>n. \<not> same_types own other n) (fieldOrder (cd_Fields own)) of
        Some n \<Rightarrow> Inl (IncompatibleColumn n)
      | None \<Rightarrow> rbind (rmapl (stage_row env own other key) (rs_rows source)) (\<lambda>rows.
          if rs_fails source then Inl SourceFailed else Inr rows))"


section \<open>Differences\<close>

datatype diff_status = Missing | Extra | Changed | Matched

type_synonym fields_of_row = "(string \<times> normalized_value) list"

record row_diff =
  df_ID :: string
  df_Status :: diff_status
  df_Baseline :: "fields_of_row option"
  df_Fields :: "(string \<times> normalized_value \<times> bool) list"

record compare_env =
  values_of :: value_env
  record_Diff :: "(string \<times> fields_of_row) list \<Rightarrow> (string \<times> fields_of_row) list \<Rightarrow> row_diff list option"
  json_Marshal :: "normalized_value list \<Rightarrow> string"
  json_Unmarshal :: "string \<Rightarrow> normalized_value list option"
  hex_sha256 :: "string \<Rightarrow> string"
  go_Quote :: "string \<Rightarrow> string"

definition zero_pad :: "nat \<Rightarrow> nat \<Rightarrow> string" where
  "zero_pad width n = pad_left width (show_nat n)"

text \<open>The identities of the rows in their order: for a keyless relation with the number of the occurrence.\<close>

fun row_ids :: "bool \<Rightarrow> string \<Rightarrow> nat \<Rightarrow> string list \<Rightarrow> string list" where
  "row_ids keyed previous occurrence [] = []"
| "row_ids keyed previous occurrence (k # ks) =
     (if keyed then hex_EncodeToString k # row_ids keyed previous occurrence ks
      else let n = (if previous = k then occurrence + 1 else 1)
           in (hex_EncodeToString k @ ''!'' @ zero_pad 20 n) # row_ids keyed k n ks)"

text \<open>A row is staged as the JSON text of its sort values and of its cells, and read back by the first.\<close>

definition rowSequence :: "compare_env \<Rightarrow> staged list \<Rightarrow> bool \<Rightarrow> string list \<Rightarrow> compare_error + (string \<times> fields_of_row) list" where
  "rowSequence env store keyed columns =
     (let rows = sort_key fst (map (\<lambda>(k, cells). (json_Marshal env k, json_Marshal env cells)) store)
      in rbind (rmapl (\<lambda>(_, payload). case json_Unmarshal env payload of None \<Rightarrow> Inl NotDecoded | Some cells \<Rightarrow> Inr (zip columns cells)) rows) (\<lambda>datas.
         Inr (zip (row_ids keyed [] 0 (map fst rows)) datas)))"

record difference_counts =
  n_Added :: int
  n_Removed :: int
  n_Changed :: int
  n_Unchanged :: int

definition no_counts :: difference_counts where "no_counts = \<lparr>n_Added = 0, n_Removed = 0, n_Changed = 0, n_Unchanged = 0\<rparr>"

datatype public = PNil | PBool bool | PText string | PFloat float64

text \<open>\<open>strconv.ParseUint(text, 16, 64)\<close>, the other direction of \<open>hex_nat\<close>.\<close>

definition parse_hex :: "string \<Rightarrow> nat option" where
  "parse_hex s =
     (let val = (\<lambda>c. let n = of_char c :: nat in if 48 \<le> n \<and> n \<le> 57 then Some (n - 48)
            else if 97 \<le> n \<and> n \<le> 102 then Some (n - 87) else if 65 \<le> n \<and> n \<le> 70 then Some (n - 55) else None);
          ds = map val s
      in if s = [] \<or> None \<in> set ds then None
         else let v = foldl (\<lambda>a d. 16 * a + the d) 0 ds in if v < 2 ^ 64 then Some v else None)"

definition publicValue :: "normalized_value \<Rightarrow> public" where
  "publicValue v =
     (if nv_Null v \<or> nv_Absent v then PNil
      else if nv_Kind v = ''bool'' then PBool (nv_Text v = ''1'')
      else if nv_Kind v = ''bytes'' then PText (''0x'' @ nv_Text v)
      else if nv_Kind v = ''float'' then (case parse_hex (nv_Text v) of Some n \<Rightarrow> PFloat (of_nat n) | None \<Rightarrow> PText (nv_Text v))
      else PText (nv_Text v))"

definition displayValue :: "compare_env \<Rightarrow> normalized_value \<Rightarrow> string" where
  "displayValue env v =
     (if nv_Absent v then ''<absent>'' else if nv_Null v then ''null''
      else if nv_Kind v = ''string'' then go_Quote env (nv_Text v)
      else if nv_Kind v = ''bytes'' then ''0x'' @ nv_Text v
      else if nv_Kind v = ''float'' then
        (case parse_hex (nv_Text v) of None \<Rightarrow> ''<invalid-float>'' | Some n \<Rightarrow> format_float (values_of env) (of_nat n))
      else nv_Text v)"

record field_diff =
  fdiff_Name :: string
  Before :: public
  After :: public
  BeforeAbsent :: bool
  AfterAbsent :: bool

definition fieldDiffs :: "row_diff \<Rightarrow> field_diff list" where
  "fieldDiffs d =
     (case df_Status d of
        Missing \<Rightarrow> (case df_Baseline d of None \<Rightarrow> []
          | Some fs \<Rightarrow> map (\<lambda>(n, v). \<lparr>fdiff_Name = n, Before = publicValue v, After = PNil, BeforeAbsent = False, AfterAbsent = True\<rparr>) fs)
      | Extra \<Rightarrow> map (\<lambda>(n, v, _). \<lparr>fdiff_Name = n, Before = PNil, After = publicValue v, BeforeAbsent = True, AfterAbsent = False\<rparr>) (df_Fields d)
      | Changed \<Rightarrow> (case df_Baseline d of None \<Rightarrow> []
          | Some fs \<Rightarrow> map (\<lambda>(n, v, absent). (case map_of (rev fs) n of
                None \<Rightarrow> \<lparr>fdiff_Name = n, Before = PNil, After = publicValue v, BeforeAbsent = True, AfterAbsent = absent\<rparr>
              | Some p \<Rightarrow> \<lparr>fdiff_Name = n, Before = publicValue p, After = publicValue v, BeforeAbsent = False, AfterAbsent = absent\<rparr>)) (df_Fields d))
      | Matched \<Rightarrow> [])"

text \<open>\<open>hex.DecodeString\<close>.\<close>

fun hex_DecodeString :: "string \<Rightarrow> string option" where
  "hex_DecodeString [] = Some []"
| "hex_DecodeString [c] = None"
| "hex_DecodeString (a # b # s) =
     (case (parse_hex [a], parse_hex [b], hex_DecodeString s) of
        (Some x, Some y, Some r) \<Rightarrow> Some (char_of (16 * x + y) # r) | _ \<Rightarrow> None)"

definition displayID :: "compare_env \<Rightarrow> string \<Rightarrow> string list \<Rightarrow> string" where
  "displayID env i key =
     (let cut = (key = [] \<and> CHR ''!'' \<in> set i);
          sortKey = (if cut then takeWhile (\<lambda>c. c \<noteq> CHR ''!'') i else i);
          occurrence = (if cut then tl (dropWhile (\<lambda>c. c \<noteq> CHR ''!'') i) else [])
      in case hex_DecodeString sortKey of
           None \<Rightarrow> i
         | Some encoded \<Rightarrow>
             if key = [] then ''keyless row sha256:'' @ hex_sha256 env encoded @ '' occurrence:'' @ dropWhile (\<lambda>c. c = CHR ''0'') occurrence
             else (case json_Unmarshal env encoded of
                 None \<Rightarrow> i
               | Some vals \<Rightarrow> if length vals \<noteq> length key then i
                   else Join (map (\<lambda>(name, v). name @ ''='' @ displayValue env v) (zip key vals)) '', ''))"

record record_diff =
  rd_ID :: string
  rd_Status :: string
  rd_Fields :: "field_diff list"

type_synonym diff_acc = "difference_counts \<times> record_diff list \<times> bool"

definition count_status :: "diff_status \<Rightarrow> difference_counts \<Rightarrow> difference_counts" where
  "count_status s c = (case s of Missing \<Rightarrow> c\<lparr>n_Removed := n_Removed c + 1\<rparr> | Extra \<Rightarrow> c\<lparr>n_Added := n_Added c + 1\<rparr>
     | Changed \<Rightarrow> c\<lparr>n_Changed := n_Changed c + 1\<rparr> | Matched \<Rightarrow> c\<lparr>n_Unchanged := n_Unchanged c + 1\<rparr>)"

definition status_text :: "diff_status \<Rightarrow> string" where
  "status_text s = (case s of Missing \<Rightarrow> ''removed'' | Extra \<Rightarrow> ''added'' | Changed \<Rightarrow> ''changed'' | Matched \<Rightarrow> [])"

fun diff_step :: "compare_env \<Rightarrow> string list \<Rightarrow> int \<Rightarrow> diff_acc \<Rightarrow> row_diff \<Rightarrow> diff_acc" where
  "diff_step env key limit (counts, details, limited) d =
     (let counts = count_status (df_Status d) counts in
      if df_Status d = Matched \<or> limit < 0 then (counts, details, limited)
      else if limit = 0 \<or> int (length details) \<ge> limit then (counts, details, True)
      else (counts, details @ [\<lparr>rd_ID = displayID env (df_ID d) key, rd_Status = status_text (df_Status d), rd_Fields = fieldDiffs d\<rparr>], limited))"

definition diffRows :: "compare_env \<Rightarrow> staged list \<Rightarrow> staged list \<Rightarrow> string list \<Rightarrow> string list \<Rightarrow> int \<Rightarrow> compare_error + diff_acc" where
  "diffRows env left right columns key limit =
     rbind (rowSequence env left (key \<noteq> []) columns) (\<lambda>ls.
     rbind (rowSequence env right (key \<noteq> []) columns) (\<lambda>rs.
       case record_Diff env ls rs of
         None \<Rightarrow> Inl DiffFailed
       | Some ds \<Rightarrow> Inr (foldl (diff_step env key limit) (no_counts, [], False) ds)))"


section \<open>The comparison\<close>

record options =
  Details :: bool
  DetailLimit :: int
  o_LeftSchema :: string
  o_RightSchema :: string
  TableMaps :: "(string \<times> string) list"
  KeyMaps :: "(string \<times> string list) list"

record relation_report =
  rr_Name :: string
  rr_RightName :: string
  rr_Identity :: string
  rr_LeftRows :: int
  rr_RightRows :: int
  rr_Counts :: difference_counts
  rr_Details :: "record_diff list"
  rr_DetailsLimited :: bool

record report =
  SchemaChanges :: "string list"
  Warnings :: "string list"
  Relations :: "relation_report list"
  Summary :: difference_counts
  DetailsLimited :: bool

definition pair_def :: "compare_relation option \<Rightarrow> collection_def" where
  "pair_def r = (case r of None \<Rightarrow> no_collection | Some x \<Rightarrow> rel_def x)"

text \<open>
  The rows of a pair, with the schema changes and the key: the three cases of the switch in
  \<open>Compare\<close>.  A relation that only the right side has is read with the empty definition as
  its own and its definition as the other side's.
\<close>

definition at_read :: "string \<Rightarrow> compare_error + 'a \<Rightarrow> compare_error + 'a" where
  "at_read name m = (case m of Inl e \<Rightarrow> Inl (ReadFailed name e) | Inr x \<Rightarrow> Inr x)"

definition read_pair :: "compare_env \<Rightarrow> database \<Rightarrow> database \<Rightarrow> (string \<times> string list) list \<Rightarrow>
    compare_relation relation_pair \<Rightarrow> compare_error + string list \<times> string list \<times> staged list \<times> staged list" where
  "read_pair env left right keyMaps p =
     (let name = rp_name p in
      case (rp_left p, rp_right p) of
        (Some l, Some r) \<Rightarrow>
          (case compareRelationSchema (type_String (values_of env)) (rel_def l) (rel_def r) name (rel_indexesKnown l \<and> rel_indexesKnown r) of (changes, compatible) \<Rightarrow>
            if \<not> compatible then Inl (IncompatibleTypes name)
            else rbind (comparisonKey name (rel_def l) (rel_def r) keyMaps) (\<lambda>key.
              at_read name (rbind (readRows (values_of env) (source_rows left (rel_ref l)) (rel_def l) (rel_def r) key) (\<lambda>ls.
                rbind (readRows (values_of env) (source_rows right (rel_ref r)) (rel_def r) (rel_def l) key) (\<lambda>rs.
                  Inr (changes, key, ls, rs))))))
      | (Some l, None) \<Rightarrow>
          rbind (comparisonKey name (rel_def l) no_collection keyMaps) (\<lambda>key.
            at_read name (rbind (readRows (values_of env) (source_rows left (rel_ref l)) (rel_def l) no_collection key) (\<lambda>ls.
              Inr ([], key, ls, []))))
      | (None, Some r) \<Rightarrow>
          rbind (comparisonKey name no_collection (rel_def r) keyMaps) (\<lambda>key.
            at_read name (rbind (readRows (values_of env) (source_rows right (rel_ref r)) no_collection (rel_def r) key) (\<lambda>rs.
              Inr ([], key, [], rs))))
      | (None, None) \<Rightarrow> Inr ([], [], [], []))"

definition add_counts :: "difference_counts \<Rightarrow> difference_counts \<Rightarrow> difference_counts" where
  "add_counts a b = \<lparr>n_Added = n_Added a + n_Added b, n_Removed = n_Removed a + n_Removed b,
     n_Changed = n_Changed a + n_Changed b, n_Unchanged = n_Unchanged a + n_Unchanged b\<rparr>"

definition identity_of :: "(string \<times> string list) list \<Rightarrow> string \<Rightarrow> string list \<Rightarrow> string" where
  "identity_of keyMaps name key =
     (if key = [] then ''multiset'' else if map_of keyMaps name \<noteq> None then ''explicit-key'' else ''primary-key'')"

definition compare_pair :: "compare_env \<Rightarrow> database \<Rightarrow> database \<Rightarrow> options \<Rightarrow>
    compare_relation relation_pair \<Rightarrow> report \<times> int \<Rightarrow> compare_error + report \<times> int" where
  "compare_pair env left right opts p acc =
     (case acc of (rep, remaining) \<Rightarrow>
      rbind (read_pair env left right (KeyMaps opts) p) (\<lambda>(changes, key, ls, rs).
        let limit = (if \<not> Details opts then - 1 else if remaining > 0 then remaining else 0);
            columns = relationColumns (pair_def (rp_left p)) (pair_def (rp_right p))
        in case diffRows env ls rs columns key limit of
             Inl e \<Rightarrow> Inl (CompareFailed (rp_name p) e)
           | Inr (counts, details, limited) \<Rightarrow>
               (let result = \<lparr>rr_Name = rp_name p,
                      rr_RightName = (if rp_right p \<noteq> None \<and> rp_rightName p \<noteq> rp_name p then rp_rightName p else []),
                      rr_Identity = identity_of (KeyMaps opts) (rp_name p) key,
                      rr_LeftRows = int (length ls), rr_RightRows = int (length rs),
                      rr_Counts = counts, rr_Details = details, rr_DetailsLimited = limited\<rparr>
                in Inr (rep\<lparr>SchemaChanges := SchemaChanges rep @ changes, Relations := Relations rep @ [result],
                          Summary := add_counts (Summary rep) counts, DetailsLimited := DetailsLimited rep \<or> limited\<rparr>,
                        if Details opts then max 0 (remaining - int (length details)) else remaining))))"

definition needs_schema :: "database \<Rightarrow> string \<Rightarrow> bool" where
  "needs_schema db schema \<longleftrightarrow> Adapter_Name db = Some ''dalgo2postgres'' \<and> TrimSpace schema = []"

definition at_inspect :: "(compare_error \<Rightarrow> compare_error) \<Rightarrow> compare_error + 'a \<Rightarrow> compare_error + 'a" where
  "at_inspect f m = (case m of Inl e \<Rightarrow> Inl (f e) | Inr x \<Rightarrow> Inr x)"

definition Compare :: "compare_env \<Rightarrow> string \<Rightarrow> database option \<Rightarrow> string \<Rightarrow> database option \<Rightarrow> options \<Rightarrow>
    compare_error + report" where
  "Compare env leftName left rightName right opts =
     (case (left, right) of
        (Some l, Some r) \<Rightarrow>
          if DetailLimit opts < 0 then Inl NegativeLimit
          else if needs_schema l (o_LeftSchema opts) then Inl LeftSchema
          else if needs_schema r (o_RightSchema opts) then Inl RightSchema
          else rbind (at_inspect InspectLeft (inspect l (o_LeftSchema opts))) (\<lambda>li.
            rbind (at_inspect InspectRight (inspect r (o_RightSchema opts))) (\<lambda>ri.
            rbind (matchRelations (inv_collections li) (inv_collections ri) (TableMaps opts)) (\<lambda>pairs.
            let rep = \<lparr>SchemaChanges = appendInventoryChanges leftName rightName (inv_adapterName li) (inv_adapterName ri) (inv_views li) (inv_views ri) pairs,
                  Warnings = inv_warnings li @ inv_warnings ri, Relations = [], Summary = no_counts, DetailsLimited = False\<rparr>
            in case find (\<lambda>n. n \<notin> set (map rp_name pairs)) (map fst (KeyMaps opts)) of
                 Some n \<Rightarrow> Inl (UnknownKeyMap n)
               | None \<Rightarrow> rbind (rfold (compare_pair env l r opts) pairs (rep, DetailLimit opts)) (\<lambda>(rep, _).
                   Inr (rep\<lparr>SchemaChanges := sort (SchemaChanges rep)\<rparr>)))))
      | _ \<Rightarrow> Inl NoDatabase)"

end
