(* ===== verification/Compare_Matching.thy ===== *)
theory Compare_Matching
  imports Compare_Rows "HOL-Library.Multiset"
begin

text \<open>
  What the pairing of relations and the schemas of a comparison guarantee.
\<close>

lemma check_mappings_ok:
  "check_mappings left right mappings used = Inr out \<Longrightarrow> distinct (map fst used) \<Longrightarrow>
     out = rev (map (\<lambda>(l, r). (r, l)) mappings) @ used \<and> distinct (map fst out) \<and>
     (\<forall>(l, r) \<in> set mappings. map_of left l \<noteq> None \<and> map_of right r \<noteq> None)"
proof (induction mappings arbitrary: used)
  case Nil
  then show ?case by simp
next
  case (Cons m mappings)
  obtain l r where m: "m = (l, r)" by (cases m)
  from Cons.prems(1) have ok: "map_of left l \<noteq> None" "map_of right r \<noteq> None" "map_of used r = None"
    and rest: "check_mappings left right mappings ((r, l) # used) = Inr out"
    by (auto simp: m split: if_splits)
  have "distinct (map fst ((r, l) # used))" using ok(3) Cons.prems(2) by (auto simp: map_of_eq_None_iff)
  from Cons.IH [OF rest this] have out: "out = rev (map (\<lambda>(l, r). (r, l)) mappings) @ (r, l) # used"
    and d: "distinct (map fst out)" and known: "\<forall>(l, r) \<in> set mappings. map_of left l \<noteq> None \<and> map_of right r \<noteq> None"
    by blast+
  have "out = rev (map (\<lambda>(l, r). (r, l)) (m # mappings)) @ used" by (simp add: out m)
  moreover have "\<forall>(l, r) \<in> set (m # mappings). map_of left l \<noteq> None \<and> map_of right r \<noteq> None"
    using known ok by (simp add: m)
  ultimately show ?case using d by blast
qed

lemma mappings_inverse:
  assumes "check_mappings left right mappings [] = Inr used" and "distinct (map fst mappings)"
  shows "map_of used r = Some l \<longleftrightarrow> map_of mappings l = Some r"
    and "map_of mappings l = Some r \<Longrightarrow> map_of left l \<noteq> None \<and> map_of right r \<noteq> None"
proof -
  from check_mappings_ok [OF assms(1)]
  have used: "used = rev (map (\<lambda>(l, r). (r, l)) mappings)" and d: "distinct (map fst used)"
    and known: "\<forall>(l, r) \<in> set mappings. map_of left l \<noteq> None \<and> map_of right r \<noteq> None" by (metis append_Nil2 distinct.simps(1) list.simps(8))+
  have "map_of used r = Some l \<longleftrightarrow> (r, l) \<in> set used" by (rule map_of_eq_Some_iff [OF d])
  also have "\<dots> \<longleftrightarrow> (l, r) \<in> set mappings" by (auto simp: used)
  also have "\<dots> \<longleftrightarrow> map_of mappings l = Some r" by (rule map_of_eq_Some_iff [OF assms(2), symmetric])
  finally show "map_of used r = Some l \<longleftrightarrow> map_of mappings l = Some r" .
  show "map_of left l \<noteq> None \<and> map_of right r \<noteq> None" if "map_of mappings l = Some r"
    using known map_of_SomeD [OF that] by blast
qed

lemma partner_cases:
  "partner right mappings used l = r \<and> r \<noteq> [] \<longleftrightarrow>
     r \<noteq> [] \<and> (map_of mappings l = Some r \<or>
       map_of mappings l = None \<and> map_of used l = None \<and> map_of right l \<noteq> None \<and> r = l)"
  by (auto simp: partner_def split: option.splits)

lemma partner_inj:
  assumes inverse: "\<And>l r. map_of used r = Some l \<longleftrightarrow> map_of mappings l = Some r"
    and "partner right mappings used a = r" "partner right mappings used b = r" "r \<noteq> []"
  shows "a = b"
proof -
  have pa: "map_of mappings a = Some r \<or> map_of mappings a = None \<and> map_of used a = None \<and> r = a"
    using partner_cases [of right mappings used a r] assms by blast
  have pb: "map_of mappings b = Some r \<or> map_of mappings b = None \<and> map_of used b = None \<and> r = b"
    using partner_cases [of right mappings used b r] assms by blast
  show ?thesis using pa pb inverse [of r a] inverse [of r b] by auto
qed

lemma matched_exact:
  assumes inj: "inj_on p {l \<in> set ls. p l \<noteq> []}" and "distinct ls" and "\<And>l. p l \<noteq> [] \<Longrightarrow> p l \<in> set rs" and "distinct rs"
  shows "mset (filter (\<lambda>r. r \<noteq> []) (map p ls)) + mset (filter (\<lambda>r. r \<notin> set (filter (\<lambda>r. r \<noteq> []) (map p ls))) rs) = mset rs"
proof -
  let ?m = "filter (\<lambda>r. r \<noteq> []) (map p ls)"
  have "distinct ?m" using inj \<open>distinct ls\<close>
    by (auto simp: filter_map distinct_map o_def intro: inj_on_subset)
  moreover have sub: "set ?m \<subseteq> set rs" using assms(3) by auto
  ultimately have "mset ?m = mset (filter (\<lambda>r. r \<in> set ?m) rs)" using \<open>distinct rs\<close>
    by (intro set_eq_iff_mset_eq_distinct [THEN iffD1]) auto
  then show ?thesis by (simp add: mset_filter)
qed

text \<open>The pairs a matching consists of, before they are sorted.\<close>

definition right_only :: "(string \<times> 'r) list \<Rightarrow> string \<Rightarrow> 'r relation_pair" where
  "right_only right r = \<lparr>rp_name = r, rp_rightName = r, rp_left = None, rp_right = map_of right r\<rparr>"

definition taken_names :: "(string \<Rightarrow> string) \<Rightarrow> string list \<Rightarrow> string list" where
  "taken_names p ls = filter (\<lambda>r. r \<noteq> []) (map p ls)"

lemma matchRelations_mset:
  assumes "matchRelations left right mappings = Inr pairs"
  obtains used where "check_mappings left right mappings [] = Inr used" and "sorted (map rp_name pairs)"
    and "mset pairs = mset (map (\<lambda>l. left_pair left right l (partner right mappings used l)) (map fst left)) +
      mset (map (right_only right) (filter (\<lambda>r. r \<notin> set (taken_names (partner right mappings used) (map fst left))) (map fst right)))"
proof -
  obtain used where used: "check_mappings left right mappings [] = Inr used"
    using assms by (cases "check_mappings left right mappings []") (simp_all add: matchRelations_def)
  let ?p = "partner right mappings used"
  have pairs: "pairs = sort_key rp_name (map (\<lambda>l. left_pair left right l (?p l)) (sort (map fst left)) @
      map (right_only right) (filter (\<lambda>r. r \<notin> set (taken_names ?p (sort (map fst left)))) (sort (map fst right))))"
    using assms by (simp add: matchRelations_def used Let_def right_only_def [abs_def] taken_names_def)
  have "set (taken_names ?p (sort (map fst left))) = set (taken_names ?p (map fst left))" by (simp add: taken_names_def del: map_map)
  then have "mset pairs = mset (map (\<lambda>l. left_pair left right l (?p l)) (map fst left)) +
      mset (map (right_only right) (filter (\<lambda>r. r \<notin> set (taken_names ?p (map fst left))) (map fst right)))"
    unfolding pairs by (simp add: mset_filter del: map_map)
  moreover have "sorted (map rp_name pairs)" by (simp add: pairs)
  ultimately show ?thesis using that [OF used] by blast
qed

lemma left_pair_simps [simp]:
  "rp_name (left_pair left right l r) = l" "rp_rightName (left_pair left right l r) = r"
  "rp_left (left_pair left right l r) = map_of left l"
  "rp_right (left_pair left right l r) = (if r = [] then None else map_of right r)"
  by (auto simp: left_pair_def)

lemma right_only_simps [simp]:
  "rp_name (right_only right r) = r" "rp_rightName (right_only right r) = r"
  "rp_left (right_only right r) = None" "rp_right (right_only right r) = map_of right r"
  by (auto simp: right_only_def)

lemma mapping_known:
  assumes "check_mappings left right mappings [] = Inr used" and "distinct (map fst mappings)" and "map_of mappings l = Some r"
  shows "l \<in> fst ` set left \<and> r \<in> fst ` set right"
  using mappings_inverse(2) [OF assms] by (simp add: map_of_eq_None_iff)

lemma partner_known:
  assumes "check_mappings left right mappings [] = Inr used" and "distinct (map fst mappings)" and "partner right mappings used l \<noteq> []"
  shows "partner right mappings used l \<in> fst ` set right"
  using partner_cases [of right mappings used l "partner right mappings used l"] mapping_known [OF assms(1,2), of l] assms(3)
  by (auto simp: map_of_eq_None_iff)

lemma pairs_content:
  assumes "mset pairs = mset (map f ls) + mset (map g rs)"
  shows "p \<in> set pairs \<longleftrightarrow> (\<exists>l \<in> set ls. p = f l) \<or> (\<exists>r \<in> set rs. p = g r)"
  using arg_cong [OF assms, of set_mset] by auto

lemma split_filter:
  assumes "mset pairs = mset (map f ls) + mset (map g rs)"
  shows "mset (map h (filter P pairs)) = mset (map (\<lambda>l. h (f l)) (filter (\<lambda>l. P (f l)) ls)) + mset (map (\<lambda>r. h (g r)) (filter (\<lambda>r. P (g r)) rs))"
proof -
  have "mset (map h (filter P pairs)) = image_mset h (filter_mset P (mset pairs))" by (simp add: mset_filter)
  then show ?thesis unfolding assms by (simp add: filter_mset_image_mset image_mset.compositionality o_def flip: mset_filter)
qed

lemma present: "(if r = [] then None else x) \<noteq> None \<longleftrightarrow> r \<noteq> [] \<and> x \<noteq> None"
  by simp

lemma filter_known: "filter (\<lambda>l. map_of left l \<noteq> None) (map fst left) = map fst left"
  by (rule filter_True) (auto simp: map_of_eq_None_iff)

lemma matching_exact:
  fixes left right :: "(string \<times> 'r) list"
  assumes checked: "check_mappings left right mappings [] = Inr used" and "distinct (map fst left)" "distinct (map fst right)"
    and mapped: "distinct (map fst mappings)"
    and content: "mset pairs = mset (map (\<lambda>l. left_pair left right l (partner right mappings used l)) (map fst left)) +
      mset (map (right_only right) (filter (\<lambda>r. r \<notin> set (taken_names (partner right mappings used) (map fst left))) (map fst right)))"
  shows "mset (map rp_name (filter (\<lambda>p. rp_left p \<noteq> None) pairs)) = mset (map fst left)"
    and "mset (map rp_rightName (filter (\<lambda>p. rp_right p \<noteq> None) pairs)) = mset (map fst right)"
proof -
  let ?p = "partner right mappings used"
  show "mset (map rp_name (filter (\<lambda>p. rp_left p \<noteq> None) pairs)) = mset (map fst left)"
    unfolding split_filter [OF content] by (simp add: filter_known del: not_None_eq)
  have some: "map_of right (?p l) \<noteq> None" if "?p l \<noteq> []" for l
    using partner_known [OF checked mapped that] by (simp add: map_of_eq_None_iff)
  have inj: "inj_on ?p {l \<in> set (map fst left). ?p l \<noteq> []}"
  proof (rule inj_onI)
    fix a b assume "a \<in> {l \<in> set (map fst left). ?p l \<noteq> []}" and "?p a = ?p b"
    then show "a = b" using partner_inj [OF mappings_inverse(1) [OF checked mapped]] by (metis (mono_tags, lifting) mem_Collect_eq)
  qed
  have lefts: "map ?p (filter (\<lambda>l. ?p l \<noteq> [] \<and> map_of right (?p l) \<noteq> None) (map fst left)) = taken_names ?p (map fst left)"
    using some by (simp add: taken_names_def filter_map o_def cong: conj_cong)
  have rights: "filter (\<lambda>r. map_of right r \<noteq> None) (filter (\<lambda>r. r \<notin> set (taken_names ?p (map fst left))) (map fst right)) =
      filter (\<lambda>r. r \<notin> set (taken_names ?p (map fst left))) (map fst right)"
    by (rule filter_True) (auto simp: map_of_eq_None_iff)
  have "mset (map rp_rightName (filter (\<lambda>p. rp_right p \<noteq> None) pairs)) =
      mset (map ?p (filter (\<lambda>l. ?p l \<noteq> [] \<and> map_of right (?p l) \<noteq> None) (map fst left))) +
      mset (filter (\<lambda>r. map_of right r \<noteq> None) (filter (\<lambda>r. r \<notin> set (taken_names ?p (map fst left))) (map fst right)))"
    unfolding split_filter [OF content] by (simp add: present del: not_None_eq)
  also have "\<dots> = mset (map fst right)"
    unfolding lefts rights unfolding taken_names_def
    by (rule matched_exact) (use inj assms(2,3) partner_known [OF checked mapped] in auto)
  finally show "mset (map rp_rightName (filter (\<lambda>p. rp_right p \<noteq> None) pairs)) = mset (map fst right)" .
qed


text \<open>Every collection of an inventory has a name, and no two the same.\<close>

definition well_named :: "relation_inventory \<Rightarrow> bool" where
  "well_named stock \<longleftrightarrow> distinct (map fst (inv_collections stock)) \<and> [] \<notin> set (map fst (inv_collections stock))"

lemma inspect_ref_named:
  assumes "inspect_ref db q r stock = Inr stock'" and "well_named stock"
  shows "well_named stock'"
proof -
  have "relationName r \<noteq> []" if "cr_Name r \<noteq> []" using that by (simp add: relationName_def)
  then show ?thesis using assms
    by (auto simp: inspect_ref_def Let_def well_named_def map_of_eq_None_iff split: if_splits option.splits index_answer.splits)
qed

lemma inspect_named:
  assumes "inspect db q = Inr stock"
  shows "well_named stock"
proof -
  have steps: "rfold (inspect_ref db q) refs s = Inr s' \<Longrightarrow> well_named s \<Longrightarrow> well_named s'" for refs s s'
  proof (induction refs arbitrary: s)
    case (Cons r refs)
    then show ?case using inspect_ref_named by (cases "inspect_ref db q r s") auto
  qed simp
  from assms obtain refs s where "rfold (inspect_ref db q) refs s = Inr stock" and "inv_collections s = []"
    by (auto simp: inspect_def Let_def rbind_def split: option.splits sum.splits)
  then show ?thesis using steps [of refs s stock] by (simp add: well_named_def)
qed


text \<open>
  Why a relation pair may stand in a matching, and that two names are paired with each other.
\<close>

definition justified :: "(string \<times> 'r) list \<Rightarrow> (string \<times> 'r) list \<Rightarrow> (string \<times> string) list \<Rightarrow> 'r relation_pair \<Rightarrow> bool" where
  "justified left right mappings p \<longleftrightarrow>
     (case (rp_left p, rp_right p) of
        (None, None) \<Rightarrow> False
      | (Some l, None) \<Rightarrow> map_of left (rp_name p) = Some l
      | (None, Some r) \<Rightarrow> map_of right (rp_rightName p) = Some r
      | (Some l, Some r) \<Rightarrow> map_of left (rp_name p) = Some l \<and> map_of right (rp_rightName p) = Some r \<and>
          (map_of mappings (rp_name p) = Some (rp_rightName p) \<or>
           rp_rightName p = rp_name p \<and> rp_name p \<notin> fst ` set mappings \<and> rp_name p \<notin> snd ` set mappings))"

definition pairs_up :: "'r relation_pair list \<Rightarrow> string \<Rightarrow> string \<Rightarrow> bool" where
  "pairs_up pairs l r \<longleftrightarrow> list_ex (\<lambda>p. rp_name p = l \<and> rp_rightName p = r \<and> rp_left p \<noteq> None \<and> rp_right p \<noteq> None) pairs"

lemma claimed_target:
  assumes "check_mappings left right mappings [] = Inr used" and "distinct (map fst mappings)"
  shows "map_of used n = None \<longleftrightarrow> n \<notin> snd ` set mappings"
proof -
  have "map_of used n \<noteq> None \<longleftrightarrow> (\<exists>a. (a, n) \<in> set mappings)"
    using mappings_inverse(1) [OF assms, of n] map_of_eq_Some_iff [OF assms(2)] by auto
  then show ?thesis by force
qed

lemma left_pair_justified:
  assumes checked: "check_mappings left right mappings [] = Inr used" and mapped: "distinct (map fst mappings)"
    and l: "l \<in> fst ` set left"
  shows "justified left right mappings (left_pair left right l (partner right mappings used l))"
proof -
  obtain x where x: "map_of left l = Some x" using l by (metis map_of_eq_None_iff not_None_eq)
  show ?thesis
  proof (cases "partner right mappings used l = []")
    case True
    then show ?thesis by (simp add: justified_def x)
  next
    case False
    then obtain y where y: "map_of right (partner right mappings used l) = Some y"
      using partner_known [OF checked mapped] by (metis map_of_eq_None_iff not_None_eq)
    have "map_of mappings l = Some (partner right mappings used l) \<or>
        partner right mappings used l = l \<and> l \<notin> fst ` set mappings \<and> l \<notin> snd ` set mappings"
      using partner_cases [of right mappings used l "partner right mappings used l"] False claimed_target [OF checked mapped, of l]
        map_of_eq_None_iff [of mappings l] by blast
    then show ?thesis using False by (simp add: justified_def x y)
  qed
qed

lemma right_only_justified:
  assumes "r \<in> fst ` set right"
  shows "justified left right mappings (right_only right r)"
proof -
  obtain y where "map_of right r = Some y" using assms by (metis map_of_eq_None_iff not_None_eq)
  then show ?thesis by (simp add: justified_def)
qed

lemma partner_pairs_up:
  assumes checked: "check_mappings left right mappings [] = Inr used" and mapped: "distinct (map fst mappings)"
    and content: "mset pairs = mset (map (\<lambda>l. left_pair left right l (partner right mappings used l)) (map fst left)) + mset (map g rs)"
    and l: "l \<in> fst ` set left" and p: "partner right mappings used l = r" and r: "r \<noteq> []"
  shows "pairs_up pairs l r"
proof -
  have "left_pair left right l r \<in> set pairs" using l p pairs_content [OF content] by auto
  moreover have "map_of left l \<noteq> None" "map_of right r \<noteq> None"
    using l p r partner_known [OF checked mapped, of l] by (simp_all add: map_of_eq_None_iff)
  ultimately show ?thesis using r by (force simp: pairs_up_def list_ex_iff)
qed

text \<open>
  C23: the relations of two inspected databases are paired exactly.  The pairs are in the order
  of their names; every relation of the left side is in exactly one of them, and so is every
  relation of the right side, with the definition its inventory has under that name.  Two
  relations stand in a pair either because a table mapping says so or because they have the
  same name and no mapping touches either; every mapping is honoured, and every name that both
  sides have and no mapping touches is a pair.
\<close>

theorem match_relations_exact:
  assumes li: "inspect left_db left_schema = Inr li" and ri: "inspect right_db right_schema = Inr ri"
    and ok: "matchRelations (inv_collections li) (inv_collections ri) mappings = Inr pairs" and mapped: "distinct (map fst mappings)"
  shows "sorted (map rp_name pairs) \<and>
    mset (map rp_name (filter (\<lambda>p. rp_left p \<noteq> None) pairs)) = mset (map fst (inv_collections li)) \<and>
    mset (map rp_rightName (filter (\<lambda>p. rp_right p \<noteq> None) pairs)) = mset (map fst (inv_collections ri)) \<and>
    list_all (justified (inv_collections li) (inv_collections ri) mappings) pairs \<and>
    (\<forall>(l, r) \<in> set mappings. pairs_up pairs l r) \<and>
    (\<forall>n \<in> fst ` set (inv_collections li) \<inter> fst ` set (inv_collections ri) - fst ` set mappings - snd ` set mappings. pairs_up pairs n n)"
proof (intro conjI)
  let ?l = "inv_collections li" and ?r = "inv_collections ri"
  have l: "distinct (map fst ?l)" and r: "distinct (map fst ?r)" and ne: "[] \<notin> fst ` set ?r"
    using inspect_named [OF li] inspect_named [OF ri] by (simp_all add: well_named_def)
  obtain used where used: "check_mappings ?l ?r mappings [] = Inr used" and sorted: "sorted (map rp_name pairs)"
    and content: "mset pairs = mset (map (\<lambda>l. left_pair ?l ?r l (partner ?r mappings used l)) (map fst ?l)) +
      mset (map (right_only ?r) (filter (\<lambda>r. r \<notin> set (taken_names (partner ?r mappings used) (map fst ?l))) (map fst ?r)))"
    using matchRelations_mset [OF ok] by blast
  show "sorted (map rp_name pairs)" by (rule sorted)
  show "mset (map rp_name (filter (\<lambda>p. rp_left p \<noteq> None) pairs)) = mset (map fst ?l)"
    and "mset (map rp_rightName (filter (\<lambda>p. rp_right p \<noteq> None) pairs)) = mset (map fst ?r)"
    by (rule matching_exact [OF used l r mapped content])+
  show "list_all (justified ?l ?r mappings) pairs"
    unfolding list_all_iff
  proof
    fix p assume "p \<in> set pairs"
    then consider l where "l \<in> fst ` set ?l" "p = left_pair ?l ?r l (partner ?r mappings used l)"
      | r where "r \<in> fst ` set ?r" "p = right_only ?r r" using pairs_content [OF content, of p] by auto
    then show "justified ?l ?r mappings p" using left_pair_justified [OF used mapped] right_only_justified by cases blast+
  qed
  show "\<forall>(l, r) \<in> set mappings. pairs_up pairs l r"
  proof (intro ballI, clarify)
    fix l r assume "(l, r) \<in> set mappings"
    then have m: "map_of mappings l = Some r" using mapped by simp
    then have "partner ?r mappings used l = r" by (simp add: partner_def)
    moreover have "l \<in> fst ` set ?l" "r \<noteq> []" using mapping_known [OF used mapped m] ne by metis+
    ultimately show "pairs_up pairs l r" using partner_pairs_up [OF used mapped content] by blast
  qed
  show "\<forall>n \<in> fst ` set ?l \<inter> fst ` set ?r - fst ` set mappings - snd ` set mappings. pairs_up pairs n n"
  proof
    fix n assume n: "n \<in> fst ` set ?l \<inter> fst ` set ?r - fst ` set mappings - snd ` set mappings"
    then have "map_of mappings n = None" "map_of used n = None" "map_of ?r n \<noteq> None"
      using claimed_target [OF used mapped, of n] by (simp_all add: map_of_eq_None_iff)
    then have "partner ?r mappings used n = n" by (simp add: partner_def)
    moreover have "n \<noteq> []" using n ne by blast
    ultimately show "pairs_up pairs n n" using n partner_pairs_up [OF used mapped content] by blast
  qed
qed


text \<open>Two small databases: the mapping sends \<open>a\<close> to \<open>c\<close>, so the \<open>a\<close> of the right side stands alone.\<close>

definition sample_db :: "string list \<Rightarrow> database" where
  "sample_db names = \<lparr>Adapter_Name = None, ListCollections = Some (map (\<lambda>n. \<lparr>cr_Schema = [], cr_Name = n\<rparr>) names), ListSourceViews = Some (Some []),
     DescribeCollection = (\<lambda>r. Some (Some (no_collection\<lparr>cd_Name := cr_Name r\<rparr>))), ListIndexes = (\<lambda>r. Indexes []),
     source_rows = (\<lambda>r. \<lparr>rs_rows = [], rs_fails = False\<rparr>)\<rparr>"

definition sample_relation :: "string \<Rightarrow> string \<times> compare_relation" where
  "sample_relation n = (n, \<lparr>rel_ref = \<lparr>cr_Schema = [], cr_Name = n\<rparr>, rel_def = no_collection\<lparr>cd_Name := n\<rparr>, rel_indexesKnown = True\<rparr>)"

definition sample_stock :: "string list \<Rightarrow> relation_inventory" where
  "sample_stock names = \<lparr>inv_collections = map sample_relation names, inv_views = [], inv_adapterName = [], inv_warnings = []\<rparr>"

lemma sample_inspect:
  "inspect (sample_db [''b'', ''a'']) [] = Inr (sample_stock [''b'', ''a''])"
  "inspect (sample_db [''a'', ''c'']) [] = Inr (sample_stock [''a'', ''c''])"
  by (simp_all add: inspect_def sample_db_def sample_stock_def sample_relation_def inspect_ref_def relationName_def no_collection_def
      fieldOrder_def mergeIndexes_def query_ref_def Let_def)

definition sample_pairs :: "compare_relation relation_pair list" where
  "sample_pairs = [\<lparr>rp_name = ''a'', rp_rightName = ''c'', rp_left = Some (snd (sample_relation ''a'')), rp_right = Some (snd (sample_relation ''c''))\<rparr>,
     \<lparr>rp_name = ''a'', rp_rightName = ''a'', rp_left = None, rp_right = Some (snd (sample_relation ''a''))\<rparr>,
     \<lparr>rp_name = ''b'', rp_rightName = [], rp_left = Some (snd (sample_relation ''b'')), rp_right = None\<rparr>]"

lemma sample_matching:
  "matchRelations (inv_collections (sample_stock [''b'', ''a''])) (inv_collections (sample_stock [''a'', ''c''])) [(''a'', ''c'')] = Inr sample_pairs"
  by (simp add: matchRelations_def sample_stock_def sample_relation_def sample_pairs_def partner_def left_pair_def sort_key_def)

theorem match_relations_exact_witness:
  "pairs_up sample_pairs ''a'' ''c'' \<and> mset (map rp_rightName (filter (\<lambda>p. rp_right p \<noteq> None) sample_pairs)) = mset [''a'', ''c'']"
  using match_relations_exact [OF sample_inspect sample_matching] by (simp add: sample_stock_def sample_relation_def o_def)

end
