(* ===== verification/Compare_Decimal.thy ===== *)
theory Compare_Decimal
  imports Compare_Values
begin

text \<open>
  The decimal texts of a comparison: the text \<open>canonicalDecimal\<close> gives a number reads back
  as that number, every finite decimal has one, and so two decimal values are taken for equal
  exactly when they are.
\<close>


section \<open>Factors\<close>

lemma strip_factor_exact:
  assumes "1 < p" "0 < d" "strip_factor p d = (k, r)"
  shows "d = p ^ k * r \<and> 0 < r \<and> \<not> p dvd r"
  using assms
proof (induction p d arbitrary: k r rule: strip_factor.induct)
  case (1 p d)
  show ?case
  proof (cases "d mod p = 0")
    case True
    obtain k' r' where s: "strip_factor p (d div p) = (k', r')" by fastforce
    have kr: "k = Suc k'" "r = r'" using 1(2-4) True s by (simp_all add: strip_factor.simps [of p d])
    have pos: "0 < d div p" using True 1(2,3) by (auto intro: zdvd_imp_le simp: mod_eq_0_iff_dvd pos_imp_zdiv_pos_iff)
    from 1(1) [OF _ 1(2) pos s] True 1(2,3) have IH: "d div p = p ^ k' * r'" "0 < r'" "\<not> p dvd r'" by auto
    have "d = p * (d div p)" using True by (simp add: mod_eq_0_iff_dvd)
    then show ?thesis using IH kr by simp
  next
    case False
    then show ?thesis using 1(2-4) by (simp add: strip_factor.simps [of p d] mod_eq_0_iff_dvd)
  qed
qed

text \<open>The denominators of finite decimals, and the places they need.\<close>

lemma finite_decimal_denominator:
  assumes "0 < b" "strip_factor 2 b = (twos, d)" "strip_factor 5 d = (fives, d')"
  shows "d' = 1 \<Longrightarrow> b dvd 10 ^ max twos fives" and "b dvd 10 ^ k \<Longrightarrow> d' = 1"
proof -
  have b: "b = 2 ^ twos * d" "0 < d" "\<not> 2 dvd d" using strip_factor_exact [OF _ assms(1,2)] by simp_all
  have d: "d = 5 ^ fives * d'" "0 < d'" "\<not> 5 dvd d'" using strip_factor_exact [OF _ b(2) assms(3)] by simp_all
  show "b dvd 10 ^ max twos fives" if "d' = 1"
  proof -
    have "(10 :: int) ^ max twos fives = 2 ^ max twos fives * 5 ^ max twos fives" by (simp flip: power_mult_distrib)
    then show ?thesis using that b d by (simp add: mult_dvd_mono le_imp_power_dvd)
  qed
  show "d' = 1" if "b dvd 10 ^ k"
  proof -
    have "odd d'" using b(3) d(1) by auto
    then have "coprime 2 d'" by simp
    moreover have "coprime 5 d'"
    proof -
      have "d' mod 5 = 1 \<or> d' mod 5 = 2 \<or> d' mod 5 = 3 \<or> d' mod 5 = 4" using d(3) by presburger
      then have "gcd 5 (d' mod 5) = 1" by (elim disjE) (simp_all add: gcd_non_0_int)
      then show ?thesis by (metis coprime_iff_gcd_eq_1 gcd.commute gcd_red_int)
    qed
    ultimately have "coprime (2 * 5) d'" by (simp only: coprime_mult_left_iff)
    then have "coprime (10 ^ k) d'" by simp
    moreover have "d' dvd 10 ^ k" using that b d by (meson dvd_trans dvd_triv_right)
    ultimately have "is_unit d'" using coprime_absorb_right [of d' "10 ^ k"] by simp
    then show ?thesis using d(2) by simp
  qed
qed



section \<open>Digits\<close>

lemma nat_of_digits_append: "nat_of_digits (s @ t) = nat_of_digits s * 10 ^ length t + nat_of_digits t"
proof (induction t rule: rev_induct)
  case Nil
  then show ?case by (simp add: nat_of_digits_def)
next
  case (snoc c t)
  then show ?case using nat_of_digits_snoc [of "s @ t" c] nat_of_digits_snoc [of t c] by (simp add: algebra_simps)
qed

lemma nat_of_digits_replicate: "nat_of_digits (replicate k CHR ''0'') = 0"
  by (induction k) (simp_all add: nat_of_digits_def digit_val_def)

lemma zero_is_digit: "is_digit CHR ''0''"
  by (simp add: is_digit_def)

lemma length_show_nat: "n < 10 ^ k \<Longrightarrow> 0 < k \<Longrightarrow> length (show_nat n) \<le> k"
  using show_nat_length_le [of n "k - 1"] by simp

lemma pad_left_digits:
  assumes "n < 10 ^ k" "0 < k"
  shows "length (pad_left k (show_nat n)) = k" and "list_all is_digit (pad_left k (show_nat n))" and "nat_of_digits (pad_left k (show_nat n)) = n"
  using length_show_nat [OF assms] show_nat_digits [of n]
  by (auto simp: pad_left_def nat_of_digits_append nat_of_digits_replicate zero_is_digit list_all_iff)

text \<open>A sign, digits, a point and more digits read as the number they show.\<close>

definition decimal_text :: "bool \<Rightarrow> string \<Rightarrow> string \<Rightarrow> string" where
  "decimal_text neg ip fp = (if neg then ''-'' else []) @ ip @ ''.'' @ fp"

lemma digits_unsigned:
  assumes "list_all is_digit ip" "ip \<noteq> []"
  shows "unsigned_part ((if neg then ''-'' else []) @ ip @ rest) = ip @ rest" "sign_of ((if neg then ''-'' else []) @ ip @ rest) = (if neg then - 1 else 1)"
proof -
  have "is_digit (hd ip)" using assms by (cases ip) simp_all
  then have "hd ip \<noteq> CHR ''-'' \<and> hd ip \<noteq> CHR ''+''" by (auto simp: is_digit_def)
  then show "unsigned_part ((if neg then ''-'' else []) @ ip @ rest) = ip @ rest" "sign_of ((if neg then ''-'' else []) @ ip @ rest) = (if neg then - 1 else 1)"
    using assms(2) by (simp_all add: unsigned_part_def signed_def sign_of_def)
qed

lemma RatSetString_decimal:
  assumes "list_all is_digit ip" "ip \<noteq> []" "list_all is_digit fp"
  shows "RatSetString (decimal_text neg ip fp) = Some (of_int ((if neg then - 1 else 1) * int (nat_of_digits (ip @ fp))) / 10 ^ length fp)"
proof -
  have d: "\<forall>c \<in> set ip. is_digit c" "\<forall>c \<in> set fp. is_digit c" using assms by (simp_all add: list_all_iff)
  have point: "\<not> is_digit CHR ''.''" by (simp add: is_digit_def)
  have parts: "takeWhile is_digit (ip @ CHR ''.'' # fp) = ip" "dropWhile is_digit (ip @ CHR ''.'' # fp) = CHR ''.'' # fp"
    "takeWhile is_digit fp = fp" "dropWhile is_digit fp = []"
    using d point by (simp_all add: takeWhile_append2 dropWhile_append2 takeWhile_eq_all_conv)
  show ?thesis
    unfolding RatSetString_def decimal_text_def digits_unsigned [OF assms(1,2)]
    using assms(2) by (simp only: Let_def append_Cons append_Nil parts) (simp add: parts exponent_value_def scale10_def)
qed

lemma RatSetString_digits:
  assumes "list_all is_digit ip" "ip \<noteq> []"
  shows "RatSetString ((if neg then ''-'' else []) @ ip) = Some (of_int ((if neg then - 1 else 1) * int (nat_of_digits ip)))"
proof -
  have parts: "takeWhile is_digit ip = ip" "dropWhile is_digit ip = []"
    using assms(1) by (simp_all add: list_all_iff takeWhile_eq_all_conv)
  show ?thesis
    using digits_unsigned [OF assms, of neg "[]"] assms(2)
    by (simp only: RatSetString_def append_Nil2 Let_def parts) (simp add: exponent_value_def scale10_def)
qed

lemma RatSetString_integer: "RatSetString (show_int i) = Some (of_int i)"
  using RatSetString_digits [OF show_nat_digits show_nat_nonempty, of "i < 0" "nat \<bar>i\<bar>"] by (cases "i < 0") (simp_all add: show_int_def)

lemma RatSetString_zero: "RatSetString t = Some q \<Longrightarrow> RatSetString (if t = ''-0'' \<or> t = [] then ''0'' else t) = Some q"
proof -
  have "RatSetString ''-0'' = Some 0" "RatSetString ''0'' = Some 0" "RatSetString [] = None" by code_simp+
  then show "RatSetString t = Some q \<Longrightarrow> RatSetString (if t = ''-0'' \<or> t = [] then ''0'' else t) = Some q" by auto
qed

text \<open>Dropping the zeros at the end of a fraction does not change what the text reads as.\<close>

lemma TrimRight_split: "\<exists>k. s = TrimRight c s @ replicate k c"
proof -
  have "\<exists>k. t = replicate k c @ dropWhile (\<lambda>x. x = c) t" for t
  proof (induction t)
    case (Cons x t)
    then obtain k where k: "t = replicate k c @ dropWhile (\<lambda>x. x = c) t" by blast
    show ?case
    proof (cases "x = c")
      case True
      then have "x # t = replicate (Suc k) c @ dropWhile (\<lambda>x. x = c) (x # t)" by (simp flip: k)
      then show ?thesis by blast
    next
      case False
      then have "x # t = replicate 0 c @ dropWhile (\<lambda>x. x = c) (x # t)" by simp
      then show ?thesis by blast
    qed
  qed simp
  from this [of "rev s"] obtain k where "rev s = replicate k c @ dropWhile (\<lambda>x. x = c) (rev s)" by blast
  then have "s = rev (replicate k c @ dropWhile (\<lambda>x. x = c) (rev s))" by (metis rev_rev_ident)
  then show ?thesis unfolding TrimRight_def by (metis rev_append rev_replicate)
qed


lemma TrimRight_keep: "s \<noteq> [] \<Longrightarrow> last s \<noteq> c \<Longrightarrow> TrimRight c (p @ s) = p @ s"
  by (cases s rule: rev_cases) (simp_all add: TrimRight_def)

lemma TrimRight_cons: "x \<noteq> c \<Longrightarrow> TrimRight c (p @ x # s) = p @ x # TrimRight c s"
  by (simp add: TrimRight_def dropWhile_append)

lemma TrimRight_point:
  assumes "list_all is_digit fp" "ip \<noteq> []" "list_all is_digit ip"
  shows "TrimRight CHR ''.'' (decimal_text neg ip fp) = (if fp = [] then (if neg then ''-'' else []) @ ip else decimal_text neg ip fp)"
proof -
  have no_point: "last xs \<noteq> CHR ''.''" if "list_all is_digit xs" "xs \<noteq> []" for xs
    using that by (cases xs rule: rev_cases) (auto simp: is_digit_def)
  show ?thesis
  proof (cases "fp = []")
    case True
    have "TrimRight CHR ''.'' (((if neg then ''-'' else []) @ ip) @ ''.'') = TrimRight CHR ''.'' ((if neg then ''-'' else []) @ ip)"
      by (simp only: TrimRight_def rev_append) simp
    then show ?thesis using True TrimRight_keep [OF assms(2) no_point [OF assms(3,2)]] by (simp add: decimal_text_def)
  next
    case False
    then show ?thesis using TrimRight_keep [OF False no_point [OF assms(1) False], of "(if neg then ''-'' else []) @ ip @ ''.''"]
      by (simp add: decimal_text_def)
  qed
qed

lemma trimmed_text_value:
  assumes "list_all is_digit ip" "ip \<noteq> []" "list_all is_digit fp"
    and "of_int ((if neg then - 1 else 1) * int (nat_of_digits (ip @ fp))) / 10 ^ length fp = q"
  shows "RatSetString (TrimRight CHR ''.'' (TrimRight CHR ''0'' (decimal_text neg ip fp))) = Some q"
proof -
  obtain k where k: "fp = TrimRight CHR ''0'' fp @ replicate k CHR ''0''" using TrimRight_split by blast
  let ?f = "TrimRight CHR ''0'' fp"
  have f: "list_all is_digit ?f" using assms(3) by (subst (asm) k) simp
  have "ip @ fp = (ip @ ?f) @ replicate k CHR ''0''" by (simp flip: k)
  then have n: "nat_of_digits (ip @ fp) = nat_of_digits (ip @ ?f) * 10 ^ k" by (simp only: nat_of_digits_append nat_of_digits_replicate) simp
  have len: "length fp = length ?f + k" by (subst k) simp
  have val: "of_int ((if neg then - 1 else 1) * int (nat_of_digits (ip @ ?f))) / 10 ^ length ?f = q"
    using assms(4) by (simp add: n len power_add)
  have "TrimRight CHR ''0'' (decimal_text neg ip fp) = decimal_text neg ip ?f"
    using TrimRight_cons [of "CHR ''.''" "CHR ''0''" "(if neg then ''-'' else []) @ ip" fp] by (simp add: decimal_text_def)
  then show ?thesis
    using RatSetString_decimal [OF assms(1,2) f, of neg] RatSetString_digits [OF assms(1,2), of neg] val
    by (simp only: TrimRight_point [OF f assms(2,1)]) (auto split: if_splits)
qed


section \<open>The text of a finite decimal\<close>

lemma FloatString_exact:
  assumes q: "quotient_of q = (a, b)" and b: "b \<noteq> 1" and m: "10 ^ prec = b * m" and prec: "0 < prec"
  shows "FloatString q prec = decimal_text (a < 0) (show_nat (nat (\<bar>a\<bar> div b))) (pad_left prec (show_nat (nat (\<bar>a\<bar> mod b * m))))"
    and "nat (\<bar>a\<bar> mod b * m) < 10 ^ prec"
    and "of_int ((if a < 0 then - 1 else 1) * int (nat (\<bar>a\<bar> div b) * 10 ^ prec + nat (\<bar>a\<bar> mod b * m))) / 10 ^ prec = q"
proof -
  have pos: "0 < b" using quotient_of_denom_pos [OF q] .
  have "0 < b * m" using m by (metis zero_less_numeral zero_less_power)
  then have mpos: "0 < m" using pos by (simp add: zero_less_mult_iff)
  have t: "\<bar>a\<bar> mod b * 10 ^ prec div b = \<bar>a\<bar> mod b * m" "\<bar>a\<bar> mod b * 10 ^ prec mod b = 0" using pos by (simp_all add: m)
  have less: "\<bar>a\<bar> mod b * m < 10 ^ prec" "0 \<le> \<bar>a\<bar> mod b * m" "0 \<le> \<bar>a\<bar> div b"
    using pos mpos by (simp_all add: m pos_imp_zdiv_nonneg_iff)
  then show "nat (\<bar>a\<bar> mod b * m) < 10 ^ prec" by (simp add: nat_less_iff)
  show "FloatString q prec = decimal_text (a < 0) (show_nat (nat (\<bar>a\<bar> div b))) (pad_left prec (show_nat (nat (\<bar>a\<bar> mod b * m))))"
    using b pos less prec by (simp add: FloatString_def q t Let_def decimal_text_def show_int_def)
  have "int (nat (\<bar>a\<bar> div b) * 10 ^ prec + nat (\<bar>a\<bar> mod b * m)) = \<bar>a\<bar> div b * 10 ^ prec + \<bar>a\<bar> mod b * m" using less by simp
  also have "\<dots> = (\<bar>a\<bar> div b * b + \<bar>a\<bar> mod b) * m" unfolding m by (simp only: distrib_right mult.assoc)
  finally have "int (nat (\<bar>a\<bar> div b) * 10 ^ prec + nat (\<bar>a\<bar> mod b * m)) = (\<bar>a\<bar> div b * b + \<bar>a\<bar> mod b) * m" .
  then have n: "int (nat (\<bar>a\<bar> div b) * 10 ^ prec + nat (\<bar>a\<bar> mod b * m)) = \<bar>a\<bar> * m" by simp
  have ten: "(10 :: rat) ^ prec = of_int b * of_int m" using arg_cong [OF m, of "of_int :: int \<Rightarrow> rat"] by simp
  have "q = of_int a / of_int b" using quotient_of_div [OF q] .
  then show "of_int ((if a < 0 then - 1 else 1) * int (nat (\<bar>a\<bar> div b) * 10 ^ prec + nat (\<bar>a\<bar> mod b * m))) / 10 ^ prec = q"
    unfolding n ten using mpos by simp
qed

lemma canonicalDecimal_reads:
  assumes "canonicalDecimal q = Some t"
  shows "RatSetString t = Some q"
proof -
  obtain a b where q: "quotient_of q = (a, b)" by fastforce
  obtain twos d where two: "strip_factor 2 b = (twos, d)" by fastforce
  obtain fives d' where five: "strip_factor 5 d = (fives, d')" by fastforce
  have pos: "0 < b" using quotient_of_denom_pos [OF q] .
  have one: "d' = 1" using assms by (auto simp: canonicalDecimal_def q two five split: if_splits)
  let ?prec = "max twos fives"
  have "b dvd 10 ^ ?prec" by (rule finite_decimal_denominator(1) [OF pos two five one])
  then obtain m where m: "10 ^ ?prec = b * m" by blast
  have prec: "(if fives > twos then fives else twos) = ?prec" by auto
  let ?s = "FloatString q ?prec"
  have t: "t = (if (if CHR ''.'' \<in> set ?s then TrimRight CHR ''.'' (TrimRight CHR ''0'' ?s) else ?s) = ''-0'' \<or>
      (if CHR ''.'' \<in> set ?s then TrimRight CHR ''.'' (TrimRight CHR ''0'' ?s) else ?s) = [] then ''0''
      else (if CHR ''.'' \<in> set ?s then TrimRight CHR ''.'' (TrimRight CHR ''0'' ?s) else ?s))"
    using assms by (simp add: canonicalDecimal_def q two five one prec Let_def)
  have "RatSetString (if CHR ''.'' \<in> set ?s then TrimRight CHR ''.'' (TrimRight CHR ''0'' ?s) else ?s) = Some q"
  proof (cases "b = 1")
    case True
    then have "twos = 0" "d = 1" "fives = 0" using two five by (simp_all add: strip_factor.simps)
    then have s: "?s = show_int a" using True by (simp add: FloatString_def q)
    have "CHR ''.'' \<notin> set (show_int a)" using show_nat_digits by (auto simp: show_int_def list_all_iff is_digit_def) force+
    moreover have "q = of_int a" using quotient_of_div [OF q] True by simp
    ultimately show ?thesis unfolding s using RatSetString_integer [of a] by simp
  next
    case False
    have p: "0 < ?prec" using m False pos by (cases "?prec = 0") (auto simp: zmult_eq_1_iff)
    note exact = FloatString_exact [OF q False m p]
    have "CHR ''.'' \<in> set ?s" by (simp add: exact(1) decimal_text_def)
    moreover have "RatSetString (TrimRight CHR ''.'' (TrimRight CHR ''0'' ?s)) = Some q"
      unfolding exact(1)
      by (rule trimmed_text_value [OF show_nat_digits show_nat_nonempty pad_left_digits(2) [OF exact(2) p]])
        (use exact(3) pad_left_digits(1,3) [OF exact(2) p] in \<open>simp add: nat_of_digits_append\<close>)
    ultimately show ?thesis by simp
  qed
  then show ?thesis unfolding t by (rule RatSetString_zero)
qed


lemma finite_decimal_has_text:
  assumes "q * 10 ^ k = of_int n"
  shows "canonicalDecimal q \<noteq> None"
proof -
  obtain a b where q: "quotient_of q = (a, b)" by fastforce
  obtain twos d where two: "strip_factor 2 b = (twos, d)" by fastforce
  obtain fives d' where five: "strip_factor 5 d = (fives, d')" by fastforce
  have pos: "0 < b" using quotient_of_denom_pos [OF q] .
  have "(of_int a / of_int b :: rat) * 10 ^ k = of_int n" using assms quotient_of_div [OF q] by simp
  then have "(of_int a :: rat) * 10 ^ k = of_int n * of_int b" using pos by (simp add: field_simps)
  then have "(of_int (a * 10 ^ k) :: rat) = of_int (n * b)" by simp
  then have "a * 10 ^ k = n * b" by (simp only: of_int_eq_iff)
  then have "b dvd a * 10 ^ k" by simp
  moreover have "coprime b a" using quotient_of_coprime [OF q] by (simp add: coprime_commute)
  ultimately have "b dvd 10 ^ k" by (simp add: coprime_dvd_mult_right_iff)
  then have "d' = 1" by (rule finite_decimal_denominator(2) [OF pos two five])
  then show ?thesis by (simp add: canonicalDecimal_def q two five Let_def)
qed

lemma scale10_finite: "\<exists>k n. scale10 m e * 10 ^ k = of_int n"
proof (cases "0 \<le> e")
  case True
  then have "scale10 m e * 10 ^ 0 = of_int (m * 10 ^ nat e)" by (simp add: scale10_def)
  then show ?thesis by blast
next
  case False
  then have "scale10 m e * 10 ^ nat (- e) = of_int m" by (simp add: scale10_def)
  then show ?thesis by blast
qed

text \<open>Every text the decimal reader accepts is a finite decimal and gets its canonical text.\<close>

lemma accepted_decimal:
  assumes "ratSetString s = Some q"
  obtains t where "canonicalDecimal q = Some t" "RatSetString t = Some q" "decimalLexeme s"
proof -
  have r: "RatSetString s = Some q" using assms by (auto simp: ratSetString_def split: option.splits prod.splits if_splits)
  then obtain m e where "q = scale10 m e" by (auto simp: RatSetString_def Let_def split: if_splits)
  then obtain k n where "q * 10 ^ k = of_int n" using scale10_finite by blast
  then have "canonicalDecimal q \<noteq> None" by (rule finite_decimal_has_text)
  then obtain t where "canonicalDecimal q = Some t" by blast
  then show ?thesis using that canonicalDecimal_reads r by (auto simp: decimalLexeme_def)
qed

lemma decimal_normalized:
  assumes "decimalString v = Some s" "ratSetString s = Some q"
  obtains t where "normalizeValueForSource env TDecimal dialect declared v = Inr (nv ''decimal'' t)" "RatSetString t = Some q" "canonicalDecimal q = Some t"
proof -
  obtain t where t: "canonicalDecimal q = Some t" "RatSetString t = Some q" "decimalLexeme s" by (rule accepted_decimal [OF assms(2)])
  have "v \<noteq> RNil" using assms(1) by (auto simp: decimalString_def integerString_def)
  then show ?thesis using that t assms by (simp add: normalizeValueForSource_def)
qed

text \<open>
  C18: decimal values are compared by what they are worth.  Two values in decimal columns, of
  whatever type, dialect and declared type, whose texts the reader accepts are both normalized,
  the normalized texts read back as the values, and they are the same exactly when the values
  are equal: ``1.50'', ``15e-1'' and ``01.5'' agree, and no two different
  decimals do.
\<close>

theorem canonical_decimal_roundtrip:
  assumes "decimalString v = Some s" "ratSetString s = Some p" and "decimalString w = Some t" "ratSetString t = Some q"
  shows "\<exists>a b. normalizeValueForSource env TDecimal dialect declared v = Inr a \<and> normalizeValueForSource env' TDecimal dialect' declared' w = Inr b \<and>
     RatSetString (nv_Text a) = Some p \<and> RatSetString (nv_Text b) = Some q \<and> (a = b \<longleftrightarrow> p = q)"
proof -
  obtain x where x: "normalizeValueForSource env TDecimal dialect declared v = Inr (nv ''decimal'' x)" "RatSetString x = Some p" "canonicalDecimal p = Some x"
    by (rule decimal_normalized [OF assms(1,2)])
  obtain y where y: "normalizeValueForSource env' TDecimal dialect' declared' w = Inr (nv ''decimal'' y)" "RatSetString y = Some q" "canonicalDecimal q = Some y"
    by (rule decimal_normalized [OF assms(3,4)])
  have "nv ''decimal'' x = nv ''decimal'' y \<longleftrightarrow> p = q" using x y by (auto simp: nv_def)
  then show ?thesis using x y by (auto simp: nv_def)
qed

theorem canonical_decimal_roundtrip_witness:
  "\<exists>a b. normalizeValueForSource undefined TDecimal [] [] (RText ''1.50'') = Inr a \<and>
     normalizeValueForSource undefined TDecimal [] [] (RBytes ''15e-1'') = Inr b \<and>
     RatSetString (nv_Text a) = Some (3 / 2) \<and> RatSetString (nv_Text b) = Some (3 / 2) \<and> a = b"
proof -
  have texts: "decimalString (RText ''1.50'') = Some ''1.50''" "decimalString (RBytes ''15e-1'') = Some ''15e-1''"
    by (simp_all add: decimalString_def)
  have reads: "ratSetString ''1.50'' = Some (3 / 2)" "ratSetString ''15e-1'' = Some (3 / 2)" by code_simp+
  show ?thesis using canonical_decimal_roundtrip [OF texts(1) reads(1) texts(2) reads(2), of undefined "[]" "[]" undefined "[]" "[]"] by simp
qed

end
