(* ===== verification/Compare_Multiset.thy ===== *)
theory Compare_Multiset
  imports Compare_Rows Compare_Decimal "HOL-Library.Multiset"
begin

text \<open>
  Relations without a key are compared as multisets of rows: the identities of the staged rows
  are ascending, as the record-wise difference asks, and its answer counts the rows both sides
  have, the rows only one has, and no changed rows.
\<close>


section \<open>The identities of keyless rows\<close>

definition row_id :: "string \<Rightarrow> nat \<Rightarrow> string" where
  "row_id k n = hex_EncodeToString k @ ''!'' @ zero_pad 20 n"

lemma row_ids_keyless [simp]:
  "row_ids False p c [] = []"
  "row_ids False p c (k # ks) = (let n = (if p = k then c + 1 else 1) in row_id k n # row_ids False k n ks)"
  by (simp_all add: row_id_def)

declare row_ids.simps [simp del]

lemma digits_order:
  assumes "length s = length t" "list_all is_digit s" "list_all is_digit t" "nat_of_digits s < nat_of_digits t"
  shows "s < t"
  using assms
proof (induction s t rule: list_induct2)
  case Nil
  then show ?case by simp
next
  case (Cons a s b t)
  have split: "nat_of_digits (x # u) = digit_val x * 10 ^ length u + nat_of_digits u" for x u
    using nat_of_digits_append [of "[x]" u] by (simp add: nat_of_digits_def)
  have bound: "nat_of_digits u < 10 ^ length u" if "list_all is_digit u" for u
    using that
  proof (induction u)
    case Nil
    then show ?case by (simp add: nat_of_digits_def)
  next
    case (Cons x u)
    then have "digit_val x \<le> 9" "nat_of_digits u < 10 ^ length u" by (auto simp: is_digit_def digit_val_def)
    then have "digit_val x * 10 ^ length u + nat_of_digits u < 9 * 10 ^ length u + 10 ^ length u" by (intro add_le_less_mono mult_right_mono) simp_all
    then show ?case by (simp add: split)
  qed
  have vals: "digit_val a < digit_val b \<longleftrightarrow> a < b" "digit_val a = digit_val b \<longleftrightarrow> a = b"
  proof -
    have "of_char a = digit_val a + 48" "of_char b = digit_val b + 48" using Cons.prems by (auto simp: is_digit_def digit_val_def)
    then show "digit_val a < digit_val b \<longleftrightarrow> a < b" "digit_val a = digit_val b \<longleftrightarrow> a = b"
      by (simp_all add: less_char_def flip: of_char_eq_iff [where 'a = nat])
  qed
  consider "digit_val a < digit_val b" | "digit_val a = digit_val b" | "digit_val b + 1 \<le> digit_val a" by linarith
  then show ?case
  proof cases
    case 3
    then have "(digit_val b + 1) * 10 ^ length t \<le> digit_val a * 10 ^ length s" using mult_le_mono1 Cons.hyps by metis
    then have False using Cons.prems bound [of t] by (simp add: split)
    then show ?thesis ..
  qed (use Cons vals in \<open>auto simp: split\<close>)
qed

lemma zero_pad_order: "m < n \<Longrightarrow> n < 10 ^ 20 \<Longrightarrow> zero_pad 20 m < zero_pad 20 n"
  using pad_left_digits [of m 20] pad_left_digits [of n 20] by (intro digits_order) (simp_all add: zero_pad_def)

definition nibble_char :: "nat \<Rightarrow> char" where
  "nibble_char d = char_of (if d < 10 then 48 + d else 87 + d)"

lemma hex_byte_digits: "hex_byte c = [nibble_char (of_char c div 16), nibble_char (of_char c mod 16)]"
  by (simp add: hex_byte_def nibble_char_def Let_def)

lemma of_char_less: "of_char c < (256 :: nat)"
  using of_char_mod_256 [of c, where 'a = nat] by (metis mod_less_divisor zero_less_numeral)

lemma nibble_order: "d < 16 \<Longrightarrow> e < 16 \<Longrightarrow> nibble_char d < nibble_char e \<longleftrightarrow> d < e" "d < 16 \<Longrightarrow> CHR ''!'' < nibble_char d"
  by (auto simp: nibble_char_def less_char_def)

lemma hex_byte_order:
  assumes "a < b"
  shows "hex_byte a @ s < hex_byte b @ t"
proof -
  let ?x = "of_char a :: nat" and ?y = "of_char b :: nat"
  have "?x < ?y" using assms by (simp add: less_char_def)
  then have "?x div 16 < ?y div 16 \<or> ?x div 16 = ?y div 16 \<and> ?x mod 16 < ?y mod 16"
    by (metis div_le_mono div_mult_mod_eq le_neq_implies_less less_imp_le_nat nat_add_left_cancel_less)
  moreover have "?x div 16 < 16" "?y div 16 < 16" using of_char_less [of a] of_char_less [of b] by (simp_all add: less_mult_imp_div_less)
  ultimately show ?thesis by (auto simp: hex_byte_digits nibble_order)
qed

lemma hex_order: "k < l \<Longrightarrow> hex_EncodeToString k @ CHR ''!'' # s < hex_EncodeToString l @ CHR ''!'' # t"
proof (induction k arbitrary: l)
  case Nil
  then obtain b l' where "l = b # l'" by (cases l) simp_all
  moreover have "of_char b div 16 < (16 :: nat)" using of_char_less [of b] by (simp add: less_mult_imp_div_less)
  ultimately show ?case by (simp add: hex_EncodeToString_def hex_byte_digits nibble_order)
next
  case (Cons a k)
  then obtain b l' where l: "l = b # l'" by (cases l) simp_all
  then consider "a < b" | "a = b" "k < l'" using Cons.prems by auto
  then show ?case
  proof cases
    case 1
    then show ?thesis using hex_byte_order [OF 1] by (simp add: l hex_EncodeToString_def)
  next
    case 2
    then show ?thesis using Cons.IH [of l'] by (simp add: l hex_EncodeToString_def hex_byte_digits)
  qed
qed

lemma append_less_same: "u @ s < u @ t \<longleftrightarrow> s < (t :: string)"
  by (induction u) simp_all

lemma row_id_order: "k < l \<or> k = l \<and> m < n \<Longrightarrow> n < 10 ^ 20 \<Longrightarrow> row_id k m < row_id l n"
  using hex_order [of k l] zero_pad_order [of m n] by (auto simp: row_id_def append_less_same)

lemma row_id_inj:
  assumes "row_id k m = row_id l n" "m < 10 ^ 20" "n < 10 ^ 20"
  shows "k = l \<and> m = n"
  using assms row_id_order [of k l m n] row_id_order [of l k n m] by (metis less_irrefl linorder_neqE)

text \<open>
  The identities of ascending sort keys: strictly ascending, the \<open>n\<close>-th occurrence of a key as \<open>row_id k n\<close>.
\<close>

definition seen_before :: "string \<Rightarrow> nat \<Rightarrow> string \<Rightarrow> nat" where
  "seen_before p c k = (if k = p then c else 0)"

lemma seen_before_step: "sorted (p # k # ks) \<Longrightarrow>
    (if p = k then c + 1 else 1) = Suc (seen_before p c k) \<and>
    (j \<in> set (k # ks) \<longrightarrow> seen_before k (Suc (seen_before p c k)) j = (if j = k then Suc (seen_before p c j) else seen_before p c j))"
  by (auto simp: seen_before_def)

lemma row_ids_set:
  assumes "sorted (p # ks)"
  shows "x \<in> set (row_ids False p c ks) \<longleftrightarrow> (\<exists>k n. x = row_id k n \<and> seen_before p c k < n \<and> n \<le> seen_before p c k + count_list ks k)"
  using assms
proof (induction ks arbitrary: p c)
  case Nil
  then show ?case by simp
next
  case (Cons k ks)
  let ?n = "Suc (seen_before p c k)"
  have n: "(if p = k then c + 1 else 1) = ?n" using seen_before_step [OF Cons.prems] by blast
  have b: "seen_before k ?n j = (if j = k then ?n else seen_before p c j)" if "j \<in> set (k # ks)" for j
    using seen_before_step [OF Cons.prems, of c j] that by (auto simp: seen_before_def)
  have range: "seen_before k ?n j < n \<and> n \<le> seen_before k ?n j + count_list ks j \<longleftrightarrow>
      seen_before p c j < n \<and> n \<le> seen_before p c j + count_list (k # ks) j \<and> \<not> (j = k \<and> n = ?n)" for j n
  proof (cases "j \<in> set (k # ks)")
    case True
    then show ?thesis using b [OF True] by auto
  next
    case False
    then have "count_list ks j = 0" "count_list (k # ks) j = 0" by (auto simp: count_list_0_iff)
    then show ?thesis by auto
  qed
  have "x \<in> set (row_ids False p c (k # ks)) \<longleftrightarrow> x = row_id k ?n \<or> x \<in> set (row_ids False k ?n ks)" by (simp only: row_ids_keyless n Let_def) simp
  also have "\<dots> \<longleftrightarrow> x = row_id k ?n \<or> (\<exists>j n. x = row_id j n \<and> seen_before k ?n j < n \<and> n \<le> seen_before k ?n j + count_list ks j)"
    using Cons by simp
  also have "\<dots> \<longleftrightarrow> (\<exists>j n. x = row_id j n \<and> seen_before p c j < n \<and> n \<le> seen_before p c j + count_list (k # ks) j)"
  proof -
    have "seen_before p c k < ?n \<and> ?n \<le> seen_before p c k + count_list (k # ks) k" by simp
    then show ?thesis unfolding range by blast
  qed
  finally show ?case .
qed

lemma row_ids_ascending:
  assumes "sorted (p # ks)" "c + length ks < 10 ^ 20"
  shows "sorted_wrt (<) (row_id p c # row_ids False p c ks)"
  using assms
proof (induction ks arbitrary: p c)
  case Nil
  then show ?case by simp
next
  case (Cons k ks)
  let ?n = "Suc (seen_before p c k)"
  have n: "(if p = k then c + 1 else 1) = ?n" using seen_before_step [OF Cons.prems(1)] by blast
  have "?n + length ks < 10 ^ 20" using Cons.prems(2) by (simp add: seen_before_def)
  then have IH: "sorted_wrt (<) (row_id k ?n # row_ids False k ?n ks)" using Cons by simp
  have "row_id p c < row_id k ?n" using Cons.prems by (intro row_id_order) (auto simp: seen_before_def)
  then show ?case using IH by (simp only: row_ids_keyless n Let_def) auto
qed



section \<open>Counting occurrences\<close>

definition occurrences :: "'a multiset \<Rightarrow> ('a \<times> nat) set" where
  "occurrences M = {(k, n). 0 < n \<and> n \<le> count M k}"

lemma occurrences_Sigma: "occurrences M = Sigma (set_mset M) (\<lambda>k. {1..count M k})"
  by (auto simp: occurrences_def simp flip: count_greater_zero_iff)

lemma finite_occurrences: "finite (occurrences M)"
  by (simp add: occurrences_Sigma)

lemma card_occurrences: "card (occurrences M) = size M"
  by (simp add: occurrences_Sigma size_multiset_overloaded_eq)

lemma occurrences_inter: "occurrences M \<inter> occurrences N = occurrences (M \<inter># N)"
  by (auto simp: occurrences_def)

lemma size_inter_diff: "size A = size (A \<inter># B) + size (A - B)"
proof -
  have "A = (A \<inter># B) + (A - B)" by (auto intro!: multiset_eqI)
  then show ?thesis by (metis size_union)
qed

lemma card_occurrences_diff: "card (occurrences M - occurrences N) = size (M - N)"
proof -
  have "card (occurrences M - occurrences N) = card (occurrences M) - card (occurrences M \<inter> occurrences N)"
    by (rule card_Diff_subset_Int) (simp add: finite_occurrences)
  also have "\<dots> = size (M - N)" using size_inter_diff [of M N] by (simp add: card_occurrences occurrences_inter)
  finally show ?thesis .
qed

text \<open>The keys may stand for what they encode.\<close>

lemma size_image_diff:
  assumes "inj_on f (set_mset M \<union> set_mset N)"
  shows "size (image_mset f M - image_mset f N) = size (M - N)" "size (image_mset f M \<inter># image_mset f N) = size (M \<inter># N)"
proof -
  have c: "count (image_mset f K) (f x) = count K x" if "set_mset K \<subseteq> set_mset M \<union> set_mset N" "x \<in> set_mset M \<union> set_mset N" for K x
  proof -
    have "f -` {f x} \<inter> set_mset K = (if x \<in># K then {x} else {})" using assms that by (auto dest: inj_onD)
    then show ?thesis by (auto simp: count_image_mset not_in_iff)
  qed
  have "image_mset f M - image_mset f N = image_mset f (M - N)"
  proof (rule multiset_eqI)
    fix y
    show "count (image_mset f M - image_mset f N) y = count (image_mset f (M - N)) y"
    proof (cases "\<exists>x \<in> set_mset M \<union> set_mset N. y = f x")
      case True
      then obtain x where "x \<in> set_mset M \<union> set_mset N" "y = f x" by blast
      moreover have "set_mset (M - N) \<subseteq> set_mset M \<union> set_mset N" by (auto dest: in_diffD)
      ultimately show ?thesis using c [of M x] c [of N x] c [of "M - N" x] by auto
    next
      case False
      then have "count (image_mset f M) y = 0" "count (image_mset f (M - N)) y = 0" by (auto simp: count_eq_zero_iff dest: in_diffD)
      then show ?thesis by simp
    qed
  qed
  then show diff: "size (image_mset f M - image_mset f N) = size (M - N)" by simp
  then show "size (image_mset f M \<inter># image_mset f N) = size (M \<inter># N)"
    using size_inter_diff [of M N] size_inter_diff [of "image_mset f M" "image_mset f N"] by simp
qed



section \<open>The difference of two sequences\<close>

text \<open>
  What \<open>recordops.Diff\<close> promises of two sequences with strictly ascending identities: one
  difference for each identity of either, missing or extra when only one side has it, matched
  or changed by whether the fields are equal.
\<close>

definition status_of :: "(string \<times> fields_of_row) list \<Rightarrow> (string \<times> fields_of_row) list \<Rightarrow> string \<Rightarrow> diff_status" where
  "status_of ls rs i =
     (case (map_of ls i, map_of rs i) of
        (Some a, Some b) \<Rightarrow> if a = b then Matched else Changed
      | (Some _, None) \<Rightarrow> Missing
      | (None, _) \<Rightarrow> Extra)"

definition diff_law :: "compare_env \<Rightarrow> bool" where
  "diff_law env \<longleftrightarrow> (\<forall>ls rs. sorted_wrt (<) (map fst ls) \<longrightarrow> sorted_wrt (<) (map fst rs) \<longrightarrow>
     (\<exists>ds. record_Diff env ls rs = Some ds \<and> distinct (map df_ID ds) \<and> set (map df_ID ds) = fst ` (set ls \<union> set rs) \<and>
       (\<forall>d \<in> set ds. df_Status d = status_of ls rs (df_ID d))))"

lemma counts_foldl:
  "fst (foldl (diff_step env key limit) (c, details, limited) ds) = foldl (\<lambda>c d. count_status (df_Status d) c) c ds"
proof (induction ds arbitrary: c details limited)
  case (Cons d ds)
  obtain c' details' limited' where s: "diff_step env key limit (c, details, limited) d = (c', details', limited')" by (metis prod_cases3)
  then have "c' = count_status (df_Status d) c" by (auto simp: Let_def split: if_splits)
  then show ?case using Cons s by simp
qed simp

lemma counts_exact:
  "n_Added (foldl (\<lambda>c d. count_status (df_Status d) c) c ds) = n_Added c + int (length (filter (\<lambda>d. df_Status d = Extra) ds))"
  "n_Removed (foldl (\<lambda>c d. count_status (df_Status d) c) c ds) = n_Removed c + int (length (filter (\<lambda>d. df_Status d = Missing) ds))"
  "n_Changed (foldl (\<lambda>c d. count_status (df_Status d) c) c ds) = n_Changed c + int (length (filter (\<lambda>d. df_Status d = Changed) ds))"
  "n_Unchanged (foldl (\<lambda>c d. count_status (df_Status d) c) c ds) = n_Unchanged c + int (length (filter (\<lambda>d. df_Status d = Matched) ds))"
  by (induction ds arbitrary: c) (auto simp: count_status_def split: diff_status.splits)

lemma status_count:
  assumes "distinct (map df_ID ds)" "\<forall>d \<in> set ds. df_Status d = f (df_ID d)"
  shows "length (filter (\<lambda>d. df_Status d = x) ds) = card {i \<in> set (map df_ID ds). f i = x}"
proof -
  have "filter (\<lambda>d. df_Status d = x) ds = filter (\<lambda>d. f (df_ID d) = x) ds" using assms(2) by (auto intro: filter_cong)
  then have "map df_ID (filter (\<lambda>d. df_Status d = x) ds) = filter (\<lambda>i. f i = x) (map df_ID ds)" by (simp add: filter_map o_def)
  then have "length (filter (\<lambda>d. df_Status d = x) ds) = length (filter (\<lambda>i. f i = x) (map df_ID ds))" by (metis length_map)
  also have "\<dots> = card (set (filter (\<lambda>i. f i = x) (map df_ID ds)))" using assms(1) by (metis distinct_card distinct_filter)
  finally show ?thesis by (simp only: set_filter)
qed

lemma diff_counts:
  assumes "diff_law env" "sorted_wrt (<) (map fst ls)" "sorted_wrt (<) (map fst rs)"
    and "rowSequence env left False columns = Inr ls" "rowSequence env right False columns = Inr rs"
  obtains counts details limited where "diffRows env left right columns [] limit = Inr (counts, details, limited)"
    and "n_Added counts = int (card {i \<in> fst ` (set ls \<union> set rs). status_of ls rs i = Extra})"
    and "n_Removed counts = int (card {i \<in> fst ` (set ls \<union> set rs). status_of ls rs i = Missing})"
    and "n_Changed counts = int (card {i \<in> fst ` (set ls \<union> set rs). status_of ls rs i = Changed})"
    and "n_Unchanged counts = int (card {i \<in> fst ` (set ls \<union> set rs). status_of ls rs i = Matched})"
proof -
  obtain ds where ds: "record_Diff env ls rs = Some ds" and d: "distinct (map df_ID ds)" and i: "set (map df_ID ds) = fst ` (set ls \<union> set rs)"
    and st: "\<forall>d \<in> set ds. df_Status d = status_of ls rs (df_ID d)"
    using assms(1-3) unfolding diff_law_def by blast
  obtain counts details limited where f: "foldl (diff_step env [] limit) (no_counts, [], False) ds = (counts, details, limited)" by (metis prod_cases3)
  have c: "counts = foldl (\<lambda>c d. count_status (df_Status d) c) no_counts ds" using counts_foldl [of env "[]" limit no_counts "[]" False ds] f by simp
  have "diffRows env left right columns [] limit = Inr (counts, details, limited)" using assms(4,5) ds f by (simp add: diffRows_def)
  then show ?thesis using that counts_exact [of no_counts ds] status_count [OF d st] unfolding c i by (simp add: no_counts_def)
qed



section \<open>The staged rows of a keyless relation\<close>

lemma sort_key_twice:
  fixes g :: "'a \<Rightarrow> 'b :: linorder"
  shows "sort_key fst (map (\<lambda>x. (g x, g x)) xs) = map (\<lambda>t. (t, t)) (sort (map g xs))"
proof (induction xs)
  case (Cons x xs)
  have "insort_key fst (a, a) (map (\<lambda>t. (t, t)) ys) = map (\<lambda>t. (t, t)) (insort a ys)" for a :: 'b and ys
    by (induction ys) simp_all
  then show ?case using Cons by simp
qed simp

lemma rmapl_map: "(\<And>x. x \<in> set xs \<Longrightarrow> f x = Inr (g x)) \<Longrightarrow> rmapl f xs = Inr (map g xs)"
  by (induction xs) simp_all

text \<open>JSON keeps the rows: what is staged is read back.\<close>

definition json_keeps :: "compare_env \<Rightarrow> staged list \<Rightarrow> bool" where
  "json_keeps env store \<longleftrightarrow> list_all (\<lambda>(_, cells). json_Unmarshal env (json_Marshal env cells) = Some cells) store"

definition keys_of :: "compare_env \<Rightarrow> staged list \<Rightarrow> string list" where
  "keys_of env store = sort (map (\<lambda>r. json_Marshal env (snd r)) store)"

definition data_of :: "compare_env \<Rightarrow> string list \<Rightarrow> string \<Rightarrow> fields_of_row" where
  "data_of env columns k = zip columns (the (json_Unmarshal env k))"

lemma keyless_sequence:
  assumes same: "list_all (\<lambda>(k, cells). k = cells) store" and json: "json_keeps env store"
  shows "rowSequence env store False columns = Inr (zip (row_ids False [] 0 (keys_of env store)) (map (data_of env columns) (keys_of env store)))"
proof -
  let ?ks = "keys_of env store"
  have "map (\<lambda>(k, cells). (json_Marshal env k, json_Marshal env cells)) store = map (\<lambda>r. (json_Marshal env (snd r), json_Marshal env (snd r))) store"
    using same by (auto simp: list_all_iff)
  then have rows: "sort_key fst (map (\<lambda>(k, cells). (json_Marshal env k, json_Marshal env cells)) store) = map (\<lambda>t. (t, t)) ?ks"
    by (simp only: sort_key_twice keys_of_def)
  have "rmapl (\<lambda>(_, payload). case json_Unmarshal env payload of None \<Rightarrow> Inl NotDecoded | Some cells \<Rightarrow> Inr (zip columns cells)) (map (\<lambda>t. (t, t)) ?ks) =
      Inr (map (\<lambda>(_, t). data_of env columns t) (map (\<lambda>t. (t, t)) ?ks))"
    using json by (intro rmapl_map) (auto simp: keys_of_def json_keeps_def list_all_iff data_of_def)
  then show ?thesis by (simp add: rowSequence_def rows o_def)
qed

lemma row_ids_length [simp]: "length (row_ids False p c ks) = length ks"
  by (induction ks arbitrary: p c) (simp_all add: Let_def)

lemma row_ids_data: "(i, f) \<in> set (zip (row_ids False p c ks) (map F ks)) \<Longrightarrow> \<exists>k n. i = row_id k n \<and> f = F k \<and> n \<le> c + length ks"
proof (induction ks arbitrary: p c)
  case (Cons k ks)
  define n where "n = (if p = k then c + 1 else 1)"
  from Cons.prems consider "i = row_id k n" "f = F k" | "(i, f) \<in> set (zip (row_ids False k n ks) (map F ks))" by (auto simp: n_def Let_def)
  then show ?case
  proof cases
    case 1
    then show ?thesis by (auto simp: n_def intro!: exI [of _ k] exI [of _ n])
  next
    case 2
    from Cons.IH [OF this] show ?thesis by (auto simp: n_def split: if_splits) (metis add_Suc_right add_leD2 le_SucI plus_1_eq_Suc le_add2 le_trans)+
  qed
qed simp


lemma sequence_facts:
  fixes F :: "string \<Rightarrow> fields_of_row"
  assumes "sorted ks" "length ks < 10 ^ 20" and xs: "xs = zip (row_ids False [] 0 ks) (map F ks)"
  shows "sorted_wrt (<) (map fst xs)" and "fst ` set xs = (\<lambda>(k, n). row_id k n) ` occurrences (mset ks)"
    and "(k, n) \<in> occurrences (mset ks) \<Longrightarrow> map_of xs (row_id k n) = Some (F k)"
    and "(k, n) \<notin> occurrences (mset ks) \<Longrightarrow> n < 10 ^ 20 \<Longrightarrow> map_of xs (row_id k n) = None"
proof -
  have s: "sorted ([] # ks)" using assms(1) by simp
  have ids: "map fst xs = row_ids False [] 0 ks" unfolding xs by simp
  show asc: "sorted_wrt (<) (map fst xs)" using row_ids_ascending [OF s, of 0] assms(2) by (simp add: ids)
  have seen_before: "seen_before [] 0 k = 0" for k by (simp add: seen_before_def)
  have small: "n < 10 ^ 20" if "(k, n) \<in> occurrences (mset ks)" for k n
    using that assms(2) count_le_length [of ks k] by (auto simp: occurrences_def count_mset)
  have "fst ` set xs = set (row_ids False [] 0 ks)" using ids by (metis list.set_map)
  then show image: "fst ` set xs = (\<lambda>(k, n). row_id k n) ` occurrences (mset ks)"
    using row_ids_set [OF s, of _ 0] by (auto simp: seen_before occurrences_def count_mset) blast
  show "map_of xs (row_id k n) = Some (F k)" if "(k, n) \<in> occurrences (mset ks)"
  proof -
    have "row_id k n \<in> fst ` set xs" using that unfolding image by force
    then obtain f where f: "(row_id k n, f) \<in> set xs" by force
    then obtain k' n' where k': "row_id k n = row_id k' n'" "f = F k'" "n' < 10 ^ 20" using row_ids_data [of "row_id k n" f "[]" 0 ks F] assms(2) unfolding xs by auto
    then have "k = k'" using row_id_inj [of k n k' n'] small [OF that] by simp
    moreover have "distinct (map fst xs)" using asc by (simp add: strict_sorted_iff)
    ultimately show ?thesis using f k' by simp
  qed
  show "map_of xs (row_id k n) = None" if "(k, n) \<notin> occurrences (mset ks)" "n < 10 ^ 20"
    using that small row_id_inj [of k n] unfolding map_of_eq_None_iff image by auto
qed


lemma keyless_statuses:
  fixes F :: "string \<Rightarrow> fields_of_row"
  assumes "sorted ks" "length ks < 10 ^ 20" and ls: "ls = zip (row_ids False [] 0 ks) (map F ks)"
    and "sorted js" "length js < 10 ^ 20" and rs: "rs = zip (row_ids False [] 0 js) (map F js)"
  defines "idx \<equiv> \<lambda>(k, n). row_id k n"
  shows "inj_on idx (occurrences (mset ks) \<union> occurrences (mset js))"
    and "fst ` (set ls \<union> set rs) = idx ` (occurrences (mset ks) \<union> occurrences (mset js))"
    and "z \<in> occurrences (mset ks) \<union> occurrences (mset js) \<Longrightarrow> status_of ls rs (idx z) =
      (if z \<notin> occurrences (mset js) then Missing else if z \<notin> occurrences (mset ks) then Extra else Matched)"
proof -
  note l = sequence_facts [OF assms(1,2) ls] and r = sequence_facts [OF assms(4,5) rs]
  have small: "n < 10 ^ 20" if "(k, n) \<in> occurrences (mset ks) \<union> occurrences (mset js)" for k n
    using that assms(2,5) count_le_length [of ks k] count_le_length [of js k] by (auto simp: occurrences_def count_mset)
  show "inj_on idx (occurrences (mset ks) \<union> occurrences (mset js))"
  proof (rule inj_onI)
    fix y z
    assume "y \<in> occurrences (mset ks) \<union> occurrences (mset js)" "z \<in> occurrences (mset ks) \<union> occurrences (mset js)" "idx y = idx z"
    then show "y = z" using row_id_inj [of "fst y" "snd y" "fst z" "snd z"] small [of "fst y" "snd y"] small [of "fst z" "snd z"]
      by (simp add: idx_def case_prod_beta prod_eq_iff)
  qed
  show "fst ` (set ls \<union> set rs) = idx ` (occurrences (mset ks) \<union> occurrences (mset js))"
    unfolding image_Un l(2) r(2) idx_def ..
  show "status_of ls rs (idx z) = (if z \<notin> occurrences (mset js) then Missing else if z \<notin> occurrences (mset ks) then Extra else Matched)"
    if z: "z \<in> occurrences (mset ks) \<union> occurrences (mset js)"
  proof -
    obtain k n where kn: "z = (k, n)" by (cases z)
    have "map_of ls (row_id k n) = (if z \<in> occurrences (mset ks) then Some (F k) else None)"
      "map_of rs (row_id k n) = (if z \<in> occurrences (mset js) then Some (F k) else None)"
      using l(3,4) [of k n] r(3,4) [of k n] small [of k n] z kn by auto
    then show ?thesis using z kn by (auto simp: status_of_def idx_def)
  qed
qed

lemma image_card:
  assumes "inj_on f A" "B \<subseteq> A" "\<And>z. z \<in> A \<Longrightarrow> P (f z) \<longleftrightarrow> z \<in> B"
  shows "card {i \<in> f ` A. P i} = card B"
proof -
  have "{i \<in> f ` A. P i} = f ` B" using assms(2,3) by auto
  then show ?thesis using card_image inj_on_subset [OF assms(1,2)] by metis
qed

lemma keyless_cards:
  fixes F :: "string \<Rightarrow> fields_of_row"
  assumes "sorted ks" "length ks < 10 ^ 20" and ls: "ls = zip (row_ids False [] 0 ks) (map F ks)"
    and "sorted js" "length js < 10 ^ 20" and rs: "rs = zip (row_ids False [] 0 js) (map F js)"
  shows "card {i \<in> fst ` (set ls \<union> set rs). status_of ls rs i = Matched} = size (mset ks \<inter># mset js)"
    and "card {i \<in> fst ` (set ls \<union> set rs). status_of ls rs i = Missing} = size (mset ks - mset js)"
    and "card {i \<in> fst ` (set ls \<union> set rs). status_of ls rs i = Extra} = size (mset js - mset ks)"
    and "card {i \<in> fst ` (set ls \<union> set rs). status_of ls rs i = Changed} = 0"
proof -
  let ?K = "occurrences (mset ks)" and ?J = "occurrences (mset js)"
  note st = keyless_statuses [OF assms]
  note c = image_card [OF st(1)]
  show "card {i \<in> fst ` (set ls \<union> set rs). status_of ls rs i = Matched} = size (mset ks \<inter># mset js)"
    unfolding st(2) card_occurrences [symmetric] occurrences_inter [symmetric] by (rule c) (use st(3) in auto)
  show "card {i \<in> fst ` (set ls \<union> set rs). status_of ls rs i = Missing} = size (mset ks - mset js)"
    unfolding st(2) card_occurrences_diff [symmetric] by (rule c) (use st(3) in auto)
  show "card {i \<in> fst ` (set ls \<union> set rs). status_of ls rs i = Extra} = size (mset js - mset ks)"
    unfolding st(2) card_occurrences_diff [symmetric] by (rule c) (use st(3) in auto)
  have "card {i \<in> fst ` (set ls \<union> set rs). status_of ls rs i = Changed} = card ({} :: (string \<times> nat) set)"
    unfolding st(2) by (rule c) (use st(3) in auto)
  then show "card {i \<in> fst ` (set ls \<union> set rs). status_of ls rs i = Changed} = 0" by simp
qed

lemma stage_keyless: "stage_row env own other [] row = Inr (k, cells) \<Longrightarrow> k = cells"
  by (auto simp: stage_row_def Let_def rbind_def split: sum.splits)

lemma readRows_keyless:
  assumes "readRows env source own other [] = Inr store"
  shows "list_all (\<lambda>(k, cells). k = cells) store"
proof -
  have "rmapl (stage_row env own other []) rows = Inr out \<Longrightarrow> list_all (\<lambda>(k, cells). k = cells) out" for rows out
    by (induction rows arbitrary: out) (auto simp: rbind_def split: sum.splits dest: stage_keyless)
  then show ?thesis using assms by (auto simp: readRows_def rbind_def split: option.splits sum.splits if_splits)
qed

text \<open>
  C37: a relation with no usable key is compared as a multiset of rows.  For two read sides
  whose rows JSON keeps, and a record-wise difference that keeps its contract on strictly
  ascending identities, the comparison answers, and its counts are those of the multisets: the
  unchanged rows are the common ones with multiplicity, the removed and the added ones the two
  multiset differences, and no row is changed.  The bound on the number of rows is that of the
  twenty digits of an occurrence.
\<close>

theorem keyless_multiset:
  assumes law: "diff_law env" and "readRows (values_of env) lsrc lown lother [] = Inr left" "readRows (values_of env) rsrc rown rother [] = Inr right"
    and json: "json_keeps env left" "json_keeps env right" and len: "length left < 10 ^ 20" "length right < 10 ^ 20"
  shows "\<exists>counts details limited. diffRows env left right columns [] limit = Inr (counts, details, limited) \<and>
     n_Unchanged counts = int (size (mset (map snd left) \<inter># mset (map snd right))) \<and>
     n_Removed counts = int (size (mset (map snd left) - mset (map snd right))) \<and>
     n_Added counts = int (size (mset (map snd right) - mset (map snd left))) \<and> n_Changed counts = 0"
proof -
  let ?ks = "keys_of env left" and ?js = "keys_of env right" and ?F = "data_of env columns"
  let ?L = "mset (map snd left)" and ?R = "mset (map snd right)"
  define ls rs where ls: "ls = zip (row_ids False [] 0 ?ks) (map ?F ?ks)" and rs: "rs = zip (row_ids False [] 0 ?js) (map ?F ?js)"
  have seqs: "rowSequence env left False columns = Inr ls" "rowSequence env right False columns = Inr rs"
    using keyless_sequence [OF readRows_keyless [OF assms(2)] json(1)] keyless_sequence [OF readRows_keyless [OF assms(3)] json(2)] by (simp_all add: ls rs)
  have k: "sorted ?ks" "length ?ks < 10 ^ 20" and j: "sorted ?js" "length ?js < 10 ^ 20" using len by (simp_all add: keys_of_def)
  have asc: "sorted_wrt (<) (map fst ls)" "sorted_wrt (<) (map fst rs)" using sequence_facts(1) [OF k ls] sequence_facts(1) [OF j rs] by blast+
  have keys: "mset ?ks = image_mset (json_Marshal env) ?L" "mset ?js = image_mset (json_Marshal env) ?R"
    by (simp_all add: keys_of_def image_mset.compositionality o_def)
  have reread: "json_Unmarshal env (json_Marshal env c) = Some c" if "c \<in># ?L \<or> c \<in># ?R" for c
    using that json by (auto simp: json_keeps_def list_all_iff)
  have inj: "inj_on (json_Marshal env) (set_mset ?L \<union> set_mset ?R)"
    by (rule inj_onI) (metis reread UnE option.inject)
  have inj': "inj_on (json_Marshal env) (set_mset ?R \<union> set_mset ?L)" using inj by (simp only: Un_commute)
  obtain counts details limited where d: "diffRows env left right columns [] limit = Inr (counts, details, limited)"
    and n: "n_Added counts = int (card {i \<in> fst ` (set ls \<union> set rs). status_of ls rs i = Extra})"
      "n_Removed counts = int (card {i \<in> fst ` (set ls \<union> set rs). status_of ls rs i = Missing})"
      "n_Changed counts = int (card {i \<in> fst ` (set ls \<union> set rs). status_of ls rs i = Changed})"
      "n_Unchanged counts = int (card {i \<in> fst ` (set ls \<union> set rs). status_of ls rs i = Matched})"
    by (rule diff_counts [OF law asc seqs])
  show ?thesis
    using d n unfolding keyless_cards [OF k ls j rs] keys size_image_diff [OF inj] size_image_diff(1) [OF inj'] by auto
qed


text \<open>A record-wise difference that keeps the contract, and two sides of a relation with one integer column.\<close>

definition plain_Diff :: "(string \<times> fields_of_row) list \<Rightarrow> (string \<times> fields_of_row) list \<Rightarrow> row_diff list option" where
  "plain_Diff ls rs = Some (map (\<lambda>i. \<lparr>df_ID = i, df_Status = status_of ls rs i, df_Baseline = map_of ls i, df_Fields = []\<rparr>)
     (sort (remdups (map fst ls @ map fst rs))))"

definition sample_env :: compare_env where
  "sample_env = \<lparr>values_of = \<lparr>type_String = (\<lambda>_. ''int''), time_Parse = (\<lambda>_ _. None), time_Format = (\<lambda>_ _. []), json_float = (\<lambda>_. None), format_float = (\<lambda>_. [])\<rparr>,
     record_Diff = plain_Diff, json_Marshal = (\<lambda>cells. concat (map nv_Text cells)), json_Unmarshal = (\<lambda>t. Some [nv ''int'' t]),
     hex_sha256 = (\<lambda>t. t), go_Quote = (\<lambda>t. t)\<rparr>"

lemma plain_law: "diff_law sample_env"
  unfolding diff_law_def
proof (intro allI impI)
  fix ls rs :: "(string \<times> fields_of_row) list"
  let ?ds = "map (\<lambda>i. \<lparr>df_ID = i, df_Status = status_of ls rs i, df_Baseline = map_of ls i, df_Fields = []\<rparr>) (sort (remdups (map fst ls @ map fst rs)))"
  have ids: "map df_ID ?ds = sort (remdups (map fst ls @ map fst rs))" by (simp add: o_def)
  have "record_Diff sample_env ls rs = Some ?ds" by (simp add: sample_env_def plain_Diff_def)
  moreover have "distinct (map df_ID ?ds)" "set (map df_ID ?ds) = fst ` (set ls \<union> set rs)" unfolding ids by (simp_all add: image_Un)
  moreover have "\<forall>d \<in> set ?ds. df_Status d = status_of ls rs (df_ID d)" by auto
  ultimately show "\<exists>ds. record_Diff sample_env ls rs = Some ds \<and> distinct (map df_ID ds) \<and> set (map df_ID ds) = fst ` (set ls \<union> set rs) \<and>
      (\<forall>d \<in> set ds. df_Status d = status_of ls rs (df_ID d))" by blast
qed

definition int_column :: collection_def where
  "int_column = no_collection\<lparr>cd_Fields := [\<lparr>f_Name = ''n'', f_Type = TInt, f_Nullable = False, f_Length = None, f_Precision = None, f_Default = None, f_AutoIncrement = False\<rparr>]\<rparr>"

definition int_row :: "int \<Rightarrow> raw_row" where
  "int_row i = [''n'' \<mapsto> RInt i]"

definition int_rows :: "int list \<Rightarrow> row_stream" where
  "int_rows xs = \<lparr>rs_rows = map int_row xs, rs_fails = False\<rparr>"

definition int_staged :: "int list \<Rightarrow> staged list" where
  "int_staged xs = map (\<lambda>i. ([nv ''int'' (show_int i)], [nv ''int'' (show_int i)])) xs"

lemma int_read: "readRows (values_of sample_env) (int_rows xs) int_column int_column [] = Inr (int_staged xs)"
proof -
  have row: "stage_row (values_of sample_env) int_column int_column [] (int_row i) = Inr ([nv ''int'' (show_int i)], [nv ''int'' (show_int i)])" for i
    by (simp add: stage_row_def union_columns_def fieldOrder_def int_column_def no_collection_def cell_of_row_def fieldsByName_def
        normalizeValueForSource_def integerString_def int_row_def)
  have "find (\<lambda>n. \<not> same_types int_column int_column n) (fieldOrder (cd_Fields int_column)) = None"
    by (simp add: int_column_def no_collection_def fieldOrder_def same_types_def fieldsByName_def)
  moreover have "rmapl (stage_row (values_of sample_env) int_column int_column []) (rs_rows (int_rows xs)) = Inr (int_staged xs)"
    unfolding int_rows_def int_staged_def by (induction xs) (simp_all add: row)
  ultimately show ?thesis by (simp add: readRows_def int_rows_def)
qed

lemma int_json: "json_keeps sample_env (int_staged xs)"
  by (simp add: json_keeps_def int_staged_def sample_env_def list_all_iff nv_def)

theorem keyless_multiset_witness:
  "\<exists>counts details limited. diffRows sample_env (int_staged [1, 1, 2]) (int_staged [2, 1, 3, 3]) [''n''] [] (- 1) = Inr (counts, details, limited) \<and>
     n_Unchanged counts = 2 \<and> n_Removed counts = 1 \<and> n_Added counts = 2 \<and> n_Changed counts = 0"
proof -
  let ?L = "mset (map snd (int_staged [1, 1, 2]))" and ?R = "mset (map snd (int_staged [2, 1, 3, 3]))"
  have diffs: "size (?L - ?R) = 1" "size (?R - ?L) = 2" by (simp_all add: int_staged_def nv_def show_int_inj)
  moreover have "size ?L = 3" by (simp add: int_staged_def)
  ultimately have common: "size (?L \<inter># ?R) = 2" using size_inter_diff [of ?L ?R] by simp
  show ?thesis using keyless_multiset [OF plain_law int_read int_read int_json int_json, of "[1, 1, 2]" "[2, 1, 3, 3]" "[''n'']" "- 1"]
    unfolding diffs common by (simp add: int_staged_def)
qed

end
