(* ===== verification/Compare_Properties.thy ===== *)
theory Compare_Properties
  imports Compare_Matching Compare_Multiset
begin

text \<open>
  What the comparison as a whole does: relations that only the right side has are read as rows
  without values; the totals of a report and its limit on details; times in columns declared as
  \<open>datetime\<close>.
\<close>


section \<open>Relations of the right side only\<close>

definition blank_row :: "value_env \<Rightarrow> collection_def \<Rightarrow> normalized_value list" where
  "blank_row env def = map (\<lambda>n. \<lparr>nv_Kind = type_String env (case fieldsByName (cd_Fields def) n of None \<Rightarrow> TNull | Some f \<Rightarrow> f_Type f),
     nv_Text = [], nv_Null = False, nv_Absent = True\<rparr>) (sort (fieldOrder (cd_Fields def)))"

lemma blank_absent: "list_all nv_Absent (blank_row env def)"
  by (simp add: blank_row_def list_all_iff)

lemma blank_columns: "union_columns no_collection def = sort (fieldOrder (cd_Fields def))"
  by (simp add: union_columns_def no_collection_def fieldOrder_def)

lemma blank_cells: "rmapl (cell_of_row env no_collection def row) (union_columns no_collection def) = Inr (blank_row env def)"
  unfolding blank_columns blank_row_def
  by (rule rmapl_map) (simp add: cell_of_row_def no_collection_def fieldsByName_def)

lemma blank_key:
  assumes "key \<noteq> []"
  shows "\<exists>e. rmapl (key_cell (union_columns no_collection def) (blank_row env def)) key = Inl e"
proof -
  obtain f fs where key: "key = f # fs" using assms by (cases key) simp_all
  have "\<exists>e. key_cell (union_columns no_collection def) (blank_row env def) f = Inl e"
  proof (cases "SearchStrings (union_columns no_collection def) f < length (union_columns no_collection def)")
    case True
    moreover have "length (blank_row env def) = length (union_columns no_collection def)" by (simp add: blank_row_def blank_columns)
    ultimately have "nv_Absent (blank_row env def ! SearchStrings (union_columns no_collection def) f)"
      using blank_absent [of env def] by (simp add: list_all_length)
    then show ?thesis by (simp add: key_cell_def Let_def)
  next
    case False
    then have "SearchStrings (union_columns no_collection def) f = length (union_columns no_collection def)"
      by (simp add: SearchStrings_def) (metis length_takeWhile_le linorder_neqE_nat not_le)
    then show ?thesis by (simp add: key_cell_def Let_def)
  qed
  then show ?thesis by (auto simp: key)
qed

lemma blank_stage:
  "stage_row env no_collection def [] row = Inr (blank_row env def, blank_row env def)"
  "key \<noteq> [] \<Longrightarrow> \<exists>e. stage_row env no_collection def key row = Inl e"
  using blank_key [of key def env] by (auto simp: stage_row_def blank_cells Let_def)

lemma blank_read:
  "readRows env source no_collection def key =
     rbind (rmapl (stage_row env no_collection def key) (rs_rows source)) (\<lambda>rows. if rs_fails source then Inl SourceFailed else Inr rows)"
  by (simp add: readRows_def no_collection_def fieldOrder_def)

lemma blank_key_of: "map_of keyMaps name = None \<Longrightarrow> comparisonKey name no_collection def keyMaps = Inr []"
  by (simp add: comparisonKey_def sameUsablePrimaryKey_def no_collection_def)

text \<open>
  C30: the rows of a relation that only the right side has are read without their values.  Where
  no key is given, whatever the rows hold, each is staged as the same row of absent cells, so
  all of them count as occurrences of one row; where a key is given and there is a row, the
  comparison fails.  (A relation that only the left side has is read with its values.)
\<close>

theorem right_only_rows_blank:
  assumes "rp_left p = None" "rp_right p = Some r" "\<not> rs_fails (source_rows right_db (rel_ref r))"
  shows "(map_of keyMaps (rp_name p) = None \<longrightarrow>
      read_pair env left_db right_db keyMaps p = Inr ([], [], [], replicate (length (rs_rows (source_rows right_db (rel_ref r))))
        (blank_row (values_of env) (rel_def r), blank_row (values_of env) (rel_def r)))) \<and>
    (map_of keyMaps (rp_name p) \<noteq> None \<and> rs_rows (source_rows right_db (rel_ref r)) \<noteq> [] \<longrightarrow>
      (\<exists>e. read_pair env left_db right_db keyMaps p = Inl e))"
proof (intro conjI impI)
  let ?s = "source_rows right_db (rel_ref r)" and ?b = "blank_row (values_of env) (rel_def r)"
  have pair: "read_pair env left_db right_db keyMaps p = rbind (comparisonKey (rp_name p) no_collection (rel_def r) keyMaps) (\<lambda>key.
      at_read (rp_name p) (rbind (readRows (values_of env) ?s no_collection (rel_def r) key) (\<lambda>rs. Inr ([], key, [], rs))))"
    using assms(1,2) by (simp add: read_pair_def Let_def)
  show "read_pair env left_db right_db keyMaps p = Inr ([], [], [], replicate (length (rs_rows ?s)) (?b, ?b))" if "map_of keyMaps (rp_name p) = None"
  proof -
    have "rmapl (stage_row (values_of env) no_collection (rel_def r) []) (rs_rows ?s) = Inr (map (\<lambda>_. (?b, ?b)) (rs_rows ?s))"
      by (rule rmapl_map) (simp add: blank_stage)
    then show ?thesis using assms(3) blank_key_of [OF that] by (simp add: pair blank_read at_read_def map_replicate_const)
  qed
  show "\<exists>e. read_pair env left_db right_db keyMaps p = Inl e" if given: "map_of keyMaps (rp_name p) \<noteq> None \<and> rs_rows ?s \<noteq> []"
  proof (cases "comparisonKey (rp_name p) no_collection (rel_def r) keyMaps")
    case (Inl e)
    then show ?thesis by (simp add: pair)
  next
    case (Inr key)
    then have "key \<noteq> []" using given by (auto simp: comparisonKey_def rbind_def split: sum.splits if_splits)
    moreover obtain x xs where "rs_rows ?s = x # xs" using given by (cases "rs_rows ?s") simp_all
    ultimately obtain e where "rmapl (stage_row (values_of env) no_collection (rel_def r) key) (rs_rows ?s) = Inl e"
      using blank_stage(2) [of key "values_of env" "rel_def r" x] by auto
    then show ?thesis by (simp add: pair Inr blank_read at_read_def)
  qed
qed

text \<open>Two different rows of a relation that only the right side has.\<close>

definition right_pair :: "compare_relation relation_pair" where
  "right_pair = \<lparr>rp_name = ''t'', rp_rightName = ''t'', rp_left = None,
     rp_right = Some \<lparr>rel_ref = \<lparr>cr_Schema = [], cr_Name = ''t''\<rparr>, rel_def = int_column, rel_indexesKnown = True\<rparr>\<rparr>"

definition rows_db :: "int list \<Rightarrow> database" where
  "rows_db xs = (sample_db [''t''])\<lparr>source_rows := (\<lambda>_. int_rows xs)\<rparr>"

theorem right_only_rows_blank_witness:
  "read_pair sample_env (sample_db []) (rows_db [1, 2]) [] right_pair =
     Inr ([], [], [], replicate 2 ([\<lparr>nv_Kind = ''int'', nv_Text = [], nv_Null = False, nv_Absent = True\<rparr>], [\<lparr>nv_Kind = ''int'', nv_Text = [], nv_Null = False, nv_Absent = True\<rparr>])) \<and>
   (\<exists>e. read_pair sample_env (sample_db []) (rows_db [1, 2]) [(''t'', [''n''])] right_pair = Inl e)"
proof -
  let ?r = "\<lparr>rel_ref = \<lparr>cr_Schema = [], cr_Name = ''t''\<rparr>, rel_def = int_column, rel_indexesKnown = True\<rparr>"
  have pair: "rp_left right_pair = None" "rp_right right_pair = Some ?r" "rp_name right_pair = ''t''" by (simp_all add: right_pair_def)
  have rows: "\<not> rs_fails (source_rows (rows_db [1, 2]) (rel_ref ?r))" "rs_rows (source_rows (rows_db [1, 2]) (rel_ref ?r)) = map int_row [1, 2]"
    by (simp_all add: rows_db_def int_rows_def)
  have blank: "blank_row (values_of sample_env) (rel_def ?r) = [\<lparr>nv_Kind = ''int'', nv_Text = [], nv_Null = False, nv_Absent = True\<rparr>]"
    by (simp add: blank_row_def int_column_def no_collection_def fieldOrder_def sample_env_def)
  show ?thesis
    using right_only_rows_blank [OF pair(1,2) rows(1), of "[]" sample_env "sample_db []"]
      right_only_rows_blank [OF pair(1,2) rows(1), of "[(''t'', [''n''])]" sample_env "sample_db []"]
    unfolding blank rows(2) pair(3) by (simp add: numeral_2_eq_2)
qed



section \<open>Totals and details of a report\<close>

lemma details_limited:
  assumes "length details \<le> nat limit" "0 \<le> limit"
  shows "length (fst (snd (foldl (diff_step env key limit) (c, details, l) ds))) \<le> nat limit"
  using assms(1)
proof (induction ds arbitrary: c details l)
  case (Cons d ds)
  obtain c' details' l' where s: "diff_step env key limit (c, details, l) d = (c', details', l')" by (metis prod_cases3)
  have "length details' \<le> nat limit" using s Cons.prems by (auto simp: Let_def split: if_splits)
  then show ?case using Cons.IH s by simp
qed simp

lemma no_details: "fst (snd (foldl (diff_step env key (- 1)) (c, details, l) ds)) = details"
proof (induction ds arbitrary: c details l)
  case (Cons d ds)
  obtain c' details' l' where s: "diff_step env key (- 1) (c, details, l) d = (c', details', l')" by (metis prod_cases3)
  then have "details' = details" by (auto simp: Let_def split: if_splits)
  then show ?case using Cons s by simp
qed simp

text \<open>The totals of a report are the sums over its relations, and its details stay within the limit.\<close>

definition sums_up :: "options \<Rightarrow> report \<times> int \<Rightarrow> bool" where
  "sums_up opts acc \<longleftrightarrow> (case acc of (rep, remaining) \<Rightarrow>
     Summary rep = foldl add_counts no_counts (map rr_Counts (Relations rep)) \<and>
     (DetailsLimited rep \<longleftrightarrow> list_ex rr_DetailsLimited (Relations rep)) \<and>
     int (sum_list (map (length \<circ> rr_Details) (Relations rep))) + (if Details opts then remaining else 0) \<le> (if Details opts then DetailLimit opts else 0) \<and>
     (Details opts \<longrightarrow> 0 \<le> remaining))"

lemma compare_pair_sums_up:
  assumes "compare_pair env l r opts p (rep, remaining) = Inr acc" "sums_up opts (rep, remaining)"
  shows "sums_up opts acc"
proof -
  obtain changes key ls rs where read: "read_pair env l r (KeyMaps opts) p = Inr (changes, key, ls, rs)"
    using assms(1) by (cases "read_pair env l r (KeyMaps opts) p") (auto simp: compare_pair_def)
  define limit where "limit = (if \<not> Details opts then - 1 else if remaining > 0 then remaining else 0)"
  obtain counts details limited where d: "diffRows env ls rs (relationColumns (pair_def (rp_left p)) (pair_def (rp_right p))) key limit = Inr (counts, details, limited)"
    and acc: "fst acc = rep\<lparr>SchemaChanges := SchemaChanges rep @ changes, Relations := Relations rep @ [\<lparr>rr_Name = rp_name p,
        rr_RightName = (if rp_right p \<noteq> None \<and> rp_rightName p \<noteq> rp_name p then rp_rightName p else []),
        rr_Identity = identity_of (KeyMaps opts) (rp_name p) key, rr_LeftRows = int (length ls), rr_RightRows = int (length rs),
        rr_Counts = counts, rr_Details = details, rr_DetailsLimited = limited\<rparr>],
        Summary := add_counts (Summary rep) counts, DetailsLimited := DetailsLimited rep \<or> limited\<rparr>"
      "snd acc = (if Details opts then max 0 (remaining - int (length details)) else remaining)"
    using assms(1) by (auto simp: compare_pair_def read Let_def limit_def split: sum.splits prod.splits)
  obtain ds where ds: "foldl (diff_step env key limit) (no_counts, [], False) ds = (counts, details, limited)"
    using d by (auto simp: diffRows_def rbind_def split: sum.splits option.splits)
  have len: "int (length details) \<le> (if Details opts then remaining else 0)" if "Details opts \<longrightarrow> 0 \<le> remaining"
    using details_limited [of "[]" limit env key no_counts False ds] no_details [of env key no_counts "[]" False ds] that ds
    by (auto simp: limit_def split: if_splits)
  have "sums_up opts (fst acc, snd acc)" unfolding acc using assms(2) len by (auto simp: sums_up_def)
  then show ?thesis by simp
qed

lemma report_sums_up:
  assumes "Compare env leftName left_db rightName right_db opts = Inr rep"
  shows "Summary rep = foldl add_counts no_counts (map rr_Counts (Relations rep)) \<and>
    (DetailsLimited rep \<longleftrightarrow> list_ex rr_DetailsLimited (Relations rep)) \<and>
    int (sum_list (map (length \<circ> rr_Details) (Relations rep))) \<le> (if Details opts then DetailLimit opts else 0) \<and> sorted (SchemaChanges rep)"
proof -
  have steps: "rfold (compare_pair env l r opts) ps acc = Inr acc' \<Longrightarrow> sums_up opts acc \<Longrightarrow> sums_up opts acc'" for l r ps acc acc'
  proof (induction ps arbitrary: acc)
    case (Cons p ps)
    then show ?case using compare_pair_sums_up [of env l r opts p "fst acc" "snd acc"] by (cases "compare_pair env l r opts p acc") auto
  qed simp
  obtain l r ps rep0 rep' remaining where run: "rfold (compare_pair env l r opts) ps (rep0, DetailLimit opts) = Inr (rep', remaining)"
    and start: "Relations rep0 = []" "Summary rep0 = no_counts" "\<not> DetailsLimited rep0" "0 \<le> DetailLimit opts"
    and rep: "rep = rep'\<lparr>SchemaChanges := sort (SchemaChanges rep')\<rparr>"
    using assms by (auto simp: Compare_def rbind_def Let_def split: option.splits if_splits sum.splits)
  have "sums_up opts (rep', remaining)" by (rule steps [OF run]) (simp add: sums_up_def start)
  then show ?thesis by (auto simp: sums_up_def rep split: if_splits)
qed


section \<open>Times in datetime columns\<close>

lemma has_prefix_append: "has_prefix (a @ b) s \<Longrightarrow> has_prefix a s"
  by (induction a s rule: has_prefix.induct) simp_all

lemma datetime_is_date:
  assumes "has_prefix ''datetime'' (ToLower (TrimSpace declared))"
  shows "timeValueForDeclaredType env v dialect declared = dateValue env v"
proof -
  have "has_prefix ''date'' (ToLower (TrimSpace declared))" using assms has_prefix_append [of "''date''" "''time''"] by simp
  then show ?thesis by (simp add: timeValueForDeclaredType_def Let_def)
qed

end
