(* ===== verification/Copy_Types.thy ===== *)
theory Copy_Types
  imports Compare_Values
begin

text \<open>
  Which PostgreSQL type a SQLite column gets in a faithful copy
  (\<open>src/pkg/dbcopy/faithful/stats.go\<close>, \<open>plan.go\<close>, \<open>jsonb.go\<close> and \<open>matchParen\<close> of \<open>sqlscan.go\<close>): the
  statistics of a column's values, the choice of the type with its encoder, and the
  translation of defaults.  Formatting of floats, the parsing of times and \<open>json.Valid\<close> are
  parameters.
\<close>


section \<open>Values\<close>

text \<open>A value as the SQLite driver returns it, and as it is handed to the PostgreSQL driver.\<close>

datatype sqlite_value = SNil | SInt int | SReal float64 | SText string | SBlob string

datatype pg_value = GNil | GInt int | GBool bool | GFloat float64 | GText string | GBytes string

record copy_env =
  parses :: "string \<Rightarrow> string \<Rightarrow> bool"
  json_Valid :: "string \<Rightarrow> bool"
  FormatFloat_f :: "float64 \<Rightarrow> string"
  FormatFloat_g :: "float64 \<Rightarrow> string"
  FormatFloat_g32 :: "float64 \<Rightarrow> string"
  to_float32 :: "float64 \<Rightarrow> float64"
  fold_equal :: "string \<Rightarrow> string \<Rightarrow> bool"

text \<open>\<open>float64(x)\<close> of an integer.\<close>

definition int_to_float :: "int \<Rightarrow> float64" where
  "int_to_float i = round64 (i < 0) (nat \<bar>i\<bar> * 2 ^ 1074) 1"

definition is_inf64 :: "float64 \<Rightarrow> bool" where "is_inf64 w \<longleftrightarrow> mag_bits w = 2047 * 2 ^ 52"


section \<open>The shapes of texts\<close>

text \<open>A text of the shape of a pattern in which \<open>d\<close> stands for a digit.\<close>

fun shape :: "string \<Rightarrow> string \<Rightarrow> bool" where
  "shape [] s = (s = [])"
| "shape (p # ps) [] = False"
| "shape (p # ps) (c # s) = ((if p = CHR ''d'' then is_digit c else p = c) \<and> shape ps s)"

text \<open>\<open>(\.\d{0,5}[1-9])?\<close>.\<close>

definition fraction_shape :: "string \<Rightarrow> bool" where
  "fraction_shape f \<longleftrightarrow> f = [] \<or>
     hd f = CHR ''.'' \<and> 1 \<le> length (tl f) \<and> length (tl f) \<le> 6 \<and> list_all is_digit (tl f) \<and> last f \<noteq> CHR ''0''"

definition reDate :: "string \<Rightarrow> bool" where "reDate s \<longleftrightarrow> shape ''dddd-dd-dd'' s"

definition reTS :: "string \<Rightarrow> bool" where
  "reTS s \<longleftrightarrow> shape ''dddd-dd-dd dd:dd:dd'' (take 19 s) \<and> fraction_shape (drop 19 s)"

definition offset_of :: "string \<Rightarrow> string \<times> string" where
  "offset_of s = (takeWhile (\<lambda>c. c \<noteq> CHR ''+'' \<and> c \<noteq> CHR ''-'') (drop 19 s), dropWhile (\<lambda>c. c \<noteq> CHR ''+'' \<and> c \<noteq> CHR ''-'') (drop 19 s))"

definition reTSTZ :: "string \<Rightarrow> bool" where
  "reTSTZ s \<longleftrightarrow> shape ''dddd-dd-dd dd:dd:dd'' (take 19 s) \<and> fraction_shape (fst (offset_of s)) \<and>
     snd (offset_of s) \<noteq> [] \<and> (shape ''dd'' (tl (snd (offset_of s))) \<or> shape ''dd:dd'' (tl (snd (offset_of s))))"

definition reTSTZUTC :: "string \<Rightarrow> bool" where
  "reTSTZUTC s \<longleftrightarrow> shape ''dddd-dd-dd dd:dd:dd'' (take 19 s) \<and> fraction_shape (fst (offset_of s)) \<and> snd (offset_of s) = ''+00''"

definition reTime :: "string \<Rightarrow> bool" where
  "reTime s \<longleftrightarrow> shape ''dd:dd:dd'' (take 8 s) \<and> fraction_shape (drop 8 s)"

definition lower_hex :: "char \<Rightarrow> bool" where
  "lower_hex c \<longleftrightarrow> is_digit c \<or> (97::nat) \<le> of_char c \<and> of_char c \<le> (102::nat)"

fun hex_shape :: "string \<Rightarrow> string \<Rightarrow> bool" where
  "hex_shape [] s = (s = [])"
| "hex_shape (p # ps) [] = False"
| "hex_shape (p # ps) (c # s) = ((if p = CHR ''x'' then lower_hex c else p = c) \<and> hex_shape ps s)"

definition reUUID :: "string \<Rightarrow> bool" where "reUUID s \<longleftrightarrow> hex_shape ''xxxxxxxx-xxxx-xxxx-xxxx-xxxxxxxxxxxx'' s"

text \<open>\<open>^-?(\d+(\.\d+)?|\.\d+)$\<close> and the parts before and after the point.\<close>

definition without_minus :: "string \<Rightarrow> string" where
  "without_minus s = (if s \<noteq> [] \<and> hd s = CHR ''-'' then tl s else s)"

definition int_part :: "string \<Rightarrow> string" where "int_part s = takeWhile (\<lambda>c. c \<noteq> CHR ''.'') (without_minus s)"

definition frac_part :: "string \<Rightarrow> string" where "frac_part s = tl (dropWhile (\<lambda>c. c \<noteq> CHR ''.'') (without_minus s))"

definition has_point :: "string \<Rightarrow> bool" where "has_point s \<longleftrightarrow> CHR ''.'' \<in> set s"

definition reDec :: "string \<Rightarrow> bool" where
  "reDec s \<longleftrightarrow> list_all is_digit (int_part s) \<and> list_all is_digit (frac_part s) \<and>
     (if has_point s then frac_part s \<noteq> [] else int_part s \<noteq> [])"

text \<open>\<open>LastIndexAny\<close>: the text before the last plus or minus.\<close>

definition before_offset :: "string \<Rightarrow> string" where
  "before_offset s = rev (tl (dropWhile (\<lambda>c. c \<noteq> CHR ''+'' \<and> c \<noteq> CHR ''-'') (rev s)))"

definition yearInPG :: "string \<Rightarrow> bool" where "yearInPG s \<longleftrightarrow> \<not> has_prefix ''0000'' s"

definition TrimLeft :: "char \<Rightarrow> string \<Rightarrow> string" where "TrimLeft c s = dropWhile (\<lambda>x. x = c) s"

definition canonicalDecimalText :: "string \<Rightarrow> string" where
  "canonicalDecimalText t =
     (let t' = without_minus t;
          ip = (case TrimLeft (CHR ''0'') (takeWhile (\<lambda>c. c \<noteq> CHR ''.'') t') of [] \<Rightarrow> ''0'' | i \<Rightarrow> i);
          out = ip @ (if has_point t' then ''.'' @ tl (dropWhile (\<lambda>c. c \<noteq> CHR ''.'') t') else [])
      in (if t \<noteq> t' \<and> list_ex (\<lambda>c. c \<noteq> CHR ''0'' \<and> c \<noteq> CHR ''.'') out then ''-'' else []) @ out)"

definition f32Exact :: "copy_env \<Rightarrow> float64 \<Rightarrow> bool" where
  "f32Exact env x = (if \<not> is_finite64 x then True
     else if is_inf64 (to_float32 env x) then False
     else FormatFloat_g32 env (to_float32 env x) = FormatFloat_g env x)"


section \<open>Is a JSON text in the spelling of jsonb?\<close>

definition jsonbKeyLess :: "string \<Rightarrow> string \<Rightarrow> bool" where
  "jsonbKeyLess a b = (if length a \<noteq> length b then length a < length b else a < b)"

definition lit :: "string \<Rightarrow> string \<Rightarrow> string option" where
  "lit w s = (if has_prefix w s then Some (drop (length w) s) else None)"

definition control_char :: "char \<Rightarrow> char \<Rightarrow> char option" where
  "control_char a b =
     (if \<not> lower_hex a \<or> \<not> lower_hex b then None
      else let digit = (\<lambda>c. if is_digit c then of_char c - 48 else of_char c - 87 :: nat);
               v = digit a * 16 + digit b
           in if v = 0 \<or> v \<ge> 32 \<or> v \<in> {8, 12, 10, 13, 9} then None else Some (char_of v))"

definition short_escape :: "char \<Rightarrow> char option" where
  "short_escape e =
     map_of [(CHR 0x22, CHR 0x22), (CHR 0x5C, CHR 0x5C), (CHR ''b'', CHR 0x08), (CHR ''f'', CHR 0x0C), (CHR ''n'', CHR 0x0A),
       (CHR ''r'', CHR 0x0D), (CHR ''t'', CHR 0x09)] e"

lemma decode_shrinks: "DecodeRuneInString (c # s) = (r, n) \<Longrightarrow> Suc (length s) - n < Suc (length s)"
  using decode_width [of "c # s"] by simp

text \<open>The string after its opening quote: its decoded text and what follows the closing quote.\<close>

function str_body :: "string \<Rightarrow> (string \<times> string) option" where
  "str_body s =
     (if s = [] then None
      else if hd s = CHR 0x22 then Some ([], tl s)
      else if hd s = CHR 0x5C then
        (case tl s of
           [] \<Rightarrow> None
         | e # r \<Rightarrow>
             (case short_escape e of
                Some c \<Rightarrow> map_option (\<lambda>(b, rest). (c # b, rest)) (str_body r)
              | None \<Rightarrow>
                  if e = CHR ''u'' \<and> length r \<ge> 4 \<and> take 2 r = ''00'' then
                    (case control_char (r ! 2) (r ! 3) of
                       None \<Rightarrow> None | Some c \<Rightarrow> map_option (\<lambda>(b, rest). (c # b, rest)) (str_body (drop 4 r)))
                  else None))
      else if of_char (hd s) < (32::nat) then None
      else (case DecodeRuneInString s of (r, n) \<Rightarrow>
          if r = RuneError \<and> n = 1 then None
          else map_option (\<lambda>(b, rest). (take n s @ b, rest)) (str_body (drop n s))))"
  by pat_completeness auto
termination
  by (relation "measure length") (auto simp: neq_Nil_conv dest: decode_shrinks [OF sym])

declare str_body.simps [simp del]

definition str_lit :: "string \<Rightarrow> (string \<times> string) option" where
  "str_lit s = (if s = [] \<or> hd s \<noteq> CHR 0x22 then None else str_body (tl s))"

definition number_lit :: "string \<Rightarrow> string option" where
  "number_lit s =
     (let neg = (s \<noteq> [] \<and> hd s = CHR ''-''); u = (if neg then tl s else s);
          ip = takeWhile is_digit u; r = dropWhile is_digit u;
          point = (r \<noteq> [] \<and> hd r = CHR ''.'');
          fp = (if point then takeWhile is_digit (tl r) else []);
          r' = (if point then dropWhile is_digit (tl r) else r)
      in if ip = [] \<or> hd ip = CHR ''0'' \<and> length ip > 1 \<or> point \<and> fp = [] then None
         else if r' \<noteq> [] \<and> (hd r' = CHR ''e'' \<or> hd r' = CHR ''E'') then None
         else if neg \<and> list_all (\<lambda>c. c = CHR ''0'') (ip @ fp) then None
         else Some r')"

lemma lit_shrinks: "lit w s = Some r \<Longrightarrow> w \<noteq> [] \<Longrightarrow> length r < length s"
  by (cases w; cases s) (auto simp: lit_def split: if_splits)

text \<open>
  \<open>value\<close>, \<open>array\<close> and \<open>object\<close> of the scanner: what is left of the text after the value.  The
  comparisons of lengths always hold (a value takes at least one byte); they make the recursion
  well-founded.
\<close>

function jsonb_value :: "string \<Rightarrow> string option"
  and jsonb_elements :: "string \<Rightarrow> string option"
  and jsonb_members :: "string option \<Rightarrow> string \<Rightarrow> string option" where
  "jsonb_value s =
     (if s = [] then None
      else if hd s = CHR ''{'' then (case lit ''}'' (tl s) of Some r \<Rightarrow> Some r | None \<Rightarrow> jsonb_members None (tl s))
      else if hd s = CHR ''['' then (case lit '']'' (tl s) of Some r \<Rightarrow> Some r | None \<Rightarrow> jsonb_elements (tl s))
      else if hd s = CHR 0x22 then map_option snd (str_lit s)
      else if hd s = CHR ''t'' then lit ''true'' s
      else if hd s = CHR ''f'' then lit ''false'' s
      else if hd s = CHR ''n'' then lit ''null'' s
      else number_lit s)"
| "jsonb_elements s =
     (case jsonb_value s of
        None \<Rightarrow> None
      | Some r \<Rightarrow>
          (case lit '']'' r of
             Some r' \<Rightarrow> Some r'
           | None \<Rightarrow> (case lit '', '' r of None \<Rightarrow> None | Some r' \<Rightarrow> if length r' < length s then jsonb_elements r' else None)))"
| "jsonb_members prev s =
     (case str_lit s of
        None \<Rightarrow> None
      | Some (key, r) \<Rightarrow>
          if prev \<noteq> None \<and> \<not> jsonbKeyLess (the prev) key then None
          else (case lit '': '' r of
              None \<Rightarrow> None
            | Some r1 \<Rightarrow>
                if \<not> length r1 < length s then None
                else (case jsonb_value r1 of
                    None \<Rightarrow> None
                  | Some r2 \<Rightarrow>
                      (case lit ''}'' r2 of
                         Some r' \<Rightarrow> Some r'
                       | None \<Rightarrow> (case lit '', '' r2 of None \<Rightarrow> None | Some r' \<Rightarrow> if length r' < length s then jsonb_members (Some key) r' else None)))))"
  by pat_completeness auto
termination
  by (relation "measure (\<lambda>x. case x of Inl s \<Rightarrow> 2 * length s | Inr (Inl s) \<Rightarrow> 2 * length s + 1 | Inr (Inr (_, s)) \<Rightarrow> 2 * length s + 1)")
    (auto simp: neq_Nil_conv)

declare jsonb_value.simps [simp del] jsonb_elements.simps [simp del] jsonb_members.simps [simp del]

definition jsonbUnchanged :: "string \<Rightarrow> bool" where "jsonbUnchanged s \<longleftrightarrow> jsonb_value s = Some []"


section \<open>The statistics of a column\<close>

record colStats =
  st_decl :: decl_info
  st_n :: int
  st_nulls :: int
  st_ints :: int
  st_reals :: int
  st_texts :: int
  st_blobs :: int
  minInt :: int
  maxInt :: int
  maxLen :: int
  textWithNUL :: int
  nonBool :: int
  dateOK :: int
  tsOK :: int
  tstzOK :: int
  timeOK :: int
  tstzAny :: int
  jsonbOK :: int
  f32Bad :: int
  intInexact :: int
  decOK :: int
  decFit :: int
  jsonOK :: int
  uuidOK :: int
  decNormalized :: int
  decNormalExample :: string
  decBare :: int
  decBareExample :: string

definition newStats :: "decl_info \<Rightarrow> colStats" where
  "newStats d = \<lparr>st_decl = d, st_n = 0, st_nulls = 0, st_ints = 0, st_reals = 0, st_texts = 0, st_blobs = 0, minInt = 0, maxInt = 0, maxLen = 0,
     textWithNUL = 0, nonBool = 0, dateOK = 0, tsOK = 0, tstzOK = 0, timeOK = 0, tstzAny = 0, jsonbOK = 0, f32Bad = 0, intInexact = 0,
     decOK = 0, decFit = 0, jsonOK = 0, uuidOK = 0, decNormalized = 0, decNormalExample = [], decBare = 0, decBareExample = []\<rparr>"

text \<open>Does a well-formed decimal fit the declared precision and scale?\<close>

definition fits_decl :: "decl_info \<Rightarrow> string \<Rightarrow> bool" where
  "fits_decl d t \<longleftrightarrow> \<not> (di_p d \<ge> 0 \<and> (int (length (TrimLeft (CHR ''0'') (int_part t))) > di_p d - di_s d \<or> int (length (frac_part t)) > di_s d))"

definition spelled :: "decl_info \<Rightarrow> string \<Rightarrow> string" where
  "spelled d t =
     (let canon = canonicalDecimalText t in
      if di_p d \<ge> 0 \<and> di_s d > int (length (frac_part t))
      then canon @ (if has_point canon then [] else ''.'') @ replicate (nat (di_s d) - length (frac_part t)) (CHR ''0'') else canon)"

definition stat_decimal :: "string \<Rightarrow> bool \<Rightarrow> colStats \<Rightarrow> colStats" where
  "stat_decimal t isText s =
     (if \<not> reDec t then s
      else
        (let s = s\<lparr>decOK := decOK s + 1\<rparr>; canon = canonicalDecimalText t;
             s = (if isText \<and> t \<noteq> canon then s\<lparr>decBare := decBare s + 1, decBareExample := (if decBareExample s = [] then t @ '' -> '' @ canon else decBareExample s)\<rparr> else s)
         in if \<not> fits_decl (st_decl s) t then s
            else
              (let s = s\<lparr>decFit := decFit s + 1\<rparr> in
               if isText \<and> spelled (st_decl s) t \<noteq> t
               then s\<lparr>decNormalized := decNormalized s + 1, decNormalExample := (if decNormalExample s = [] then t @ '' -> '' @ spelled (st_decl s) t else decNormalExample s)\<rparr>
               else s)))"

definition stat_temporal :: "copy_env \<Rightarrow> string \<Rightarrow> colStats \<Rightarrow> colStats" where
  "stat_temporal env x s =
     (if reDate x then (if parses env ''2006-01-02'' x \<and> yearInPG x then s\<lparr>dateOK := dateOK s + 1\<rparr> else s)
      else if reTS x then (if parses env ''2006-01-02 15:04:05.999999'' x \<and> yearInPG x then s\<lparr>tsOK := tsOK s + 1\<rparr> else s)
      else if reTSTZ x then
        (if parses env ''2006-01-02 15:04:05.999999'' (before_offset x) \<and> yearInPG x
         then (if reTSTZUTC x then s\<lparr>tstzAny := tstzAny s + 1, tstzOK := tstzOK s + 1\<rparr> else s\<lparr>tstzAny := tstzAny s + 1\<rparr>) else s)
      else if reTime x then (if parses env ''15:04:05.999999'' x then s\<lparr>timeOK := timeOK s + 1\<rparr> else s)
      else s)"

definition stat_text :: "copy_env \<Rightarrow> string \<Rightarrow> colStats \<Rightarrow> colStats" where
  "stat_text env x s =
     (let s = s\<lparr>st_texts := st_texts s + 1, maxLen := max (maxLen s) (int (length (runes x)))\<rparr>;
          s = (if CHR 0x00 \<in> set x then s\<lparr>textWithNUL := textWithNUL s + 1\<rparr> else s);
          s = stat_temporal env x s;
          s = (if json_Valid env x then s\<lparr>jsonOK := jsonOK s + 1, jsonbOK := (if jsonbUnchanged x then jsonbOK s + 1 else jsonbOK s)\<rparr> else s);
          s = (if reUUID x then s\<lparr>uuidOK := uuidOK s + 1\<rparr> else s)
      in stat_decimal x True s)"

definition stat_int :: "copy_env \<Rightarrow> int \<Rightarrow> colStats \<Rightarrow> colStats" where
  "stat_int env x s =
     (let s = s\<lparr>st_ints := st_ints s + 1\<rparr>;
          s = (if st_ints s = 1 then s\<lparr>minInt := x, maxInt := x\<rparr> else s);
          s = s\<lparr>minInt := min (minInt s) x, maxInt := max (maxInt s) x\<rparr>;
          s = (if x \<noteq> 0 \<and> x \<noteq> 1 then s\<lparr>nonBool := nonBool s + 1\<rparr> else s);
          s = (if x > 2 ^ 53 \<or> x < - (2 ^ 53) then s\<lparr>intInexact := intInexact s + 1\<rparr> else s);
          s = (if \<not> f32Exact env (int_to_float x) then s\<lparr>f32Bad := f32Bad s + 1\<rparr> else s)
      in stat_decimal (show_int x) False s)"

definition stat_real :: "copy_env \<Rightarrow> float64 \<Rightarrow> colStats \<Rightarrow> colStats" where
  "stat_real env x s =
     (let s = s\<lparr>st_reals := st_reals s + 1\<rparr> in
      if \<not> is_finite64 x then s
      else let s = (if \<not> f32Exact env x then s\<lparr>f32Bad := f32Bad s + 1\<rparr> else s) in stat_decimal (FormatFloat_f env x) False s)"

definition add_value :: "copy_env \<Rightarrow> sqlite_value \<Rightarrow> colStats \<Rightarrow> colStats" where
  "add_value env v s =
     (let s = s\<lparr>st_n := st_n s + 1\<rparr> in
      case v of
        SNil \<Rightarrow> s\<lparr>st_nulls := st_nulls s + 1\<rparr>
      | SInt x \<Rightarrow> stat_int env x s
      | SReal x \<Rightarrow> stat_real env x s
      | SBlob _ \<Rightarrow> s\<lparr>st_blobs := st_blobs s + 1\<rparr>
      | SText x \<Rightarrow> stat_text env x s)"

definition column_stats :: "copy_env \<Rightarrow> decl_info \<Rightarrow> sqlite_value list \<Rightarrow> colStats" where
  "column_stats env d vs = foldl (\<lambda>s v. add_value env v s) (newStats d) vs"

definition spellings :: "colStats \<Rightarrow> int \<times> string" where
  "spellings s = (if decFit s = decOK s then (decNormalized s, decNormalExample s) else (decBare s, decBareExample s))"

datatype storage_class = IntClass | RealClass | TextClass | BlobClass

definition class_count :: "colStats \<Rightarrow> storage_class \<Rightarrow> int" where
  "class_count s c = (case c of IntClass \<Rightarrow> st_ints s | RealClass \<Rightarrow> st_reals s | TextClass \<Rightarrow> st_texts s | BlobClass \<Rightarrow> st_blobs s)"

definition only_classes :: "colStats \<Rightarrow> storage_class list \<Rightarrow> bool" where
  "only_classes s cs \<longleftrightarrow> list_all (\<lambda>c. class_count s c = 0 \<or> c \<in> set cs) [IntClass, RealClass, TextClass, BlobClass]"

definition allNull :: "colStats \<Rightarrow> bool" where "allNull s \<longleftrightarrow> st_n s = st_nulls s"



section \<open>Parentheses\<close>

text \<open>What follows a quoted text, after its opening quote; a doubled quote is part of it.\<close>

fun skip_quoted :: "char \<Rightarrow> string \<Rightarrow> string" where
  "skip_quoted q [] = []"
| "skip_quoted q [c] = []"
| "skip_quoted q (c # d # s) = (if c \<noteq> q then skip_quoted q (d # s) else if d = q then skip_quoted q s else d # s)"

lemma skip_quoted_length: "length (skip_quoted q s) \<le> length s"
  by (induction q s rule: skip_quoted.induct) auto

text \<open>The text from the parenthesis that brings the depth back to zero.\<close>

function paren_end :: "int \<Rightarrow> string \<Rightarrow> string option" where
  "paren_end depth s =
     (if s = [] then None
      else if hd s = CHR 0x27 \<or> hd s = CHR 0x22 \<or> hd s = CHR 0x60 then paren_end depth (skip_quoted (hd s) (tl s))
      else if hd s = CHR ''['' then
        paren_end depth (if CHR '']'' \<in> set s then tl (dropWhile (\<lambda>c. c \<noteq> CHR '']'') s) else tl s)
      else if hd s = CHR ''('' then paren_end (depth + 1) (tl s)
      else if hd s = CHR '')'' then (if depth = 1 then Some s else paren_end (depth - 1) (tl s))
      else paren_end depth (tl s))"
  by pat_completeness auto
termination
proof (relation "measure (\<lambda>(_, s). length s)")
  fix depth :: int and s :: string
  assume s: "s \<noteq> []"
  have "length (skip_quoted (hd s) (tl s)) \<le> length (tl s)" by (rule skip_quoted_length)
  then show "((depth, skip_quoted (hd s) (tl s)), (depth, s)) \<in> measure (\<lambda>(_, s). length s)" using s by (cases s) auto
  have "length (tl (dropWhile (\<lambda>c. c \<noteq> CHR '']'') s)) < length s" if "s \<noteq> []" for s :: string
  proof -
    have "length (tl (dropWhile (\<lambda>c. c \<noteq> CHR '']'') s)) = length (dropWhile (\<lambda>c. c \<noteq> CHR '']'') s) - 1" by (rule length_tl)
    moreover have "length s > 0" using that by simp
    ultimately show ?thesis using length_dropWhile_le [of "\<lambda>c. c \<noteq> CHR '']''" s] by linarith
  qed
  then show "((depth, if CHR '']'' \<in> set s then tl (dropWhile (\<lambda>c. c \<noteq> CHR '']'') s) else tl s), (depth, s)) \<in> measure (\<lambda>(_, s). length s)"
    using s by simp
qed auto

declare paren_end.simps [simp del]

definition matchParen :: "string \<Rightarrow> nat \<Rightarrow> int" where
  "matchParen sql op = (case paren_end 0 (drop op sql) of None \<Rightarrow> - 1 | Some rest \<Rightarrow> int (length sql) - int (length rest))"

lemma trim_by_length: "length (trim_by rs s) \<le> length s"
proof (induction rs s rule: trim_by.induct)
  case (1 rs s)
  then show ?case by (subst trim_by.simps) (fastforce split: option.splits)
qed

lemma TrimSpace_length: "length (TrimSpace s) \<le> length s"
  using trim_by_length [of space_runes s] trim_by_length [of "map rev space_runes" "rev (trim_by space_runes s)"] by (simp add: TrimSpace_def)

function strip_parens :: "string \<Rightarrow> string" where
  "strip_parens e =
     (if length e \<ge> 2 \<and> hd e = CHR ''('' \<and> last e = CHR '')'' \<and> matchParen e 0 = int (length e) - 1
      then strip_parens (TrimSpace (tl (butlast e))) else e)"
  by pat_completeness auto
termination
proof (relation "measure length")
  fix e :: string
  assume "length e \<ge> 2 \<and> hd e = CHR ''('' \<and> last e = CHR '')'' \<and> matchParen e 0 = int (length e) - 1"
  then have "2 \<le> length e" by blast
  then show "(TrimSpace (tl (butlast e)), e) \<in> measure length" using TrimSpace_length [of "tl (butlast e)"] by simp
qed simp

declare strip_parens.simps [simp del]


section \<open>Encoders\<close>

type_synonym encoder = "copy_env \<Rightarrow> sqlite_value \<Rightarrow> pg_value option"

definition encInt :: encoder where
  "encInt env v = (case v of SNil \<Rightarrow> Some GNil | SInt x \<Rightarrow> Some (GInt x) | _ \<Rightarrow> None)"

definition encBool :: encoder where
  "encBool env v = (case v of SNil \<Rightarrow> Some GNil | SInt x \<Rightarrow> Some (GBool (x \<noteq> 0)) | _ \<Rightarrow> None)"

definition encFloat :: encoder where
  "encFloat env v = (case v of SNil \<Rightarrow> Some GNil | SReal x \<Rightarrow> Some (GFloat x) | SInt x \<Rightarrow> Some (GFloat (int_to_float x)) | _ \<Rightarrow> None)"

definition encDecimal :: encoder where
  "encDecimal env v = (case v of SNil \<Rightarrow> Some GNil | SInt x \<Rightarrow> Some (GText (show_int x))
     | SReal x \<Rightarrow> if is_finite64 x then Some (GText (FormatFloat_f env x)) else None
     | SText x \<Rightarrow> Some (GText x) | _ \<Rightarrow> None)"

definition encText :: encoder where
  "encText env v = (case v of SNil \<Rightarrow> Some GNil | SText x \<Rightarrow> Some (GText x) | SInt x \<Rightarrow> Some (GText (show_int x))
     | SReal x \<Rightarrow> Some (GText (FormatFloat_g env x)) | SBlob x \<Rightarrow> Some (GText x))"

definition encBytes :: encoder where
  "encBytes env v = (case v of SNil \<Rightarrow> Some GNil | SBlob x \<Rightarrow> Some (GBytes x) | SText x \<Rightarrow> Some (GBytes x) | SInt x \<Rightarrow> Some (GBytes (show_int x))
     | SReal x \<Rightarrow> Some (GBytes (FormatFloat_g env x)))"

definition encPass :: encoder where
  "encPass env v = Some (case v of SNil \<Rightarrow> GNil | SInt x \<Rightarrow> GInt x | SReal x \<Rightarrow> GFloat x | SText x \<Rightarrow> GText x | SBlob x \<Rightarrow> GBytes x)"

datatype enc_name = EncInt | EncBool | EncFloat | EncDecimal | EncText | EncBytes | EncPass

definition encode :: "copy_env \<Rightarrow> enc_name \<Rightarrow> sqlite_value \<Rightarrow> pg_value option" where
  "encode env e = (case e of EncInt \<Rightarrow> encInt env | EncBool \<Rightarrow> encBool env | EncFloat \<Rightarrow> encFloat env | EncDecimal \<Rightarrow> encDecimal env
     | EncText \<Rightarrow> encText env | EncBytes \<Rightarrow> encBytes env | EncPass \<Rightarrow> encPass env)"


section \<open>The choice of a type\<close>

record pg_choice =
  ch_typ :: string
  ch_cast :: string
  ch_enc :: enc_name
  ch_kind :: kind
  ch_note :: string
  ch_normalized :: int
  ch_example :: string

definition choice :: "string \<Rightarrow> enc_name \<Rightarrow> kind \<Rightarrow> pg_choice" where
  "choice typ e k = \<lparr>ch_typ = typ, ch_cast = [], ch_enc = e, ch_kind = k, ch_note = [], ch_normalized = 0, ch_example = []\<rparr>"

definition cast_choice :: "string \<Rightarrow> enc_name \<Rightarrow> kind \<Rightarrow> pg_choice" where
  "cast_choice typ e k = (choice typ e k)\<lparr>ch_cast := typ\<rparr>"

text \<open>\<open>reDefNumber\<close> is the shape \<open>RatSetString\<close> accepts.\<close>

definition reDefNumber :: "string \<Rightarrow> bool" where "reDefNumber s \<longleftrightarrow> RatSetString s \<noteq> None"

definition is_quoted :: "string \<Rightarrow> bool" where
  "is_quoted e \<longleftrightarrow> length e \<ge> 2 \<and> hd e = CHR 0x27 \<and> last e = CHR 0x27"

definition defaultFitsDecimal :: "string \<Rightarrow> decl_info \<Rightarrow> bool" where
  "defaultFitsDecimal def d =
     (if di_p d < 0 then True
      else
        (let e = strip_parens (TrimSpace def); e = (if is_quoted e then tl (butlast e) else e) in
         if \<not> reDefNumber e then True
         else (case ratSetString e of
             None \<Rightarrow> False
           | Some r \<Rightarrow> (case quotient_of (r * 10 ^ nat (di_s d)) of (n, m) \<Rightarrow> m = 1 \<and> \<bar>n\<bar> < 10 ^ nat (di_p d)))))"

definition widen_note :: "string \<Rightarrow> pg_choice \<Rightarrow> string \<Rightarrow> pg_choice" where
  "widen_note quoted ch why = ch\<lparr>ch_note := ''declared '' @ quoted @ '' but '' @ why @ '': carried as '' @ ch_typ ch\<rparr>"

definition inferFromValues :: "colStats \<Rightarrow> pg_choice" where
  "inferFromValues st =
     (if st_blobs st > 0 \<or> textWithNUL st > 0 then choice ''bytea'' EncBytes KindBytes
      else if only_classes st [IntClass] \<and> \<not> allNull st then choice ''bigint'' EncInt KindInt
      else if only_classes st [IntClass, RealClass] \<and> \<not> allNull st \<and> decOK st = st_ints st + st_reals st then cast_choice ''numeric'' EncDecimal KindDecimal
      else choice ''text'' EncText KindText)"

definition int_type :: "nat \<Rightarrow> string" where
  "int_type width = (if width = 2 then ''smallint'' else if width = 4 then ''integer'' else if width = 8 then ''bigint'' else [])"

definition numeric_type :: "int \<Rightarrow> int \<Rightarrow> string" where
  "numeric_type p s = ''numeric('' @ show_int p @ '','' @ show_int s @ '')''"

definition decimal_choice :: "string \<Rightarrow> string \<Rightarrow> colStats \<Rightarrow> bool \<Rightarrow> pg_choice option" where
  "decimal_choice quoted def st decimalsText =
     (let d = st_decl st; (norm, ex) = spellings st in
      if only_classes st [IntClass, RealClass, TextClass] \<and> decOK st = st_ints st + st_reals st + st_texts st then
        Some (if di_text d \<and> decimalsText \<and> norm > 0
          then widen_note quoted (choice ''text'' EncText KindText) (''--decimals=text and numeric would write '' @ show_int norm @ '' of its text values differently ('' @ ex @ '')'')
          else if di_class d = declBareNumeric then (cast_choice ''numeric'' EncDecimal KindDecimal)\<lparr>ch_normalized := norm, ch_example := ex\<rparr>
          else if decFit st = decOK st \<and> defaultFitsDecimal def d
          then (cast_choice (numeric_type (di_p d) (di_s d)) EncDecimal KindDecimal)\<lparr>ch_normalized := norm, ch_example := ex\<rparr>
          else if decFit st = decOK st
          then widen_note quoted ((cast_choice ''numeric'' EncDecimal KindDecimal)\<lparr>ch_normalized := decBare st, ch_example := decBareExample st\<rparr>)
            (''its default '' @ TrimSpace def @ '' does not fit that precision and scale exactly (PostgreSQL would round it or refuse it)'')
          else widen_note quoted ((cast_choice ''numeric'' EncDecimal KindDecimal)\<lparr>ch_normalized := norm, ch_example := ex\<rparr>)
            ''some values do not fit that precision and scale exactly'')
      else None)"

definition declared_choice :: "string \<Rightarrow> string \<Rightarrow> colStats \<Rightarrow> bool \<Rightarrow> pg_choice option" where
  "declared_choice quoted def st decimalsText =
     (let d = st_decl st; w = widen_note quoted in
      case di_class d of
        declInt \<Rightarrow>
          (if only_classes st [IntClass] then
             Some (if di_width d = 2 \<and> (minInt st < - (2 ^ 15) \<or> maxInt st > 2 ^ 15 - 1) \<or>
                 di_width d = 4 \<and> (minInt st < - (2 ^ 31) \<or> maxInt st > 2 ^ 31 - 1)
               then w (choice ''bigint'' EncInt KindInt) (''its values do not fit '' @ int_type (di_width d))
               else choice (int_type (di_width d)) EncInt KindInt)
           else None)
      | declFloat \<Rightarrow>
          (if only_classes st [IntClass, RealClass] \<and> intInexact st = 0 then
             Some (if di_width d = 4 \<and> f32Bad st = 0 then choice ''real'' EncFloat KindFloat
               else if di_width d = 4 then w (choice ''double precision'' EncFloat KindFloat) (show_int (f32Bad st) @ '' value(s) are not held exactly by a 4-byte real'')
               else choice ''double precision'' EncFloat KindFloat)
           else None)
      | declDecimal \<Rightarrow> decimal_choice quoted def st decimalsText
      | declBareNumeric \<Rightarrow> decimal_choice quoted def st decimalsText
      | declBool \<Rightarrow> if only_classes st [IntClass] \<and> nonBool st = 0 then Some (choice ''boolean'' EncBool KindBool) else None
      | declDate \<Rightarrow> if only_classes st [TextClass] \<and> dateOK st = st_texts st then Some (cast_choice ''date'' EncPass KindDate) else None
      | declTimestamp \<Rightarrow> if only_classes st [TextClass] \<and> tsOK st = st_texts st then Some (cast_choice ''timestamp'' EncPass KindTimestamp) else None
      | declTimestampTZ \<Rightarrow>
          (if only_classes st [TextClass] \<and> tstzOK st = st_texts st then Some (cast_choice ''timestamptz'' EncPass KindTimestampTZ)
           else if only_classes st [TextClass] \<and> textWithNUL st = 0 \<and> tstzAny st = st_texts st
           then Some (w (choice ''text'' EncText KindText) ''its values carry offsets other than +00, which timestamptz would rewrite to UTC'')
           else None)
      | declTime \<Rightarrow> if only_classes st [TextClass] \<and> timeOK st = st_texts st then Some (cast_choice ''time'' EncPass KindTime) else None
      | declSpecial \<Rightarrow>
          (if only_classes st [TextClass] \<and> textWithNUL st = 0 \<and> (if di_special d = ''uuid'' then uuidOK st else jsonOK st) = st_texts st then
             Some (if di_special d = ''jsonb'' \<and> jsonbOK st \<noteq> st_texts st
               then w (cast_choice ''json'' EncPass KindText) (''jsonb would rewrite '' @ show_int (st_texts st - jsonbOK st) @ '' of its values (key order, spacing, duplicate keys or number spelling)'')
               else cast_choice (di_special d) EncPass KindText)
           else None)
      | declChar \<Rightarrow>
          (if only_classes st [TextClass] \<and> textWithNUL st = 0 then
             Some (if maxLen st \<le> di_n d then choice (''varchar('' @ show_int (di_n d) @ '')'') EncText KindText
               else w (choice ''text'' EncText KindText) ''some values are longer than that'')
           else None)
      | declText \<Rightarrow> if only_classes st [TextClass] \<and> textWithNUL st = 0 then Some (choice ''text'' EncText KindText) else None
      | declBlob \<Rightarrow> if only_classes st [BlobClass] then Some (choice ''bytea'' EncBytes KindBytes) else None
      | _ \<Rightarrow> None)"

definition chooseSQLiteToPG :: "string \<Rightarrow> string \<Rightarrow> colStats \<Rightarrow> bool \<Rightarrow> pg_choice" where
  "chooseSQLiteToPG quoted def st decimalsText =
     (case declared_choice quoted def st decimalsText of
        Some ch \<Rightarrow> ch
      | None \<Rightarrow>
          (let ch = inferFromValues st;
               ch = (case di_class (st_decl st) of
                   declNone \<Rightarrow> if \<not> allNull st then ch\<lparr>ch_note := ''has no declared type: carried as '' @ ch_typ ch @ '' from its values''\<rparr> else ch
                 | declUnknown \<Rightarrow> ch\<lparr>ch_note := ''declared '' @ quoted @ '', which has no PostgreSQL equivalent: carried as '' @ ch_typ ch\<rparr>
                 | _ \<Rightarrow> ch\<lparr>ch_note := ''declared '' @ quoted @ '' but its values are not all of that type: carried as '' @ ch_typ ch\<rparr>)
           in if textWithNUL st > 0 \<and> ch_typ ch = ''bytea''
              then ch\<lparr>ch_note := ch_note ch @ ''; text that holds a NUL byte cannot be stored in a PostgreSQL text column, so the whole column is bytea and a copy back to SQLite returns its values as BLOBs''\<rparr>
              else ch))"



section \<open>Defaults\<close>

fun double_quotes :: "string \<Rightarrow> string" where
  "double_quotes [] = []"
| "double_quotes (c # s) = (if c = CHR 0x27 then CHR 0x27 # CHR 0x27 # double_quotes s else c # double_quotes s)"

definition quoteLiteral :: "string \<Rightarrow> string" where
  "quoteLiteral s = CHR 0x27 # double_quotes s @ [CHR 0x27]"

text \<open>\<open>ReplaceAll(s, two quotes, nothing)\<close>.\<close>

fun drop_doubled :: "string \<Rightarrow> string" where
  "drop_doubled [] = []"
| "drop_doubled [c] = [c]"
| "drop_doubled (c # d # s) = (if c = CHR 0x27 \<and> d = CHR 0x27 then drop_doubled s else c # drop_doubled (d # s))"

definition utc_now :: string where "utc_now = ''(CURRENT_TIMESTAMP AT TIME ZONE '' @ quoteLiteral ''UTC'' @ '')''"

definition utc_text :: "string \<Rightarrow> string" where
  "utc_text layout = ''to_char(CURRENT_TIMESTAMP AT TIME ZONE '' @ quoteLiteral ''UTC'' @ '', '' @ quoteLiteral layout @ '')''"

definition sqliteDefaultToPG :: "copy_env \<Rightarrow> string \<Rightarrow> kind \<Rightarrow> string option" where
  "sqliteDefaultToPG env expr k =
     (let e = strip_parens (TrimSpace expr); up = ToUpper e in
      if up = ''NULL'' \<or> e = [] then Some []
      else if up = ''CURRENT_TIMESTAMP'' then
        (case k of KindTimestamp \<Rightarrow> Some utc_now | KindTimestampTZ \<Rightarrow> Some ''CURRENT_TIMESTAMP'' | KindDate \<Rightarrow> Some (utc_now @ ''::date'')
         | KindText \<Rightarrow> Some (utc_text ''YYYY-MM-DD HH24:MI:SS'') | _ \<Rightarrow> None)
      else if up = ''CURRENT_DATE'' then
        (case k of KindDate \<Rightarrow> Some (utc_now @ ''::date'') | KindText \<Rightarrow> Some (utc_text ''YYYY-MM-DD'') | _ \<Rightarrow> None)
      else if up = ''CURRENT_TIME'' then
        (case k of KindTime \<Rightarrow> Some (utc_now @ ''::time'') | KindText \<Rightarrow> Some (utc_text ''HH24:MI:SS'') | _ \<Rightarrow> None)
      else if reDefNumber e then
        (case k of KindInt \<Rightarrow> Some e | KindFloat \<Rightarrow> Some e | KindDecimal \<Rightarrow> Some e
         | KindBool \<Rightarrow> if e = ''0'' then Some ''false'' else if e = ''1'' then Some ''true'' else None
         | KindText \<Rightarrow> Some (quoteLiteral e) | _ \<Rightarrow> None)
      else if is_quoted e \<and> CHR 0x27 \<notin> set (drop_doubled (tl (butlast e))) then
        (if k \<in> {KindText, KindDate, KindTimestamp, KindTimestampTZ, KindTime} then Some e
         else if k \<in> {KindInt, KindFloat, KindDecimal} \<and> reDefNumber (tl (butlast e)) then Some (tl (butlast e)) else None)
      else if fold_equal env e ''TRUE'' \<and> k = KindBool then Some ''true''
      else if fold_equal env e ''FALSE'' \<and> k = KindBool then Some ''false''
      else None)"

end
