(* ===== verification/Copy_Types_Properties.thy ===== *)
theory Copy_Types_Properties
  imports Copy_Types
begin

text \<open>
  The type a column gets in a faithful copy holds the column's values: the encoder accepts
  every value, and what it hands over stands for exactly that value in a type that has it.
\<close>


section \<open>What the statistics count\<close>

lemma stat_decimal_simps [simp]:
  "st_decl (stat_decimal t b s) = st_decl s" "st_n (stat_decimal t b s) = st_n s" "st_nulls (stat_decimal t b s) = st_nulls s"
  "st_ints (stat_decimal t b s) = st_ints s" "st_reals (stat_decimal t b s) = st_reals s" "st_texts (stat_decimal t b s) = st_texts s"
  "st_blobs (stat_decimal t b s) = st_blobs s" "minInt (stat_decimal t b s) = minInt s" "maxInt (stat_decimal t b s) = maxInt s"
  "maxLen (stat_decimal t b s) = maxLen s" "textWithNUL (stat_decimal t b s) = textWithNUL s" "nonBool (stat_decimal t b s) = nonBool s"
  "dateOK (stat_decimal t b s) = dateOK s" "tsOK (stat_decimal t b s) = tsOK s" "tstzOK (stat_decimal t b s) = tstzOK s"
  "timeOK (stat_decimal t b s) = timeOK s" "tstzAny (stat_decimal t b s) = tstzAny s" "jsonbOK (stat_decimal t b s) = jsonbOK s"
  "f32Bad (stat_decimal t b s) = f32Bad s" "intInexact (stat_decimal t b s) = intInexact s" "jsonOK (stat_decimal t b s) = jsonOK s"
  "uuidOK (stat_decimal t b s) = uuidOK s"
  "decOK (stat_decimal t b s) = decOK s + of_bool (reDec t)" "decFit (stat_decimal t b s) = decFit s + of_bool (reDec t \<and> fits_decl (st_decl s) t)"
  by (simp_all add: stat_decimal_def Let_def)

definition date_ok :: "copy_env \<Rightarrow> string \<Rightarrow> bool" where
  "date_ok env x \<longleftrightarrow> reDate x \<and> parses env ''2006-01-02'' x \<and> yearInPG x"

definition ts_ok :: "copy_env \<Rightarrow> string \<Rightarrow> bool" where
  "ts_ok env x \<longleftrightarrow> \<not> reDate x \<and> reTS x \<and> parses env ''2006-01-02 15:04:05.999999'' x \<and> yearInPG x"

definition tstz_ok :: "copy_env \<Rightarrow> string \<Rightarrow> bool" where
  "tstz_ok env x \<longleftrightarrow> \<not> reDate x \<and> \<not> reTS x \<and> reTSTZ x \<and> parses env ''2006-01-02 15:04:05.999999'' (before_offset x) \<and> yearInPG x"

definition pgtime_ok :: "copy_env \<Rightarrow> string \<Rightarrow> bool" where
  "pgtime_ok env x \<longleftrightarrow> \<not> reDate x \<and> \<not> reTS x \<and> \<not> reTSTZ x \<and> reTime x \<and> parses env ''15:04:05.999999'' x"

lemma stat_temporal_simps [simp]:
  "st_decl (stat_temporal env x s) = st_decl s" "st_n (stat_temporal env x s) = st_n s" "st_nulls (stat_temporal env x s) = st_nulls s"
  "st_ints (stat_temporal env x s) = st_ints s" "st_reals (stat_temporal env x s) = st_reals s" "st_texts (stat_temporal env x s) = st_texts s"
  "st_blobs (stat_temporal env x s) = st_blobs s" "minInt (stat_temporal env x s) = minInt s" "maxInt (stat_temporal env x s) = maxInt s"
  "maxLen (stat_temporal env x s) = maxLen s" "textWithNUL (stat_temporal env x s) = textWithNUL s" "nonBool (stat_temporal env x s) = nonBool s"
  "jsonbOK (stat_temporal env x s) = jsonbOK s" "f32Bad (stat_temporal env x s) = f32Bad s" "intInexact (stat_temporal env x s) = intInexact s"
  "decOK (stat_temporal env x s) = decOK s" "decFit (stat_temporal env x s) = decFit s" "jsonOK (stat_temporal env x s) = jsonOK s" "uuidOK (stat_temporal env x s) = uuidOK s"
  "dateOK (stat_temporal env x s) = dateOK s + of_bool (date_ok env x)" "tsOK (stat_temporal env x s) = tsOK s + of_bool (ts_ok env x)"
  "tstzAny (stat_temporal env x s) = tstzAny s + of_bool (tstz_ok env x)"
  "tstzOK (stat_temporal env x s) = tstzOK s + of_bool (tstz_ok env x \<and> reTSTZUTC x)" "timeOK (stat_temporal env x s) = timeOK s + of_bool (pgtime_ok env x)"
  by (auto simp: stat_temporal_def date_ok_def ts_ok_def tstz_ok_def pgtime_ok_def)

text \<open>The decimal text of a value, where it has one.\<close>

definition decimal_text_of :: "copy_env \<Rightarrow> sqlite_value \<Rightarrow> string option" where
  "decimal_text_of env v = (case v of SInt i \<Rightarrow> Some (show_int i) | SReal x \<Rightarrow> if is_finite64 x then Some (FormatFloat_f env x) else None | SText x \<Rightarrow> Some x | _ \<Rightarrow> None)"

definition is_class :: "storage_class \<Rightarrow> sqlite_value \<Rightarrow> bool" where
  "is_class c v = (case v of SNil \<Rightarrow> False | SInt _ \<Rightarrow> c = IntClass | SReal _ \<Rightarrow> c = RealClass | SText _ \<Rightarrow> c = TextClass | SBlob _ \<Rightarrow> c = BlobClass)"

definition text_with :: "(string \<Rightarrow> bool) \<Rightarrow> sqlite_value \<Rightarrow> bool" where
  "text_with P v = (case v of SText x \<Rightarrow> P x | _ \<Rightarrow> False)"

lemma stat_int_simps [simp]:
  "st_n (stat_int env x s) = st_n s"
  "st_nulls (stat_int env x s) = st_nulls s"
  "st_ints (stat_int env x s) = st_ints s + 1"
  "st_reals (stat_int env x s) = st_reals s"
  "st_texts (stat_int env x s) = st_texts s"
  "st_blobs (stat_int env x s) = st_blobs s"
  "textWithNUL (stat_int env x s) = textWithNUL s"
  "nonBool (stat_int env x s) = nonBool s + of_bool (x \<noteq> 0 \<and> x \<noteq> 1)"
  "dateOK (stat_int env x s) = dateOK s"
  "tsOK (stat_int env x s) = tsOK s"
  "tstzOK (stat_int env x s) = tstzOK s"
  "timeOK (stat_int env x s) = timeOK s"
  "tstzAny (stat_int env x s) = tstzAny s"
  "jsonbOK (stat_int env x s) = jsonbOK s"
  "f32Bad (stat_int env x s) = f32Bad s + of_bool (\<not> f32Exact env (int_to_float x))"
  "intInexact (stat_int env x s) = intInexact s + of_bool (x > 2 ^ 53 \<or> x < - (2 ^ 53))"
  "decOK (stat_int env x s) = decOK s + of_bool (reDec (show_int x))"
  "decFit (stat_int env x s) = decFit s + of_bool (reDec (show_int x) \<and> fits_decl (st_decl s) (show_int x))"
  "jsonOK (stat_int env x s) = jsonOK s"
  "uuidOK (stat_int env x s) = uuidOK s"
  "st_decl (stat_int env x s) = st_decl s"
  "minInt (stat_int env x s) = (if st_ints s = 0 then x else min (minInt s) x)"
  "maxInt (stat_int env x s) = (if st_ints s = 0 then x else max (maxInt s) x)"
  "maxLen (stat_int env x s) = maxLen s"
  by (simp_all add: stat_int_def Let_def)

lemma stat_real_simps [simp]:
  "st_n (stat_real env x s) = st_n s"
  "st_nulls (stat_real env x s) = st_nulls s"
  "st_ints (stat_real env x s) = st_ints s"
  "st_reals (stat_real env x s) = st_reals s + 1"
  "st_texts (stat_real env x s) = st_texts s"
  "st_blobs (stat_real env x s) = st_blobs s"
  "textWithNUL (stat_real env x s) = textWithNUL s"
  "nonBool (stat_real env x s) = nonBool s"
  "dateOK (stat_real env x s) = dateOK s"
  "tsOK (stat_real env x s) = tsOK s"
  "tstzOK (stat_real env x s) = tstzOK s"
  "timeOK (stat_real env x s) = timeOK s"
  "tstzAny (stat_real env x s) = tstzAny s"
  "jsonbOK (stat_real env x s) = jsonbOK s"
  "f32Bad (stat_real env x s) = f32Bad s + of_bool (is_finite64 x \<and> \<not> f32Exact env x)"
  "intInexact (stat_real env x s) = intInexact s"
  "decOK (stat_real env x s) = decOK s + of_bool (is_finite64 x \<and> reDec (FormatFloat_f env x))"
  "decFit (stat_real env x s) = decFit s + of_bool (is_finite64 x \<and> reDec (FormatFloat_f env x) \<and> fits_decl (st_decl s) (FormatFloat_f env x))"
  "jsonOK (stat_real env x s) = jsonOK s"
  "uuidOK (stat_real env x s) = uuidOK s"
  "st_decl (stat_real env x s) = st_decl s"
  "minInt (stat_real env x s) = minInt s"
  "maxInt (stat_real env x s) = maxInt s"
  "maxLen (stat_real env x s) = maxLen s"
  by (simp_all add: stat_real_def Let_def)

lemma stat_text_simps [simp]:
  "st_n (stat_text env x s) = st_n s"
  "st_nulls (stat_text env x s) = st_nulls s"
  "st_ints (stat_text env x s) = st_ints s"
  "st_reals (stat_text env x s) = st_reals s"
  "st_texts (stat_text env x s) = st_texts s + 1"
  "st_blobs (stat_text env x s) = st_blobs s"
  "textWithNUL (stat_text env x s) = textWithNUL s + of_bool (CHR 0x00 \<in> set x)"
  "nonBool (stat_text env x s) = nonBool s"
  "dateOK (stat_text env x s) = dateOK s + of_bool (date_ok env x)"
  "tsOK (stat_text env x s) = tsOK s + of_bool (ts_ok env x)"
  "tstzOK (stat_text env x s) = tstzOK s + of_bool (tstz_ok env x \<and> reTSTZUTC x)"
  "timeOK (stat_text env x s) = timeOK s + of_bool (pgtime_ok env x)"
  "tstzAny (stat_text env x s) = tstzAny s + of_bool (tstz_ok env x)"
  "jsonbOK (stat_text env x s) = jsonbOK s + of_bool (json_Valid env x \<and> jsonbUnchanged x)"
  "f32Bad (stat_text env x s) = f32Bad s"
  "intInexact (stat_text env x s) = intInexact s"
  "decOK (stat_text env x s) = decOK s + of_bool (reDec x)"
  "decFit (stat_text env x s) = decFit s + of_bool (reDec x \<and> fits_decl (st_decl s) x)"
  "jsonOK (stat_text env x s) = jsonOK s + of_bool (json_Valid env x)"
  "uuidOK (stat_text env x s) = uuidOK s + of_bool (reUUID x)"
  "st_decl (stat_text env x s) = st_decl s"
  "minInt (stat_text env x s) = minInt s"
  "maxInt (stat_text env x s) = maxInt s"
  "maxLen (stat_text env x s) = max (maxLen s) (int (length (runes x)))"
  by (simp_all add: stat_text_def Let_def)

lemmas stat_defs = add_value_def Let_def is_class_def text_with_def decimal_text_of_def class_count_def

lemma add_value_decl [simp]: "st_decl (add_value env v s) = st_decl s"
  by (simp add: stat_defs split: sqlite_value.splits)

lemma add_value_counts:
  "class_count (add_value env v s) c = class_count s c + of_bool (is_class c v)"
  "st_n (add_value env v s) = st_n s + 1" "st_nulls (add_value env v s) = st_nulls s + of_bool (v = SNil)"
  "textWithNUL (add_value env v s) = textWithNUL s + of_bool (text_with (\<lambda>x. CHR 0x00 \<in> set x) v)"
  "dateOK (add_value env v s) = dateOK s + of_bool (text_with (date_ok env) v)"
  "tsOK (add_value env v s) = tsOK s + of_bool (text_with (ts_ok env) v)"
  "tstzAny (add_value env v s) = tstzAny s + of_bool (text_with (tstz_ok env) v)"
  "tstzOK (add_value env v s) = tstzOK s + of_bool (text_with (\<lambda>x. tstz_ok env x \<and> reTSTZUTC x) v)"
  "timeOK (add_value env v s) = timeOK s + of_bool (text_with (pgtime_ok env) v)"
  "jsonOK (add_value env v s) = jsonOK s + of_bool (text_with (json_Valid env) v)"
  "jsonbOK (add_value env v s) = jsonbOK s + of_bool (text_with (\<lambda>x. json_Valid env x \<and> jsonbUnchanged x) v)"
  "uuidOK (add_value env v s) = uuidOK s + of_bool (text_with reUUID v)"
  "decOK (add_value env v s) = decOK s + of_bool (\<exists>t. decimal_text_of env v = Some t \<and> reDec t)"
  "decFit (add_value env v s) = decFit s + of_bool (\<exists>t. decimal_text_of env v = Some t \<and> reDec t \<and> fits_decl (st_decl s) t)"
  "nonBool (add_value env v s) = nonBool s + of_bool (\<exists>i. v = SInt i \<and> i \<noteq> 0 \<and> i \<noteq> 1)"
  "intInexact (add_value env v s) = intInexact s + of_bool (\<exists>i. v = SInt i \<and> (i > 2 ^ 53 \<or> i < - (2 ^ 53)))"
  "f32Bad (add_value env v s) = f32Bad s + of_bool ((\<exists>i. v = SInt i \<and> \<not> f32Exact env (int_to_float i)) \<or> (\<exists>x. v = SReal x \<and> is_finite64 x \<and> \<not> f32Exact env x))"
  by (cases v; cases c; simp add: stat_defs)+


lemma column_stats_snoc [simp]: "column_stats env d (vs @ [v]) = add_value env v (column_stats env d vs)"
  by (simp add: column_stats_def)

lemma column_stats_Nil [simp]: "column_stats env d [] = newStats d"
  by (simp add: column_stats_def)

lemma column_decl [simp]: "st_decl (column_stats env d vs) = d"
  by (induction vs rule: rev_induct) (simp_all add: newStats_def)

lemma column_counts:
  assumes "\<And>v s. st_decl s = d \<Longrightarrow> f (add_value env v s) = f s + of_bool (P v)" and "f (newStats d) = (0 :: int)"
  shows "f (column_stats env d vs) = int (length (filter P vs))"
  by (induction vs rule: rev_induct) (simp_all add: assms)

definition how_many :: "(sqlite_value \<Rightarrow> bool) \<Rightarrow> sqlite_value list \<Rightarrow> int" where
  "how_many P vs = int (length (filter P vs))"

lemma how_many_zero: "how_many P vs = 0 \<longleftrightarrow> (\<forall>v \<in> set vs. \<not> P v)"
  by (auto simp: how_many_def filter_empty_conv)

lemma how_many_pos: "0 < how_many P vs \<longleftrightarrow> (\<exists>v \<in> set vs. P v)"
  using how_many_zero [of P vs] by (auto simp: how_many_def)

lemma how_many_nonneg [simp]: "0 \<le> how_many P vs"
  by (simp add: how_many_def)

lemma how_many_eq:
  assumes "how_many P vs = how_many Q vs" "\<And>v. v \<in> set vs \<Longrightarrow> P v \<Longrightarrow> Q v" "v \<in> set vs" "Q v"
  shows "P v"
proof -
  have "set vs \<inter> {v. P v} \<subseteq> {v. Q v}" using assms(2) by blast
  then have "filter P vs = filter P (filter Q vs)" by (auto intro: filter_cong)
  then have "length (filter P (filter Q vs)) = length (filter Q vs)" using assms(1) by (simp add: how_many_def)
  then have "\<forall>v \<in> set (filter Q vs). P v" by (metis length_filter_less less_irrefl)
  then show ?thesis using assms(3,4) by simp
qed

lemma how_many_disj:
  assumes "\<And>v. \<not> (P v \<and> Q v)"
  shows "how_many P vs + how_many Q vs = how_many (\<lambda>v. P v \<or> Q v) vs"
  using assms by (induction vs) (auto simp: how_many_def)

lemmas new_defs = newStats_def class_count_def

lemma class_counts: "class_count (column_stats env d vs) c = how_many (is_class c) vs"
  unfolding how_many_def
proof (rule column_counts)
  show "class_count (newStats d) c = 0" by (cases c) (simp_all add: new_defs)
qed (simp only: add_value_counts)

lemma stats_counts:
  "st_n (column_stats env d vs) = int (length vs)" "st_nulls (column_stats env d vs) = how_many (\<lambda>v. v = SNil) vs"
  "textWithNUL (column_stats env d vs) = how_many (text_with (\<lambda>x. CHR 0x00 \<in> set x)) vs"
  "dateOK (column_stats env d vs) = how_many (text_with (date_ok env)) vs"
  "tsOK (column_stats env d vs) = how_many (text_with (ts_ok env)) vs"
  "tstzAny (column_stats env d vs) = how_many (text_with (tstz_ok env)) vs"
  "tstzOK (column_stats env d vs) = how_many (text_with (\<lambda>x. tstz_ok env x \<and> reTSTZUTC x)) vs"
  "timeOK (column_stats env d vs) = how_many (text_with (pgtime_ok env)) vs"
  "jsonOK (column_stats env d vs) = how_many (text_with (json_Valid env)) vs"
  "jsonbOK (column_stats env d vs) = how_many (text_with (\<lambda>x. json_Valid env x \<and> jsonbUnchanged x)) vs"
  "uuidOK (column_stats env d vs) = how_many (text_with reUUID) vs"
  "decOK (column_stats env d vs) = how_many (\<lambda>v. \<exists>t. decimal_text_of env v = Some t \<and> reDec t) vs"
  "decFit (column_stats env d vs) = how_many (\<lambda>v. \<exists>t. decimal_text_of env v = Some t \<and> reDec t \<and> fits_decl d t) vs"
  "nonBool (column_stats env d vs) = how_many (\<lambda>v. \<exists>i. v = SInt i \<and> i \<noteq> 0 \<and> i \<noteq> 1) vs"
  "intInexact (column_stats env d vs) = how_many (\<lambda>v. \<exists>i. v = SInt i \<and> (i > 2 ^ 53 \<or> i < - (2 ^ 53))) vs"
  "f32Bad (column_stats env d vs) = how_many (\<lambda>v. (\<exists>i. v = SInt i \<and> \<not> f32Exact env (int_to_float i)) \<or> (\<exists>x. v = SReal x \<and> is_finite64 x \<and> \<not> f32Exact env x)) vs"
  unfolding how_many_def
  by (induction vs rule: rev_induct; simp add: add_value_counts new_defs) (rule column_counts; simp add: add_value_counts new_defs)+

text \<open>Bounds of the integers and of the lengths of texts.\<close>

lemma int_bounds: "SInt i \<in> set vs \<Longrightarrow> minInt (column_stats env d vs) \<le> i \<and> i \<le> maxInt (column_stats env d vs)"
proof (induction vs rule: rev_induct)
  case (snoc v vs)
  have some: "st_ints (column_stats env d vs) \<noteq> 0" if "SInt i \<in> set vs"
    using class_counts [of env d vs IntClass] that how_many_zero [of "is_class IntClass" vs] by (auto simp: class_count_def is_class_def)
  show ?case using snoc some by (cases v) (auto simp: add_value_def)
qed simp

lemma text_lengths: "SText x \<in> set vs \<Longrightarrow> int (length (runes x)) \<le> maxLen (column_stats env d vs)"
proof (induction vs rule: rev_induct)
  case (snoc v vs)
  then show ?case by (cases v) (auto simp: add_value_def)
qed simp


section \<open>What PostgreSQL types hold\<close>

definition int_holds :: "string \<Rightarrow> int \<Rightarrow> bool" where
  "int_holds typ i =
     (if typ = ''smallint'' then - (2 ^ 15) \<le> i \<and> i < 2 ^ 15
      else if typ = ''integer'' then - (2 ^ 31) \<le> i \<and> i < 2 ^ 31
      else typ = ''bigint'' \<and> - (2 ^ 63) \<le> i \<and> i < 2 ^ 63)"

definition numeric_holds :: "decl_info \<Rightarrow> string \<Rightarrow> string \<Rightarrow> bool" where
  "numeric_holds d typ t \<longleftrightarrow> reDec t \<and> (typ = ''numeric'' \<or> typ = numeric_type (di_p d) (di_s d) \<and> fits_decl d t)"

definition storable_text :: "string \<Rightarrow> bool" where
  "storable_text t \<longleftrightarrow> ValidString t \<and> CHR 0x00 \<notin> set t"

definition text_holds :: "copy_env \<Rightarrow> decl_info \<Rightarrow> string \<Rightarrow> string \<Rightarrow> bool" where
  "text_holds env d typ t \<longleftrightarrow>
     typ = ''text'' \<and> storable_text t \<or>
     typ = ''varchar('' @ show_int (di_n d) @ '')'' \<and> storable_text t \<and> int (length (runes t)) \<le> di_n d \<or>
     typ = ''date'' \<and> date_ok env t \<or> typ = ''timestamp'' \<and> ts_ok env t \<or> typ = ''time'' \<and> pgtime_ok env t \<or>
     typ = ''timestamptz'' \<and> tstz_ok env t \<and> reTSTZUTC t \<or>
     typ = ''uuid'' \<and> reUUID t \<or> typ = ''json'' \<and> storable_text t \<and> json_Valid env t \<or>
     typ = ''jsonb'' \<and> storable_text t \<and> json_Valid env t \<and> jsonbUnchanged t \<or>
     numeric_holds d typ t"

text \<open>The type holds what the encoder hands over, and it stands for exactly the source's value.\<close>

definition pg_holds :: "copy_env \<Rightarrow> decl_info \<Rightarrow> string \<Rightarrow> sqlite_value \<Rightarrow> pg_value \<Rightarrow> bool" where
  "pg_holds env d typ v g =
     (case v of
        SNil \<Rightarrow> g = GNil
      | SInt i \<Rightarrow>
          (case g of
             GInt j \<Rightarrow> j = i \<and> int_holds typ i
           | GBool b \<Rightarrow> typ = ''boolean'' \<and> i = of_bool b
           | GFloat f \<Rightarrow> is_finite64 f \<and> f64_value f = of_int i \<and> (typ = ''double precision'' \<or> typ = ''real'' \<and> f32Exact env f)
           | GText t \<Rightarrow> t = show_int i \<and> (typ = ''text'' \<or> numeric_holds d typ t)
           | GBytes t \<Rightarrow> typ = ''bytea'' \<and> t = show_int i
           | GNil \<Rightarrow> False)
      | SReal x \<Rightarrow>
          (case g of
             GFloat f \<Rightarrow> f = x \<and> (typ = ''double precision'' \<or> typ = ''real'' \<and> f32Exact env x)
           | GText t \<Rightarrow> typ = ''text'' \<and> t = FormatFloat_g env x \<or> is_finite64 x \<and> t = FormatFloat_f env x \<and> numeric_holds d typ t
           | GBytes t \<Rightarrow> typ = ''bytea'' \<and> t = FormatFloat_g env x
           | _ \<Rightarrow> False)
      | SText x \<Rightarrow> (case g of GText t \<Rightarrow> t = x \<and> text_holds env d typ t | GBytes t \<Rightarrow> typ = ''bytea'' \<and> t = x | _ \<Rightarrow> False)
      | SBlob x \<Rightarrow> g = GBytes x \<and> typ = ''bytea'')"

text \<open>What a SQLite database can hold and a PostgreSQL database of UTF-8 texts is asked to: 64-bit integers, texts that are UTF-8.\<close>

definition copyable :: "sqlite_value \<Rightarrow> bool" where
  "copyable v = (case v of SInt i \<Rightarrow> - (2 ^ 63) \<le> i \<and> i < 2 ^ 63 | SText x \<Rightarrow> ValidString x | _ \<Rightarrow> True)"

definition carried :: "copy_env \<Rightarrow> decl_info \<Rightarrow> pg_choice \<Rightarrow> sqlite_value \<Rightarrow> bool" where
  "carried env d ch v = (case encode env (ch_enc ch) v of None \<Rightarrow> False | Some g \<Rightarrow> pg_holds env d (ch_typ ch) v g)"



section \<open>Integers as floats\<close>

lemma block_parts: "f < N \<Longrightarrow> (a * N + f) div N = a" "f < N \<Longrightarrow> (a * N + f) mod N = f" for a f N :: nat
  by simp_all

lemma unat_small: "x < 2 ^ 64 \<Longrightarrow> unat (word_of_nat x :: float64) = x"
  by (simp add: unat_of_nat)

lemma magnitude_of_int:
  assumes "0 < n" "n \<le> 2 ^ 53"
  obtains m where "m < 2047 * 2 ^ 52" "magnitude m = n * 2 ^ 1074"
proof -
  obtain k where k: "2 ^ k \<le> n" "n < 2 ^ Suc k" using ex_power_ivl1 [of 2 n] assms(1) by auto
  show ?thesis
  proof (cases "k \<le> 52")
    case True
    let ?f = "n * 2 ^ (52 - k) - 2 ^ 52" and ?e = "k + 1022"
    have "(2 :: nat) ^ 52 = 2 ^ k * 2 ^ (52 - k)" using True by (simp flip: power_add)
    then have lower: "2 ^ 52 \<le> n * 2 ^ (52 - k)" using k(1) by (metis mult_le_mono1)
    have "n * 2 ^ (52 - k) < 2 ^ Suc k * 2 ^ (52 - k)" using k(2) by simp
    also have "\<dots> = 2 ^ 53" using True by (simp flip: power_add power_Suc)
    finally have f: "?f < 2 ^ 52" by simp
    let ?m = "Suc ?e * 2 ^ 52 + ?f"
    have parts: "?m div 2 ^ 52 = Suc ?e" "?m mod 2 ^ 52 = ?f" using block_parts [OF f] by blast+
    have "magnitude ?m = (2 ^ 52 + ?f) * 2 ^ ?e" unfolding magnitude_def parts by simp
    also have "\<dots> = n * (2 ^ (52 - k) * 2 ^ ?e)" using lower by simp
    also have "\<dots> = n * 2 ^ 1074" using True by (simp flip: power_add)
    finally have mag: "magnitude ?m = n * 2 ^ 1074" .
    have "?m < (Suc ?e + 1) * 2 ^ 52" using f by simp
    also have "\<dots> \<le> 2047 * 2 ^ 52" using True by simp
    finally show ?thesis using that mag by blast
  next
    case False
    have "k = 53"
    proof -
      have "(2 :: nat) ^ k \<le> 2 ^ 53" using k(1) assms(2) by linarith
      then have "k \<le> 53" using power_le_imp_le_exp [of 2 k 53] by simp
      then show ?thesis using False by simp
    qed
    then have n: "n = 2 ^ 53" using k(1) assms(2) by simp
    have parts: "(1076 * 2 ^ 52 :: nat) div 2 ^ 52 = Suc 1075" "(1076 * 2 ^ 52 :: nat) mod 2 ^ 52 = 0" by simp_all
    have "magnitude (1076 * 2 ^ 52) = 2 ^ 52 * 2 ^ 1075" unfolding magnitude_def parts by simp
    then have "magnitude (1076 * 2 ^ 52) = n * 2 ^ 1074" unfolding n by (simp flip: power_add)
    then show ?thesis using that [of "1076 * 2 ^ 52"] by simp
  qed
qed

lemma int_to_float_exact:
  assumes "\<bar>i\<bar> \<le> 2 ^ 53"
  shows "is_finite64 (int_to_float i) \<and> f64_value (int_to_float i) = of_int i"
proof -
  obtain m where m: "m < 2047 * 2 ^ 52" "magnitude m = nat \<bar>i\<bar> * 2 ^ 1074"
  proof (cases "i = 0")
    case True
    then show ?thesis using that [of 0] by simp
  next
    case False
    then have "0 < nat \<bar>i\<bar>" "nat \<bar>i\<bar> \<le> 2 ^ 53" using assms by (simp_all add: nat_le_iff)
    then show ?thesis using magnitude_of_int that by blast
  qed
  let ?w = "int_to_float i"
  have "round_bits (nat \<bar>i\<bar> * 2 ^ 1074) 1 = m" using round_bits_exact [OF m(1)] m(2) by simp
  then have w: "?w = float_bits (i < 0) m" by (simp add: int_to_float_def round64_def)
  have small: "m < 2 ^ 63" using m(1) by simp
  have u: "unat ?w = (if i < 0 then 2 ^ 63 else 0) + m"
    unfolding w float_bits_def by (rule unat_small) (use small in simp)
  have b: "mag_bits ?w = m" "sign_bit ?w \<longleftrightarrow> i < 0" using small by (auto simp: mag_bits_def sign_bit_def u)
  have "f64_units ?w = i * 2 ^ 1074" by (simp add: f64_units_def b m(2))
  then show ?thesis using m(1) by (simp add: is_finite64_def b f64_value_def)
qed



section \<open>The chosen types\<close>

lemma all_classes: "list_all P [IntClass, RealClass, TextClass, BlobClass] \<longleftrightarrow> (\<forall>c. P c)"
  by (simp, metis storage_class.exhaust)

lemma only_classes_iff:
  "only_classes (column_stats env d vs) cs \<longleftrightarrow> (\<forall>v \<in> set vs. \<forall>c. is_class c v \<longrightarrow> c \<in> set cs)"
proof -
  have "only_classes (column_stats env d vs) cs \<longleftrightarrow> (\<forall>c. how_many (is_class c) vs = 0 \<or> c \<in> set cs)"
    unfolding only_classes_def class_counts by (rule all_classes)
  then show ?thesis unfolding how_many_zero by blast
qed

text \<open>A value of the classes a column is restricted to.\<close>

lemma only_cases:
  assumes "only_classes (column_stats env d vs) cs" "v \<in> set vs"
  shows "v = SNil \<or> (\<exists>i. v = SInt i \<and> IntClass \<in> set cs) \<or> (\<exists>x. v = SReal x \<and> RealClass \<in> set cs) \<or>
    (\<exists>x. v = SText x \<and> TextClass \<in> set cs) \<or> (\<exists>x. v = SBlob x \<and> BlobClass \<in> set cs)"
  using assms unfolding only_classes_iff by (cases v) (auto simp: is_class_def)

lemma text_all:
  assumes "how_many (text_with P) vs = how_many (is_class TextClass) vs" "SText x \<in> set vs"
  shows "P x"
  using how_many_eq [OF assms(1) _ assms(2)] by (auto simp: text_with_def is_class_def split: sqlite_value.splits)

lemma text_none: "how_many (text_with P) vs = 0 \<Longrightarrow> SText x \<in> set vs \<Longrightarrow> \<not> P x"
  unfolding how_many_zero by (force simp: text_with_def)

lemma texts_count: "st_texts (column_stats env d vs) = how_many (is_class TextClass) vs"
  using class_counts [of env d vs TextClass] by (simp add: class_count_def)

lemma decimal_all:
  assumes only: "only_classes (column_stats env d vs) cs" "BlobClass \<notin> set cs"
    and cnt: "decOK (column_stats env d vs) = how_many (is_class IntClass) vs + how_many (is_class RealClass) vs + how_many (is_class TextClass) vs"
    and v: "v \<in> set vs" "v \<noteq> SNil"
  shows "\<exists>t. decimal_text_of env v = Some t \<and> reDec t"
proof -
  have "how_many (is_class IntClass) vs + how_many (is_class RealClass) vs = how_many (\<lambda>v. is_class IntClass v \<or> is_class RealClass v) vs"
    by (rule how_many_disj) (auto simp: is_class_def split: sqlite_value.splits)
  moreover have "how_many (\<lambda>v. is_class IntClass v \<or> is_class RealClass v) vs + how_many (is_class TextClass) vs =
      how_many (\<lambda>v. (is_class IntClass v \<or> is_class RealClass v) \<or> is_class TextClass v) vs"
    by (rule how_many_disj) (auto simp: is_class_def split: sqlite_value.splits)
  ultimately have "how_many (\<lambda>v. \<exists>t. decimal_text_of env v = Some t \<and> reDec t) vs = how_many (\<lambda>v. (is_class IntClass v \<or> is_class RealClass v) \<or> is_class TextClass v) vs"
    using cnt by (simp add: stats_counts)
  then show ?thesis
  proof (rule how_many_eq)
    show "\<And>v. v \<in> set vs \<Longrightarrow> \<exists>t. decimal_text_of env v = Some t \<and> reDec t \<Longrightarrow> (is_class IntClass v \<or> is_class RealClass v) \<or> is_class TextClass v"
      by (auto simp: decimal_text_of_def is_class_def split: sqlite_value.splits)
    show "(is_class IntClass v \<or> is_class RealClass v) \<or> is_class TextClass v"
      using only_cases [OF only(1) v(1)] v(2) only(2) by (auto simp: is_class_def)
  qed (rule v(1))
qed

lemma decimal_fits:
  assumes "decFit (column_stats env d vs) = decOK (column_stats env d vs)" "v \<in> set vs" "decimal_text_of env v = Some t" "reDec t"
  shows "fits_decl d t"
proof -
  have "\<exists>t. decimal_text_of env v = Some t \<and> reDec t \<and> fits_decl d t"
    using assms(1) unfolding stats_counts by (rule how_many_eq) (use assms in auto)
  then show ?thesis using assms(3) by auto
qed

lemma reDec_chars:
  assumes "reDec t" "c \<in> set t"
  shows "is_digit c \<or> c = CHR ''-'' \<or> c = CHR ''.''"
proof -
  define u where "u = without_minus t"
  define r where "r = dropWhile (\<lambda>c. c \<noteq> CHR ''.'') u"
  have digits: "\<forall>x \<in> set (int_part t). is_digit x" "\<forall>x \<in> set (frac_part t). is_digit x" using assms(1) by (simp_all add: reDec_def list_all_iff)
  have "c = CHR ''-'' \<or> c \<in> set u" using assms(2) unfolding u_def by (cases t) (auto simp: without_minus_def)
  moreover have "u = int_part t @ r" by (simp add: int_part_def r_def u_def)
  moreover have "c = CHR ''.'' \<or> c \<in> set (frac_part t)" if "c \<in> set r"
  proof (cases r)
    case (Cons x xs)
    then have "x = CHR ''.''" using hd_dropWhile [of "\<lambda>c. c \<noteq> CHR ''.''" u] by (simp add: r_def)
    moreover have "frac_part t = xs" using Cons by (simp add: frac_part_def r_def u_def)
    ultimately show ?thesis using Cons that by simp
  qed (use that in simp)
  ultimately show ?thesis using digits by (metis UnE set_append)
qed

lemma reDec_no_nul: "reDec t \<Longrightarrow> CHR 0x00 \<notin> set t"
  using reDec_chars [of t "CHR 0x00"] by (auto simp: is_digit_def)


lemma encode_simps [simp]:
  "encode env e SNil = Some GNil" "pg_holds env d typ SNil GNil"
  by (cases e) (simp_all add: encode_def encInt_def encBool_def encFloat_def encDecimal_def encText_def encBytes_def encPass_def pg_holds_def)

lemma carried_nil [simp]: "carried env d ch SNil"
  by (simp add: carried_def)

lemmas carried_defs = carried_def encode_def encInt_def encBool_def encFloat_def encDecimal_def encText_def encBytes_def encPass_def pg_holds_def

lemma carried_bytes: "ch_typ ch = ''bytea'' \<Longrightarrow> ch_enc ch = EncBytes \<Longrightarrow> carried env d ch v"
  by (cases v) (simp_all add: carried_defs)

lemma carried_text:
  assumes "ch_typ ch = ''text''" "ch_enc ch = EncText" "copyable v" "\<not> is_class BlobClass v" "\<And>x. v = SText x \<Longrightarrow> CHR 0x00 \<notin> set x"
  shows "carried env d ch v"
  using assms by (cases v) (simp_all add: carried_defs is_class_def copyable_def text_holds_def storable_text_def)

lemma carried_decimal:
  assumes "ch_enc ch = EncDecimal" "decimal_text_of env v = Some t" "numeric_holds d (ch_typ ch) t"
  shows "carried env d ch v"
  using assms by (cases v) (auto simp: carried_defs decimal_text_of_def text_holds_def split: if_splits)

lemma inferred_carries:
  fixes vs env d
  defines "st \<equiv> column_stats env d vs"
  assumes "v \<in> set vs" "copyable v" and ch: "ch_typ ch = ch_typ (inferFromValues st)" "ch_enc ch = ch_enc (inferFromValues st)"
  shows "carried env d ch v"
proof -
  consider (bytes) "st_blobs st > 0 \<or> textWithNUL st > 0"
    | (ints) "\<not> (st_blobs st > 0 \<or> textWithNUL st > 0)" "only_classes st [IntClass] \<and> \<not> allNull st"
    | (nums) "\<not> (st_blobs st > 0 \<or> textWithNUL st > 0)" "\<not> (only_classes st [IntClass] \<and> \<not> allNull st)" "only_classes st [IntClass, RealClass] \<and> \<not> allNull st \<and> decOK st = st_ints st + st_reals st"
    | (texts) "\<not> (st_blobs st > 0 \<or> textWithNUL st > 0)" "\<not> (only_classes st [IntClass] \<and> \<not> allNull st)" "\<not> (only_classes st [IntClass, RealClass] \<and> \<not> allNull st \<and> decOK st = st_ints st + st_reals st)"
    by blast
  then show ?thesis
  proof cases
    case bytes
    then show ?thesis using ch by (intro carried_bytes) (simp_all add: inferFromValues_def choice_def)
  next
    case ints
    then have "ch_typ ch = ''bigint''" "ch_enc ch = EncInt" using ch by (simp_all add: inferFromValues_def choice_def)
    moreover have "v = SNil \<or> (\<exists>i. v = SInt i)" using only_cases [of env d vs "[IntClass]" v] ints(2) assms(2) by (auto simp: st_def)
    ultimately show ?thesis using assms(3) by (auto simp: carried_defs copyable_def int_holds_def)
  next
    case nums
    have "ch_typ ch = ''numeric''" "ch_enc ch = EncDecimal" using ch nums by (simp_all add: inferFromValues_def choice_def cast_choice_def)
    moreover have "how_many (is_class TextClass) vs = 0" using nums(3) unfolding st_def only_classes_iff how_many_zero by auto
    ultimately show ?thesis
      using decimal_all [of env d vs "[IntClass, RealClass]" v] nums(3) assms(2) class_counts [of env d vs IntClass] class_counts [of env d vs RealClass]
      by (cases "v = SNil") (auto simp: st_def class_count_def numeric_holds_def intro: carried_decimal)
  next
    case texts
    have "ch_typ ch = ''text''" "ch_enc ch = EncText" using ch texts by (simp_all add: inferFromValues_def choice_def)
    moreover have "\<not> is_class BlobClass v"
      using texts(1) class_counts [of env d vs BlobClass] assms(2) by (auto simp: st_def class_count_def how_many_pos)
    moreover have "CHR 0x00 \<notin> set x" if "v = SText x" for x
      using texts(1) that assms(2) by (force simp: st_def stats_counts how_many_pos text_with_def)
    ultimately show ?thesis using assms(3) by (intro carried_text) auto
  qed
qed


definition decl_ok :: "decl_info \<Rightarrow> bool" where
  "decl_ok d \<longleftrightarrow> (di_class d = declInt \<longrightarrow> di_width d \<in> {2, 4, 8}) \<and> (di_class d = declSpecial \<longrightarrow> di_special d \<in> {''json'', ''jsonb'', ''uuid''})"

lemma decl_if: "(c \<Longrightarrow> decl_ok x) \<Longrightarrow> decl_ok y \<Longrightarrow> decl_ok (if c then x else y)"
  by simp

lemma parseDecl_ok: "decl_ok (parseDecl decl)"
proof (cases "decl_parts decl")
  case (fields base a1 a2)
  have lower: "ToLower ''JSON'' = ''json''" "ToLower ''JSONB'' = ''jsonb''" "ToLower ''UUID'' = ''uuid''" by code_simp+
  have special: "ToLower (take (length base - 5) base) \<in> {''json'', ''jsonb'', ''uuid''}" if "base = ''JSON_TEXT'' \<or> base = ''JSONB_TEXT'' \<or> base = ''UUID_TEXT''"
    using that by (elim disjE) (simp_all add: lower del: ToLower.simps)
  show ?thesis unfolding parseDecl_def fields prod.case Let_def
    by (intro decl_if) (simp_all add: decl_ok_def no_decl_def numeric_decl_def special [simplified])
qed


text \<open>The types of the classes, one by one; each leaves out what the class does not accept.\<close>

lemma widen_simps [simp]:
  "ch_typ (widen_note q ch why) = ch_typ ch" "ch_enc (widen_note q ch why) = ch_enc ch"
  "ch_typ (choice t e k) = t" "ch_enc (choice t e k) = e" "ch_typ (cast_choice t e k) = t" "ch_enc (cast_choice t e k) = e"
  by (simp_all add: widen_note_def choice_def cast_choice_def)

lemma int_carries:
  assumes "only_classes (column_stats env d vs) [IntClass]" "v \<in> set vs" "\<And>i. v = SInt i \<Longrightarrow> int_holds (ch_typ ch) i" "ch_enc ch = EncInt"
  shows "carried env d ch v"
  using only_cases [OF assms(1,2)] assms(3,4) by (auto simp: carried_defs)

lemma text_carries:
  assumes "only_classes (column_stats env d vs) [TextClass]" "v \<in> set vs" "\<And>x. v = SText x \<Longrightarrow> text_holds env d (ch_typ ch) x"
    and "ch_enc ch = EncText \<or> ch_enc ch = EncPass"
  shows "carried env d ch v"
  using only_cases [OF assms(1,2)] assms(3,4) by (auto simp: carried_defs)

lemma float_carries:
  assumes "only_classes (column_stats env d vs) [IntClass, RealClass]" "intInexact (column_stats env d vs) = 0" "v \<in> set vs"
    and "ch_enc ch = EncFloat" "ch_typ ch = ''double precision'' \<or> ch_typ ch = ''real'' \<and> f32Bad (column_stats env d vs) = 0"
  shows "carried env d ch v"
proof -
  have small: "\<bar>i\<bar> \<le> 2 ^ 53" if "v = SInt i" for i
    using assms(2,3) that unfolding stats_counts how_many_zero by (force simp: abs_le_iff)
  have exact: "f32Exact env (int_to_float i)" if "v = SInt i" "f32Bad (column_stats env d vs) = 0" for i
    using that assms(3) unfolding stats_counts how_many_zero by blast
  have real: "f32Exact env x" if "v = SReal x" "f32Bad (column_stats env d vs) = 0" for x
    using that assms(3) unfolding stats_counts how_many_zero by (cases "is_finite64 x") (auto simp: f32Exact_def)
  show ?thesis using only_cases [OF assms(1,3)] assms(4,5) small exact real int_to_float_exact by (auto simp: carried_defs)
qed

lemma decimal_carries:
  assumes "decimal_choice quoted def (column_stats env d vs) decimalsText = Some ch" "v \<in> set vs" "copyable v"
  shows "carried env d ch v"
proof (cases "v = SNil")
  case False
  let ?st = "column_stats env d vs"
  have only: "only_classes ?st [IntClass, RealClass, TextClass]" and cnt: "decOK ?st = st_ints ?st + st_reals ?st + st_texts ?st"
    using assms(1) by (auto simp: decimal_choice_def Let_def split: prod.splits if_splits)
  obtain t where t: "decimal_text_of env v = Some t" "reDec t"
    using decimal_all [OF only _ _ assms(2) False] cnt class_counts [of env d vs IntClass] class_counts [of env d vs RealClass] class_counts [of env d vs TextClass]
    by (auto simp: class_count_def)
  have "ch_typ ch = ''text'' \<and> ch_enc ch = EncText \<or> ch_enc ch = EncDecimal \<and> (ch_typ ch = ''numeric'' \<or>
      ch_typ ch = numeric_type (di_p d) (di_s d) \<and> decFit ?st = decOK ?st)"
    using assms(1) by (auto simp: decimal_choice_def Let_def split: prod.splits if_splits)
  then consider "ch_typ ch = ''text''" "ch_enc ch = EncText" | "ch_enc ch = EncDecimal" "ch_typ ch = ''numeric''"
    | "ch_enc ch = EncDecimal" "ch_typ ch = numeric_type (di_p d) (di_s d)" "decFit ?st = decOK ?st" by blast
  then show ?thesis
  proof cases
    case 1
    have "CHR 0x00 \<notin> set x" if "v = SText x" for x using t that reDec_no_nul by (simp add: decimal_text_of_def)
    moreover have "\<not> is_class BlobClass v" using only_cases [OF only assms(2)] by (auto simp: is_class_def)
    ultimately show ?thesis using carried_text [OF 1 assms(3)] by blast
  next
    case 2
    then show ?thesis using carried_decimal [OF 2(1) t(1)] t(2) by (simp add: numeric_holds_def)
  next
    case 3
    then show ?thesis using carried_decimal [OF 3(1) t(1)] t(2) decimal_fits [OF 3(3) assms(2) t] by (simp add: numeric_holds_def)
  qed
qed simp


lemma no_nul:
  assumes "textWithNUL (column_stats env d vs) = 0" "SText x \<in> set vs"
  shows "CHR 0x00 \<notin> set x"
  using assms(1) text_none [OF _ assms(2), of "\<lambda>x. CHR 0x00 \<in> set x"] by (simp add: stats_counts)

lemma text_holdsI:
  "storable_text x \<Longrightarrow> text_holds env d ''text'' x" "storable_text x \<Longrightarrow> int (length (runes x)) \<le> di_n d \<Longrightarrow> text_holds env d (''varchar('' @ show_int (di_n d) @ '')'') x"
  "date_ok env x \<Longrightarrow> text_holds env d ''date'' x" "ts_ok env x \<Longrightarrow> text_holds env d ''timestamp'' x" "pgtime_ok env x \<Longrightarrow> text_holds env d ''time'' x"
  "tstz_ok env x \<Longrightarrow> reTSTZUTC x \<Longrightarrow> text_holds env d ''timestamptz'' x" "reUUID x \<Longrightarrow> text_holds env d ''uuid'' x"
  "storable_text x \<Longrightarrow> json_Valid env x \<Longrightarrow> text_holds env d ''json'' x"
  "storable_text x \<Longrightarrow> json_Valid env x \<Longrightarrow> jsonbUnchanged x \<Longrightarrow> text_holds env d ''jsonb'' x"
  by (simp_all add: text_holds_def)

text \<open>A class whose texts are all of a canonical form.\<close>

lemma canonical_carries:
  assumes "only_classes (column_stats env d vs) [TextClass]" "how_many (text_with P) vs = st_texts (column_stats env d vs)" "v \<in> set vs"
    and "\<And>x. P x \<Longrightarrow> text_holds env d (ch_typ ch) x" "ch_enc ch = EncPass"
  shows "carried env d ch v"
proof (rule text_carries [OF assms(1,3)])
  fix x assume "v = SText x"
  then have "P x" using assms(3) text_all [OF assms(2) [unfolded texts_count], of x] by simp
  then show "text_holds env d (ch_typ ch) x" by (rule assms(4))
qed (simp add: assms(5))

text \<open>A class whose texts are carried as they are.\<close>

lemma plain_carries:
  assumes "only_classes (column_stats env d vs) [TextClass]" "textWithNUL (column_stats env d vs) = 0" "v \<in> set vs" "copyable v" "ch_enc ch = EncText"
    and "\<And>x. v = SText x \<Longrightarrow> storable_text x \<Longrightarrow> text_holds env d (ch_typ ch) x"
  shows "carried env d ch v"
proof (rule text_carries [OF assms(1,3)])
  fix x assume x: "v = SText x"
  then have "storable_text x" using assms(3,4) no_nul [OF assms(2)] by (simp add: storable_text_def copyable_def)
  then show "text_holds env d (ch_typ ch) x" by (rule assms(6) [OF x])
qed (simp add: assms(5))

lemma special_carries:
  fixes env vs d
  defines "st \<equiv> column_stats env d vs"
  assumes "only_classes st [TextClass]" "textWithNUL st = 0" "(if di_special d = ''uuid'' then uuidOK st else jsonOK st) = st_texts st"
    and "di_special d \<in> {''json'', ''jsonb'', ''uuid''}" "v \<in> set vs" "copyable v" "ch_enc ch = EncPass"
    and "ch_typ ch = (if di_special d = ''jsonb'' \<and> jsonbOK st \<noteq> st_texts st then ''json'' else di_special d)"
  shows "carried env d ch v"
proof (rule text_carries)
  fix x assume x: "v = SText x"
  then have mem: "SText x \<in> set vs" using assms(6) by simp
  have store: "storable_text x" using assms(7) no_nul [OF _ mem] assms(3) x by (simp add: storable_text_def copyable_def st_def)
  have json: "json_Valid env x" if "di_special d \<noteq> ''uuid''"
    using that assms(4) text_all [OF _ mem, of "json_Valid env"] by (simp add: st_def stats_counts texts_count)
  have jsonb: "jsonbUnchanged x" if "jsonbOK st = st_texts st"
    using that text_all [OF _ mem, of "\<lambda>x. json_Valid env x \<and> jsonbUnchanged x"] by (simp add: st_def stats_counts texts_count)
  have uuid: "reUUID x" if "di_special d = ''uuid''"
    using that assms(4) text_all [OF _ mem, of reUUID] by (simp add: st_def stats_counts texts_count)
  consider "ch_typ ch = ''uuid''" "di_special d = ''uuid''" | "ch_typ ch = ''json''" "di_special d \<noteq> ''uuid''"
    | "ch_typ ch = ''jsonb''" "di_special d \<noteq> ''uuid''" "jsonbOK st = st_texts st" using assms(5,9) by (auto split: if_splits)
  then show "text_holds env d (ch_typ ch) x" using store json jsonb uuid text_holdsI by cases simp_all
qed (use assms in \<open>simp_all add: st_def\<close>)

lemma declared_carries:
  assumes "declared_choice quoted def (column_stats env d vs) decimalsText = Some ch" "decl_ok d" "v \<in> set vs" "copyable v"
  shows "carried env d ch v"
proof (cases "di_class d")
  case declInt
  let ?st = "column_stats env d vs"
  have only: "only_classes ?st [IntClass]" and enc: "ch_enc ch = EncInt"
    using assms(1) declInt by (auto simp: declared_choice_def Let_def split: if_splits)
  show ?thesis
  proof (rule int_carries [OF only assms(3) _ enc])
    fix i assume "v = SInt i"
    then have "minInt ?st \<le> i \<and> i \<le> maxInt ?st" "- (2 ^ 63) \<le> i \<and> i < 2 ^ 63" using int_bounds assms(3,4) by (auto simp: copyable_def)
    then show "int_holds (ch_typ ch) i"
      using assms(1,2) declInt by (auto simp: declared_choice_def decl_ok_def int_holds_def int_type_def split: if_splits)
  qed
next
  case declFloat
  then show ?thesis using assms(1,3) by (auto simp: declared_choice_def split: if_splits intro!: float_carries)
next
  case declDecimal
  then show ?thesis using assms by (auto simp: declared_choice_def intro: decimal_carries)
next
  case declBareNumeric
  then show ?thesis using assms by (auto simp: declared_choice_def intro: decimal_carries)
next
  case declBool
  let ?st = "column_stats env d vs"
  have only: "only_classes ?st [IntClass]" and b: "nonBool ?st = 0" and ch: "ch = choice ''boolean'' EncBool KindBool"
    using assms(1) declBool by (auto simp: declared_choice_def split: if_splits)
  have "i = 0 \<or> i = 1" if "v = SInt i" for i using b that assms(3) unfolding stats_counts how_many_zero by blast
  then show ?thesis using only_cases [OF only assms(3)] by (auto simp: ch carried_defs)
next
  case declSpecial
  then show ?thesis using assms
    by (intro special_carries [of env d vs]) (auto simp: declared_choice_def decl_ok_def split: if_splits)
next
  case declBlob
  then show ?thesis using assms(1) by (auto simp: declared_choice_def split: if_splits intro!: carried_bytes)
next
  case declDate
  then show ?thesis using assms(1,3)
    by (intro canonical_carries [where P = "date_ok env"]) (auto simp: declared_choice_def stats_counts text_holdsI split: if_splits)
next
  case declTimestamp
  then show ?thesis using assms(1,3)
    by (intro canonical_carries [where P = "ts_ok env"]) (auto simp: declared_choice_def stats_counts text_holdsI split: if_splits)
next
  case declTime
  then show ?thesis using assms(1,3)
    by (intro canonical_carries [where P = "pgtime_ok env"]) (auto simp: declared_choice_def stats_counts text_holdsI split: if_splits)
next
  case declTimestampTZ
  let ?st = "column_stats env d vs"
  consider "only_classes ?st [TextClass]" "tstzOK ?st = st_texts ?st" "ch = cast_choice ''timestamptz'' EncPass KindTimestampTZ"
    | "only_classes ?st [TextClass]" "textWithNUL ?st = 0" "ch_typ ch = ''text''" "ch_enc ch = EncText"
    using assms(1) declTimestampTZ by (auto simp: declared_choice_def split: if_splits)
  then show ?thesis
  proof cases
    case 1
    then show ?thesis using assms(3)
      by (intro canonical_carries [where P = "\<lambda>x. tstz_ok env x \<and> reTSTZUTC x"]) (auto simp: stats_counts text_holdsI)
  next
    case 2
    then show ?thesis using assms(3,4) by (intro plain_carries) (simp_all add: text_holdsI)
  qed
next
  case declChar
  let ?st = "column_stats env d vs"
  have only: "only_classes ?st [TextClass]" "textWithNUL ?st = 0" and enc: "ch_enc ch = EncText"
    and held: "ch_typ ch = ''text'' \<or> ch_typ ch = ''varchar('' @ show_int (di_n d) @ '')'' \<and> maxLen ?st \<le> di_n d"
    using assms(1) declChar by (auto simp: declared_choice_def split: if_splits)
  show ?thesis
  proof (rule plain_carries [OF only assms(3,4) enc])
    fix x assume "v = SText x" "storable_text x"
    then show "text_holds env d (ch_typ ch) x" using held text_lengths [of x vs env d] assms(3) text_holdsI(1,2) by fastforce
  qed
next
  case declText
  then show ?thesis using assms(1,3,4) by (intro plain_carries) (auto simp: declared_choice_def text_holdsI split: if_splits)
next
  case declNone
  then show ?thesis using assms(1) by (simp add: declared_choice_def)
next
  case declUnknown
  then show ?thesis using assms(1) by (simp add: declared_choice_def)
qed


section \<open>The chosen type\<close>

lemma chosen_inferred:
  assumes "declared_choice quoted def st decimalsText = None"
  shows "ch_typ (chooseSQLiteToPG quoted def st decimalsText) = ch_typ (inferFromValues st)"
    "ch_enc (chooseSQLiteToPG quoted def st decimalsText) = ch_enc (inferFromValues st)"
  using assms by (auto simp: chooseSQLiteToPG_def Let_def split: decl_class.splits)


definition plain_env :: copy_env where
  "plain_env = \<lparr>parses = (\<lambda>layout t. True), json_Valid = (\<lambda>t. False), FormatFloat_f = (\<lambda>x. ''0.5''), FormatFloat_g = (\<lambda>x. ''0.5''),
     FormatFloat_g32 = (\<lambda>x. ''0.5''), to_float32 = (\<lambda>x. x), fold_equal = (\<lambda>a b. ToUpper a = b)\<rparr>"


text \<open>
  A text that is not UTF-8 does not reach the condition on NUL bytes: its column is still given
  the type text, which refuses it.
\<close>

lemma invalid_text_chosen:
  assumes "di_class d = declText"
  shows "ch_typ (chooseSQLiteToPG quoted def (column_stats env d [SText [CHR 0xFF]]) decimalsText) = ''text''"
    "\<not> carried env d (chooseSQLiteToPG quoted def (column_stats env d [SText [CHR 0xFF]]) decimalsText) (SText [CHR 0xFF])"
proof -
  let ?st = "column_stats env d [SText [CHR 0xFF]]"
  have "only_classes ?st [TextClass]" "textWithNUL ?st = 0" "st_decl ?st = d"
    by (simp_all add: column_stats_def newStats_def add_value_def only_classes_def class_count_def)
  then have ch: "chooseSQLiteToPG quoted def ?st decimalsText = choice ''text'' EncText KindText"
    using assms by (simp add: chooseSQLiteToPG_def declared_choice_def)
  have "\<not> ValidString [CHR 0xFF]" by code_simp
  then show "ch_typ (chooseSQLiteToPG quoted def ?st decimalsText) = ''text''" "\<not> carried env d (chooseSQLiteToPG quoted def ?st decimalsText) (SText [CHR 0xFF])"
    by (simp_all add: ch choice_def carried_def encode_def encText_def pg_holds_def text_holds_def storable_text_def numeric_holds_def numeric_type_def)
qed

end
