(* ===== verification/Script_Types.thy ===== *)
theory Script_Types
  imports Copy_Types
begin

text \<open>
  The column types of the SQL-script export (\<open>src/pkg/dbcopy/faithful/dialect.go\<close>, \<open>script_stats.go\<close>,
  \<open>mysql_types.go\<close>, \<open>mssql_types.go\<close>, \<open>oracle_types.go\<close>): what the pre-scan of a column learns, and the
  type each of the three dialects chooses for it.  The text SQLite makes of a REAL is a parameter.
\<close>


section \<open>Statistics of a script column\<close>

record scriptStats =
  cs :: colStats
  MaxBytes :: int
  MaxU16 :: int
  MaxBlob :: int
  BadUTF8 :: int
  NonFinite :: int
  Denormal :: int
  LowYear :: int
  GregorianGap :: int
  GapExample :: string
  MaxFsp :: int
  MaxIntDigits :: int
  MaxFracDigits :: int
  st_Empty :: int
  EmptyBlobs :: int
  RealExample :: string
  textNonCanon :: int
  nonCanonExample :: string
  canonFrac :: "(int \<times> int) list"
  canonFracExample :: "(int \<times> string) list"
  trimmed :: int
  trimmedExample :: string

record script_env =
  base_env :: copy_env
  real_text :: "float64 \<Rightarrow> string"
  FormatFloat_e :: "float64 \<Rightarrow> string"

definition newScriptStats :: "decl_info \<Rightarrow> scriptStats" where
  "newScriptStats d = \<lparr>cs = newStats d, MaxBytes = 0, MaxU16 = 0, MaxBlob = 0, BadUTF8 = 0, NonFinite = 0, Denormal = 0, LowYear = 0,
     GregorianGap = 0, GapExample = [], MaxFsp = 0, MaxIntDigits = 0, MaxFracDigits = 0, st_Empty = 0, EmptyBlobs = 0, RealExample = [],
     textNonCanon = 0, nonCanonExample = [], canonFrac = [], canonFracExample = [], trimmed = 0, trimmedExample = []\<rparr>"

definition stat_digits :: "string \<Rightarrow> scriptStats \<Rightarrow> scriptStats" where
  "stat_digits t s = s\<lparr>MaxIntDigits := max (MaxIntDigits s) (int (length (TrimLeft (CHR ''0'') (int_part t)))),
     MaxFracDigits := max (MaxFracDigits s) (int (length (frac_part t)))\<rparr>"

text \<open>The length of a text in UTF-16 code units.\<close>

definition utf16Len :: "string \<Rightarrow> int" where
  "utf16Len x = sum_list (map (\<lambda>r. if r > 0xFFFF then 2 else 1) (runes x))"

definition textLength :: "string \<Rightarrow> scriptStats \<Rightarrow> scriptStats" where
  "textLength t s = s\<lparr>cs := (cs s)\<lparr>maxLen := max (maxLen (cs s)) (int (length (runes t)))\<rparr>,
     MaxBytes := max (MaxBytes s) (int (length t)), MaxU16 := max (MaxU16 s) (utf16Len t)\<rparr>"

definition in_gap :: "string \<Rightarrow> bool" where
  "in_gap x \<longleftrightarrow> length x \<ge> 10 \<and> ''1582-10-05'' \<le> take 10 x \<and> take 10 x \<le> ''1582-10-14'' \<and> take 7 x = ''1582-10''"

definition stat_gap :: "string \<Rightarrow> scriptStats \<Rightarrow> scriptStats" where
  "stat_gap x s = (if in_gap x then s\<lparr>GapExample := (if GregorianGap s = 0 then x else GapExample s), GregorianGap := GregorianGap s + 1\<rparr> else s)"

text \<open>How many characters follow the first point.\<close>

definition decimals_of :: "string \<Rightarrow> int" where
  "decimals_of x = int (length (tl (dropWhile (\<lambda>c. c \<noteq> CHR ''.'') x)))"

definition stat_fsp :: "string \<Rightarrow> scriptStats \<Rightarrow> scriptStats" where
  "stat_fsp x s = (if has_point x then s\<lparr>MaxFsp := max (MaxFsp s) (decimals_of x)\<rparr> else s)"

definition before_1000 :: "string \<Rightarrow> bool" where "before_1000 x \<longleftrightarrow> x < ''1000''"

definition low_year :: "string \<Rightarrow> scriptStats \<Rightarrow> scriptStats" where
  "low_year x s = (if before_1000 x then s\<lparr>LowYear := LowYear s + 1\<rparr> else s)"

definition trimmedDecimalText :: "string \<Rightarrow> string" where
  "trimmedDecimalText x =
     (let c = canonicalDecimalText x in if has_point c then TrimRight (CHR ''.'') (TrimRight (CHR ''0'') c) else c)"

definition stat_spelling :: "string \<Rightarrow> scriptStats \<Rightarrow> scriptStats" where
  "stat_spelling x s =
     (let t = trimmedDecimalText x; canon = canonicalDecimalText x;
          s = (if t \<noteq> x then s\<lparr>trimmed := trimmed s + 1, trimmedExample := (if trimmedExample s = [] then x @ '' -> '' @ t else trimmedExample s)\<rparr> else s)
      in if canon \<noteq> x
         then s\<lparr>textNonCanon := textNonCanon s + 1, nonCanonExample := (if nonCanonExample s = [] then x @ '' -> '' @ canon else nonCanonExample s)\<rparr>
         else
           (let n = decimals_of x;
                seen = (case map_of (canonFrac s) n of None \<Rightarrow> 0 | Some k \<Rightarrow> k)
            in s\<lparr>canonFrac := AList.update n (seen + 1) (canonFrac s),
                 canonFracExample := (if map_of (canonFracExample s) n = None then AList.update n x (canonFracExample s) else canonFracExample s)\<rparr>))"

definition script_int :: "int \<Rightarrow> scriptStats \<Rightarrow> scriptStats" where
  "script_int x s = textLength (show_int x) (stat_digits (show_int x) s)"

definition script_real :: "script_env \<Rightarrow> float64 \<Rightarrow> scriptStats \<Rightarrow> scriptStats" where
  "script_real env x s =
     (if \<not> is_finite64 x then s\<lparr>NonFinite := NonFinite s + 1\<rparr>
      else
        (let s = (if mag_bits x \<noteq> 0 \<and> mag_bits x < 2 ^ 52 then s\<lparr>Denormal := Denormal s + 1\<rparr> else s);
             t = FormatFloat_f (base_env env) x;
             s = stat_digits t s
         in s\<lparr>RealExample := (if RealExample s = [] then t else RealExample s)\<rparr>))"

definition script_text :: "string \<Rightarrow> scriptStats \<Rightarrow> scriptStats" where
  "script_text x s =
     (let s = s\<lparr>MaxBytes := max (MaxBytes s) (int (length x)), MaxU16 := max (MaxU16 s) (utf16Len x)\<rparr>;
          s = (if x = [] then s\<lparr>st_Empty := st_Empty s + 1\<rparr> else s);
          s = (if \<not> ValidString x then s\<lparr>BadUTF8 := BadUTF8 s + 1\<rparr> else s);
          s = (if reDate x then stat_gap x (low_year x s)
               else if reTS x then stat_fsp x (stat_gap x (low_year x s))
               else if reTime x then stat_fsp x s else s)
      in if reDec x then stat_spelling x (stat_digits x s) else s)"

definition script_add :: "script_env \<Rightarrow> sqlite_value \<Rightarrow> scriptStats \<Rightarrow> scriptStats" where
  "script_add env v s =
     (let s = s\<lparr>cs := add_value (base_env env) v (cs s)\<rparr> in
      case v of
        SNil \<Rightarrow> s
      | SInt x \<Rightarrow> script_int x s
      | SReal x \<Rightarrow> script_real env x s
      | SBlob x \<Rightarrow> (let s = s\<lparr>MaxBlob := max (MaxBlob s) (int (length x))\<rparr> in if x = [] then s\<lparr>EmptyBlobs := EmptyBlobs s + 1\<rparr> else s)
      | SText x \<Rightarrow> script_text x s)"

text \<open>One row of the scan: the value, and the text SQLite makes of a REAL.\<close>

definition scan_value :: "script_env \<Rightarrow> scriptStats \<Rightarrow> sqlite_value \<Rightarrow> scriptStats" where
  "scan_value env s v = (let s = script_add env v s in case v of SReal x \<Rightarrow> textLength (real_text env x) s | _ \<Rightarrow> s)"

definition script_stats :: "script_env \<Rightarrow> decl_info \<Rightarrow> sqlite_value list \<Rightarrow> scriptStats" where
  "script_stats env d vs = foldl (scan_value env) (newScriptStats d) vs"


section \<open>Choices\<close>

record ColumnUse =
  u_PK :: bool
  u_Unique :: bool
  u_Index :: bool
  u_FK :: bool

definition Keyed :: "ColumnUse \<Rightarrow> bool" where "Keyed u \<longleftrightarrow> u_PK u \<or> u_Unique u \<or> u_Index u \<or> u_FK u"

datatype family = IntFamily | BoolFamily | FloatFamily | DecimalFamily | DateFamily | DatetimeFamily | TimeFamily | TextFamily | BytesFamily

record script_choice =
  c_Kind :: kind
  Family :: family
  c_Type :: string
  Bits :: int
  Len :: int
  Prec :: int
  Scale :: int
  Fsp :: int
  c_Note :: string
  Normalized :: int
  c_Example :: string
  Bounded :: bool
  Tight :: int
  MaxSize :: int

definition new_choice :: "kind \<Rightarrow> family \<Rightarrow> script_choice" where
  "new_choice k f = \<lparr>c_Kind = k, Family = f, c_Type = [], Bits = 0, Len = 0, Prec = 0, Scale = 0, Fsp = 0, c_Note = [], Normalized = 0,
     c_Example = [], Bounded = False, Tight = 0, MaxSize = 0\<rparr>"

text \<open>The width in bits of a declared integer of so many bytes.\<close>

definition declared_bits :: "nat \<Rightarrow> int" where
  "declared_bits width = (if width = 2 then 16 else if width = 4 then 32 else if width = 8 then 64 else 0)"

definition int_overflows :: "colStats \<Rightarrow> bool" where
  "int_overflows st \<longleftrightarrow> di_width (st_decl st) = 2 \<and> (minInt st < - (2 ^ 15) \<or> maxInt st > 2 ^ 15 - 1) \<or>
     di_width (st_decl st) = 4 \<and> (minInt st < - (2 ^ 31) \<or> maxInt st > 2 ^ 31 - 1)"

definition texty :: "scriptStats \<Rightarrow> bool" where
  "texty s \<longleftrightarrow> only_classes (cs s) [TextClass] \<and> textWithNUL (cs s) = 0 \<and> BadUTF8 s = 0"

definition all_decimals :: "scriptStats \<Rightarrow> bool" where
  "all_decimals s \<longleftrightarrow> only_classes (cs s) [IntClass, RealClass, TextClass] \<and> decOK (cs s) = st_ints (cs s) + st_reals (cs s) + st_texts (cs s) \<and> NonFinite s = 0"

definition script_widen :: "string \<Rightarrow> script_choice \<Rightarrow> string \<Rightarrow> script_choice" where
  "script_widen quoted ch why = ch\<lparr>c_Note := ''declared '' @ quoted @ '' but '' @ why @ '': carried as '' @ c_Type ch\<rparr>"

text \<open>The decimal texts that a DECIMAL of the given scale writes differently.\<close>

definition bareSpellings :: "scriptStats \<Rightarrow> int \<Rightarrow> int \<times> string" where
  "bareSpellings s scale =
     (let fracs = sort (filter (\<lambda>f. f < scale) (map fst (canonFrac s))) in
      foldl (\<lambda>(n, ex) f. (n + the (map_of (canonFrac s) f), if ex = [] then the (map_of (canonFracExample s) f) else ex))
        (textNonCanon s, nonCanonExample s) fracs)"

text \<open>The note of a type that was inferred from the values, before what the dialect adds.\<close>

definition inferred_note :: "string \<Rightarrow> string \<Rightarrow> colStats \<Rightarrow> string \<Rightarrow> string" where
  "inferred_note engine quoted st typ =
     (case di_class (st_decl st) of
        declNone \<Rightarrow> if \<not> allNull st then ''has no declared type: carried as '' @ typ @ '' from its values'' else []
      | declUnknown \<Rightarrow> ''declared '' @ quoted @ '', which has no '' @ engine @ '' equivalent: carried as '' @ typ
      | _ \<Rightarrow> ''declared '' @ quoted @ '' but its values are not all of that type: carried as '' @ typ)"


section \<open>MySQL\<close>

definition mysqlIntType :: "int \<Rightarrow> string" where
  "mysqlIntType bits = (if bits = 16 then ''SMALLINT'' else if bits = 32 then ''INT'' else ''BIGINT'')"

definition fspSuffix :: "int \<Rightarrow> string" where
  "fspSuffix fsp = (if fsp \<le> 0 then [] else ''('' @ show_int fsp @ '')'')"

definition textType :: "int \<Rightarrow> int \<Rightarrow> string" where
  "textType len maxBytes =
     (if len > 0 then ''VARCHAR('' @ show_int len @ '')'' else if maxBytes \<le> 65535 then ''TEXT'' else if maxBytes \<le> 16777215 then ''MEDIUMTEXT'' else ''LONGTEXT'')"

definition bytesType :: "int \<Rightarrow> int \<Rightarrow> string" where
  "bytesType len maxBytes =
     (if len > 0 then ''VARBINARY('' @ show_int len @ '')'' else if maxBytes \<le> 65535 then ''BLOB'' else if maxBytes \<le> 16777215 then ''MEDIUMBLOB'' else ''LONGBLOB'')"

definition mysql_render :: "script_choice \<Rightarrow> script_choice" where
  "mysql_render ch = ch\<lparr>c_Type :=
     (case Family ch of
        IntFamily \<Rightarrow> mysqlIntType (Bits ch)
      | BoolFamily \<Rightarrow> ''TINYINT(1)''
      | FloatFamily \<Rightarrow> ''DOUBLE''
      | DecimalFamily \<Rightarrow> ''DECIMAL('' @ show_int (Prec ch) @ '','' @ show_int (Scale ch) @ '')''
      | DateFamily \<Rightarrow> ''DATE''
      | DatetimeFamily \<Rightarrow> ''DATETIME'' @ fspSuffix (Fsp ch)
      | TimeFamily \<Rightarrow> ''TIME'' @ fspSuffix (Fsp ch)
      | TextFamily \<Rightarrow> textType (Len ch) (MaxSize ch)
      | BytesFamily \<Rightarrow> bytesType (Len ch) (MaxSize ch))\<rparr>"

definition intChoice :: "int \<Rightarrow> script_choice" where
  "intChoice bits = mysql_render ((new_choice KindInt IntFamily)\<lparr>Bits := bits\<rparr>)"

definition floatChoice :: script_choice where "floatChoice = mysql_render (new_choice KindFloat FloatFamily)"

definition decimalChoice :: "int \<Rightarrow> int \<Rightarrow> script_choice" where
  "decimalChoice p s = mysql_render ((new_choice KindDecimal DecimalFamily)\<lparr>Prec := p, Scale := s\<rparr>)"

definition textChoice :: "scriptStats \<Rightarrow> int \<Rightarrow> bool \<Rightarrow> script_choice" where
  "textChoice st declLen keyed =
     (let c = (new_choice KindText TextFamily)\<lparr>MaxSize := MaxBytes st, Tight := max (maxLen (cs st)) 1\<rparr>;
          c = (if keyed then c\<lparr>Len := max (max declLen (maxLen (cs st))) 1, Bounded := (declLen = 0)\<rparr>
               else if declLen > 0 \<and> declLen \<le> 16383 then c\<lparr>Len := declLen\<rparr> else c)
      in mysql_render c)"

definition bytesChoice :: "scriptStats \<Rightarrow> bool \<Rightarrow> script_choice" where
  "bytesChoice st keyed =
     (let sz = max (MaxBlob st) (MaxBytes st);
          c = (new_choice KindBytes BytesFamily)\<lparr>MaxSize := sz, Tight := max sz 1\<rparr>;
          c = (if keyed then c\<lparr>Len := max sz 1, Bounded := True\<rparr> else c)
      in mysql_render c)"

definition dateChoice :: "scriptStats \<Rightarrow> family \<Rightarrow> kind \<Rightarrow> script_choice" where
  "dateChoice st f k = mysql_render ((new_choice k f)\<lparr>Fsp := (if f = DateFamily then 0 else min (MaxFsp st) 6)\<rparr>)"

definition computedDecimal :: "scriptStats \<Rightarrow> script_choice option" where
  "computedDecimal st =
     (let s = MaxFracDigits st; p = max (MaxIntDigits st + s) 1 in if p > 65 \<or> s > 30 then None else Some (decimalChoice p s))"

definition mysql_infer :: "scriptStats \<Rightarrow> bool \<Rightarrow> script_choice" where
  "mysql_infer st keyed =
     (if st_blobs (cs st) > 0 \<or> textWithNUL (cs st) > 0 \<or> BadUTF8 st > 0 then bytesChoice st keyed
      else if only_classes (cs st) [IntClass] \<and> \<not> allNull (cs st) then intChoice 64
      else if only_classes (cs st) [IntClass, RealClass] \<and> \<not> allNull (cs st) \<and> decOK (cs st) = st_ints (cs st) + st_reals (cs st) \<and> NonFinite st = 0 \<and>
          computedDecimal st \<noteq> None then the (computedDecimal st)
      else textChoice st 0 keyed)"

definition mysql_decimal :: "string \<Rightarrow> string \<Rightarrow> scriptStats \<Rightarrow> script_choice option" where
  "mysql_decimal quoted def st =
     (let ds = st_decl (cs st) in
      if \<not> all_decimals st then None
      else if di_class ds = declDecimal \<and> di_p ds \<le> 65 \<and> di_s ds \<le> 30 \<and> di_s ds \<le> di_p ds \<and> decFit (cs st) = decOK (cs st) \<and> defaultFitsDecimal def ds
      then Some ((decimalChoice (di_p ds) (di_s ds))\<lparr>Normalized := fst (spellings (cs st)), c_Example := snd (spellings (cs st))\<rparr>)
      else map_option (\<lambda>ch.
          let ch = ch\<lparr>Normalized := fst (bareSpellings st (Scale ch)), c_Example := snd (bareSpellings st (Scale ch))\<rparr>
          in if di_class ds = declDecimal then script_widen quoted ch ''some values do not fit that precision and scale exactly, or its default does not'' else ch)
        (computedDecimal st))"

definition mysql_declared :: "string \<Rightarrow> string \<Rightarrow> scriptStats \<Rightarrow> bool \<Rightarrow> script_choice option" where
  "mysql_declared quoted def st keyed =
     (let ds = st_decl (cs st) in
      case di_class ds of
        declInt \<Rightarrow>
          (if only_classes (cs st) [IntClass] then
             Some (if int_overflows (cs st) then script_widen quoted (intChoice 64) (''its values do not fit '' @ mysqlIntType (declared_bits (di_width ds)))
               else intChoice (declared_bits (di_width ds)))
           else None)
      | declFloat \<Rightarrow> if only_classes (cs st) [IntClass, RealClass] \<and> intInexact (cs st) = 0 \<and> NonFinite st = 0 then Some floatChoice else None
      | declDecimal \<Rightarrow> mysql_decimal quoted def st
      | declBareNumeric \<Rightarrow> mysql_decimal quoted def st
      | declBool \<Rightarrow> if only_classes (cs st) [IntClass] \<and> nonBool (cs st) = 0 then Some (mysql_render (new_choice KindBool BoolFamily)) else None
      | declDate \<Rightarrow> if only_classes (cs st) [TextClass] \<and> dateOK (cs st) = st_texts (cs st) \<and> LowYear st = 0 then Some (dateChoice st DateFamily KindDate) else None
      | declTimestamp \<Rightarrow>
          if only_classes (cs st) [TextClass] \<and> tsOK (cs st) = st_texts (cs st) \<and> LowYear st = 0 then Some (dateChoice st DatetimeFamily KindTimestamp) else None
      | declTime \<Rightarrow> if only_classes (cs st) [TextClass] \<and> timeOK (cs st) = st_texts (cs st) then Some (dateChoice st TimeFamily KindTime) else None
      | declTimestampTZ \<Rightarrow> if texty st then Some (script_widen quoted (textChoice st 0 keyed) ''MySQL has no such type'') else None
      | declSpecial \<Rightarrow> if texty st then Some (script_widen quoted (textChoice st 0 keyed) ''MySQL has no such type'') else None
      | declChar \<Rightarrow>
          (if texty st then
             Some (if maxLen (cs st) \<le> di_n ds then textChoice st (di_n ds) keyed
               else script_widen quoted (textChoice st 0 keyed) ''some values are longer than that'')
           else None)
      | declText \<Rightarrow> if texty st then Some (textChoice st 0 keyed) else None
      | declBlob \<Rightarrow> if only_classes (cs st) [BlobClass] then Some (bytesChoice st keyed) else None
      | _ \<Rightarrow> None)"

definition mysql_Choose :: "string \<Rightarrow> string \<Rightarrow> scriptStats \<Rightarrow> ColumnUse \<Rightarrow> script_choice" where
  "mysql_Choose quoted def st use =
     (case mysql_declared quoted def st (Keyed use) of
        Some ch \<Rightarrow> ch
      | None \<Rightarrow>
          (let ch = mysql_infer st (Keyed use) in
           ch\<lparr>c_Note := inferred_note ''MySQL'' quoted (cs st) (c_Type ch) @
             (if textWithNUL (cs st) > 0 then ''; a text with a NUL byte is carried as bytes, and a copy back returns BLOBs''
              else if BadUTF8 st > 0 then ''; a text that is not valid UTF-8 cannot be stored in a utf8mb4 column and is carried as bytes''
              else if NonFinite st > 0 then ''; MySQL has no infinity'' else [])\<rparr>))"


section \<open>SQL Server\<close>

definition mssqlIntType :: "int \<Rightarrow> string" where
  "mssqlIntType bits = (if bits = 16 then ''SMALLINT'' else if bits = 32 then ''INT'' else ''BIGINT'')"

definition mssqlRender :: "script_choice \<Rightarrow> script_choice" where
  "mssqlRender ch = ch\<lparr>c_Type :=
     (case Family ch of
        IntFamily \<Rightarrow> mssqlIntType (Bits ch)
      | BoolFamily \<Rightarrow> ''BIT''
      | FloatFamily \<Rightarrow> ''FLOAT(53)''
      | DecimalFamily \<Rightarrow> ''DECIMAL('' @ show_int (Prec ch) @ '','' @ show_int (Scale ch) @ '')''
      | DateFamily \<Rightarrow> ''DATE''
      | DatetimeFamily \<Rightarrow> ''DATETIME2('' @ show_int (Fsp ch) @ '')''
      | TimeFamily \<Rightarrow> ''TIME('' @ show_int (Fsp ch) @ '')''
      | TextFamily \<Rightarrow> if Len ch > 0 \<and> Len ch \<le> 4000 then ''NVARCHAR('' @ show_int (Len ch) @ '')'' else ''NVARCHAR(MAX)''
      | BytesFamily \<Rightarrow> if Len ch > 0 \<and> Len ch \<le> 8000 then ''VARBINARY('' @ show_int (Len ch) @ '')'' else ''VARBINARY(MAX)'')\<rparr>"

definition mssqlInt :: "int \<Rightarrow> script_choice" where
  "mssqlInt bits = mssqlRender ((new_choice KindInt IntFamily)\<lparr>Bits := bits\<rparr>)"

definition mssqlFloat :: script_choice where "mssqlFloat = mssqlRender (new_choice KindFloat FloatFamily)"

definition mssqlDecimal :: "int \<Rightarrow> int \<Rightarrow> script_choice" where
  "mssqlDecimal p s = mssqlRender ((new_choice KindDecimal DecimalFamily)\<lparr>Prec := p, Scale := s\<rparr>)"

definition mssqlText :: "scriptStats \<Rightarrow> int \<Rightarrow> bool \<Rightarrow> script_choice" where
  "mssqlText st declLen keyed =
     (let c = (new_choice KindText TextFamily)\<lparr>MaxSize := MaxBytes st, Tight := max (MaxU16 st) 1\<rparr>;
          c = (if keyed then c\<lparr>Len := max (max declLen (MaxU16 st)) 1, Bounded := (declLen = 0)\<rparr>
               else if declLen > 0 \<and> declLen \<le> 4000 then c\<lparr>Len := declLen\<rparr> else c)
      in mssqlRender c)"

definition mssqlBytes :: "scriptStats \<Rightarrow> bool \<Rightarrow> script_choice" where
  "mssqlBytes st keyed =
     (let sz = max (MaxBlob st) (MaxBytes st);
          c = (new_choice KindBytes BytesFamily)\<lparr>MaxSize := sz, Tight := max sz 1\<rparr>;
          c = (if keyed then c\<lparr>Len := max sz 1, Bounded := True\<rparr> else c)
      in mssqlRender c)"

definition mssqlDate :: "scriptStats \<Rightarrow> family \<Rightarrow> kind \<Rightarrow> script_choice" where
  "mssqlDate st f k = mssqlRender ((new_choice k f)\<lparr>Fsp := (if f = DateFamily then 0 else min (MaxFsp st) 7)\<rparr>)"

definition mssqlComputedDecimal :: "scriptStats \<Rightarrow> script_choice option" where
  "mssqlComputedDecimal st =
     (let s = MaxFracDigits st; p = max (MaxIntDigits st + s) 1 in if p > 38 then None else Some (mssqlDecimal p s))"

definition mssql_infer :: "scriptStats \<Rightarrow> bool \<Rightarrow> script_choice" where
  "mssql_infer st keyed =
     (if st_blobs (cs st) > 0 \<or> textWithNUL (cs st) > 0 \<or> BadUTF8 st > 0 then mssqlBytes st keyed
      else if only_classes (cs st) [IntClass] \<and> \<not> allNull (cs st) then mssqlInt 64
      else if only_classes (cs st) [IntClass, RealClass] \<and> \<not> allNull (cs st) \<and> decOK (cs st) = st_ints (cs st) + st_reals (cs st) \<and> NonFinite st = 0 \<and>
          mssqlComputedDecimal st \<noteq> None then the (mssqlComputedDecimal st)
      else mssqlText st 0 keyed)"

definition mssql_decimal :: "string \<Rightarrow> string \<Rightarrow> scriptStats \<Rightarrow> script_choice option" where
  "mssql_decimal quoted def st =
     (let ds = st_decl (cs st) in
      if \<not> all_decimals st then None
      else if di_class ds = declDecimal \<and> di_p ds \<le> 38 \<and> di_s ds \<le> di_p ds \<and> decFit (cs st) = decOK (cs st) \<and> defaultFitsDecimal def ds
      then Some ((mssqlDecimal (di_p ds) (di_s ds))\<lparr>Normalized := fst (spellings (cs st)), c_Example := snd (spellings (cs st))\<rparr>)
      else map_option (\<lambda>ch.
          let ch = ch\<lparr>Normalized := fst (bareSpellings st (Scale ch)), c_Example := snd (bareSpellings st (Scale ch))\<rparr>
          in if di_class ds = declDecimal then script_widen quoted ch ''some values do not fit that precision and scale exactly, or its default does not'' else ch)
        (mssqlComputedDecimal st))"

definition mssql_declared :: "string \<Rightarrow> string \<Rightarrow> scriptStats \<Rightarrow> bool \<Rightarrow> script_choice option" where
  "mssql_declared quoted def st keyed =
     (let ds = st_decl (cs st) in
      case di_class ds of
        declInt \<Rightarrow>
          (if only_classes (cs st) [IntClass] then
             Some (if int_overflows (cs st) then script_widen quoted (mssqlInt 64) (''its values do not fit '' @ mssqlIntType (declared_bits (di_width ds)))
               else mssqlInt (declared_bits (di_width ds)))
           else None)
      | declFloat \<Rightarrow>
          if only_classes (cs st) [IntClass, RealClass] \<and> intInexact (cs st) = 0 \<and> NonFinite st = 0 \<and> Denormal st = 0 then Some mssqlFloat else None
      | declDecimal \<Rightarrow> mssql_decimal quoted def st
      | declBareNumeric \<Rightarrow> mssql_decimal quoted def st
      | declBool \<Rightarrow> if only_classes (cs st) [IntClass] \<and> nonBool (cs st) = 0 then Some (mssqlRender (new_choice KindBool BoolFamily)) else None
      | declDate \<Rightarrow> if only_classes (cs st) [TextClass] \<and> dateOK (cs st) = st_texts (cs st) then Some (mssqlDate st DateFamily KindDate) else None
      | declTimestamp \<Rightarrow>
          if only_classes (cs st) [TextClass] \<and> tsOK (cs st) = st_texts (cs st) then Some (mssqlDate st DatetimeFamily KindTimestamp) else None
      | declTime \<Rightarrow> if only_classes (cs st) [TextClass] \<and> timeOK (cs st) = st_texts (cs st) then Some (mssqlDate st TimeFamily KindTime) else None
      | declTimestampTZ \<Rightarrow> if texty st then Some (script_widen quoted (mssqlText st 0 keyed) ''the script has no such type'') else None
      | declSpecial \<Rightarrow> if texty st then Some (script_widen quoted (mssqlText st 0 keyed) ''the script has no such type'') else None
      | declChar \<Rightarrow>
          (if texty st then
             Some (if MaxU16 st \<le> di_n ds then mssqlText st (di_n ds) keyed
               else script_widen quoted (mssqlText st 0 keyed) ''some values are longer than that'')
           else None)
      | declText \<Rightarrow> if texty st then Some (mssqlText st 0 keyed) else None
      | declBlob \<Rightarrow> if only_classes (cs st) [BlobClass] then Some (mssqlBytes st keyed) else None
      | _ \<Rightarrow> None)"

definition mssql_Choose :: "string \<Rightarrow> string \<Rightarrow> scriptStats \<Rightarrow> ColumnUse \<Rightarrow> script_choice" where
  "mssql_Choose quoted def st use =
     (case mssql_declared quoted def st (Keyed use) of
        Some ch \<Rightarrow> ch
      | None \<Rightarrow>
          (let ch = mssql_infer st (Keyed use) in
           ch\<lparr>c_Note := inferred_note ''SQL Server'' quoted (cs st) (c_Type ch) @
             (if textWithNUL (cs st) > 0 then ''; a text with a NUL byte is carried as bytes, and a copy back returns BLOBs''
              else if BadUTF8 st > 0 then ''; a text that is not valid UTF-8 cannot be stored in an NVARCHAR column and is carried as bytes''
              else if NonFinite st > 0 then ''; SQL Server has no infinity''
              else if Denormal st > 0 then ''; SQL Server flushes a float below 2.2250738585072014E-308 to zero'' else [])\<rparr>))"


section \<open>Oracle\<close>

definition oracleIntType :: "int \<Rightarrow> string" where
  "oracleIntType bits = (if bits = 16 then ''NUMBER(5,0)'' else if bits = 32 then ''NUMBER(10,0)'' else ''NUMBER(19,0)'')"

text \<open>\<open>Prec\<close> of a text is 1 where its length counts bytes.  There is no type for a time of day.\<close>

definition oracleRender :: "script_choice \<Rightarrow> script_choice" where
  "oracleRender ch = ch\<lparr>c_Type :=
     (case Family ch of
        IntFamily \<Rightarrow> oracleIntType (Bits ch)
      | BoolFamily \<Rightarrow> ''NUMBER(1,0)''
      | FloatFamily \<Rightarrow> ''BINARY_DOUBLE''
      | DecimalFamily \<Rightarrow> ''NUMBER('' @ show_int (Prec ch) @ '','' @ show_int (Scale ch) @ '')''
      | DateFamily \<Rightarrow> ''DATE''
      | DatetimeFamily \<Rightarrow> ''TIMESTAMP('' @ show_int (Fsp ch) @ '')''
      | TimeFamily \<Rightarrow> c_Type ch
      | TextFamily \<Rightarrow> if Len ch > 0 then ''VARCHAR2('' @ show_int (Len ch) @ (if Prec ch = 1 then '' BYTE)'' else '' CHAR)'') else ''CLOB''
      | BytesFamily \<Rightarrow> if Len ch > 0 \<and> Len ch \<le> 2000 then ''RAW('' @ show_int (Len ch) @ '')'' else ''BLOB'')\<rparr>"

definition oracleInt :: "int \<Rightarrow> script_choice" where
  "oracleInt bits = oracleRender ((new_choice KindInt IntFamily)\<lparr>Bits := bits\<rparr>)"

definition oracleFloat :: script_choice where "oracleFloat = oracleRender (new_choice KindFloat FloatFamily)"

definition oracleDecimal :: "int \<Rightarrow> int \<Rightarrow> script_choice" where
  "oracleDecimal p s = oracleRender ((new_choice KindDecimal DecimalFamily)\<lparr>Prec := p, Scale := s\<rparr>)"

definition oracleText :: "scriptStats \<Rightarrow> int \<Rightarrow> bool \<Rightarrow> script_choice" where
  "oracleText st declLen keyed =
     (let c = (new_choice KindText TextFamily)\<lparr>MaxSize := MaxBytes st, Tight := max (maxLen (cs st)) 1\<rparr>;
          c = (if keyed then c\<lparr>Len := min (max (max declLen (maxLen (cs st))) 1) 4000, Bounded := (declLen = 0)\<rparr>
               else if MaxBytes st > 4000 then c
               else if declLen > 0 \<and> declLen \<le> 4000 then c\<lparr>Len := declLen\<rparr>
               else c\<lparr>Len := 4000, Prec := 1\<rparr>)
      in oracleRender c)"

definition oracleBytes :: "scriptStats \<Rightarrow> bool \<Rightarrow> script_choice" where
  "oracleBytes st keyed =
     (let sz = max (MaxBlob st) (MaxBytes st);
          c = (new_choice KindBytes BytesFamily)\<lparr>MaxSize := sz, Tight := max sz 1\<rparr>;
          c = (if keyed then c\<lparr>Len := max sz 1, Bounded := True\<rparr> else c)
      in oracleRender c)"

definition oracleDate :: "scriptStats \<Rightarrow> family \<Rightarrow> kind \<Rightarrow> script_choice" where
  "oracleDate st f k = oracleRender ((new_choice k f)\<lparr>Fsp := (if f = DateFamily then 0 else min (MaxFsp st) 9)\<rparr>)"

definition oracleComputedDecimal :: "scriptStats \<Rightarrow> script_choice option" where
  "oracleComputedDecimal st =
     (let s = MaxFracDigits st; p = max (MaxIntDigits st + s) 1 in if p > 38 then None else Some (oracleDecimal p s))"

definition oracleDecimalSpellings :: "scriptStats \<Rightarrow> int \<times> string" where
  "oracleDecimalSpellings st = (trimmed st, trimmedExample st)"

definition oracle_infer :: "scriptStats \<Rightarrow> bool \<Rightarrow> script_choice" where
  "oracle_infer st keyed =
     (if st_blobs (cs st) > 0 \<or> textWithNUL (cs st) > 0 \<or> BadUTF8 st > 0 then oracleBytes st keyed
      else if only_classes (cs st) [IntClass] \<and> \<not> allNull (cs st) then oracleInt 64
      else if only_classes (cs st) [IntClass, RealClass] \<and> \<not> allNull (cs st) \<and> decOK (cs st) = st_ints (cs st) + st_reals (cs st) \<and> NonFinite st = 0 \<and>
          oracleComputedDecimal st \<noteq> None then the (oracleComputedDecimal st)
      else oracleText st 0 keyed)"

definition oracle_decimal :: "string \<Rightarrow> string \<Rightarrow> scriptStats \<Rightarrow> script_choice option" where
  "oracle_decimal quoted def st =
     (let ds = st_decl (cs st); spell = (\<lambda>ch. ch\<lparr>Normalized := fst (oracleDecimalSpellings st), c_Example := snd (oracleDecimalSpellings st)\<rparr>) in
      if \<not> all_decimals st then None
      else if di_class ds = declDecimal \<and> di_p ds \<le> 38 \<and> di_s ds \<le> di_p ds \<and> decFit (cs st) = decOK (cs st) \<and> defaultFitsDecimal def ds
      then Some (spell (oracleDecimal (di_p ds) (di_s ds)))
      else map_option (\<lambda>ch.
          if di_class ds = declDecimal then script_widen quoted (spell ch) ''some values do not fit that precision and scale exactly, or its default does not'' else spell ch)
        (oracleComputedDecimal st))"

definition oracle_declared :: "string \<Rightarrow> string \<Rightarrow> scriptStats \<Rightarrow> bool \<Rightarrow> script_choice option" where
  "oracle_declared quoted def st keyed =
     (let ds = st_decl (cs st) in
      case di_class ds of
        declInt \<Rightarrow>
          (if only_classes (cs st) [IntClass] then
             Some (if int_overflows (cs st) then script_widen quoted (oracleInt 64) (''its values do not fit '' @ oracleIntType (declared_bits (di_width ds)))
               else oracleInt (declared_bits (di_width ds)))
           else None)
      | declFloat \<Rightarrow> if only_classes (cs st) [IntClass, RealClass] \<and> intInexact (cs st) = 0 then Some oracleFloat else None
      | declDecimal \<Rightarrow> oracle_decimal quoted def st
      | declBareNumeric \<Rightarrow> oracle_decimal quoted def st
      | declBool \<Rightarrow> if only_classes (cs st) [IntClass] \<and> nonBool (cs st) = 0 then Some (oracleRender (new_choice KindBool BoolFamily)) else None
      | declDate \<Rightarrow>
          if only_classes (cs st) [TextClass] \<and> dateOK (cs st) = st_texts (cs st) \<and> GregorianGap st = 0 then Some (oracleDate st DateFamily KindDate) else None
      | declTimestamp \<Rightarrow>
          if only_classes (cs st) [TextClass] \<and> tsOK (cs st) = st_texts (cs st) \<and> GregorianGap st = 0 then Some (oracleDate st DatetimeFamily KindTimestamp) else None
      | declTime \<Rightarrow>
          if texty st \<and> timeOK (cs st) = st_texts (cs st)
          then Some (script_widen quoted (oracleText st (max (maxLen (cs st)) 8) keyed) ''Oracle has no time of day type'') else None
      | declTimestampTZ \<Rightarrow> if texty st then Some (script_widen quoted (oracleText st 0 keyed) ''the script has no such type'') else None
      | declSpecial \<Rightarrow> if texty st then Some (script_widen quoted (oracleText st 0 keyed) ''the script has no such type'') else None
      | declChar \<Rightarrow>
          (if texty st then
             Some (if maxLen (cs st) \<le> di_n ds then oracleText st (di_n ds) keyed
               else script_widen quoted (oracleText st 0 keyed) ''some values are longer than that'')
           else None)
      | declText \<Rightarrow> if texty st then Some (oracleText st 0 keyed) else None
      | declBlob \<Rightarrow> if only_classes (cs st) [BlobClass] then Some (oracleBytes st keyed) else None
      | _ \<Rightarrow> None)"

definition oracle_note :: "string \<Rightarrow> string \<Rightarrow> scriptStats \<Rightarrow> string \<Rightarrow> string" where
  "oracle_note quoted gapQuoted st typ =
     (if di_class (st_decl (cs st)) \<in> {declDate, declTimestamp} \<and> GregorianGap st > 0
      then ''declared '' @ quoted @ '' but '' @ show_int (GregorianGap st) @ '' value(s), the first '' @ gapQuoted @
        '', fall in the days 1582-10-05 to 1582-10-14 that Oracle'' @ [CHR 0x27] @ ''s calendar skips (it would store them ten days later): carried as '' @ typ
      else inferred_note ''Oracle'' quoted (cs st) typ)"

text \<open>\<open>quote\<close> is \<open>%q\<close> of the example in the note.\<close>

definition oracle_Choose :: "(string \<Rightarrow> string) \<Rightarrow> string \<Rightarrow> string \<Rightarrow> scriptStats \<Rightarrow> ColumnUse \<Rightarrow> script_choice" where
  "oracle_Choose quote quoted def st use =
     (case oracle_declared quoted def st (Keyed use) of
        Some ch \<Rightarrow> ch
      | None \<Rightarrow>
          (let ch = oracle_infer st (Keyed use) in
           ch\<lparr>c_Note := oracle_note quoted (quote (GapExample st)) st (c_Type ch) @
             (if textWithNUL (cs st) > 0 then ''; a text with a NUL byte is carried as bytes, and a copy back returns BLOBs''
              else if BadUTF8 st > 0 then ''; a text that is not valid UTF-8 cannot be stored in a VARCHAR2 column and is carried as bytes'' else [])\<rparr>))"

end
