(* ===== verification/Script_Literals.thy ===== *)
theory Script_Literals
  imports Script_Types
begin

text \<open>
  Values as SQL text, and the rows of a script (\<open>src/pkg/dbcopy/faithful/mysql_sql.go\<close>,
  \<open>mssql_sql.go\<close>, \<open>oracle_sql.go\<close>, \<open>script_write.go\<close>): quoting, storable names, literals and defaults
  of the three dialects, and the writer of a table's rows.
\<close>


section \<open>Names\<close>

text \<open>\<open>ReplaceAll\<close> of one byte by two of it.\<close>

fun double_char :: "char \<Rightarrow> string \<Rightarrow> string" where
  "double_char q [] = []"
| "double_char q (c # s) = (if c = q then q # q # double_char q s else c # double_char q s)"

definition mysql_QuoteIdent :: "string \<Rightarrow> string" where "mysql_QuoteIdent name = ''`'' @ double_char (CHR 0x60) name @ ''`''"

definition mssql_QuoteIdent :: "string \<Rightarrow> string" where "mssql_QuoteIdent name = ''['' @ double_char (CHR '']'') name @ '']''"

definition oracle_QuoteIdent :: "string \<Rightarrow> string" where "oracle_QuoteIdent name = [CHR 0x22] @ name @ [CHR 0x22]"

definition unlineSafe :: "nat \<Rightarrow> bool" where
  "unlineSafe r \<longleftrightarrow> r < 0x20 \<or> r = 0x7f \<or> 0x80 \<le> r \<and> r \<le> 0x9f \<or> r = 0x2028 \<or> r = 0x2029 \<or> r = RuneError"

datatype name_problem =
    EmptyName | InvalidName | EndsInSpace | OnlySpaces | LongName int | OutsideBMP nat | HoldsControl nat | HoldsVariable | HoldsQuote | RecycleBin | ReservedWord

definition first_problem :: "(nat \<Rightarrow> name_problem option) \<Rightarrow> string \<Rightarrow> name_problem option" where
  "first_problem f name = (case filter (\<lambda>p. p \<noteq> None) (map f (runes name)) of [] \<Rightarrow> None | p # _ \<Rightarrow> p)"

definition mysql_StorableName :: "string \<Rightarrow> name_problem option" where
  "mysql_StorableName name =
     (if name = [] then Some EmptyName
      else if \<not> ValidString name then Some InvalidName
      else if last name = CHR '' '' then Some EndsInSpace
      else if length (runes name) > 64 then Some (LongName (int (length (runes name))))
      else first_problem (\<lambda>r. if r > 0xFFFF then Some (OutsideBMP r) else if unlineSafe r then Some (HoldsControl r) else None) name)"

definition mssql_StorableName :: "string \<Rightarrow> name_problem option" where
  "mssql_StorableName name =
     (if name = [] then Some EmptyName
      else if \<not> ValidString name then Some InvalidName
      else if TrimRight (CHR '' '') name = [] then Some OnlySpaces
      else if utf16Len name > 128 then Some (LongName (utf16Len name))
      else if str_contains name ''$('' then Some HoldsVariable
      else first_problem (\<lambda>r. if unlineSafe r \<or> r = 0xFEFF then Some (HoldsControl r) else None) name)"

definition oracle_StorableName :: "string \<Rightarrow> name_problem option" where
  "oracle_StorableName name =
     (if name = [] then Some EmptyName
      else if \<not> ValidString name then Some InvalidName
      else if length name > 128 then Some (LongName (int (length name)))
      else if CHR 0x22 \<in> set name then Some HoldsQuote
      else if has_prefix ''BIN$'' (ToUpper name) then Some RecycleBin
      else if name = ''ROWID'' then Some ReservedWord
      else first_problem (\<lambda>r. if unlineSafe r \<or> r = 0xFEFF then Some (HoldsControl r) else None) name)"


section \<open>Literals\<close>

text \<open>A value that cannot be written as the chosen type.\<close>

datatype literal_error = CannotWrite | NotUTF8 | HoldsNUL | TooLong nat

definition reTemporalText :: "string \<Rightarrow> bool" where
  "reTemporalText x \<longleftrightarrow> x \<noteq> [] \<and> is_digit (hd x) \<and> list_all (\<lambda>c. is_digit c \<or> c \<in> set '':. -'') (tl x)"

definition valueBytes :: "sqlite_value \<Rightarrow> string option" where
  "valueBytes v = (case v of SBlob x \<Rightarrow> Some x | SText x \<Rightarrow> Some x | SInt i \<Rightarrow> Some (show_int i) | _ \<Rightarrow> None)"

definition quoted_text :: "string \<Rightarrow> string" where "quoted_text s = [CHR 0x27] @ double_char (CHR 0x27) s @ [CHR 0x27]"

definition plain_quoted :: "string \<Rightarrow> string" where "plain_quoted s = [CHR 0x27] @ s @ [CHR 0x27]"

definition mysqlTextLiteral :: "string \<Rightarrow> string" where
  "mysqlTextLiteral s =
     (if s = [] then plain_quoted []
      else if list_ex (\<lambda>r. r = 0x5C \<or> r = 0 \<or> unlineSafe r) (runes s) then ''_utf8mb4 X'' @ plain_quoted (hex_EncodeToString s)
      else quoted_text s)"

definition number_literal :: "script_env \<Rightarrow> script_choice \<Rightarrow> sqlite_value \<Rightarrow> string option" where
  "number_literal env ch v =
     (case Family ch of
        IntFamily \<Rightarrow> (case v of SInt i \<Rightarrow> Some (show_int i) | _ \<Rightarrow> None)
      | BoolFamily \<Rightarrow> (case v of SInt i \<Rightarrow> Some (show_int i) | _ \<Rightarrow> None)
      | FloatFamily \<Rightarrow> (case v of SReal x \<Rightarrow> Some (FormatFloat_e env x) | SInt i \<Rightarrow> Some (FormatFloat_e env (int_to_float i)) | _ \<Rightarrow> None)
      | DecimalFamily \<Rightarrow>
          (case v of SInt i \<Rightarrow> Some (show_int i) | SReal x \<Rightarrow> Some (FormatFloat_f (base_env env) x) | SText x \<Rightarrow> if reDec x then Some x else None | _ \<Rightarrow> None)
      | _ \<Rightarrow> None)"

definition literal_result :: "string option \<Rightarrow> literal_error + string" where
  "literal_result r = (case r of None \<Rightarrow> Inl CannotWrite | Some t \<Rightarrow> Inr t)"

definition mysql_Literal :: "script_env \<Rightarrow> script_choice \<Rightarrow> sqlite_value \<Rightarrow> literal_error + string" where
  "mysql_Literal env ch v =
     (if v = SNil then Inr ''NULL''
      else literal_result
        (case Family ch of
           TextFamily \<Rightarrow>
             (case v of SText x \<Rightarrow> Some (mysqlTextLiteral x) | SInt i \<Rightarrow> Some (plain_quoted (show_int i))
              | SBlob x \<Rightarrow> if ValidString x then Some (mysqlTextLiteral x) else None | _ \<Rightarrow> None)
         | BytesFamily \<Rightarrow> map_option (\<lambda>b. ''X'' @ plain_quoted (hex_EncodeToString b)) (valueBytes v)
         | DateFamily \<Rightarrow> (case v of SText x \<Rightarrow> if reTemporalText x then Some (plain_quoted x) else None | _ \<Rightarrow> None)
         | DatetimeFamily \<Rightarrow> (case v of SText x \<Rightarrow> if reTemporalText x then Some (plain_quoted x) else None | _ \<Rightarrow> None)
         | TimeFamily \<Rightarrow> (case v of SText x \<Rightarrow> if reTemporalText x then Some (plain_quoted x) else None | _ \<Rightarrow> None)
         | _ \<Rightarrow> number_literal env ch v))"

definition mssqlSpecial :: "nat \<Rightarrow> bool" where
  "mssqlSpecial r \<longleftrightarrow> unlineSafe r \<or> r = 0xFEFF \<or> r = 0xFFFE \<or> r = 0xFFFF"

definition utf8_of :: "nat \<Rightarrow> string" where "utf8_of r = map char_of (encode_rune r)"

text \<open>\<open>utf16.Encode\<close> and the bytes of the code units, low byte first.\<close>

definition utf16_units :: "nat \<Rightarrow> nat list" where
  "utf16_units r = (if r < 0x10000 then [r] else [0xD800 + (r - 0x10000) div 1024, 0xDC00 + (r - 0x10000) mod 1024])"

definition mssqlHexText :: "string \<Rightarrow> string" where
  "mssqlHexText s = ''CONVERT(NVARCHAR(MAX),0x'' @
     hex_EncodeToString (concat (map (\<lambda>u. [char_of (u mod 256), char_of (u div 256 mod 256)]) (concat (map utf16_units (runes s))))) @ '')''"

definition mssql_flush :: "string \<Rightarrow> string list" where
  "mssql_flush cur = (if cur = [] then [] else [''N'' @ quoted_text cur])"

text \<open>The pieces of a text; no pieces where it holds a NUL.\<close>

fun mssql_pieces :: "nat \<Rightarrow> string \<Rightarrow> nat list \<Rightarrow> string list option" where
  "mssql_pieces prev cur [] = Some (mssql_flush cur)"
| "mssql_pieces prev cur (r # rs) =
     (if mssqlSpecial r \<or> prev = 0x24 \<and> r = 0x28 then
        (if r = 0 then None else map_option (\<lambda>ps. mssql_flush cur @ [''NCHAR('' @ show_nat r @ '')''] @ ps) (mssql_pieces r [] rs))
      else mssql_pieces r (cur @ utf8_of r) rs)"

definition mssql_parts :: "string \<Rightarrow> string list \<Rightarrow> string" where
  "mssql_parts s parts =
     (if length parts = 1 \<and> has_prefix (''N'' @ [CHR 0x27]) (hd parts) then hd parts
      else if length parts > 200 then mssqlHexText s
      else if has_prefix (''N'' @ [CHR 0x27]) (hd parts) then Join ((''CAST('' @ hd parts @ '' AS NVARCHAR(MAX))'') # tl parts) ''+''
      else Join ((''CAST(N'' @ plain_quoted [] @ '' AS NVARCHAR(MAX))'') # parts) ''+'')"

definition mssqlTextLiteral :: "string \<Rightarrow> string" where
  "mssqlTextLiteral s =
     (if s = [] then ''N'' @ plain_quoted []
      else case mssql_pieces 0 [] (runes s) of None \<Rightarrow> mssqlHexText s | Some parts \<Rightarrow> mssql_parts s parts)"

definition mssql_Literal :: "script_env \<Rightarrow> script_choice \<Rightarrow> sqlite_value \<Rightarrow> literal_error + string" where
  "mssql_Literal env ch v =
     (if v = SNil then Inr ''NULL''
      else literal_result
        (case Family ch of
           TextFamily \<Rightarrow>
             (case v of SText x \<Rightarrow> Some (mssqlTextLiteral x) | SInt i \<Rightarrow> Some (''N'' @ plain_quoted (show_int i))
              | SReal x \<Rightarrow> Some (''N'' @ plain_quoted (FormatFloat_g (base_env env) x))
              | SBlob x \<Rightarrow> if ValidString x then Some (mssqlTextLiteral x) else None | _ \<Rightarrow> None)
         | BytesFamily \<Rightarrow> map_option (\<lambda>b. ''0x'' @ hex_EncodeToString b) (valueBytes v)
         | DateFamily \<Rightarrow> (case v of SText x \<Rightarrow> if reTemporalText x then Some (plain_quoted x) else None | _ \<Rightarrow> None)
         | DatetimeFamily \<Rightarrow> (case v of SText x \<Rightarrow> if reTemporalText x then Some (plain_quoted x) else None | _ \<Rightarrow> None)
         | TimeFamily \<Rightarrow> (case v of SText x \<Rightarrow> if reTemporalText x then Some (plain_quoted x) else None | _ \<Rightarrow> None)
         | _ \<Rightarrow> number_literal env ch v))"


section \<open>Literals of Oracle\<close>

definition oracleUnistr :: "nat \<Rightarrow> bool" where
  "oracleUnistr r \<longleftrightarrow> 0x80 \<le> r \<and> unlineSafe r \<or> r = 0xFEFF \<or> r = 0xFFFE \<or> r = 0xFFFF"

definition upper_nibble :: "nat \<Rightarrow> char" where
  "upper_nibble d = char_of (if d < 10 then 48 + d else 55 + d)"

definition hex4 :: "nat \<Rightarrow> string" where
  "hex4 r = map upper_nibble [r div 4096 mod 16, r div 256 mod 16, r div 16 mod 16, r mod 16]"

text \<open>An atom is a piece of a text expression and the most bytes of text it stands for.\<close>

type_synonym oracleAtom = "string \<times> nat"

definition flushRun :: "string \<Rightarrow> oracleAtom list" where
  "flushRun run = (if run = [] then [] else [(plain_quoted run, length run)])"

definition flushUni :: "nat list \<Rightarrow> oracleAtom list" where
  "flushUni uni = (if uni = [] then [] else [(''TO_CHAR(UNISTR('' @ plain_quoted (concat (map (\<lambda>r. [CHR 0x5C] @ hex4 r) uni)) @ ''))'', 3 * length uni)])"

fun oracle_atoms :: "string \<Rightarrow> nat list \<Rightarrow> nat list \<Rightarrow> oracleAtom list" where
  "oracle_atoms run uni [] = flushRun run @ flushUni uni"
| "oracle_atoms run uni (r # rs) =
     (if r < 0x80 \<and> (r < 0x20 \<or> r = 0x7f) then flushRun run @ flushUni uni @ [(''CHR('' @ show_nat r @ '')'', 1)] @ oracle_atoms [] [] rs
      else if oracleUnistr r then
        flushRun run @ (if length uni + 1 \<ge> 100 then flushUni (uni @ [r]) @ oracle_atoms [] [] rs else oracle_atoms [] (uni @ [r]) rs)
      else
        (let run' = run @ (if r = 0x27 then [CHR 0x27, CHR 0x27] else utf8_of r) in
         flushUni uni @ (if length run' \<ge> 1500 then flushRun run' @ oracle_atoms [] [] rs else oracle_atoms run' [] rs)))"

definition oracleTextAtoms :: "string \<Rightarrow> oracleAtom list" where
  "oracleTextAtoms s = oracle_atoms [] [] (runes s)"

text \<open>The pieces joined by \<open>||\<close>, on a new line where the next one would pass the line budget; \<open>cur\<close> is the length of the line.\<close>

fun oracle_layout :: "bool \<Rightarrow> nat \<Rightarrow> string list \<Rightarrow> string" where
  "oracle_layout first cur [] = []"
| "oracle_layout first cur (p # ps) =
     (let sep = (if first then [] else ''||''); cur' = cur + length sep; nl = (cur' > 0 \<and> cur' + length p > 1900)
      in sep @ (if nl then [CHR 0x0A] else []) @ p @ oracle_layout False ((if nl then 0 else cur') + length p) ps)"

definition oracleLayout :: "string list \<Rightarrow> string" where "oracleLayout pieces = oracle_layout True 0 pieces"

fun take_group :: "nat \<Rightarrow> oracleAtom list \<Rightarrow> oracleAtom list \<times> oracleAtom list" where
  "take_group sz [] = ([], [])"
| "take_group sz (a # as) = (if sz + snd a \<le> 3500 then case take_group (sz + snd a) as of (t, r) \<Rightarrow> (a # t, r) else ([], a # as))"

definition clob_group :: "string list \<Rightarrow> string list" where
  "clob_group g = (let g' = (''TO_CLOB('' @ hd g) # tl g in butlast g' @ [last g' @ '')''])"

lemma take_group_length: "length (snd (take_group sz as)) \<le> length as"
  by (induction sz as rule: take_group.induct) (auto split: prod.splits)

function clob_pieces :: "oracleAtom list \<Rightarrow> string list" where
  "clob_pieces [] = []"
| "clob_pieces (a # as) = clob_group (map fst (a # fst (take_group (snd a) as))) @ clob_pieces (snd (take_group (snd a) as))"
  by pat_completeness auto
termination
  by (relation "measure length") (auto intro: le_imp_less_Suc take_group_length)

definition oracleTextExpr :: "string \<Rightarrow> bool \<Rightarrow> string" where
  "oracleTextExpr s clob = oracleLayout (if clob then clob_pieces (oracleTextAtoms s) else map fst (oracleTextAtoms s))"

function hex_pieces :: "string \<Rightarrow> string list" where
  "hex_pieces h = (if length h > 1800 then plain_quoted (take 1800 h) # hex_pieces (drop 1800 h) else [plain_quoted h])"
  by pat_completeness auto
termination
  by (relation "measure length") auto

declare hex_pieces.simps [simp del]

definition oracleHexExpr :: "string \<Rightarrow> string" where
  "oracleHexExpr b = oracleLayout (hex_pieces (ToUpper (hex_EncodeToString b)))"

definition oracle_float :: "script_env \<Rightarrow> float64 \<Rightarrow> string" where
  "oracle_float env x =
     (if is_inf64 x then (if sign_bit x then ''-BINARY_DOUBLE_INFINITY'' else ''BINARY_DOUBLE_INFINITY'')
      else if \<not> is_finite64 x then ''BINARY_DOUBLE_NAN'' else FormatFloat_e env x @ ''d'')"

definition oracle_text_literal :: "script_choice \<Rightarrow> string \<Rightarrow> literal_error + string" where
  "oracle_text_literal ch s =
     (if s = [] then Inr ''NULL''
      else if CHR 0x00 \<in> set s then Inl HoldsNUL
      else if Len ch \<noteq> 0 \<and> length s > 4000 then Inl (TooLong (length s))
      else Inr (oracleTextExpr s (Len ch = 0)))"

definition oracle_bytes_literal :: "script_choice \<Rightarrow> string \<Rightarrow> literal_error + string" where
  "oracle_bytes_literal ch b =
     (if b = [] then Inr (if Len ch > 0 then ''NULL'' else ''EMPTY_BLOB()'')
      else if length b > 2000 then Inl (TooLong (length b))
      else if Len ch > 0 then Inr (''HEXTORAW('' @ oracleHexExpr b @ '')'')
      else Inr (''TO_BLOB(HEXTORAW('' @ oracleHexExpr b @ ''))''))"

definition oracle_Literal :: "script_env \<Rightarrow> script_choice \<Rightarrow> sqlite_value \<Rightarrow> literal_error + string" where
  "oracle_Literal env ch v =
     (if v = SNil then Inr ''NULL''
      else case Family ch of
        FloatFamily \<Rightarrow> literal_result (case v of SReal x \<Rightarrow> Some (oracle_float env x) | SInt i \<Rightarrow> Some (oracle_float env (int_to_float i)) | _ \<Rightarrow> None)
      | DateFamily \<Rightarrow> literal_result (case v of SText x \<Rightarrow> if reDate x then Some (''DATE '' @ plain_quoted x) else None | _ \<Rightarrow> None)
      | DatetimeFamily \<Rightarrow> literal_result (case v of SText x \<Rightarrow> if reTS x then Some (''TIMESTAMP '' @ plain_quoted x) else None | _ \<Rightarrow> None)
      | TextFamily \<Rightarrow>
          (case v of SText x \<Rightarrow> oracle_text_literal ch x | SInt i \<Rightarrow> oracle_text_literal ch (show_int i)
           | SBlob x \<Rightarrow> if ValidString x then oracle_text_literal ch x else Inl NotUTF8 | _ \<Rightarrow> Inl CannotWrite)
      | BytesFamily \<Rightarrow> (case valueBytes v of None \<Rightarrow> Inl CannotWrite | Some b \<Rightarrow> oracle_bytes_literal ch b)
      | _ \<Rightarrow> literal_result (number_literal env ch v))"


section \<open>The rows of a table\<close>

text \<open>What the row writer asks of a dialect for one table.\<close>

record dialect_ops =
  op_Literal :: "script_choice \<Rightarrow> sqlite_value \<Rightarrow> literal_error + string"
  op_InsertHead :: string
  op_BeginData :: "string list"
  op_EndData :: "string list"
  op_maxRows :: nat
  op_maxBytes :: nat
  op_MaxLine :: nat
  op_RowStatement :: "sqlite_value list \<Rightarrow> literal_error + string option"

text \<open>The bytes up to the first line break, and after the last one.\<close>

definition first_line :: "string \<Rightarrow> string" where "first_line s = takeWhile (\<lambda>c. c \<noteq> CHR 0x0A) s"

definition last_line :: "string \<Rightarrow> string" where "last_line s = rev (takeWhile (\<lambda>c. c \<noteq> CHR 0x0A) (rev s))"

fun join_lits :: "nat \<Rightarrow> bool \<Rightarrow> nat \<Rightarrow> string list \<Rightarrow> string" where
  "join_lits limit first cur [] = []"
| "join_lits limit first cur (l # ls) =
     (let sep = (if first then [] else '',''); cur = cur + length sep;
          nl = (limit > 0 \<and> \<not> first \<and> cur + length (first_line l) > limit);
          cur = (if nl then 0 else cur)
      in sep @ (if nl then [CHR 0x0A] else []) @ l @
         join_lits limit False (if CHR 0x0A \<in> set l then length (last_line l) else cur + length l) ls)"

definition joinRow :: "string list \<Rightarrow> nat \<Rightarrow> string" where
  "joinRow lits limit = ''('' @ join_lits limit True 1 lits @ '')''"

datatype write_error = RowFailed nat literal_error | RowsChanged nat nat

record writer =
  w_out :: string
  w_sb :: string
  w_batch :: nat
  w_size :: nat
  w_n :: nat

definition text_lines :: "string list \<Rightarrow> string" where
  "text_lines ls = concat (map (\<lambda>l. l @ [CHR 0x0A]) ls)"

definition flush :: "dialect_ops \<Rightarrow> writer \<Rightarrow> writer" where
  "flush d w =
     (if w_batch w = 0 then w
      else w\<lparr>w_out := w_out w @ text_lines (op_BeginData d) @ op_InsertHead d @ [CHR 0x0A] @ w_sb w @ '';'' @ [CHR 0x0A] @ text_lines (op_EndData d),
        w_sb := [], w_batch := 0, w_size := 0\<rparr>)"

definition add_line :: "dialect_ops \<Rightarrow> string \<Rightarrow> writer \<Rightarrow> writer" where
  "add_line d line w =
     (let w = w\<lparr>w_sb := w_sb w @ (if w_batch w > 0 then '','' @ [CHR 0x0A] else []) @ line, w_batch := w_batch w + 1,
            w_size := w_size w + length line, w_n := w_n w + 1\<rparr>
      in if w_batch w \<ge> op_maxRows d \<or> w_size w \<ge> op_maxBytes d then flush d w else w)"

definition write_row :: "dialect_ops \<Rightarrow> script_choice list \<Rightarrow> sqlite_value list \<Rightarrow> writer \<Rightarrow> write_error + writer" where
  "write_row d chs vals w =
     (case op_RowStatement d vals of
        Inl e \<Rightarrow> Inl (RowFailed (w_n w + 1) e)
      | Inr (Some stmt) \<Rightarrow> (let w = flush d w in Inr (w\<lparr>w_out := w_out w @ stmt @ [CHR 0x0A], w_n := w_n w + 1\<rparr>))
      | Inr None \<Rightarrow>
          (case rmapl (\<lambda>(ch, v). op_Literal d ch v) (zip chs vals) of
             Inl e \<Rightarrow> Inl (RowFailed (w_n w + 1) e)
           | Inr lits \<Rightarrow> Inr (add_line d (joinRow lits (op_MaxLine d)) w)))"

definition new_writer :: writer where "new_writer = \<lparr>w_out = [], w_sb = [], w_batch = 0, w_size = 0, w_n = 0\<rparr>"

definition writeRows :: "dialect_ops \<Rightarrow> script_choice list \<Rightarrow> nat \<Rightarrow> sqlite_value list list \<Rightarrow> write_error + string \<times> nat" where
  "writeRows d chs counted rows =
     (if counted = 0 then Inr ([], 0)
      else
        case rfold (write_row d chs) rows new_writer of
          Inl e \<Rightarrow> Inl e
        | Inr w \<Rightarrow> (let w = flush d w in if w_n w \<noteq> counted then Inl (RowsChanged counted (w_n w)) else Inr (w_out w, w_n w)))"


definition insert_head :: "(string \<Rightarrow> string) \<Rightarrow> string \<Rightarrow> string list \<Rightarrow> string" where
  "insert_head quote table names = ''INSERT INTO '' @ quote table @ '' ('' @ Join (map quote names) '', '' @ '') VALUES''"

definition mysql_ops :: "script_env \<Rightarrow> string \<Rightarrow> string list \<Rightarrow> dialect_ops" where
  "mysql_ops env table names = \<lparr>op_Literal = mysql_Literal env, op_InsertHead = insert_head mysql_QuoteIdent table names,
     op_BeginData = [''START TRANSACTION;''], op_EndData = [''COMMIT;''], op_maxRows = 1000, op_maxBytes = 1048576, op_MaxLine = 0,
     op_RowStatement = (\<lambda>vals. Inr None)\<rparr>"

text \<open>\<open>identity\<close> says that the table has an identity column.\<close>

definition mssql_ops :: "script_env \<Rightarrow> bool \<Rightarrow> string \<Rightarrow> string list \<Rightarrow> dialect_ops" where
  "mssql_ops env identity table names = \<lparr>op_Literal = mssql_Literal env, op_InsertHead = insert_head mssql_QuoteIdent table names,
     op_BeginData = [''IF @@TRANCOUNT=0 SET NOEXEC ON''] @ (if identity then [''SET IDENTITY_INSERT '' @ mssql_QuoteIdent table @ '' ON;''] else []),
     op_EndData = (if identity then [''SET IDENTITY_INSERT '' @ mssql_QuoteIdent table @ '' OFF;''] else []) @ [''GO''],
     op_maxRows = 1000, op_maxBytes = 1048576, op_MaxLine = 0, op_RowStatement = (\<lambda>vals. Inr None)\<rparr>"

text \<open>The bytes of a BLOB too long for a literal, appended 900 at a time.\<close>

function append_blob :: "string \<Rightarrow> string \<Rightarrow> string" where
  "append_blob b data =
     (if data = [] then []
      else ''  DBMS_LOB.WRITEAPPEND('' @ b @ '', '' @ show_nat (min (length data) 900) @ '', HEXTORAW('' @ plain_quoted (ToUpper (hex_EncodeToString (take 900 data))) @ ''));'' @
        [CHR 0x0A] @ append_blob b (drop 900 data))"
  by pat_completeness auto
termination
  by (relation "measure (\<lambda>(_, d). length d)") auto

declare append_blob.simps [simp del]

definition big_column :: "script_choice \<times> sqlite_value \<Rightarrow> bool" where
  "big_column cv \<longleftrightarrow> Family (fst cv) = BytesFamily \<and> Len (fst cv) = 0 \<and> (case valueBytes (snd cv) of None \<Rightarrow> False | Some b \<Rightarrow> length b > 2000)"

definition oracle_RowStatement :: "script_env \<Rightarrow> string \<Rightarrow> string list \<Rightarrow> script_choice list \<Rightarrow> sqlite_value list \<Rightarrow> literal_error + string option" where
  "oracle_RowStatement env table names chs vals =
     (let cols = zip names (zip chs vals); big = filter (\<lambda>(n, cv). big_column cv) cols in
      if big = [] then Inr None
      else rbind (rmapl (\<lambda>(ch, v). if big_column (ch, v) then Inr ''EMPTY_BLOB()'' else oracle_Literal env ch v) (zip chs vals)) (\<lambda>lits.
        let vars = map (\<lambda>k. ''b'' @ show_nat (k + 1)) [0 ..< length big] in
        Inr (Some (''DECLARE'' @ [CHR 0x0A] @ concat (map (\<lambda>b. ''  '' @ b @ '' BLOB;'' @ [CHR 0x0A]) vars) @ ''BEGIN'' @ [CHR 0x0A] @
          ''  INSERT INTO '' @ oracle_QuoteIdent table @ '' ('' @ Join (map oracle_QuoteIdent names) '', '' @ '') VALUES'' @ [CHR 0x0A] @
          joinRow lits 2300 @ [CHR 0x0A] @
          ''  RETURNING '' @ Join (map (\<lambda>(n, cv). oracle_QuoteIdent n) big) '', '' @ '' INTO '' @ Join vars '', '' @ '';'' @ [CHR 0x0A] @
          concat (map (\<lambda>(b, n, ch, v). append_blob b (the (valueBytes v))) (zip vars big)) @ ''  COMMIT;'' @ [CHR 0x0A] @ ''END;'' @ [CHR 0x0A] @ ''/''))))"

text \<open>\<open>head\<close> is the insert line as the dialect wraps it.\<close>

definition oracle_ops :: "script_env \<Rightarrow> string \<Rightarrow> string \<Rightarrow> string list \<Rightarrow> script_choice list \<Rightarrow> dialect_ops" where
  "oracle_ops env head table names chs = \<lparr>op_Literal = oracle_Literal env, op_InsertHead = head, op_BeginData = [], op_EndData = [''COMMIT;''],
     op_maxRows = 100, op_maxBytes = 131072, op_MaxLine = 2300, op_RowStatement = oracle_RowStatement env table names chs\<rparr>"


section \<open>Defaults\<close>

type_synonym script_default = "(string \<times> string) option"

fun single_quotes :: "string \<Rightarrow> string" where
  "single_quotes [] = []"
| "single_quotes [c] = [c]"
| "single_quotes (c # d # s) = (if c = CHR 0x27 \<and> d = CHR 0x27 then CHR 0x27 # single_quotes s else c # single_quotes (d # s))"

definition without_plus :: "string \<Rightarrow> string" where "without_plus e = (if e \<noteq> [] \<and> hd e = CHR ''+'' then tl e else e)"

definition unwrapParens :: "string \<Rightarrow> string" where "unwrapParens e = strip_parens (TrimSpace e)"

text \<open>The integer a numeric default stands for, within 0 and 1 for a boolean.\<close>

definition int_default :: "string \<Rightarrow> family \<Rightarrow> string option" where
  "int_default e f =
     (case ratSetString e of
        None \<Rightarrow> None
      | Some r \<Rightarrow> (case quotient_of r of (n, m) \<Rightarrow> if m \<noteq> 1 then None else if f = BoolFamily \<and> (n > 1 \<or> n < 0) then None else Some (show_int n)))"

definition scale_decl :: "script_choice \<Rightarrow> decl_info" where
  "scale_decl ch = (no_decl [])\<lparr>di_p := Prec ch, di_s := Scale ch\<rparr>"

definition utc_note :: "string \<Rightarrow> string" where
  "utc_note what = ''default '' @ what @ '' on a text column is written as a UTC expression in the same text format''"

text \<open>The text of a quoted default, and the two defaults every dialect treats alike.\<close>

definition quoted_default :: "string \<Rightarrow> string option" where
  "quoted_default e = (if is_quoted e \<and> CHR 0x27 \<notin> set (drop_doubled (tl (butlast e))) then Some (single_quotes (tl (butlast e))) else None)"

definition mysql_text_default :: "string \<Rightarrow> script_choice \<Rightarrow> script_default" where
  "mysql_text_default s ch =
     (if \<not> ValidString s \<or> CHR 0x00 \<in> set s \<or> Len ch > 0 \<and> int (length (runes s)) > Len ch then None
      else if Len ch = 0 then Some (''('' @ mysqlTextLiteral s @ '')'', []) else Some (mysqlTextLiteral s, []))"

definition mysql_numberDefault :: "string \<Rightarrow> script_choice \<Rightarrow> script_default" where
  "mysql_numberDefault e ch =
     (if Family ch = IntFamily \<or> Family ch = BoolFamily then map_option (\<lambda>n. (n, [])) (int_default e (Family ch))
      else if Family ch = FloatFamily then Some (e, [])
      else if Family ch = DecimalFamily then (if defaultFitsDecimal e (scale_decl ch) then Some (e, []) else None)
      else if Family ch = TextFamily then mysql_text_default e ch else None)"

definition mysql_textDefault :: "string \<Rightarrow> script_choice \<Rightarrow> script_default" where
  "mysql_textDefault s ch =
     (if Family ch \<in> {IntFamily, FloatFamily, DecimalFamily, BoolFamily} then (if reDefNumber s then mysql_numberDefault (without_plus s) ch else None)
      else if Family ch \<in> {DateFamily, DatetimeFamily, TimeFamily} then (if reTemporalText s then Some (plain_quoted s, []) else None)
      else if Family ch = TextFamily then mysql_text_default s ch else None)"

definition mysql_Default :: "string \<Rightarrow> script_choice \<Rightarrow> script_default" where
  "mysql_Default expr ch =
     (let e = unwrapParens expr; up = ToUpper e;
          utcNow = (if Fsp ch = 0 then ''UTC_TIMESTAMP()'' else ''UTC_TIMESTAMP('' @ show_int (Fsp ch) @ '')'');
          fmt = (\<lambda>f. ''(DATE_FORMAT(UTC_TIMESTAMP(), '' @ plain_quoted f @ ''))'')
      in if up = ''NULL'' \<or> e = [] then Some ([], [])
         else if up = ''CURRENT_TIMESTAMP'' then
           (if Family ch = DatetimeFamily then Some (''('' @ utcNow @ '')'', []) else if Family ch = TextFamily then Some (fmt ''%Y-%m-%d %H:%i:%s'', utc_note up) else None)
         else if up = ''CURRENT_DATE'' then
           (if Family ch = DateFamily then Some (''(UTC_DATE())'', []) else if Family ch = TextFamily then Some (fmt ''%Y-%m-%d'', utc_note up) else None)
         else if up = ''CURRENT_TIME'' then
           (if Family ch = TimeFamily then Some (''(UTC_TIME())'', []) else if Family ch = TextFamily then Some (fmt ''%H:%i:%s'', utc_note up) else None)
         else if reDefNumber e then mysql_numberDefault (without_plus e) ch
         else case quoted_default e of
             Some t \<Rightarrow> mysql_textDefault t ch
           | None \<Rightarrow>
               if (up = ''TRUE'' \<or> up = ''FALSE'') \<and> Family ch \<in> {BoolFamily, IntFamily} then Some (if up = ''TRUE'' then ''1'' else ''0'', []) else None)"

definition paren :: "string \<Rightarrow> string" where "paren s = ''('' @ s @ '')''"

definition mssql_text_default :: "string \<Rightarrow> script_choice \<Rightarrow> script_default" where
  "mssql_text_default s ch =
     (if \<not> ValidString s \<or> CHR 0x00 \<in> set s \<or> Len ch > 0 \<and> utf16Len s > Len ch then None else Some (paren (mssqlTextLiteral s), []))"

definition mssql_numberDefault :: "string \<Rightarrow> script_choice \<Rightarrow> script_default" where
  "mssql_numberDefault e ch =
     (if Family ch = IntFamily \<or> Family ch = BoolFamily then map_option (\<lambda>n. (paren n, [])) (int_default e (Family ch))
      else if Family ch = FloatFamily then Some (paren e, [])
      else if Family ch = DecimalFamily then (if defaultFitsDecimal e (scale_decl ch) then Some (paren e, []) else None)
      else if Family ch = TextFamily then mssql_text_default e ch else None)"

definition mssql_textDefault :: "string \<Rightarrow> script_choice \<Rightarrow> script_default" where
  "mssql_textDefault s ch =
     (if Family ch \<in> {IntFamily, FloatFamily, DecimalFamily, BoolFamily} then (if reDefNumber s then mssql_numberDefault (without_plus s) ch else None)
      else if Family ch \<in> {DateFamily, DatetimeFamily, TimeFamily} then (if reTemporalText s then Some (paren (plain_quoted s), []) else None)
      else if Family ch = TextFamily then mssql_text_default s ch else None)"

definition mssql_Default :: "string \<Rightarrow> script_choice \<Rightarrow> script_default" where
  "mssql_Default expr ch =
     (let e = unwrapParens expr; up = ToUpper e in
      if up = ''NULL'' \<or> e = [] then Some ([], [])
      else if up = ''CURRENT_TIMESTAMP'' then
        (if Family ch = DatetimeFamily then Some (''(SYSUTCDATETIME())'', [])
         else if Family ch = TextFamily then Some (''(CONVERT(NVARCHAR(19), SYSUTCDATETIME(), 120))'', utc_note up) else None)
      else if up = ''CURRENT_DATE'' then
        (if Family ch = DateFamily then Some (''(CONVERT(DATE, SYSUTCDATETIME()))'', [])
         else if Family ch = TextFamily then Some (''(CONVERT(NVARCHAR(10), SYSUTCDATETIME(), 23))'', utc_note up) else None)
      else if up = ''CURRENT_TIME'' then
        (if Family ch = TimeFamily then Some (''(CONVERT(TIME('' @ show_int (Fsp ch) @ ''), SYSUTCDATETIME()))'', [])
         else if Family ch = TextFamily then Some (''(CONVERT(NVARCHAR(8), SYSUTCDATETIME(), 108))'', utc_note up) else None)
      else if reDefNumber e then mssql_numberDefault (without_plus e) ch
      else case quoted_default e of
          Some t \<Rightarrow> mssql_textDefault t ch
        | None \<Rightarrow>
            if (up = ''TRUE'' \<or> up = ''FALSE'') \<and> Family ch \<in> {BoolFamily, IntFamily} then Some (if up = ''TRUE'' then ''(1)'' else ''(0)'', []) else None)"

definition oracle_text_default :: "string \<Rightarrow> script_choice \<Rightarrow> script_default" where
  "oracle_text_default s ch =
     (if s = [] \<or> \<not> ValidString s \<or> CHR 0x00 \<in> set s \<or> length s > 4000 \<or> Len ch > 0 \<and> int (length (runes s)) > Len ch then None
      else Some (paren (oracleTextExpr s False), []))"

text \<open>\<open>parse\<close> is \<open>strconv.ParseFloat\<close>.\<close>

definition oracle_numberDefault :: "script_env \<Rightarrow> (string \<Rightarrow> float64 option) \<Rightarrow> string \<Rightarrow> script_choice \<Rightarrow> script_default" where
  "oracle_numberDefault env parse e ch =
     (if Family ch = IntFamily \<or> Family ch = BoolFamily then map_option (\<lambda>n. (paren n, [])) (int_default e (Family ch))
      else if Family ch = FloatFamily then map_option (\<lambda>f. (paren (FormatFloat_e env f @ ''d''), [])) (parse e)
      else if Family ch = DecimalFamily then (if defaultFitsDecimal e (scale_decl ch) then Some (paren e, []) else None)
      else if Family ch = TextFamily then oracle_text_default e ch else None)"

definition oracle_textDefault :: "script_env \<Rightarrow> (string \<Rightarrow> float64 option) \<Rightarrow> string \<Rightarrow> script_choice \<Rightarrow> script_default" where
  "oracle_textDefault env parse s ch =
     (if Family ch \<in> {IntFamily, FloatFamily, DecimalFamily, BoolFamily} then (if reDefNumber s then oracle_numberDefault env parse (without_plus s) ch else None)
      else if Family ch = DateFamily then (if reDate s then Some (paren (''DATE '' @ plain_quoted s), []) else None)
      else if Family ch = DatetimeFamily then (if reTS s then Some (paren (''TIMESTAMP '' @ plain_quoted s), []) else None)
      else if Family ch = TextFamily then oracle_text_default s ch else None)"

definition oracle_Default :: "script_env \<Rightarrow> (string \<Rightarrow> float64 option) \<Rightarrow> string \<Rightarrow> script_choice \<Rightarrow> script_default" where
  "oracle_Default env parse expr ch =
     (let e = unwrapParens expr; up = ToUpper e; utc = ''SYS_EXTRACT_UTC(SYSTIMESTAMP)'';
          txt = (\<lambda>format n. if Len ch > 0 \<and> Prec ch \<noteq> 1 \<and> Len ch < n then None else Some (''(TO_CHAR('' @ utc @ '', '' @ plain_quoted format @ ''))'', utc_note up))
      in if up = ''NULL'' \<or> e = [] then Some ([], [])
         else if up = ''CURRENT_TIMESTAMP'' then
           (if Family ch = DatetimeFamily then Some (paren utc, []) else if Family ch = TextFamily then txt ''YYYY-MM-DD HH24:MI:SS'' 19 else None)
         else if up = ''CURRENT_DATE'' then
           (if Family ch = DateFamily then Some (''(TRUNC('' @ utc @ ''))'', []) else if Family ch = TextFamily then txt ''YYYY-MM-DD'' 10 else None)
         else if up = ''CURRENT_TIME'' then (if Family ch = TextFamily then txt ''HH24:MI:SS'' 8 else None)
         else if reDefNumber e then oracle_numberDefault env parse (without_plus e) ch
         else case quoted_default e of
             Some t \<Rightarrow> oracle_textDefault env parse t ch
           | None \<Rightarrow>
               if (up = ''TRUE'' \<or> up = ''FALSE'') \<and> Family ch \<in> {BoolFamily, IntFamily} then Some (if up = ''TRUE'' then ''(1)'' else ''(0)'', []) else None)"

end
