(* ===== verification/Script_Types_Properties.thy ===== *)
theory Script_Types_Properties
  imports Script_Types Copy_Types_Properties
begin

text \<open>
  The types the script dialects choose hold the values of the column.  What the statistics of a
  script column bound is proved once; the locale \<open>dialect_types\<close> states what a dialect promises of its
  types, and each dialect interprets it.
\<close>


section \<open>The statistics\<close>

lemma textLength_simps [simp]:
  "cs (textLength t s) = (cs s)\<lparr>maxLen := max (maxLen (cs s)) (int (length (runes t)))\<rparr>"
  "MaxBytes (textLength t s) = max (MaxBytes s) (int (length t))" "MaxU16 (textLength t s) = max (MaxU16 s) (utf16Len t)"
  "MaxBlob (textLength t s) = MaxBlob s" "BadUTF8 (textLength t s) = BadUTF8 s" "NonFinite (textLength t s) = NonFinite s"
  "Denormal (textLength t s) = Denormal s" "LowYear (textLength t s) = LowYear s" "GregorianGap (textLength t s) = GregorianGap s"
  "MaxFsp (textLength t s) = MaxFsp s" "MaxIntDigits (textLength t s) = MaxIntDigits s" "MaxFracDigits (textLength t s) = MaxFracDigits s"
  by (simp_all add: textLength_def)

lemma stat_digits_simps [simp]:
  "cs (stat_digits t s) = cs s" "MaxBytes (stat_digits t s) = MaxBytes s" "MaxU16 (stat_digits t s) = MaxU16 s" "MaxBlob (stat_digits t s) = MaxBlob s"
  "BadUTF8 (stat_digits t s) = BadUTF8 s" "NonFinite (stat_digits t s) = NonFinite s" "Denormal (stat_digits t s) = Denormal s"
  "LowYear (stat_digits t s) = LowYear s" "GregorianGap (stat_digits t s) = GregorianGap s" "MaxFsp (stat_digits t s) = MaxFsp s"
  "MaxIntDigits (stat_digits t s) = max (MaxIntDigits s) (int (length (TrimLeft (CHR ''0'') (int_part t))))"
  "MaxFracDigits (stat_digits t s) = max (MaxFracDigits s) (int (length (frac_part t)))"
  by (simp_all add: stat_digits_def)

lemma stat_spelling_simps [simp]:
  "cs (stat_spelling t s) = cs s" "MaxBytes (stat_spelling t s) = MaxBytes s" "MaxU16 (stat_spelling t s) = MaxU16 s" "MaxBlob (stat_spelling t s) = MaxBlob s"
  "BadUTF8 (stat_spelling t s) = BadUTF8 s" "NonFinite (stat_spelling t s) = NonFinite s" "Denormal (stat_spelling t s) = Denormal s"
  "LowYear (stat_spelling t s) = LowYear s" "GregorianGap (stat_spelling t s) = GregorianGap s" "MaxFsp (stat_spelling t s) = MaxFsp s"
  "MaxIntDigits (stat_spelling t s) = MaxIntDigits s" "MaxFracDigits (stat_spelling t s) = MaxFracDigits s"
  by (simp_all add: stat_spelling_def Let_def)

lemma stat_gap_simps [simp]:
  "cs (stat_gap x s) = cs s" "MaxBytes (stat_gap x s) = MaxBytes s" "MaxU16 (stat_gap x s) = MaxU16 s"
  "MaxBlob (stat_gap x s) = MaxBlob s" "BadUTF8 (stat_gap x s) = BadUTF8 s" "NonFinite (stat_gap x s) = NonFinite s"
  "Denormal (stat_gap x s) = Denormal s" "LowYear (stat_gap x s) = LowYear s" "GregorianGap (stat_gap x s) = GregorianGap s + of_bool (in_gap x)"
  "MaxFsp (stat_gap x s) = MaxFsp s" "MaxIntDigits (stat_gap x s) = MaxIntDigits s" "MaxFracDigits (stat_gap x s) = MaxFracDigits s"
  by (simp_all add: stat_gap_def)

lemma low_year_simps [simp]:
  "cs (low_year x s) = cs s" "MaxBytes (low_year x s) = MaxBytes s" "MaxU16 (low_year x s) = MaxU16 s"
  "MaxBlob (low_year x s) = MaxBlob s" "BadUTF8 (low_year x s) = BadUTF8 s" "NonFinite (low_year x s) = NonFinite s"
  "Denormal (low_year x s) = Denormal s" "LowYear (low_year x s) = LowYear s + of_bool (before_1000 x)" "GregorianGap (low_year x s) = GregorianGap s"
  "MaxFsp (low_year x s) = MaxFsp s" "MaxIntDigits (low_year x s) = MaxIntDigits s" "MaxFracDigits (low_year x s) = MaxFracDigits s"
  by (simp_all add: low_year_def)

lemma stat_fsp_simps [simp]:
  "cs (stat_fsp x s) = cs s" "MaxBytes (stat_fsp x s) = MaxBytes s" "MaxU16 (stat_fsp x s) = MaxU16 s"
  "MaxBlob (stat_fsp x s) = MaxBlob s" "BadUTF8 (stat_fsp x s) = BadUTF8 s" "NonFinite (stat_fsp x s) = NonFinite s"
  "Denormal (stat_fsp x s) = Denormal s" "LowYear (stat_fsp x s) = LowYear s" "GregorianGap (stat_fsp x s) = GregorianGap s"
  "MaxFsp (stat_fsp x s) = (if has_point x then max (MaxFsp s) (decimals_of x) else MaxFsp s)" "MaxIntDigits (stat_fsp x s) = MaxIntDigits s" "MaxFracDigits (stat_fsp x s) = MaxFracDigits s"
  by (simp_all add: stat_fsp_def)

definition timely :: "string \<Rightarrow> bool" where
  "timely x \<longleftrightarrow> reDate x \<or> reTS x"

lemma script_text_simps [simp]:
  "cs (script_text x s) = cs s" "MaxBytes (script_text x s) = max (MaxBytes s) (int (length x))" "MaxU16 (script_text x s) = max (MaxU16 s) (utf16Len x)"
  "MaxBlob (script_text x s) = MaxBlob s" "BadUTF8 (script_text x s) = BadUTF8 s + of_bool (\<not> ValidString x)" "NonFinite (script_text x s) = NonFinite s"
  "Denormal (script_text x s) = Denormal s" "LowYear (script_text x s) = LowYear s + of_bool (timely x \<and> before_1000 x)" "GregorianGap (script_text x s) = GregorianGap s + of_bool (timely x \<and> in_gap x)"
  "MaxFsp (script_text x s) = (if \<not> reDate x \<and> (reTS x \<or> reTime x) \<and> has_point x then max (MaxFsp s) (decimals_of x) else MaxFsp s)" "MaxIntDigits (script_text x s) = (if reDec x then max (MaxIntDigits s) (int (length (TrimLeft (CHR ''0'') (int_part x)))) else MaxIntDigits s)" "MaxFracDigits (script_text x s) = (if reDec x then max (MaxFracDigits s) (int (length (frac_part x))) else MaxFracDigits s)"
  by (simp_all add: script_text_def Let_def timely_def)

lemma script_real_simps [simp]:
  "cs (script_real env x s) = cs s" "MaxBytes (script_real env x s) = MaxBytes s" "MaxU16 (script_real env x s) = MaxU16 s"
  "MaxBlob (script_real env x s) = MaxBlob s" "BadUTF8 (script_real env x s) = BadUTF8 s" "NonFinite (script_real env x s) = NonFinite s + of_bool (\<not> is_finite64 x)"
  "Denormal (script_real env x s) = Denormal s + of_bool (is_finite64 x \<and> mag_bits x \<noteq> 0 \<and> mag_bits x < 2 ^ 52)" "LowYear (script_real env x s) = LowYear s" "GregorianGap (script_real env x s) = GregorianGap s"
  "MaxFsp (script_real env x s) = MaxFsp s" "MaxIntDigits (script_real env x s) = (if is_finite64 x then max (MaxIntDigits s) (int (length (TrimLeft (CHR ''0'') (int_part (FormatFloat_f (base_env env) x))))) else MaxIntDigits s)" "MaxFracDigits (script_real env x s) = (if is_finite64 x then max (MaxFracDigits s) (int (length (frac_part (FormatFloat_f (base_env env) x)))) else MaxFracDigits s)"
  by (simp_all add: script_real_def Let_def)

text \<open>What a value is written as in a column of texts or bytes, and as a decimal.\<close>

definition written :: "script_env \<Rightarrow> sqlite_value \<Rightarrow> string option" where
  "written env v = (case v of SInt i \<Rightarrow> Some (show_int i) | SReal x \<Rightarrow> Some (real_text env x) | SText x \<Rightarrow> Some x | _ \<Rightarrow> None)"

lemmas scan_defs = scan_value_def script_add_def script_int_def Let_def

lemma scan_bounds:
  "MaxBytes s \<le> MaxBytes (scan_value env s v)" "MaxU16 s \<le> MaxU16 (scan_value env s v)" "MaxBlob s \<le> MaxBlob (scan_value env s v)"
  "MaxIntDigits s \<le> MaxIntDigits (scan_value env s v)" "MaxFracDigits s \<le> MaxFracDigits (scan_value env s v)" "MaxFsp s \<le> MaxFsp (scan_value env s v)"
  by (cases v; simp add: scan_defs)+

lemma scan_max:
  "written env v = Some t \<Longrightarrow> int (length t) \<le> MaxBytes (scan_value env s v) \<and> utf16Len t \<le> MaxU16 (scan_value env s v) \<and>
     int (length (runes t)) \<le> maxLen (cs (scan_value env s v))"
  "v = SBlob x \<Longrightarrow> int (length x) \<le> MaxBlob (scan_value env s v)"
  "decimal_text_of (base_env env) v = Some t \<Longrightarrow> reDec t \<Longrightarrow>
     int (length (TrimLeft (CHR ''0'') (int_part t))) \<le> MaxIntDigits (scan_value env s v) \<and> int (length (frac_part t)) \<le> MaxFracDigits (scan_value env s v)"
  "v = SText x \<Longrightarrow> \<not> reDate x \<and> (reTS x \<or> reTime x) \<Longrightarrow> has_point x \<Longrightarrow> decimals_of x \<le> MaxFsp (scan_value env s v)"
     apply (cases v; auto simp: scan_defs written_def add_value_def)
    apply (simp add: scan_defs)
   apply (cases v; auto simp: scan_defs decimal_text_of_def split: if_splits)
  apply (auto simp: scan_defs)
  done

lemma scan_counts:
  "BadUTF8 (scan_value env s v) = BadUTF8 s + of_bool (text_with (\<lambda>x. \<not> ValidString x) v)"
  "NonFinite (scan_value env s v) = NonFinite s + of_bool (\<exists>x. v = SReal x \<and> \<not> is_finite64 x)"
  "Denormal (scan_value env s v) = Denormal s + of_bool (\<exists>x. v = SReal x \<and> is_finite64 x \<and> mag_bits x \<noteq> 0 \<and> mag_bits x < 2 ^ 52)"
  "LowYear (scan_value env s v) = LowYear s + of_bool (text_with (\<lambda>x. timely x \<and> before_1000 x) v)"
  "GregorianGap (scan_value env s v) = GregorianGap s + of_bool (text_with (\<lambda>x. timely x \<and> in_gap x) v)"
  by (cases v; simp add: scan_defs text_with_def)+


text \<open>The statistics of the live copy count the same in both scans.\<close>

lemma cs_scan: "\<exists>m. cs (scan_value env s v) = (add_value (base_env env) v (cs s))\<lparr>maxLen := m\<rparr>"
proof -
  have keep: "\<exists>m. r = r\<lparr>maxLen := m\<rparr>" for r :: colStats by (rule exI [of _ "maxLen r"]) simp
  show ?thesis by (cases v) (auto simp: scan_defs keep)
qed

lemma script_stats_snoc [simp]: "script_stats env d (vs @ [v]) = scan_value env (script_stats env d vs) v"
  by (simp add: script_stats_def)

lemma script_stats_Nil [simp]: "script_stats env d [] = newScriptStats d"
  by (simp add: script_stats_def)

lemma script_decl [simp]: "st_decl (cs (script_stats env d vs)) = d"
proof (induction vs rule: rev_induct)
  case (snoc v vs)
  then show ?case using cs_scan [of env "script_stats env d vs" v] by auto
qed (simp add: newScriptStats_def newStats_def)

lemma cs_counts:
  assumes "\<And>v s. st_decl s = d \<Longrightarrow> f (add_value (base_env env) v s) = f s + of_bool (P v)" "\<And>s m. f (s\<lparr>maxLen := m\<rparr>) = f s" "f (newStats d) = (0 :: int)"
  shows "f (cs (script_stats env d vs)) = how_many P vs"
proof (induction vs rule: rev_induct)
  case (snoc v vs)
  have "f (cs (scan_value env (script_stats env d vs) v)) = f (add_value (base_env env) v (cs (script_stats env d vs)))"
    using cs_scan [of env "script_stats env d vs" v] assms(2) by auto
  then show ?case using snoc assms(1) by (simp add: how_many_def)
qed (simp add: assms(3) how_many_def newScriptStats_def)

lemma script_class_counts: "class_count (cs (script_stats env d vs)) c = class_count (column_stats (base_env env) d vs) c"
  unfolding class_counts
proof (rule cs_counts)
  show "class_count (s\<lparr>maxLen := m\<rparr>) c = class_count s c" "class_count (newStats d) c = 0" for s :: colStats and m
    by (cases c; simp add: new_defs)+
qed (simp only: add_value_counts)

lemma script_same:
  "st_ints (cs (script_stats env d vs)) = st_ints (column_stats (base_env env) d vs)" "st_reals (cs (script_stats env d vs)) = st_reals (column_stats (base_env env) d vs)"
  "st_texts (cs (script_stats env d vs)) = st_texts (column_stats (base_env env) d vs)" "st_blobs (cs (script_stats env d vs)) = st_blobs (column_stats (base_env env) d vs)"
  using script_class_counts [of env d vs IntClass] script_class_counts [of env d vs RealClass] script_class_counts [of env d vs TextClass]
    script_class_counts [of env d vs BlobClass] by (simp_all add: class_count_def)

lemma script_only: "only_classes (cs (script_stats env d vs)) k = only_classes (column_stats (base_env env) d vs) k"
  by (simp only: only_classes_def script_class_counts)

lemma script_counts:
  "textWithNUL (cs (script_stats env d vs)) = textWithNUL (column_stats (base_env env) d vs)" "dateOK (cs (script_stats env d vs)) = dateOK (column_stats (base_env env) d vs)"
  "tsOK (cs (script_stats env d vs)) = tsOK (column_stats (base_env env) d vs)" "timeOK (cs (script_stats env d vs)) = timeOK (column_stats (base_env env) d vs)"
  "decOK (cs (script_stats env d vs)) = decOK (column_stats (base_env env) d vs)" "decFit (cs (script_stats env d vs)) = decFit (column_stats (base_env env) d vs)"
  "nonBool (cs (script_stats env d vs)) = nonBool (column_stats (base_env env) d vs)" "intInexact (cs (script_stats env d vs)) = intInexact (column_stats (base_env env) d vs)"
  unfolding stats_counts by (rule cs_counts; simp add: add_value_counts newStats_def)+

lemma script_ranges:
  "minInt (cs (script_stats env d vs)) = minInt (column_stats (base_env env) d vs) \<and> maxInt (cs (script_stats env d vs)) = maxInt (column_stats (base_env env) d vs)"
proof (induction vs rule: rev_induct)
  case (snoc v vs)
  then show ?case using cs_scan [of env "script_stats env d vs" v] script_same(1) [of env d vs] by (cases v) (auto simp: add_value_def)
qed (simp add: newScriptStats_def)

text \<open>What the additional statistics bound and count.\<close>

lemma script_count:
  assumes "\<And>v s. f (scan_value env s v) = f s + of_bool (P v)" "f (newScriptStats d) = (0 :: int)"
  shows "f (script_stats env d vs) = how_many P vs"
  by (induction vs rule: rev_induct) (simp_all add: assms how_many_def)

lemma script_stats_counts:
  "BadUTF8 (script_stats env d vs) = how_many (text_with (\<lambda>x. \<not> ValidString x)) vs"
  "NonFinite (script_stats env d vs) = how_many (\<lambda>v. \<exists>x. v = SReal x \<and> \<not> is_finite64 x) vs"
  "Denormal (script_stats env d vs) = how_many (\<lambda>v. \<exists>x. v = SReal x \<and> is_finite64 x \<and> mag_bits x \<noteq> 0 \<and> mag_bits x < 2 ^ 52) vs"
  "LowYear (script_stats env d vs) = how_many (text_with (\<lambda>x. timely x \<and> before_1000 x)) vs"
  "GregorianGap (script_stats env d vs) = how_many (text_with (\<lambda>x. timely x \<and> in_gap x)) vs"
  by (rule script_count [where f = BadUTF8] script_count [where f = NonFinite] script_count [where f = Denormal] script_count [where f = LowYear]
      script_count [where f = GregorianGap], rule scan_counts, simp add: newScriptStats_def)+

lemma script_max:
  assumes "\<And>s u. f s \<le> (f (scan_value env s u) :: int)" "v \<in> set vs" "\<And>s. b \<le> f (scan_value env s v)"
  shows "b \<le> f (script_stats env d vs)"
  using assms(2)
proof (induction vs rule: rev_induct)
  case (snoc u vs)
  then show ?case using assms(1) [of "script_stats env d vs" u] assms(3) by (cases "u = v") (auto intro: order_trans)
qed simp


lemma maxLen_grows: "maxLen (cs s) \<le> maxLen (cs (scan_value env s v))"
  by (cases v) (auto simp: scan_defs add_value_def)

lemma written_bounds:
  assumes "v \<in> set vs" "written env v = Some t"
  shows "int (length t) \<le> MaxBytes (script_stats env d vs)" "utf16Len t \<le> MaxU16 (script_stats env d vs)"
    "int (length (runes t)) \<le> maxLen (cs (script_stats env d vs))"
  by (rule script_max [OF scan_bounds(1) assms(1)] script_max [OF scan_bounds(2) assms(1)] script_max [where f = "\<lambda>s. maxLen (cs s)", OF maxLen_grows assms(1)];
      use scan_max(1) [OF assms(2)] in blast)+

lemma blob_bound: "SBlob x \<in> set vs \<Longrightarrow> int (length x) \<le> MaxBlob (script_stats env d vs)"
  by (rule script_max [OF scan_bounds(3)]) (assumption, rule scan_max(2), rule refl)

lemma digit_bounds:
  assumes "v \<in> set vs" "decimal_text_of (base_env env) v = Some t" "reDec t"
  shows "int (length (TrimLeft (CHR ''0'') (int_part t))) \<le> MaxIntDigits (script_stats env d vs)" "int (length (frac_part t)) \<le> MaxFracDigits (script_stats env d vs)"
  by (rule script_max [OF scan_bounds(4) assms(1)] script_max [OF scan_bounds(5) assms(1)]; use scan_max(3) [OF assms(2,3)] in blast)+

lemma fsp_bound:
  assumes "SText x \<in> set vs" "\<not> reDate x \<and> (reTS x \<or> reTime x)" "has_point x"
  shows "decimals_of x \<le> MaxFsp (script_stats env d vs)"
  by (rule script_max [OF scan_bounds(6) assms(1)]) (rule scan_max(4) [OF refl assms(2,3)])

lemma shape_no_point: "shape p s \<Longrightarrow> CHR ''.'' \<notin> set p \<Longrightarrow> CHR ''.'' \<notin> set s"
  by (induction p s rule: shape.induct) (auto simp: is_digit_def split: if_splits)

lemma fraction_decimals:
  assumes "shape p (take n x)" "CHR ''.'' \<notin> set p" "fraction_shape (drop n x)"
  shows "decimals_of x \<le> 6"
proof -
  have "dropWhile (\<lambda>c. c \<noteq> CHR ''.'') (take n x @ drop n x) = dropWhile (\<lambda>c. c \<noteq> CHR ''.'') (drop n x)"
    by (rule dropWhile_append2) (use shape_no_point [OF assms(1,2)] in blast)
  then have eq: "decimals_of x = int (length (tl (dropWhile (\<lambda>c. c \<noteq> CHR ''.'') (drop n x))))" by (simp add: decimals_of_def)
  show ?thesis
  proof (cases "drop n x")
    case (Cons c ds)
    then have "c = CHR ''.''" "length ds \<le> 6" using assms(3) by (simp_all add: fraction_shape_def)
    then show ?thesis unfolding eq Cons by simp
  qed (simp add: eq)
qed

lemma time_decimals: "reTS x \<or> reTime x \<Longrightarrow> decimals_of x \<le> 6"
proof -
  assume "reTS x \<or> reTime x"
  then consider "shape ''dddd-dd-dd dd:dd:dd'' (take 19 x)" "fraction_shape (drop 19 x)" | "shape ''dd:dd:dd'' (take 8 x)" "fraction_shape (drop 8 x)"
    unfolding reTS_def reTime_def by blast
  then show "decimals_of x \<le> 6"
  proof cases
    case 1
    show ?thesis by (rule fraction_decimals [OF 1(1) _ 1(2)]) simp
  next
    case 2
    show ?thesis by (rule fraction_decimals [OF 2(1) _ 2(2)]) simp
  qed
qed

lemma no_point_decimals: "\<not> has_point x \<Longrightarrow> decimals_of x = 0"
proof -
  assume "\<not> has_point x"
  then have e: "dropWhile (\<lambda>c. c \<noteq> CHR ''.'') x = []" unfolding dropWhile_eq_Nil_conv has_point_def by blast
  show ?thesis unfolding decimals_of_def e by simp
qed


section \<open>What the types of a dialect hold\<close>

text \<open>
  What an engine's types hold beyond their parts: which floats and which dates, the largest precision,
  and, for a type as it is written and its length, which texts and bytes.
\<close>

record limits =
  holds_float :: "float64 \<Rightarrow> bool"
  holds_date :: "string \<Rightarrow> bool"
  holds_precision :: "int \<Rightarrow> int \<Rightarrow> bool"
  holds_text :: "string \<Rightarrow> int \<Rightarrow> string \<Rightarrow> bool"
  holds_bytes :: "string \<Rightarrow> int \<Rightarrow> string \<Rightarrow> bool"

definition decimal_fits_type :: "limits \<Rightarrow> script_choice \<Rightarrow> string \<Rightarrow> bool" where
  "decimal_fits_type lm ch t \<longleftrightarrow> reDec t \<and> holds_precision lm (Prec ch) (Scale ch) \<and>
     int (length (TrimLeft (CHR ''0'') (int_part t))) \<le> Prec ch - Scale ch \<and> int (length (frac_part t)) \<le> Scale ch"

definition script_holds :: "script_env \<Rightarrow> limits \<Rightarrow> script_choice \<Rightarrow> sqlite_value \<Rightarrow> bool" where
  "script_holds env lm ch v =
     (case v of
        SNil \<Rightarrow> True
      | SInt i \<Rightarrow>
          (case Family ch of
             IntFamily \<Rightarrow> Bits ch \<in> {16, 32, 64} \<and> - (2 ^ nat (Bits ch - 1)) \<le> i \<and> i < 2 ^ nat (Bits ch - 1)
           | BoolFamily \<Rightarrow> i = 0 \<or> i = 1
           | FloatFamily \<Rightarrow> is_finite64 (int_to_float i) \<and> f64_value (int_to_float i) = of_int i
           | DecimalFamily \<Rightarrow> decimal_fits_type lm ch (show_int i)
           | TextFamily \<Rightarrow> holds_text lm (c_Type ch) (Len ch) (show_int i)
           | BytesFamily \<Rightarrow> holds_bytes lm (c_Type ch) (Len ch) (show_int i)
           | _ \<Rightarrow> False)
      | SReal x \<Rightarrow>
          (case Family ch of
             FloatFamily \<Rightarrow> holds_float lm x
           | DecimalFamily \<Rightarrow> is_finite64 x \<and> decimal_fits_type lm ch (FormatFloat_f (base_env env) x)
           | TextFamily \<Rightarrow> holds_text lm (c_Type ch) (Len ch) (real_text env x)
           | BytesFamily \<Rightarrow> holds_bytes lm (c_Type ch) (Len ch) (real_text env x)
           | _ \<Rightarrow> False)
      | SText x \<Rightarrow>
          (case Family ch of
             DecimalFamily \<Rightarrow> decimal_fits_type lm ch x
           | DateFamily \<Rightarrow> date_ok (base_env env) x \<and> holds_date lm x
           | DatetimeFamily \<Rightarrow> ts_ok (base_env env) x \<and> holds_date lm x \<and> decimals_of x \<le> Fsp ch
           | TimeFamily \<Rightarrow> pgtime_ok (base_env env) x \<and> decimals_of x \<le> Fsp ch
           | TextFamily \<Rightarrow> storable_text x \<and> holds_text lm (c_Type ch) (Len ch) x
           | BytesFamily \<Rightarrow> holds_bytes lm (c_Type ch) (Len ch) x
           | _ \<Rightarrow> False)
      | SBlob x \<Rightarrow> Family ch = BytesFamily \<and> holds_bytes lm (c_Type ch) (Len ch) x)"

text \<open>Notes, examples and counts do not matter.\<close>

definition same_type :: "script_choice \<Rightarrow> script_choice \<Rightarrow> bool" where
  "same_type a b \<longleftrightarrow> Family a = Family b \<and> c_Type a = c_Type b \<and> Bits a = Bits b \<and> Len a = Len b \<and> Prec a = Prec b \<and> Scale a = Scale b \<and> Fsp a = Fsp b"

lemma same_type_simps [simp]:
  "same_type ch ch" "same_type (ch\<lparr>Normalized := k, c_Example := e\<rparr>) ch" "same_type (script_widen q (ch\<lparr>Normalized := k, c_Example := e\<rparr>) w) ch"
  by (simp_all add: same_type_def script_widen_def)

lemma script_holds_same: "same_type a b \<Longrightarrow> script_holds env lm a v \<longleftrightarrow> script_holds env lm b v"
  by (simp add: same_type_def script_holds_def decimal_fits_type_def split: sqlite_value.splits family.splits)

lemma holds_notes [simp]:
  "script_holds env lm (ch\<lparr>c_Note := n\<rparr>) v = script_holds env lm ch v" "script_holds env lm (ch\<lparr>Normalized := k, c_Example := e\<rparr>) v = script_holds env lm ch v"
  "script_holds env lm (script_widen q ch w) v = script_holds env lm ch v"
  by (rule script_holds_same; simp add: same_type_def script_widen_def)+

lemma holds_nil [simp]: "script_holds env lm ch SNil"
  by (simp add: script_holds_def)


lemma digits_nonneg: "0 \<le> MaxIntDigits (script_stats env d vs)" "0 \<le> MaxFracDigits (script_stats env d vs)"
proof -
  have "0 \<le> MaxIntDigits (script_stats env d vs) \<and> 0 \<le> MaxFracDigits (script_stats env d vs)"
  proof (induction vs rule: rev_induct)
    case (snoc v vs)
    then show ?case using scan_bounds(4,5) [where s = "script_stats env d vs" and env = env and v = v] by simp
  qed (simp add: newScriptStats_def)
  then show "0 \<le> MaxIntDigits (script_stats env d vs)" "0 \<le> MaxFracDigits (script_stats env d vs)" by simp_all
qed

definition int64_value :: "sqlite_value \<Rightarrow> bool" where
  "int64_value v = (case v of SInt i \<Rightarrow> - (2 ^ 63) \<le> i \<and> i < 2 ^ 63 | _ \<Rightarrow> True)"

text \<open>The texts and bytes a value is written as are ones the target keeps.\<close>

definition all_kept :: "script_env \<Rightarrow> (string \<Rightarrow> bool) \<Rightarrow> sqlite_value \<Rightarrow> bool" where
  "all_kept env kept v = (case v of SNil \<Rightarrow> True | SInt i \<Rightarrow> kept (show_int i) | SReal x \<Rightarrow> kept (real_text env x) | SText x \<Rightarrow> kept x | SBlob x \<Rightarrow> kept x)"

text \<open>
  The contract of a dialect's types: their parts, the precision of a computed decimal, and that the
  types of texts and bytes hold what is no longer than the statistics say.
\<close>

locale dialect_types =
  fixes lm :: limits
    and int_c :: "int \<Rightarrow> script_choice" and float_c :: script_choice and bool_c :: script_choice
    and decimal_c :: "int \<Rightarrow> int \<Rightarrow> script_choice" and computed_c :: "scriptStats \<Rightarrow> script_choice option"
    and date_c :: "scriptStats \<Rightarrow> family \<Rightarrow> kind \<Rightarrow> script_choice"
    and text_c :: "scriptStats \<Rightarrow> int \<Rightarrow> bool \<Rightarrow> script_choice" and bytes_c :: "scriptStats \<Rightarrow> bool \<Rightarrow> script_choice"
    and units :: "scriptStats \<Rightarrow> int" and kept :: "scriptStats \<Rightarrow> bool \<Rightarrow> string \<Rightarrow> bool"
  assumes int_parts: "Family (int_c b) = IntFamily" "Bits (int_c b) = b"
    and float_parts: "Family float_c = FloatFamily"
    and bool_parts: "Family bool_c = BoolFamily"
    and decimal_parts: "Family (decimal_c p s) = DecimalFamily" "Prec (decimal_c p s) = p" "Scale (decimal_c p s) = s"
    and computed_parts: "computed_c st = Some ch \<Longrightarrow> 0 \<le> MaxIntDigits st \<Longrightarrow> 0 \<le> MaxFracDigits st \<Longrightarrow>
        ch = decimal_c (max (MaxIntDigits st + MaxFracDigits st) 1) (MaxFracDigits st) \<and> holds_precision lm (Prec ch) (Scale ch)"
    and date_parts: "Family (date_c st f k) = f" "f \<noteq> DateFamily \<Longrightarrow> min (MaxFsp st) 6 \<le> Fsp (date_c st f k)"
    and text_parts: "Family (text_c st n keyed) = TextFamily"
        "kept st keyed x \<Longrightarrow> n = 0 \<or> units st \<le> n \<Longrightarrow> int (length x) \<le> MaxBytes st \<Longrightarrow> utf16Len x \<le> MaxU16 st \<Longrightarrow>
           int (length (runes x)) \<le> maxLen (cs st) \<Longrightarrow> holds_text lm (c_Type (text_c st n keyed)) (Len (text_c st n keyed)) x"
    and bytes_parts: "Family (bytes_c st keyed) = BytesFamily"
        "kept st keyed x \<Longrightarrow> int (length x) \<le> max (MaxBlob st) (MaxBytes st) \<Longrightarrow> holds_bytes lm (c_Type (bytes_c st keyed)) (Len (bytes_c st keyed)) x"
begin

lemma int_held:
  assumes "only_classes (cs (script_stats env d vs)) [IntClass]" "v \<in> set vs" "b \<in> {16, 32, 64}"
    and "\<And>i. v = SInt i \<Longrightarrow> - (2 ^ nat (b - 1)) \<le> i \<and> i < 2 ^ nat (b - 1)"
  shows "script_holds env lm (int_c b) v"
  using only_cases [OF assms(1) [unfolded script_only] assms(2)] assms(3,4) by (auto simp: script_holds_def int_parts)

lemma big_int_held:
  assumes "only_classes (cs (script_stats env d vs)) [IntClass]" "v \<in> set vs" "int64_value v"
  shows "script_holds env lm (int_c 64) v"
  by (rule int_held [OF assms(1,2)]) (use assms(3) in \<open>simp_all add: int64_value_def\<close>)

lemma declared_int_held:
  assumes "only_classes (cs (script_stats env d vs)) [IntClass]" "v \<in> set vs" "int64_value v" "decl_ok d" "di_class d = declInt" "\<not> int_overflows (cs (script_stats env d vs))"
  shows "script_holds env lm (int_c (declared_bits (di_width d))) v"
proof (rule int_held [OF assms(1,2)])
  fix i assume "v = SInt i"
  then have "minInt (column_stats (base_env env) d vs) \<le> i \<and> i \<le> maxInt (column_stats (base_env env) d vs)" "- (2 ^ 63) \<le> i \<and> i < 2 ^ 63"
    using int_bounds assms(2,3) by (auto simp: int64_value_def)
  then show "- (2 ^ nat (declared_bits (di_width d) - 1)) \<le> i \<and> i < 2 ^ nat (declared_bits (di_width d) - 1)"
    using assms(4-6) by (auto simp: int_overflows_def script_ranges decl_ok_def declared_bits_def)
qed (use assms(4,5) in \<open>auto simp: decl_ok_def declared_bits_def\<close>)

lemma float_held:
  assumes "only_classes (cs (script_stats env d vs)) [IntClass, RealClass]" "intInexact (cs (script_stats env d vs)) = 0" "v \<in> set vs"
    and "\<And>x. v = SReal x \<Longrightarrow> holds_float lm x"
  shows "script_holds env lm float_c v"
proof -
  have "\<bar>i\<bar> \<le> 2 ^ 53" if "v = SInt i" for i
    using assms(2,3) that unfolding script_counts stats_counts how_many_zero by (force simp: abs_le_iff)
  then show ?thesis using only_cases [OF assms(1) [unfolded script_only] assms(3)] assms(4) int_to_float_exact by (auto simp: script_holds_def float_parts)
qed

lemma bool_held:
  assumes "only_classes (cs (script_stats env d vs)) [IntClass]" "nonBool (cs (script_stats env d vs)) = 0" "v \<in> set vs"
  shows "script_holds env lm bool_c v"
proof -
  have "i = 0 \<or> i = 1" if "v = SInt i" for i using assms(2,3) that unfolding script_counts stats_counts how_many_zero by blast
  then show ?thesis using only_cases [OF assms(1) [unfolded script_only] assms(3)] by (auto simp: script_holds_def bool_parts)
qed

lemma decimal_holdsI:
  assumes "decimal_text_of (base_env env) v = Some t" "decimal_fits_type lm ch t" "Family ch = DecimalFamily"
  shows "script_holds env lm ch v"
  using assms by (cases v) (auto simp: decimal_text_of_def script_holds_def split: if_splits)

lemma decimal_texts:
  assumes "only_classes (cs (script_stats env d vs)) k" "BlobClass \<notin> set k"
    and "decOK (cs (script_stats env d vs)) = st_ints (cs (script_stats env d vs)) + st_reals (cs (script_stats env d vs)) + st_texts (cs (script_stats env d vs))"
    and "v \<in> set vs" "v \<noteq> SNil"
  obtains t where "decimal_text_of (base_env env) v = Some t" "reDec t"
proof -
  have "decOK (column_stats (base_env env) d vs) = how_many (is_class IntClass) vs + how_many (is_class RealClass) vs + how_many (is_class TextClass) vs"
    using assms(3) class_counts [of "base_env env" d vs IntClass] class_counts [of "base_env env" d vs RealClass] class_counts [of "base_env env" d vs TextClass]
    unfolding script_counts script_same class_count_def by simp
  then show thesis using decimal_all [OF assms(1) [unfolded script_only] assms(2) _ assms(4,5)] that by blast
qed

lemma computed_held:
  assumes "only_classes (cs (script_stats env d vs)) k" "BlobClass \<notin> set k"
    and "decOK (cs (script_stats env d vs)) = st_ints (cs (script_stats env d vs)) + st_reals (cs (script_stats env d vs)) + st_texts (cs (script_stats env d vs))"
    and "computed_c (script_stats env d vs) = Some ch" "v \<in> set vs"
  shows "script_holds env lm ch v"
proof (cases "v = SNil")
  case False
  obtain t where t: "decimal_text_of (base_env env) v = Some t" "reDec t" using decimal_texts [OF assms(1-3,5) False] .
  have ch: "ch = decimal_c (max (MaxIntDigits (script_stats env d vs) + MaxFracDigits (script_stats env d vs)) 1) (MaxFracDigits (script_stats env d vs)) \<and>
      holds_precision lm (Prec ch) (Scale ch)" by (rule computed_parts [OF assms(4) digits_nonneg])
  then have "decimal_fits_type lm ch t" using t(2) digit_bounds [OF assms(5) t, of d] by (auto simp: decimal_fits_type_def decimal_parts)
  then show ?thesis using decimal_holdsI [OF t(1)] ch decimal_parts by metis
qed simp

lemma declared_decimal_held:
  assumes "all_decimals (script_stats env d vs)" "decFit (cs (script_stats env d vs)) = decOK (cs (script_stats env d vs))" "v \<in> set vs" "0 \<le> di_p d"
    and "holds_precision lm (di_p d) (di_s d)"
  shows "script_holds env lm (decimal_c (di_p d) (di_s d)) v"
proof (cases "v = SNil")
  case False
  obtain t where t: "decimal_text_of (base_env env) v = Some t" "reDec t"
    using decimal_texts [of env d vs "[IntClass, RealClass, TextClass]", OF _ _ _ assms(3) False] assms(1) unfolding all_decimals_def by auto
  have "fits_decl d t" using decimal_fits [OF _ assms(3) t] assms(2) by (simp add: script_counts)
  then have "decimal_fits_type lm (decimal_c (di_p d) (di_s d)) t" using t(2) assms(4,5) by (auto simp: decimal_fits_type_def decimal_parts fits_decl_def)
  then show ?thesis using decimal_holdsI [OF t(1)] decimal_parts by metis
qed simp

lemma decimal_choice_held:
  assumes "all_decimals (script_stats env d vs)" "v \<in> set vs"
    and "same_type ch (decimal_c (di_p d) (di_s d)) \<and> decFit (cs (script_stats env d vs)) = decOK (cs (script_stats env d vs)) \<and> 0 \<le> di_p d \<and> holds_precision lm (di_p d) (di_s d) \<or>
      (\<exists>ch'. computed_c (script_stats env d vs) = Some ch' \<and> same_type ch ch')"
  shows "script_holds env lm ch v"
  using assms(3)
proof (elim disjE exE conjE)
  fix ch' assume ch': "computed_c (script_stats env d vs) = Some ch'" "same_type ch ch'"
  have "script_holds env lm ch' v" by (rule computed_held [OF _ _ _ ch'(1) assms(2), of "[IntClass, RealClass, TextClass]"]) (use assms(1) in \<open>simp_all add: all_decimals_def\<close>)
  then show ?thesis using script_holds_same [OF ch'(2)] by blast
next
  assume "same_type ch (decimal_c (di_p d) (di_s d))" "decFit (cs (script_stats env d vs)) = decOK (cs (script_stats env d vs))" "0 \<le> di_p d" "holds_precision lm (di_p d) (di_s d)"
  then show ?thesis using declared_decimal_held [OF assms(1) _ assms(2)] script_holds_same by blast
qed

lemma texts_held:
  assumes "only_classes (cs (script_stats env d vs)) [TextClass]" "how_many (text_with P) vs = st_texts (cs (script_stats env d vs))" "v \<in> set vs"
    and "\<And>x. v = SText x \<Longrightarrow> P x \<Longrightarrow> script_holds env lm ch v"
  shows "script_holds env lm ch v"
proof -
  have "P x" if "v = SText x" for x using text_all [of P vs x] assms(2,3) that by (simp add: script_same texts_count)
  then show ?thesis using only_cases [OF assms(1) [unfolded script_only] assms(3)] assms(4) by auto
qed

lemma date_held:
  assumes "only_classes (cs (script_stats env d vs)) [TextClass]" "dateOK (cs (script_stats env d vs)) = st_texts (cs (script_stats env d vs))" "v \<in> set vs"
    and "\<And>x. v = SText x \<Longrightarrow> timely x \<Longrightarrow> holds_date lm x"
  shows "script_holds env lm (date_c (script_stats env d vs) DateFamily k) v"
  by (rule texts_held [OF assms(1) _ assms(3), where P = "date_ok (base_env env)"])
    (use assms(2,4) in \<open>auto simp: script_counts stats_counts script_holds_def date_parts timely_def date_ok_def\<close>)

lemma fsp_fits:
  assumes "SText x \<in> set vs" "\<not> reDate x \<and> (reTS x \<or> reTime x)" "f \<noteq> DateFamily"
  shows "decimals_of x \<le> Fsp (date_c (script_stats env d vs) f k)"
proof -
  have "0 \<le> MaxFsp (script_stats env d vs)"
  proof (induction vs rule: rev_induct)
    case (snoc v vs)
    then show ?case using scan_bounds(6) [where s = "script_stats env d vs" and env = env and v = v] by simp
  qed (simp add: newScriptStats_def)
  then have "decimals_of x \<le> MaxFsp (script_stats env d vs)" using fsp_bound [OF assms(1,2)] no_point_decimals [of x] by fastforce
  moreover have "decimals_of x \<le> 6" using time_decimals assms(2) by blast
  ultimately show ?thesis using date_parts(2) [OF assms(3), of "script_stats env d vs" k] by linarith
qed

lemma datetime_held:
  assumes "only_classes (cs (script_stats env d vs)) [TextClass]" "tsOK (cs (script_stats env d vs)) = st_texts (cs (script_stats env d vs))" "v \<in> set vs"
    and "\<And>x. v = SText x \<Longrightarrow> timely x \<Longrightarrow> holds_date lm x"
  shows "script_holds env lm (date_c (script_stats env d vs) DatetimeFamily k) v"
proof (rule texts_held [OF assms(1) _ assms(3), where P = "ts_ok (base_env env)"])
  fix x assume x: "v = SText x" "ts_ok (base_env env) x"
  then have "decimals_of x \<le> Fsp (date_c (script_stats env d vs) DatetimeFamily k)" using fsp_fits [of x vs] assms(3) by (simp add: ts_ok_def)
  then show "script_holds env lm (date_c (script_stats env d vs) DatetimeFamily k) v" using x assms(4) by (simp add: script_holds_def date_parts timely_def ts_ok_def)
qed (use assms(2) in \<open>simp add: script_counts stats_counts\<close>)

lemma time_held:
  assumes "only_classes (cs (script_stats env d vs)) [TextClass]" "timeOK (cs (script_stats env d vs)) = st_texts (cs (script_stats env d vs))" "v \<in> set vs"
  shows "script_holds env lm (date_c (script_stats env d vs) TimeFamily k) v"
proof (rule texts_held [OF assms(1) _ assms(3), where P = "pgtime_ok (base_env env)"])
  fix x assume x: "v = SText x" "pgtime_ok (base_env env) x"
  then have "decimals_of x \<le> Fsp (date_c (script_stats env d vs) TimeFamily k)" using fsp_fits [of x vs] assms(3) by (simp add: pgtime_ok_def)
  then show "script_holds env lm (date_c (script_stats env d vs) TimeFamily k) v" using x by (simp add: script_holds_def date_parts)
qed (use assms(2) in \<open>simp add: script_counts stats_counts\<close>)

lemma text_held:
  assumes "st_blobs (cs (script_stats env d vs)) = 0" "textWithNUL (cs (script_stats env d vs)) = 0" "BadUTF8 (script_stats env d vs) = 0" "v \<in> set vs"
    and "n = 0 \<or> units (script_stats env d vs) \<le> n" "all_kept env (kept (script_stats env d vs) keyed) v"
  shows "script_holds env lm (text_c (script_stats env d vs) n keyed) v"
proof -
  let ?ch = "text_c (script_stats env d vs) n keyed"
  have no_blob: "\<not> is_class BlobClass v"
    using assms(1,4) class_counts [of "base_env env" d vs BlobClass] how_many_zero [of "is_class BlobClass" vs] by (auto simp: script_same class_count_def)
  have fits: "holds_text lm (c_Type ?ch) (Len ?ch) t" if "written env v = Some t" for t
    using text_parts(2) [OF _ assms(5) written_bounds [OF assms(4) that]] assms(6) that by (cases v) (auto simp: written_def all_kept_def)
  have store: "storable_text x" if "v = SText x" for x
    using no_nul [of "base_env env" d vs x] text_none [of "\<lambda>x. \<not> ValidString x" vs x] assms(2-4) that by (simp add: storable_text_def script_stats_counts script_counts)
  show ?thesis using no_blob fits store by (cases v) (simp_all add: script_holds_def text_parts written_def is_class_def)
qed

lemma bytes_held:
  assumes "v \<in> set vs" "all_kept env (kept (script_stats env d vs) keyed) v"
  shows "script_holds env lm (bytes_c (script_stats env d vs) keyed) v"
proof -
  let ?ch = "bytes_c (script_stats env d vs) keyed"
  have fits: "holds_bytes lm (c_Type ?ch) (Len ?ch) t" if "written env v = Some t" for t
    using bytes_parts(2) [of "script_stats env d vs" keyed t] written_bounds(1) [OF assms(1) that, of d] assms(2) that by (cases v) (auto simp: written_def all_kept_def)
  have blob: "holds_bytes lm (c_Type ?ch) (Len ?ch) x" if "v = SBlob x" for x
    using bytes_parts(2) [of "script_stats env d vs" keyed x] blob_bound [of x vs env d] assms(1,2) that by (simp add: all_kept_def)
  show ?thesis using fits blob by (cases v) (simp_all add: script_holds_def bytes_parts written_def)
qed

text \<open>The type inferred from the values.\<close>

lemma inferred_held:
  fixes env d vs
  defines "st \<equiv> script_stats env d vs"
  assumes "v \<in> set vs" "int64_value v" "all_kept env (kept st keyed) v"
  shows "script_holds env lm
    (if st_blobs (cs st) > 0 \<or> textWithNUL (cs st) > 0 \<or> BadUTF8 st > 0 then bytes_c st keyed
     else if only_classes (cs st) [IntClass] \<and> \<not> allNull (cs st) then int_c 64
     else if only_classes (cs st) [IntClass, RealClass] \<and> \<not> allNull (cs st) \<and> decOK (cs st) = st_ints (cs st) + st_reals (cs st) \<and> NonFinite st = 0 \<and>
         computed_c st \<noteq> None then the (computed_c st)
     else text_c st 0 keyed) v"
proof -
  have counts: "0 \<le> st_blobs (cs st)" "0 \<le> textWithNUL (cs st)" "0 \<le> BadUTF8 st"
    using class_counts [of "base_env env" d vs BlobClass] by (simp_all add: st_def script_same script_counts stats_counts script_stats_counts class_count_def)
  have computed: "script_holds env lm ch v" if "only_classes (cs st) [IntClass, RealClass]" "decOK (cs st) = st_ints (cs st) + st_reals (cs st)" "computed_c st = Some ch" for ch
  proof -
    have "class_count (cs st) TextClass = 0" using that(1) by (auto simp: only_classes_def)
    then show ?thesis using computed_held [of env d vs "[IntClass, RealClass]" ch v] that assms(2) by (simp add: st_def class_count_def)
  qed
  have bytes: "script_holds env lm (bytes_c st keyed) v" unfolding st_def by (rule bytes_held) (use assms in \<open>simp_all add: st_def\<close>)
  have ints: "script_holds env lm (int_c 64) v" if "only_classes (cs st) [IntClass]" using that big_int_held assms(2,3) unfolding st_def by blast
  have texts: "script_holds env lm (text_c st 0 keyed) v" if "\<not> (st_blobs (cs st) > 0 \<or> textWithNUL (cs st) > 0 \<or> BadUTF8 st > 0)"
    unfolding st_def by (rule text_held) (use that counts assms in \<open>simp_all add: st_def\<close>)
  show ?thesis using bytes ints computed texts by auto
qed

end


section \<open>The three dialects\<close>

text \<open>Lengths in characters and in UTF-16 code units are at most the length in bytes.\<close>

lemma decode_units:
  assumes "DecodeRuneInString x = (r, n)" "x \<noteq> []"
  shows "1 \<le> n \<and> n \<le> length x \<and> (r > 0xFFFF \<longrightarrow> 2 \<le> n)"
proof (cases "well_formed x")
  case True
  then have r: "r = rune_value x" "n = rune_width (byte x 0)" using assms by (simp_all add: DecodeRuneInString_def)
  have n: "n \<noteq> 0" "n \<le> length x" using True unfolding r by (simp_all add: well_formed_def Let_def)
  have "r < 256" if "n = 1" using that byte_bound [of x 0] by (simp add: r rune_value_def)
  then show ?thesis using n by (cases "n = 1") simp_all
next
  case False
  then have "r = RuneError" "n = 1" using assms by (simp_all add: DecodeRuneInString_def)
  then show ?thesis using assms(2) by (cases x) (simp_all add: RuneError_def)
qed

lemma runes_lengths: "length (runes x) \<le> length x \<and> utf16Len x \<le> int (length x)"
proof (induction x rule: length_induct)
  case (1 x)
  show ?case
  proof (cases "x = []")
    case False
    obtain r n where d: "DecodeRuneInString x = (r, n)" by fastforce
    have n: "1 \<le> n" "n \<le> length x" "r > 0xFFFF \<Longrightarrow> 2 \<le> n" using decode_units [OF d False] by blast+
    have "length (runes (drop n x)) \<le> length (drop n x) \<and> utf16Len (drop n x) \<le> int (length (drop n x))" using 1 [rule_format, of "drop n x"] n False by simp
    moreover have "runes x = r # runes (drop n x)" using False by (subst runes.simps) (simp add: d)
    ultimately show ?thesis using n by (auto simp: utf16Len_def)
  qed (simp add: utf16Len_def)
qed

definition small_text :: "scriptStats \<Rightarrow> bool \<Rightarrow> string \<Rightarrow> bool" where
  "small_text st keyed x \<longleftrightarrow> length x < 2 ^ 30"

definition mysql_limits :: limits where
  "mysql_limits = \<lparr>holds_float = is_finite64, holds_date = (\<lambda>x. \<not> before_1000 x),
     holds_precision = (\<lambda>p s. 1 \<le> p \<and> p \<le> 65 \<and> 0 \<le> s \<and> s \<le> 30 \<and> s \<le> p),
     holds_text = (\<lambda>typ n x. typ = ''VARCHAR('' @ show_int n @ '')'' \<and> int (length (runes x)) \<le> n \<or> typ = ''TEXT'' \<and> length x \<le> 65535 \<or>
       typ = ''MEDIUMTEXT'' \<and> length x \<le> 16777215 \<or> typ = ''LONGTEXT'' \<and> length x < 2 ^ 32),
     holds_bytes = (\<lambda>typ n x. typ = ''VARBINARY('' @ show_int n @ '')'' \<and> int (length x) \<le> n \<or> typ = ''BLOB'' \<and> length x \<le> 65535 \<or>
       typ = ''MEDIUMBLOB'' \<and> length x \<le> 16777215 \<or> typ = ''LONGBLOB'' \<and> length x < 2 ^ 32)\<rparr>"

definition mssql_limits :: limits where
  "mssql_limits = \<lparr>holds_float = (\<lambda>x. is_finite64 x \<and> (mag_bits x = 0 \<or> 2 ^ 52 \<le> mag_bits x)), holds_date = (\<lambda>x. True),
     holds_precision = (\<lambda>p s. 1 \<le> p \<and> p \<le> 38 \<and> 0 \<le> s \<and> s \<le> p),
     holds_text = (\<lambda>typ n x. typ = ''NVARCHAR('' @ show_int n @ '')'' \<and> utf16Len x \<le> n \<and> n \<le> 4000 \<or> typ = ''NVARCHAR(MAX)'' \<and> 2 * utf16Len x < 2 ^ 31),
     holds_bytes = (\<lambda>typ n x. typ = ''VARBINARY('' @ show_int n @ '')'' \<and> int (length x) \<le> n \<and> n \<le> 8000 \<or> typ = ''VARBINARY(MAX)'' \<and> length x < 2 ^ 31)\<rparr>"

definition oracle_limits :: limits where
  "oracle_limits = \<lparr>holds_float = (\<lambda>x. True), holds_date = (\<lambda>x. \<not> in_gap x),
     holds_precision = (\<lambda>p s. 1 \<le> p \<and> p \<le> 38 \<and> 0 \<le> s \<and> s \<le> p),
     holds_text = (\<lambda>typ n x. x \<noteq> [] \<and> (typ = ''VARCHAR2('' @ show_int n @ '' CHAR)'' \<and> int (length (runes x)) \<le> n \<and> length x \<le> 4000 \<or>
       typ = ''VARCHAR2('' @ show_int n @ '' BYTE)'' \<and> int (length x) \<le> n \<and> n \<le> 4000 \<or> typ = ''CLOB'' \<and> length x < 2 ^ 32)),
     holds_bytes = (\<lambda>typ n x. typ = ''RAW('' @ show_int n @ '')'' \<and> x \<noteq> [] \<and> int (length x) \<le> n \<and> n \<le> 2000 \<or> typ = ''BLOB'' \<and> length x < 2 ^ 32)\<rparr>"

lemma precisions:
  "holds_precision mysql_limits p s \<longleftrightarrow> 1 \<le> p \<and> p \<le> 65 \<and> 0 \<le> s \<and> s \<le> 30 \<and> s \<le> p"
  "holds_precision mssql_limits p s \<longleftrightarrow> 1 \<le> p \<and> p \<le> 38 \<and> 0 \<le> s \<and> s \<le> p" "holds_precision oracle_limits p s \<longleftrightarrow> 1 \<le> p \<and> p \<le> 38 \<and> 0 \<le> s \<and> s \<le> p"
  by (simp_all add: mysql_limits_def mssql_limits_def oracle_limits_def)

lemmas choice_defs = new_choice_def Let_def

interpretation my: dialect_types mysql_limits intChoice floatChoice "mysql_render (new_choice KindBool BoolFamily)" decimalChoice computedDecimal dateChoice
  textChoice bytesChoice "\<lambda>st. maxLen (cs st)" small_text
proof (unfold_locales, goal_cases)
  case (8 st ch)
  then show ?case by (auto simp: computedDecimal_def decimalChoice_def mysql_render_def mysql_limits_def choice_defs split: if_splits)
next
  case (12 st keyed x n)
  then show ?case by (auto simp: textChoice_def mysql_render_def textType_def mysql_limits_def small_text_def choice_defs)
next
  case (14 st keyed x)
  then show ?case by (auto simp: bytesChoice_def mysql_render_def bytesType_def mysql_limits_def small_text_def choice_defs)
qed (simp_all add: intChoice_def floatChoice_def decimalChoice_def dateChoice_def textChoice_def bytesChoice_def mysql_render_def choice_defs)


interpretation ms: dialect_types mssql_limits mssqlInt mssqlFloat "mssqlRender (new_choice KindBool BoolFamily)" mssqlDecimal mssqlComputedDecimal mssqlDate
  mssqlText mssqlBytes MaxU16 small_text
proof (unfold_locales, goal_cases)
  case (8 st ch)
  then show ?case by (auto simp: mssqlComputedDecimal_def mssqlDecimal_def mssqlRender_def mssql_limits_def choice_defs split: if_splits)
next
  case (12 st keyed x n)
  have "2 * utf16Len x < 2 ^ 31" using 12(1) runes_lengths [of x] by (simp add: small_text_def)
  then show ?case using 12 by (auto simp: mssqlText_def mssqlRender_def mssql_limits_def choice_defs)
next
  case (14 st keyed x)
  then show ?case by (auto simp: mssqlBytes_def mssqlRender_def mssql_limits_def small_text_def choice_defs)
qed (simp_all add: mssqlInt_def mssqlFloat_def mssqlDecimal_def mssqlDate_def mssqlText_def mssqlBytes_def mssqlRender_def choice_defs)

text \<open>Oracle keeps no empty text; a key of texts that no VARCHAR2 holds is refused when the plan is adjusted.\<close>

definition oracle_text :: "scriptStats \<Rightarrow> bool \<Rightarrow> string \<Rightarrow> bool" where
  "oracle_text st keyed x \<longleftrightarrow> x \<noteq> [] \<and> length x < 2 ^ 30 \<and> (keyed \<longrightarrow> MaxBytes st \<le> 4000)"

interpretation ora: dialect_types oracle_limits oracleInt oracleFloat "oracleRender (new_choice KindBool BoolFamily)" oracleDecimal oracleComputedDecimal oracleDate
  oracleText oracleBytes "\<lambda>st. maxLen (cs st)" oracle_text
proof (unfold_locales, goal_cases)
  case (8 st ch)
  then show ?case by (auto simp: oracleComputedDecimal_def oracleDecimal_def oracleRender_def oracle_limits_def choice_defs split: if_splits)
next
  case (12 st keyed x n)
  then show ?case using runes_lengths [of x] by (auto simp: oracleText_def oracleRender_def oracle_limits_def oracle_text_def choice_defs)
next
  case (14 st keyed x)
  then show ?case by (auto simp: oracleBytes_def oracleRender_def oracle_limits_def oracle_text_def choice_defs)
qed (simp_all add: oracleInt_def oracleFloat_def oracleDecimal_def oracleDate_def oracleText_def oracleBytes_def oracleRender_def choice_defs)


lemma parseDecl_decimal: "di_class (parseDecl decl) = declDecimal \<Longrightarrow> 1 \<le> di_p (parseDecl decl) \<and> 0 \<le> di_s (parseDecl decl)"
proof -
  define ok where "ok d \<longleftrightarrow> (di_class d = declDecimal \<longrightarrow> 1 \<le> di_p d \<and> 0 \<le> di_s d)" for d :: decl_info
  have step: "(c \<Longrightarrow> ok x) \<Longrightarrow> ok y \<Longrightarrow> ok (if c then x else y)" for c and x y :: decl_info by simp
  have "ok (parseDecl decl)"
  proof (cases "decl_parts decl")
    case (fields base a1 a2)
    show ?thesis unfolding parseDecl_def fields prod.case Let_def
      by (intro step) (simp_all add: ok_def no_decl_def numeric_decl_def)
  qed
  then show "di_class (parseDecl decl) = declDecimal \<Longrightarrow> 1 \<le> di_p (parseDecl decl) \<and> 0 \<le> di_s (parseDecl decl)" by (simp add: ok_def)
qed

text \<open>What the guards of the dialects say of the floats and dates of a column.\<close>

lemma guards:
  assumes "v \<in> set vs"
  shows "NonFinite (script_stats env d vs) = 0 \<Longrightarrow> v = SReal x \<Longrightarrow> is_finite64 x"
    "NonFinite (script_stats env d vs) = 0 \<Longrightarrow> Denormal (script_stats env d vs) = 0 \<Longrightarrow> v = SReal x \<Longrightarrow> mag_bits x = 0 \<or> 2 ^ 52 \<le> mag_bits x"
    "LowYear (script_stats env d vs) = 0 \<Longrightarrow> v = SText t \<Longrightarrow> timely t \<Longrightarrow> \<not> before_1000 t"
    "GregorianGap (script_stats env d vs) = 0 \<Longrightarrow> v = SText t \<Longrightarrow> timely t \<Longrightarrow> \<not> in_gap t"
proof -
  show "NonFinite (script_stats env d vs) = 0 \<Longrightarrow> v = SReal x \<Longrightarrow> is_finite64 x"
    using assms unfolding script_stats_counts how_many_zero by blast
  show "NonFinite (script_stats env d vs) = 0 \<Longrightarrow> Denormal (script_stats env d vs) = 0 \<Longrightarrow> v = SReal x \<Longrightarrow> mag_bits x = 0 \<or> 2 ^ 52 \<le> mag_bits x"
    using assms unfolding script_stats_counts how_many_zero by (metis linorder_not_less)
  show "LowYear (script_stats env d vs) = 0 \<Longrightarrow> v = SText t \<Longrightarrow> timely t \<Longrightarrow> \<not> before_1000 t"
    using assms text_none [of "\<lambda>x. timely x \<and> before_1000 x" vs t] by (auto simp: script_stats_counts)
  show "GregorianGap (script_stats env d vs) = 0 \<Longrightarrow> v = SText t \<Longrightarrow> timely t \<Longrightarrow> \<not> in_gap t"
    using assms text_none [of "\<lambda>x. timely x \<and> in_gap x" vs t] by (auto simp: script_stats_counts)
qed

lemma texty_counts:
  assumes "texty (script_stats env d vs)"
  shows "st_blobs (cs (script_stats env d vs)) = 0" "textWithNUL (cs (script_stats env d vs)) = 0" "BadUTF8 (script_stats env d vs) = 0"
proof -
  have "class_count (cs (script_stats env d vs)) BlobClass = 0" using assms by (auto simp: texty_def only_classes_def)
  then show "st_blobs (cs (script_stats env d vs)) = 0" by (simp add: class_count_def)
qed (use assms in \<open>simp_all add: texty_def\<close>)

lemma mysql_declared_held:
  assumes "mysql_declared quoted def (script_stats env d vs) keyed = Some ch" "decl_ok d" "di_class d = declDecimal \<Longrightarrow> 1 \<le> di_p d \<and> 0 \<le> di_s d" "v \<in> set vs" "int64_value v"
    and kept: "all_kept env (small_text (script_stats env d vs) keyed) v"
  shows "script_holds env mysql_limits ch v"
proof -
  let ?st = "script_stats env d vs"
  have dates: "holds_date mysql_limits x" if "LowYear ?st = 0" "v = SText x" "timely x" for x using guards(3) [OF assms(4) that] by (simp add: mysql_limits_def)
  have floats: "holds_float mysql_limits x" if "NonFinite ?st = 0" "v = SReal x" for x using guards(1) [OF assms(4) that] by (simp add: mysql_limits_def)
  have texts: "script_holds env mysql_limits (textChoice ?st n keyed) v" if "texty ?st" "n = 0 \<or> maxLen (cs ?st) \<le> n" for n
    by (rule my.text_held [OF texty_counts [OF that(1)] assms(4) that(2) kept])
  have decimals: "script_holds env mysql_limits ch v" if dec: "mysql_decimal quoted def ?st = Some ch"
  proof (rule my.decimal_choice_held [OF _ assms(4)])
    show "all_decimals ?st" using dec by (auto simp: mysql_decimal_def Let_def split: if_splits)
    show "same_type ch (decimalChoice (di_p d) (di_s d)) \<and> decFit (cs ?st) = decOK (cs ?st) \<and> 0 \<le> di_p d \<and> holds_precision mysql_limits (di_p d) (di_s d) \<or>
        (\<exists>ch'. computedDecimal ?st = Some ch' \<and> same_type ch ch')"
      using dec assms(3) unfolding mysql_decimal_def Let_def precisions script_decl by (auto split: if_splits)
  qed
  show ?thesis using assms(1)
    by (cases "di_class d"; simp add: mysql_declared_def Let_def split: if_splits)
      (use assms(2,4,5) dates floats texts decimals kept in \<open>auto intro: my.big_int_held my.declared_int_held my.float_held my.bool_held my.date_held my.datetime_held my.time_held my.bytes_held\<close>)+
qed

lemma mssql_declared_held:
  assumes "mssql_declared quoted def (script_stats env d vs) keyed = Some ch" "decl_ok d" "di_class d = declDecimal \<Longrightarrow> 1 \<le> di_p d \<and> 0 \<le> di_s d" "v \<in> set vs" "int64_value v"
    and kept: "all_kept env (small_text (script_stats env d vs) keyed) v"
  shows "script_holds env mssql_limits ch v"
proof -
  let ?st = "script_stats env d vs"
  have dates: "holds_date mssql_limits x" for x by (simp add: mssql_limits_def)
  have floats: "holds_float mssql_limits x" if "NonFinite ?st = 0" "Denormal ?st = 0" "v = SReal x" for x
    using guards(1) [OF assms(4) that(1,3)] guards(2) [OF assms(4) that] by (simp add: mssql_limits_def)
  have texts: "script_holds env mssql_limits (mssqlText ?st n keyed) v" if "texty ?st" "n = 0 \<or> MaxU16 ?st \<le> n" for n
    by (rule ms.text_held [OF texty_counts [OF that(1)] assms(4) that(2) kept])
  have decimals: "script_holds env mssql_limits ch v" if dec: "mssql_decimal quoted def ?st = Some ch"
  proof (rule ms.decimal_choice_held [OF _ assms(4)])
    show "all_decimals ?st" using dec by (auto simp: mssql_decimal_def Let_def split: if_splits)
    show "same_type ch (mssqlDecimal (di_p d) (di_s d)) \<and> decFit (cs ?st) = decOK (cs ?st) \<and> 0 \<le> di_p d \<and> holds_precision mssql_limits (di_p d) (di_s d) \<or>
        (\<exists>ch'. mssqlComputedDecimal ?st = Some ch' \<and> same_type ch ch')"
      using dec assms(3) unfolding mssql_decimal_def Let_def precisions script_decl by (auto split: if_splits)
  qed
  show ?thesis using assms(1)
    by (cases "di_class d"; simp add: mssql_declared_def Let_def split: if_splits)
      (use assms(2,4,5) dates floats texts decimals kept in \<open>auto intro: ms.big_int_held ms.declared_int_held ms.float_held ms.bool_held ms.date_held ms.datetime_held ms.time_held ms.bytes_held\<close>)+
qed

lemma oracle_declared_held:
  assumes "oracle_declared quoted def (script_stats env d vs) keyed = Some ch" "decl_ok d" "di_class d = declDecimal \<Longrightarrow> 1 \<le> di_p d \<and> 0 \<le> di_s d" "v \<in> set vs" "int64_value v"
    and kept: "all_kept env (oracle_text (script_stats env d vs) keyed) v"
  shows "script_holds env oracle_limits ch v"
proof -
  let ?st = "script_stats env d vs"
  have dates: "holds_date oracle_limits x" if "GregorianGap ?st = 0" "v = SText x" "timely x" for x using guards(4) [OF assms(4) that] by (simp add: oracle_limits_def)
  have floats: "holds_float oracle_limits x" for x by (simp add: oracle_limits_def)
  have texts: "script_holds env oracle_limits (oracleText ?st n keyed) v" if "texty ?st" "n = 0 \<or> maxLen (cs ?st) \<le> n" for n
    by (rule ora.text_held [OF texty_counts [OF that(1)] assms(4) that(2) kept])
  have decimals: "script_holds env oracle_limits ch v" if dec: "oracle_decimal quoted def ?st = Some ch"
  proof (rule ora.decimal_choice_held [OF _ assms(4)])
    show "all_decimals ?st" using dec by (auto simp: oracle_decimal_def Let_def split: if_splits)
    show "same_type ch (oracleDecimal (di_p d) (di_s d)) \<and> decFit (cs ?st) = decOK (cs ?st) \<and> 0 \<le> di_p d \<and> holds_precision oracle_limits (di_p d) (di_s d) \<or>
        (\<exists>ch'. oracleComputedDecimal ?st = Some ch' \<and> same_type ch ch')"
      using dec assms(3) unfolding oracle_decimal_def Let_def precisions script_decl by (auto split: if_splits)
  qed
  show ?thesis using assms(1)
    by (cases "di_class d"; simp add: oracle_declared_def Let_def split: if_splits)
      (use assms(2,4,5) dates floats texts decimals kept in \<open>auto intro: ora.big_int_held ora.declared_int_held ora.float_held ora.bool_held ora.date_held ora.datetime_held ora.time_held ora.bytes_held\<close>)+
qed

text \<open>Each dialect on its own.\<close>

lemma mysql_choice_held:
  assumes "v \<in> set vs" "int64_value v" "all_kept env (\<lambda>x. length x < 2 ^ 30) v"
  shows "script_holds env mysql_limits (mysql_Choose quoted def (script_stats env (parseDecl decl) vs) use) v"
proof -
  have kept: "all_kept env (small_text (script_stats env (parseDecl decl) vs) keyed) v" for keyed
    using assms(3) by (simp add: all_kept_def small_text_def split: sqlite_value.splits)
  show ?thesis
    using mysql_declared_held [OF _ parseDecl_ok parseDecl_decimal assms(1,2) kept] my.inferred_held [OF assms(1,2) kept]
    by (auto simp: mysql_Choose_def mysql_infer_def Let_def split: option.splits)
qed

lemma mssql_choice_held:
  assumes "v \<in> set vs" "int64_value v" "all_kept env (\<lambda>x. length x < 2 ^ 30) v"
  shows "script_holds env mssql_limits (mssql_Choose quoted def (script_stats env (parseDecl decl) vs) use) v"
proof -
  have kept: "all_kept env (small_text (script_stats env (parseDecl decl) vs) keyed) v" for keyed
    using assms(3) by (simp add: all_kept_def small_text_def split: sqlite_value.splits)
  show ?thesis
    using mssql_declared_held [OF _ parseDecl_ok parseDecl_decimal assms(1,2) kept] ms.inferred_held [OF assms(1,2) kept]
    by (auto simp: mssql_Choose_def mssql_infer_def Let_def split: option.splits)
qed

lemma oracle_choice_held:
  assumes "v \<in> set vs" "int64_value v" "all_kept env (\<lambda>x. length x < 2 ^ 30) v" "all_kept env (\<lambda>x. x \<noteq> []) v"
    and "Keyed use \<longrightarrow> MaxBytes (script_stats env (parseDecl decl) vs) \<le> 4000"
  shows "script_holds env oracle_limits (oracle_Choose quote quoted def (script_stats env (parseDecl decl) vs) use) v"
proof -
  have kept: "all_kept env (oracle_text (script_stats env (parseDecl decl) vs) (Keyed use)) v"
    using assms(3-5) by (simp add: all_kept_def oracle_text_def split: sqlite_value.splits)
  show ?thesis
    using oracle_declared_held [OF _ parseDecl_ok parseDecl_decimal assms(1,2) kept] ora.inferred_held [OF assms(1,2) kept]
    by (auto simp: oracle_Choose_def oracle_infer_def Let_def split: option.splits)
qed


definition plain_script_env :: script_env where
  "plain_script_env = \<lparr>base_env = plain_env, real_text = (\<lambda>x. ''0.5''), FormatFloat_e = (\<lambda>x. ''5e-01'')\<rparr>"

definition indexed_use :: ColumnUse where
  "indexed_use = \<lparr>u_PK = False, u_Unique = False, u_Index = True, u_FK = False\<rparr>"


end
