(* ===== verification/Script_Properties.thy ===== *)
theory Script_Properties
  imports Script_Literals Script_Types_Properties Compare_Multiset
begin

text \<open>
  Literals and rows of a script: no literal of MySQL or SQL Server holds a control character, a text or
  bytes literal of MySQL reads back as the value, and the writer writes every row once, in order.
\<close>


section \<open>Printable text\<close>

definition printable :: "char \<Rightarrow> bool" where
  "printable c \<longleftrightarrow> (32 :: nat) \<le> of_char c \<and> of_char c \<noteq> (127 :: nat)"

lemma digit_printable: "is_digit c \<Longrightarrow> printable c"
  by (auto simp: is_digit_def printable_def)

lemma digits_printable: "list_all is_digit s \<Longrightarrow> list_all printable s"
  by (auto simp: list_all_iff digit_printable)

lemma show_printable [simp]: "list_all printable (show_nat n)" "list_all printable (show_int i)"
proof -
  show "list_all printable (show_nat n)" for n using digits_printable show_nat_digits by blast
  then show "list_all printable (show_int i)" by (simp add: show_int_def printable_def)
qed

lemma nibble_printable [simp]: "d < 16 \<Longrightarrow> printable (nibble_char d)"
  by (simp add: nibble_char_def printable_def)

lemma hex_printable [simp]: "list_all printable (hex_EncodeToString s)"
proof (induction s)
  case (Cons c s)
  have "of_char c div 16 < (16 :: nat)" using of_char_less [of c] by (simp add: less_mult_imp_div_less)
  then show ?case using Cons by (simp add: hex_EncodeToString_def hex_byte_digits)
qed (simp add: hex_EncodeToString_def)

lemma quoted_printable [simp]:
  "list_all printable (double_char q s) \<longleftrightarrow> list_all printable s" "list_all printable (plain_quoted s) \<longleftrightarrow> list_all printable s"
  "list_all printable (quoted_text s) \<longleftrightarrow> list_all printable s"
proof -
  show d: "list_all printable (double_char q s) \<longleftrightarrow> list_all printable s" for q by (induction q s rule: double_char.induct) auto
  show "list_all printable (plain_quoted s) \<longleftrightarrow> list_all printable s" by (simp add: plain_quoted_def printable_def)
  show "list_all printable (quoted_text s) \<longleftrightarrow> list_all printable s" by (simp add: quoted_text_def d) (simp add: printable_def)
qed

lemma join_printable: "list_all (list_all printable) ps \<Longrightarrow> list_all printable sep \<Longrightarrow> list_all printable (Join ps sep)"
  by (induction ps sep rule: Join.induct) auto

text \<open>The bytes of runes.\<close>

lemma rune_bytes: "r \<in> set (runes s) \<Longrightarrow> b \<in> set (encode_rune r) \<Longrightarrow> b < 256"
proof (induction s rule: runes.induct)
  case (1 s)
  then have s: "s \<noteq> []" by auto
  obtain q n where d: "DecodeRuneInString s = (q, n)" by fastforce
  have "runes s = q # runes (drop n s)" using s by (subst runes.simps) (simp add: d)
  then consider "r = q" | "r \<in> set (runes (drop n s))" using 1(2) by auto
  then show ?case
  proof cases
    case 1
    show ?thesis
    proof (cases "well_formed s")
      case True
      then have "b \<in> set (map of_char (take (rune_width (byte s 0)) s))" using d s 1 \<open>b \<in> set (encode_rune r)\<close> well_formed_encode [OF True]
        by (simp add: DecodeRuneInString_def)
      then show ?thesis using of_char_less by auto
    next
      case False
      then have "r = RuneError" using d s 1 by (simp add: DecodeRuneInString_def)
      then show ?thesis using \<open>b \<in> set (encode_rune r)\<close> by (auto simp: encode_rune_def RuneError_def)
    qed
  next
    case 2
    show ?thesis by (rule "1.IH" [OF s d [symmetric] 2 "1.prems"(2)])
  qed
qed

lemma encode_rune_small: "b \<in> set (encode_rune r) \<Longrightarrow> b < 128 \<Longrightarrow> b = r"
  by (auto simp: encode_rune_def split: if_splits)

lemma invalid_rune: "\<not> ValidString s \<Longrightarrow> RuneError \<in> set (runes s)"
proof (induction s rule: ValidString.induct)
  case (1 s)
  then have s: "s \<noteq> []" by auto
  show ?case
  proof (cases "well_formed s")
    case True
    then have "RuneError \<in> set (runes (drop (rune_width (byte s 0)) s))" using 1 s by (simp add: ValidString.simps [of s])
    then show ?thesis using True s by (subst runes.simps) (simp add: DecodeRuneInString_def)
  next
    case False
    then show ?thesis using s by (subst runes.simps) (simp add: DecodeRuneInString_def)
  qed
qed

lemma utf8_printable:
  assumes "r \<in> set (runes s)" "\<not> unlineSafe r"
  shows "list_all printable (utf8_of r)"
proof -
  have "32 \<le> b \<and> b \<noteq> 127" if "b \<in> set (encode_rune r)" for b
    using encode_rune_small [OF that] assms(2) by (cases "b < 128") (auto simp: unlineSafe_def)
  then show ?thesis using rune_bytes [OF assms(1)] by (auto simp: utf8_of_def list_all_iff printable_def)
qed

lemma text_printable:
  assumes "\<not> list_ex unlineSafe (runes s)"
  shows "ValidString s" "list_all printable s"
proof -
  show v: "ValidString s"
  proof (rule ccontr)
    assume "\<not> ValidString s"
    then show False using invalid_rune assms unfolding list_ex_iff unlineSafe_def by blast
  qed
  have "printable c" if "c \<in> set s" for c
  proof (cases "of_char c < (128 :: nat)")
    case True
    have "of_char c \<in> set (map of_char s :: nat list)" using that by simp
    then have "of_char c \<in> set (concat (map encode_rune (runes s)))" by (simp only: runes_encode [OF v])
    then obtain r where "r \<in> set (runes s)" "of_char c \<in> set (encode_rune r)" by auto
    then have "of_char c \<in> set (runes s)" using encode_rune_small True by blast
    then have "\<not> unlineSafe (of_char c)" using assms unfolding list_ex_iff by blast
    then show ?thesis unfolding unlineSafe_def printable_def by linarith
  qed (simp add: printable_def)
  then show "list_all printable s" by (simp add: list_all_iff)
qed

lemma mysql_text_printable [simp]: "list_all printable (mysqlTextLiteral s)"
proof -
  have "list_all printable ''_utf8mb4 X''" by (simp add: printable_def)
  moreover have "list_all printable s" if "\<not> list_ex (\<lambda>r. r = 0x5C \<or> r = 0 \<or> unlineSafe r) (runes s)"
    using that by (intro text_printable) (auto simp: list_ex_iff)
  moreover have "list_all printable (plain_quoted [])" by simp
  ultimately show ?thesis unfolding mysqlTextLiteral_def by (simp only: list_all_append quoted_printable hex_printable split: if_split) blast
qed

lemma mssql_pieces_printable:
  assumes "mssql_pieces prev cur rs = Some ps" "set rs \<subseteq> set (runes s)" "list_all printable cur"
  shows "list_all (list_all printable) ps"
  using assms
proof (induction prev cur rs arbitrary: ps rule: mssql_pieces.induct)
  case (1 prev cur)
  then show ?case by (auto simp: mssql_flush_def) (simp add: printable_def)
next
  case (2 prev cur r rs)
  show ?case
  proof (cases "mssqlSpecial r \<or> prev = 0x24 \<and> r = 0x28")
    case True
    then obtain qs where qs: "mssql_pieces r [] rs = Some qs" "ps = mssql_flush cur @ [''NCHAR('' @ show_nat r @ '')''] @ qs" "r \<noteq> 0"
      using 2(3) by (auto split: if_splits)
    have "list_all printable ''NCHAR(''" "list_all printable '')''" "list_all printable ''N''" by (simp_all add: printable_def)
    then show ?thesis using 2(1) [OF True qs(3,1)] 2(4,5) by (auto simp: qs(2) mssql_flush_def)
  next
    case False
    then have "list_all printable (utf8_of r)" using 2(4) utf8_printable [of r s] by (auto simp: mssqlSpecial_def)
    then show ?thesis using 2(2) [OF False] 2(3-5) False by simp
  qed
qed

lemma mssql_pieces_some: "mssql_pieces prev cur rs = Some ps \<Longrightarrow> cur \<noteq> [] \<or> rs \<noteq> [] \<Longrightarrow> ps \<noteq> []"
proof (induction prev cur rs arbitrary: ps rule: mssql_pieces.induct)
  case (2 prev cur r rs)
  then show ?case by (auto simp: utf8_of_def encode_rune_def split: if_splits)
qed (simp add: mssql_flush_def)

lemma mssql_text_printable [simp]: "list_all printable (mssqlTextLiteral s)"
proof -
  have const: "list_all printable ''CONVERT(NVARCHAR(MAX),0x''" "list_all printable ''CAST(''" "list_all printable '' AS NVARCHAR(MAX))''" "list_all printable ''CAST(N''"
    "list_all printable '')''" "list_all printable ''N''" "list_all printable ''+''" by (simp_all add: printable_def)
  have hex: "list_all printable (mssqlHexText s)" using const by (simp only: mssqlHexText_def list_all_append hex_printable)
  have parts: "list_all printable (mssql_parts s ps)" if "mssql_pieces 0 [] (runes s) = Some ps" "s \<noteq> []" for ps
  proof -
    have all: "list_all (list_all printable) ps" using mssql_pieces_printable [OF that(1), of s] by simp
    have "runes s \<noteq> []" using that(2) by (subst runes.simps) (simp split: prod.split)
    then have "ps \<noteq> []" by (intro mssql_pieces_some [OF that(1)]) simp
    then obtain a as where Cons: "ps = a # as" by (cases ps) auto
    have cast: "list_all printable (''CAST('' @ a @ '' AS NVARCHAR(MAX))'')" "list_all printable (''CAST(N'' @ plain_quoted [] @ '' AS NVARCHAR(MAX))'')" "list_all printable a"
      "list_all (list_all printable) as" using all Cons const by (simp_all only: list_all_append list.pred_inject quoted_printable)
    show ?thesis unfolding mssql_parts_def Cons list.sel
      by (simp only: hex cast join_printable [OF _ const(7)] list.pred_inject split: if_split) simp
  qed
  have "list_all printable (''N'' @ plain_quoted [])" using const(6) by (simp only: list_all_append quoted_printable list.pred_inject)
  then show ?thesis using hex parts unfolding mssqlTextLiteral_def by (simp only: split: if_split option.split) blast
qed


text \<open>What \<open>strconv.FormatFloat\<close> writes: digits, a sign, a point, an exponent, \<open>Inf\<close> or \<open>NaN\<close>.\<close>

definition plain_floats :: "script_env \<Rightarrow> bool" where
  "plain_floats env \<longleftrightarrow> (\<forall>x. list_all printable (FormatFloat_e env x) \<and> list_all printable (FormatFloat_f (base_env env) x) \<and> list_all printable (FormatFloat_g (base_env env) x))"

lemma number_printable:
  assumes "plain_floats env" "number_literal env ch v = Some t"
  shows "list_all printable t"
proof -
  have "printable c" if "reDec x" "c \<in> set x" for x c using reDec_chars [OF that] digit_printable by (auto simp: printable_def)
  then have "list_all printable x" if "reDec x" for x using that by (simp add: list_all_iff)
  then show ?thesis using assms by (auto simp: number_literal_def plain_floats_def split: family.splits sqlite_value.splits if_splits)
qed

lemma temporal_printable: "reTemporalText x \<Longrightarrow> list_all printable x"
proof -
  assume x: "reTemporalText x"
  have "printable c" if "is_digit c \<or> c \<in> set '':. -''" for c using that digit_printable by (auto simp: printable_def)
  then show "list_all printable x" using x by (cases x) (auto simp: reTemporalText_def list_all_iff digit_printable)
qed

lemma literal_prefixes: "list_all printable ''X''" "list_all printable ''N''" "list_all printable ''0x''" "list_all printable ''NULL''"
  by (simp_all add: printable_def)

lemma mysql_literal_printable:
  assumes "plain_floats env" "mysql_Literal env ch v = Inr t"
  shows "list_all printable t"
proof (cases "v = SNil")
  case True
  then show ?thesis using assms(2) literal_prefixes(4) by (auto simp: mysql_Literal_def)
next
  case False
  show ?thesis using assms(2) False number_printable [OF assms(1)] temporal_printable literal_prefixes(1)
    unfolding mysql_Literal_def literal_result_def
    by (cases "Family ch"; cases v) (auto simp: valueBytes_def simp del: append_Cons append.simps split: option.splits if_splits)
qed

lemma mssql_literal_printable:
  assumes "plain_floats env" "mssql_Literal env ch v = Inr t"
  shows "list_all printable t"
proof (cases "v = SNil")
  case True
  then show ?thesis using assms(2) literal_prefixes(4) by (auto simp: mssql_Literal_def)
next
  case False
  have "list_all printable (FormatFloat_g (base_env env) x)" for x using assms(1) by (simp add: plain_floats_def)
  then show ?thesis using assms(2) False number_printable [OF assms(1)] temporal_printable literal_prefixes(2,3)
    unfolding mssql_Literal_def literal_result_def
    by (cases "Family ch"; cases v) (auto simp: valueBytes_def simp del: append_Cons append.simps split: option.splits if_splits)
qed


section \<open>Reading a MySQL literal back\<close>

text \<open>The body of a string literal without backslashes, to its closing quote at the end of the text.\<close>

fun read_body :: "string \<Rightarrow> string option" where
  "read_body [] = None"
| "read_body [c] = (if c = CHR 0x27 then Some [] else None)"
| "read_body (c # d # s) =
     (if c = CHR 0x27 then (if d = CHR 0x27 then map_option (\<lambda>r. c # r) (read_body s) else None)
      else if c = CHR 0x5C then None else map_option (\<lambda>r. c # r) (read_body (d # s)))"

definition mysql_reads :: "string \<Rightarrow> string option" where
  "mysql_reads t =
     (if has_prefix (''_utf8mb4 X'' @ [CHR 0x27]) t \<and> last t = CHR 0x27 then hex_DecodeString (butlast (drop 11 t))
      else if has_prefix (''X'' @ [CHR 0x27]) t \<and> last t = CHR 0x27 then hex_DecodeString (butlast (drop 2 t))
      else if t \<noteq> [] \<and> hd t = CHR 0x27 then read_body (tl t) else None)"

lemma hex_roundtrip: "hex_DecodeString (hex_EncodeToString s) = Some s"
proof (induction s)
  case (Cons c s)
  have digit: "parse_hex [nibble_char d] = Some d" if "d < 16" for d
    using that by (auto simp: parse_hex_def nibble_char_def Let_def)
  have "of_char c div 16 < (16 :: nat)" using of_char_less [of c] by (simp add: less_mult_imp_div_less)
  moreover have "char_of (16 * (of_char c div 16) + of_char c mod 16 :: nat) = c" by simp
  ultimately show ?case using Cons by (simp add: hex_EncodeToString_def hex_byte_digits digit)
qed (simp add: hex_EncodeToString_def)

lemma read_doubled: "CHR 0x5C \<notin> set s \<Longrightarrow> read_body (double_char (CHR 0x27) s @ [CHR 0x27]) = Some s"
proof (induction s)
  case (Cons c s)
  show ?case
  proof (cases "double_char (CHR 0x27) s @ [CHR 0x27]")
    case (Cons a as)
    then show ?thesis using Cons.IH Cons.prems by auto
  qed simp
qed simp


lemma has_prefix_self: "has_prefix p (p @ s)"
  by (induction p) simp_all

lemma no_backslash: "\<not> list_ex (\<lambda>r. r = 0x5C \<or> r = 0 \<or> unlineSafe r) (runes s) \<Longrightarrow> CHR 0x5C \<notin> set s"
proof
  assume plain: "\<not> list_ex (\<lambda>r. r = 0x5C \<or> r = 0 \<or> unlineSafe r) (runes s)" and slash: "CHR 0x5C \<in> set s"
  have "of_char (CHR 0x5C) \<in> set (map of_char s :: nat list)" unfolding set_map using slash by (rule imageI)
  moreover have "ValidString s" by (rule text_printable) (use plain in \<open>auto simp: list_ex_iff\<close>)
  ultimately have "of_char (CHR 0x5C) \<in> set (concat (map encode_rune (runes s)))" by (simp only: runes_encode)
  then obtain r where r: "r \<in> set (runes s)" "(0x5C :: nat) \<in> set (encode_rune r)" by auto
  then have "r = 0x5C" using encode_rune_small [OF r(2)] by simp
  then show False using plain r(1) unfolding list_ex_iff by blast
qed

lemma mysql_text_reads: "mysql_reads (mysqlTextLiteral s) = Some s"
proof -
  have hex: "mysql_reads (''_utf8mb4 X'' @ plain_quoted (hex_EncodeToString s)) = Some s"
    using has_prefix_self [of "''_utf8mb4 X'' @ [CHR 0x27]" "hex_EncodeToString s @ [CHR 0x27]"]
    unfolding mysql_reads_def plain_quoted_def by (simp add: hex_roundtrip)
  have quoted: "mysql_reads (quoted_text s) = Some s" if "\<not> list_ex (\<lambda>r. r = 0x5C \<or> r = 0 \<or> unlineSafe r) (runes s)"
    using read_doubled [OF no_backslash [OF that]] by (simp add: mysql_reads_def quoted_text_def)
  show ?thesis
  proof (cases "s = []")
    case True
    then show ?thesis by (simp add: mysqlTextLiteral_def mysql_reads_def plain_quoted_def)
  next
    case False
    show ?thesis
    proof (cases "list_ex (\<lambda>r. r = 0x5C \<or> r = 0 \<or> unlineSafe r) (runes s)")
      case True
      then show ?thesis unfolding mysqlTextLiteral_def using hex False by (simp only: if_True if_False)
    next
      case plain: False
      show ?thesis unfolding mysqlTextLiteral_def using quoted [OF plain] False plain by (simp only: if_True if_False)
    qed
  qed
qed

lemma mysql_bytes_reads: "mysql_reads (''X'' @ plain_quoted (hex_EncodeToString b)) = Some b"
  by (simp add: mysql_reads_def plain_quoted_def hex_roundtrip)

text \<open>
  C27: A literal the MySQL dialect writes for a value of a text or bytes column is read back by MySQL as
  exactly the bytes of the value, whatever they are (quotes, backslashes, line breaks, NULs), and holds no
  control character.
\<close>

theorem mysql_literal_roundtrip:
  assumes "Family ch = TextFamily \<or> Family ch = BytesFamily" "mysql_Literal env ch v = Inr t" "v \<noteq> SNil"
  shows "mysql_reads t = valueBytes v \<and> list_all printable t"
proof -
  have digits: "mysql_reads (plain_quoted (show_int i)) = Some (show_int i)" for i
  proof -
    have chars: "c \<noteq> CHR 0x27 \<and> c \<noteq> CHR 0x5C" if "c \<in> set (show_int i)" for c
      using that show_nat_digits [of "nat i"] show_nat_digits [of "nat (- i)"] by (auto simp: show_int_def list_all_iff is_digit_def split: if_splits)
    have same: "double_char (CHR 0x27) s = s" if "CHR 0x27 \<notin> set s" for s using that by (induction s) auto
    have "CHR 0x27 \<notin> set (show_int i)" "CHR 0x5C \<notin> set (show_int i)" using chars by blast+
    then have "read_body (show_int i @ [CHR 0x27]) = Some (show_int i)" using read_doubled [of "show_int i"] same [of "show_int i"] by simp
    then show ?thesis by (simp add: mysql_reads_def plain_quoted_def)
  qed
  have prefix: "list_all printable (''X'' @ plain_quoted (hex_EncodeToString b))" for b by (simp only: list_all_append quoted_printable hex_printable literal_prefixes)
  define blob where "blob = (\<lambda>b. ''X'' @ plain_quoted (hex_EncodeToString b))"
  have blob: "mysql_reads (blob b) = Some b" "list_all printable (blob b)" for b unfolding blob_def by (rule mysql_bytes_reads, rule prefix)
  show ?thesis using assms unfolding mysql_Literal_def literal_result_def blob_def [symmetric]
    by (cases v) (auto simp: valueBytes_def digits mysql_text_reads blob split: if_splits)
qed

theorem mysql_literal_roundtrip_witness:
  "mysql_Literal plain_script_env (textChoice (script_stats plain_script_env (parseDecl ''TEXT'') []) 0 False) (SText [CHR ''a'', CHR 0x0A, CHR 0x27]) =
      Inr (mysqlTextLiteral [CHR ''a'', CHR 0x0A, CHR 0x27]) \<and>
   mysql_reads (mysqlTextLiteral [CHR ''a'', CHR 0x0A, CHR 0x27]) = Some [CHR ''a'', CHR 0x0A, CHR 0x27]"
proof -
  let ?ch = "textChoice (script_stats plain_script_env (parseDecl ''TEXT'') []) 0 False"
  have "Family ?ch = TextFamily" by (rule my.text_parts)
  moreover from this have "mysql_Literal plain_script_env ?ch (SText [CHR ''a'', CHR 0x0A, CHR 0x27]) = Inr (mysqlTextLiteral [CHR ''a'', CHR 0x0A, CHR 0x27])"
    by (simp add: mysql_Literal_def literal_result_def)
  ultimately show ?thesis using mysql_literal_roundtrip [of ?ch plain_script_env "SText [CHR ''a'', CHR 0x0A, CHR 0x27]"] by (simp add: valueBytes_def)
qed


section \<open>The rows of a script\<close>

text \<open>A row as it is written: a line of a batch, or a statement of its own.\<close>

datatype row_part = Line string | Own string

definition row_item :: "dialect_ops \<Rightarrow> script_choice list \<Rightarrow> sqlite_value list \<Rightarrow> literal_error + row_part" where
  "row_item d chs vals =
     (case op_RowStatement d vals of
        Inl e \<Rightarrow> Inl e
      | Inr (Some stmt) \<Rightarrow> Inr (Own stmt)
      | Inr None \<Rightarrow> rbind (rmapl (\<lambda>(ch, v). op_Literal d ch v) (zip chs vals)) (\<lambda>lits. Inr (Line (joinRow lits (op_MaxLine d)))))"

datatype segment = Batch "string list" | Statement string

definition segment_text :: "dialect_ops \<Rightarrow> segment \<Rightarrow> string" where
  "segment_text d g =
     (case g of
        Batch ls \<Rightarrow> text_lines (op_BeginData d) @ op_InsertHead d @ [CHR 0x0A] @ Join ls ('','' @ [CHR 0x0A]) @ '';'' @ [CHR 0x0A] @ text_lines (op_EndData d)
      | Statement t \<Rightarrow> t @ [CHR 0x0A])"

definition segment_rows :: "segment \<Rightarrow> row_part list" where
  "segment_rows g = (case g of Batch ls \<Rightarrow> map Line ls | Statement t \<Rightarrow> [Own t])"

definition script_text_of :: "dialect_ops \<Rightarrow> segment list \<Rightarrow> string" where
  "script_text_of d gs = concat (map (segment_text d) gs)"

definition batch_ok :: "dialect_ops \<Rightarrow> segment \<Rightarrow> bool" where
  "batch_ok d g = (case g of Batch ls \<Rightarrow> 0 < length ls \<and> length ls \<le> op_maxRows d | Statement _ \<Rightarrow> True)"

text \<open>What the writer has written, with the lines that wait for the next flush.\<close>

definition written_so_far :: "dialect_ops \<Rightarrow> row_part list \<Rightarrow> segment list \<Rightarrow> string list \<Rightarrow> writer \<Rightarrow> bool" where
  "written_so_far d items gs ls w \<longleftrightarrow> w_out w = script_text_of d gs \<and> w_sb w = Join ls ('','' @ [CHR 0x0A]) \<and> w_batch w = length ls \<and> w_n w = length items \<and>
     concat (map segment_rows gs) @ map Line ls = items \<and> list_all (batch_ok d) gs"

lemma join_snoc: "ls \<noteq> [] \<Longrightarrow> Join (ls @ [l]) sep = Join ls sep @ sep @ l"
  by (induction ls sep rule: Join.induct) (auto simp: neq_Nil_conv)

lemma flush_written:
  assumes "written_so_far d items gs ls w" "length ls \<le> op_maxRows d"
  shows "\<exists>gs'. written_so_far d items gs' [] (flush d w)"
proof (cases "ls = []")
  case True
  then have "flush d w = w" using assms(1) by (simp add: flush_def written_so_far_def)
  then show ?thesis using assms(1) True by metis
next
  case False
  then have "written_so_far d items (gs @ [Batch ls]) [] (flush d w)"
    using assms by (auto simp: written_so_far_def flush_def script_text_of_def segment_text_def segment_rows_def batch_ok_def)
  then show ?thesis ..
qed

lemma add_line_written:
  assumes "written_so_far d items gs ls w" "length ls < op_maxRows d"
  shows "\<exists>gs' ls'. written_so_far d (items @ [Line l]) gs' ls' (add_line d l w) \<and> length ls' < op_maxRows d"
proof -
  define w' where "w' = w\<lparr>w_sb := w_sb w @ (if w_batch w > 0 then '','' @ [CHR 0x0A] else []) @ l, w_batch := w_batch w + 1,
      w_size := w_size w + length l, w_n := w_n w + 1\<rparr>"
  have w': "written_so_far d (items @ [Line l]) gs (ls @ [l]) w'"
    using assms(1) by (cases "ls = []") (auto simp: written_so_far_def w'_def join_snoc)
  have add: "add_line d l w = (if w_batch w' \<ge> op_maxRows d \<or> w_size w' \<ge> op_maxBytes d then flush d w' else w')" by (simp add: add_line_def w'_def Let_def)
  show ?thesis
  proof (cases "w_batch w' \<ge> op_maxRows d \<or> w_size w' \<ge> op_maxBytes d")
    case True
    then show ?thesis using flush_written [OF w'] assms(2) add by fastforce
  next
    case False
    then have "length (ls @ [l]) < op_maxRows d" using w' by (simp add: written_so_far_def)
    moreover have "add_line d l w = w'" using add False by simp
    ultimately show ?thesis using w' by metis
  qed
qed

lemma write_row_written:
  assumes "write_row d chs vals w = Inr w'" "written_so_far d items gs ls w" "length ls < op_maxRows d"
  shows "\<exists>it gs' ls'. row_item d chs vals = Inr it \<and> written_so_far d (items @ [it]) gs' ls' w' \<and> length ls' < op_maxRows d"
proof (cases "op_RowStatement d vals")
  case (Inr r)
  show ?thesis
  proof (cases r)
    case None
    then obtain lits where lits: "rmapl (\<lambda>(ch, v). op_Literal d ch v) (zip chs vals) = Inr lits" "w' = add_line d (joinRow lits (op_MaxLine d)) w"
      using assms(1) Inr by (auto simp: write_row_def split: sum.splits)
    then show ?thesis using add_line_written [OF assms(2,3), of "joinRow lits (op_MaxLine d)"] by (simp add: row_item_def Inr None)
  next
    case (Some stmt)
    obtain gs' where gs': "written_so_far d items gs' [] (flush d w)" using flush_written [OF assms(2)] assms(3) by auto
    have "w' = (flush d w)\<lparr>w_out := w_out (flush d w) @ stmt @ [CHR 0x0A], w_n := w_n (flush d w) + 1\<rparr>" using assms(1) Inr Some by (simp add: write_row_def Let_def)
    then have "written_so_far d (items @ [Own stmt]) (gs' @ [Statement stmt]) [] w'"
      using gs' by (auto simp: written_so_far_def script_text_of_def segment_text_def segment_rows_def batch_ok_def)
    moreover have "row_item d chs vals = Inr (Own stmt)" by (simp add: row_item_def Inr Some)
    moreover have "length ([] :: string list) < op_maxRows d" using assms(3) by simp
    ultimately show ?thesis by metis
  qed
qed (use assms(1) in \<open>simp add: write_row_def\<close>)

lemma rows_written:
  "rfold (write_row d chs) rows w = Inr w' \<Longrightarrow> written_so_far d items gs ls w \<Longrightarrow> length ls < op_maxRows d \<Longrightarrow>
    \<exists>its gs' ls'. rmapl (row_item d chs) rows = Inr its \<and> written_so_far d (items @ its) gs' ls' w' \<and> length ls' < op_maxRows d"
proof (induction rows arbitrary: w items gs ls)
  case Nil
  then show ?case by (auto intro: exI [of _ gs] exI [of _ ls])
next
  case (Cons vals rows)
  then obtain w1 where w1: "write_row d chs vals w = Inr w1" "rfold (write_row d chs) rows w1 = Inr w'" by (cases "write_row d chs vals w") auto
  then obtain it gs1 ls1 where it: "row_item d chs vals = Inr it" "written_so_far d (items @ [it]) gs1 ls1 w1" "length ls1 < op_maxRows d"
    using write_row_written [OF _ Cons.prems(2,3)] by blast
  then obtain its gs' ls' where "rmapl (row_item d chs) rows = Inr its" "written_so_far d ((items @ [it]) @ its) gs' ls' w'" "length ls' < op_maxRows d"
    using Cons.IH [OF w1(2) it(2,3)] by blast
  then show ?case using it(1) by (intro exI [of _ "it # its"]) auto
qed

text \<open>A row that is one line of printable characters.\<close>

definition one_line :: "dialect_ops \<Rightarrow> script_choice list \<Rightarrow> sqlite_value list \<Rightarrow> bool" where
  "one_line d chs vals = (case row_item d chs vals of Inr (Line l) \<Rightarrow> list_all printable l | _ \<Rightarrow> False)"

lemma join_lits_printable: "list_all (list_all printable) ls \<Longrightarrow> list_all printable (join_lits 0 first cur ls)"
proof (induction ls arbitrary: first cur)
  case (Cons l ls)
  have "printable (CHR '','')" by (simp add: printable_def)
  then show ?case using Cons by (auto simp: Let_def)
qed simp

lemma rmapl_all: "rmapl f xs = Inr ys \<Longrightarrow> (\<And>x y. x \<in> set xs \<Longrightarrow> f x = Inr y \<Longrightarrow> P y) \<Longrightarrow> list_all P ys"
proof (induction xs arbitrary: ys)
  case (Cons x xs)
  then obtain y zs where parts: "f x = Inr y" "rmapl f xs = Inr zs" "ys = y # zs" by (cases "f x"; cases "rmapl f xs") auto
  have "P y" using Cons.prems(2) [of x y] parts(1) by simp
  moreover have "list_all P zs" by (rule Cons.IH [OF parts(2)]) (use Cons.prems(2) in auto)
  ultimately show ?case by (simp add: parts(3))
qed simp

lemma rmapl_each: "rmapl f xs = Inr ys \<Longrightarrow> x \<in> set xs \<Longrightarrow> \<exists>y. f x = Inr y"
proof (induction xs arbitrary: ys)
  case (Cons a xs)
  then show ?case by (cases "f a"; cases "rmapl f xs") auto
qed simp

lemma line_printable:
  assumes "row_item d chs vals = Inr it" "op_RowStatement d vals = Inr None" "op_MaxLine d = 0" "\<And>ch v t. op_Literal d ch v = Inr t \<Longrightarrow> list_all printable t"
  shows "one_line d chs vals"
proof -
  obtain lits where lits: "rmapl (\<lambda>(ch, v). op_Literal d ch v) (zip chs vals) = Inr lits" "it = Line (joinRow lits 0)"
    using assms(1-3) by (cases "rmapl (\<lambda>(ch, v). op_Literal d ch v) (zip chs vals)") (auto simp: row_item_def)
  have "list_all (list_all printable) lits" by (rule rmapl_all [OF lits(1)]) (use assms(4) in \<open>auto split: prod.splits\<close>)
  then have "list_all printable (joinRow lits 0)" using join_lits_printable by (simp add: joinRow_def) (simp add: printable_def)
  then show ?thesis using assms(1) by (simp add: one_line_def lits(2))
qed

lemma ops_one_line:
  assumes "plain_floats env" "row_item d chs vals = Inr it" "d = mysql_ops env table names \<or> d = mssql_ops env identity table names"
  shows "one_line d chs vals"
proof (rule line_printable [OF assms(2)])
  show "list_all printable t" if "op_Literal d ch v = Inr t" for ch v t
    using that assms(3) mysql_literal_printable [OF assms(1)] mssql_literal_printable [OF assms(1)] by (auto simp: mysql_ops_def mssql_ops_def)
qed (use assms(3) in \<open>auto simp: mysql_ops_def mssql_ops_def\<close>)

text \<open>
  C39: When the rows of a table are written, every row that was read is written exactly once and in
  order, as a line of an INSERT of at least one and at most as many rows as the dialect allows or as a statement
  of its own, the number of rows is the one that was counted, and with MySQL and SQL Server each row is one
  line of printable characters, so no value can start a line of the script.
\<close>

theorem script_rows_exact:
  assumes "writeRows d chs counted rows = Inr (out, n)" "0 < counted" "0 < op_maxRows d" "plain_floats env"
  shows "n = length rows \<and> counted = length rows \<and>
    (\<exists>its gs. rmapl (row_item d chs) rows = Inr its \<and> out = script_text_of d gs \<and> concat (map segment_rows gs) = its \<and> list_all (batch_ok d) gs) \<and>
    (d = mysql_ops env table names \<or> d = mssql_ops env identity table names \<longrightarrow> list_all (one_line d chs) rows)"
proof -
  obtain w where w: "rfold (write_row d chs) rows new_writer = Inr w" "out = w_out (flush d w)" "n = w_n (flush d w)" "n = counted"
    using assms(1,2) by (cases "rfold (write_row d chs) rows new_writer") (auto simp: writeRows_def Let_def split: if_splits)
  have start: "written_so_far d [] [] [] new_writer" by (simp add: written_so_far_def new_writer_def script_text_of_def)
  obtain its gs ls where its: "rmapl (row_item d chs) rows = Inr its" "written_so_far d its gs ls w" "length ls < op_maxRows d"
    using rows_written [OF w(1) start] assms(3) by auto
  obtain gs' where gs': "written_so_far d its gs' [] (flush d w)" using flush_written [OF its(2)] its(3) by auto
  have len: "length its = length rows" using rmapl_length [OF its(1)] by simp
  have one: "list_all (one_line d chs) rows" if "d = mysql_ops env table names \<or> d = mssql_ops env identity table names"
    unfolding list_all_iff using rmapl_each [OF its(1)] ops_one_line [OF assms(4) _ that] by blast
  show ?thesis using w gs' its(1) len one by (auto simp: written_so_far_def)
qed

lemma show_bits: "show_int 0 = ''0''" "show_int 1 = ''1''"
  by code_simp+

theorem script_rows_exact_witness:
  "\<exists>out. writeRows (mysql_ops plain_script_env ''t'' [''a'']) [intChoice 32] 2 [[SInt 1], [SNil]] = Inr (out, 2) \<and>
     list_all (one_line (mysql_ops plain_script_env ''t'' [''a'']) [intChoice 32]) [[SInt 1], [SNil]]"
proof -
  let ?d = "mysql_ops plain_script_env ''t'' [''a'']"
  have int: "Family (intChoice 32) = IntFamily" by (rule my.int_parts)
  have floats: "plain_floats plain_script_env" by (simp add: plain_floats_def plain_script_env_def plain_env_def printable_def)
  obtain out where out: "writeRows ?d [intChoice 32] 2 [[SInt 1], [SNil]] = Inr (out, 2)"
    by (simp add: writeRows_def write_row_def mysql_ops_def mysql_Literal_def number_literal_def literal_result_def int show_bits add_line_def flush_def new_writer_def Let_def joinRow_def)
  show ?thesis
    using script_rows_exact [OF out _ _ floats, where table = "''t''" and names = "[''a'']" and identity = False] out by (simp add: mysql_ops_def)
qed


section \<open>Defaults\<close>

text \<open>A boolean defaults to 0 or 1 only.\<close>

lemma bool_default: "int_default e BoolFamily = Some t \<Longrightarrow> t = ''0'' \<or> t = ''1''"
proof -
  assume "int_default e BoolFamily = Some t"
  then obtain n :: int where n: "\<not> (n > 1 \<or> n < 0)" "t = show_int n" by (auto simp: int_default_def split: option.splits prod.splits if_splits)
  then have "n = 0 \<or> n = 1" by linarith
  then show ?thesis using n(2) by (auto simp: show_bits)
qed

text \<open>
  The default of a MySQL text column reads back as the text of the SQLite default, and is no longer
  than the column.  Without a length it stands in parentheses.
\<close>

lemma mysql_text_default_reads:
  assumes "mysql_text_default s ch = Some (t, note')"
  shows "mysql_reads (if Len ch = 0 then butlast (tl t) else t) = Some s \<and> (Len ch > 0 \<longrightarrow> int (length (runes s)) \<le> Len ch)"
proof -
  have fits: "\<not> (Len ch > 0 \<and> int (length (runes s)) > Len ch)" using assms unfolding mysql_text_default_def by (auto split: if_splits)
  have "(if Len ch = 0 then butlast (tl t) else t) = mysqlTextLiteral s"
    using assms unfolding mysql_text_default_def by (auto simp: butlast_append split: if_splits)
  then show ?thesis using fits mysql_text_reads [of s] by auto
qed

text \<open>
  A keyed Oracle text column has a length, so a text over 4000 bytes in it is refused: the column is
  typed before it is known whether its index can be kept.
\<close>

lemma oracle_keyed_text_refused:
  assumes "length x > 4000" "CHR 0x00 \<notin> set x"
  shows "oracle_Literal env (oracleText st declLen True) (SText x) = Inl (TooLong (length x))"
proof -
  have "Len (oracleText st declLen True) \<noteq> 0" by (simp add: oracleText_def oracleRender_def new_choice_def Let_def)
  moreover have "Family (oracleText st declLen True) = TextFamily" by (rule ora.text_parts)
  moreover have "x \<noteq> []" using assms(1) by auto
  ultimately show ?thesis using assms by (simp add: oracle_Literal_def oracle_text_literal_def)
qed

end
