(* ===== verification/Spec2Isabelle.thy ===== *)
theory Spec2Isabelle
  imports Watch_Properties Watch_Authority Result_Budget Exceptions_Properties Licensing_Properties Narrowing_Properties Filters_Properties
    Compare_Properties Copy_Types_Properties Script_Properties
begin

text \<open>
  Verification of datatug-cli.

  DataTug is a command-line tool and local server for exploring data: an AI chat and a web
  interface send queries to data sources, policies say which data may be read, and Watches
  evaluate a query at intervals and notify people.  This library models nine parts of it
  that hold its own logic and proves what makes them correct.  Each is a group of theories
  with one definition per function of the source, executable, and in the order of the code.


  \<^bold>\<open>The parts, their theories and their sources.\<close>

  \<^item> \<open>Prelude\<close>, \<open>Go_Text\<close>, \<open>Go_Number\<close>: what the code uses of Go.  Results \<open>'e + 'a\<close> with
    \<open>rbind\<close> and the collection \<open>res_simps\<close>, decimal printing, trimming and comparing texts,
    runes, times and durations as nanoseconds, big integers and rationals, the fixed-width
    encodings, and \<open>float64\<close> as its 64 bits with rounding to nearest.

  \<^item> \<open>Watch_*\<close>: the Watch coordinator (\<open>src/pkg/watch\<close>).  \<open>Watch_Model\<close> has the stored types
    of \<open>model.go\<close>; \<open>Watch_Storage\<close> the tables of \<open>storage.go\<close> with keys, scopes, authority,
    read, save and list; \<open>Watch_Definitions\<close> the operations of \<open>definitions.go\<close>;
    \<open>Watch_Telegram\<close>, \<open>Watch_Notifications\<close>, \<open>Watch_Events\<close> those of \<open>telegram.go\<close>,
    \<open>telegram_provider.go\<close>, \<open>notifications.go\<close> and \<open>events.go\<close>; \<open>Watch_Scheduler\<close> those of
    \<open>scheduler.go\<close> and \<open>retention.go\<close>: reconciling, claiming, heartbeats, completion, pruning.
    A \<open>store\<close> is the tables; an operation takes the store and the instant of its transaction
    and returns an error or the new store, so a transaction that fails changes nothing.

  \<^item> \<open>Result_*\<close>: result snapshots (\<open>src/pkg/resultops/resultops.go\<close>).  \<open>Result_Values\<close> has
    cells, declared types, exact numbers and their budgets; \<open>Result_Clone\<close> the deep copies,
    with addresses where the code shares or copies memory; \<open>Result_Order\<close> normalization,
    comparison and the framed group keys; \<open>Result_Groups\<close> capture, grouping, aggregation and
    sorting.

  \<^item> \<open>Exceptions*\<close>: policy exceptions (\<open>src/pkg/policyexceptions\<close> and the commands of
    \<open>src/apps/datatugapp/commands/cmd_policy_exception.go\<close>): proposals by an agent, decisions
    by the person at the terminal, the stored files and the audit log, and the overlay that
    opens what was decided in a policy document.  \<open>Exceptions\<close> is the model;
    \<open>Exceptions_System\<close> has the step relations of the agent and of everyone together.

  \<^item> \<open>Licensing*\<close>: commercial licences (\<open>src/commercial/licensing\<close>): key formats, offline
    verification with the grace period, the active licence and the coordinator's entitlement.

  \<^item> \<open>Narrowing*\<close>: narrowing a chat turn to the tables it needs
    (\<open>src/pkg/chat/narrowing\<close>): candidates, rules, decision engine, cool-down, the
    foreign-key searches and the narrowed schema context.

  \<^item> \<open>Filters*\<close>: which tables and rows a database copy takes
    (\<open>src/pkg/dbcopy/filter\<close>, \<open>src/pkg/dbcopy/faithful/rowfilter.go\<close> and \<open>decl.go\<close>, the flags of
    \<open>cmd_db_copy.go\<close>): flags, validation with the suggestion of a near name, coercion, and
    the WHERE clause with its arguments.

  \<^item> \<open>Compare_*\<close>: the comparison of two databases (\<open>src/pkg/dbcompare/compare.go\<close>).
    \<open>Compare_Values\<close> has the normalized values (exact integers and decimals, floats by their
    bits, dates, times and instants); \<open>Compare_Schema\<close> the inventory of a database, the pairing
    of relations, the differences of schemas and the key of a comparison; \<open>Compare_Rows\<close> the
    staged rows, their differences with the details of a report, and \<open>Compare\<close> itself.

  \<^item> \<open>Copy_Types*\<close>: the PostgreSQL type of a SQLite column in a faithful copy
    (\<open>src/pkg/dbcopy/faithful/stats.go\<close>, \<open>plan.go\<close>, \<open>jsonb.go\<close>): the statistics of the column's
    values, the recognizer of the spelling of jsonb, the encoders, the choice of the type with
    its note, and the translation of defaults.

  \<^item> \<open>Script_*\<close>: the export of a SQLite database as an SQL script for MySQL, SQL Server or Oracle
    (\<open>src/pkg/dbcopy/faithful\<close>).  \<open>Script_Types\<close> has the statistics of \<open>script_stats.go\<close> and the
    types the dialects choose (\<open>mysql_types.go\<close>, \<open>mssql_types.go\<close>, \<open>oracle_types.go\<close>);
    \<open>Script_Literals\<close> names, literals and defaults (\<open>mysql_sql.go\<close>, \<open>mssql_sql.go\<close>,
    \<open>oracle_sql.go\<close>) and the writer of a table's rows (\<open>script_write.go\<close>), which sees a dialect
    as the record \<open>dialect_ops\<close>.


  \<^bold>\<open>How the parts interact.\<close>  The Watch theories are one system: \<open>step\<close> of \<open>Watch_System\<close> has
  one rule per operation of the coordinator, and a run of the system is a sequence of
  steps, so every interleaving of clients, runners and the scheduler is such a sequence.
  The scheduler reads the definitions and calls the notifications; that the operations
  which do not touch the schedule leave it alone is the collection \<open>frames\<close>.  A
  licence guards the central coordinator.  The exception commands read files the store
  writes and decide on bytes that were read earlier: a decision takes arbitrary expected
  bytes, which covers every interleaving of two commands.  The comparison reads its decimals and
  times with the number and type definitions the filters use, and the choice of a column's type
  starts from the declaration the filters parse.


  \<^bold>\<open>What the lemmas show.\<close>

  \<^item> \<open>Watch_Schedule\<close> specifies a scheduler abstractly (finite maps of definitions, observations
    and runs, the actions \<open>act\<close>, the invariant \<open>sched_inv\<close>), with the locales
    \<open>kept_invariant\<close> and \<open>refined_by\<close>; \<open>Watch_Refinement\<close> and \<open>Watch_System\<close> prove that every
    operation of the coordinator is a sequence of actions on the \<open>view\<close> of the tables and
    interpret \<open>refined_by\<close> on them (C40).  On that rest the properties of \<open>Watch_Properties\<close>:
    one active run per Watch, fenced-off claims that are never honoured again, exclusive
    claims, final runs, bounds of attempts and leases, replay of completions, scheduling
    and claiming (C1 to C6, C11, C12); \<open>Watch_Authority\<close> has the definitions' authority,
    deletion, versions and idempotence (C7 to C9).  \<open>Watch_Session\<close> is the concrete session
    the witnesses use.

  \<^item> \<open>Result_Facts\<close>, \<open>Result_Sums\<close> and \<open>Result_Properties\<close>: groups partition the rows and agree
    with the comparison, sorting is stable, aggregates are exact, a snapshot shares
    nothing with its source (C13 to C17), decimals are bounded; \<open>Result_Budget\<close> exhibits a
    decimal that every operation but MIN and MAX accepts (C19).

  \<^item> \<open>Exceptions_Facts\<close> states what a store keeps as the locale \<open>store_relation\<close>, which
    \<open>Exceptions_System\<close> interprets three times on the model's relations (\<open>audited\<close>, \<open>lawful\<close>, \<open>narrows\<close>):
    an exception in force was decided and logged, an agent adds no access, decisions are
    final, a session ends what is bound to it, the overlay is exact and opens only what was
    decided (C20 to C22, C24 to C26).

  \<^item> \<open>Licensing_Properties\<close>: signing and verifying round-trip, verification is sound, no
    entitlement without a licence once a key is configured (C28, C29).

  \<^item> \<open>Narrowing_Paths\<close> proves the breadth-first search against paths in the graph;
    \<open>Narrowing_Properties\<close> has the candidates, the bounds, the closure of a selection, what a
    narrowing may drop, the cool-down and the project rules (C31 to C34).

  \<^item> \<open>Filters_Distance\<close> proves the two-row table against the edit distance (C36);
    \<open>Filters_Properties\<close> has the round trip of a condition's flag, when a filter compiles and
    to what (C38), and the value that passes the check but binds NULL.

  \<^item> \<open>Compare_Decimal\<close>: the canonical text of a decimal reads back as its value, so decimals are
    compared by what they are worth (C18).  \<open>Compare_Matching\<close>: the relations of two inspected
    databases are paired exactly, as names and mappings say (C23).  \<open>Compare_Multiset\<close>: the
    identities of keyless rows are strictly ascending, and the counts are those of the two
    multisets of rows (C37).  \<open>Compare_Properties\<close>: rows that only the right side has are read
    without their values (C30); the totals and the limit of a report.

  \<^item> \<open>Copy_Types_Properties\<close> says what the statistics count, what a PostgreSQL type holds, and
    that the chosen type holds every value of the column exactly (C10); the hypothesis that
    texts are UTF-8 is needed (\<open>invalid_text_chosen\<close>).

  \<^item> \<open>Script_Types_Properties\<close> states what a dialect promises of its types as the locale
    \<open>dialect_types\<close>, interpreted on MySQL, SQL Server and Oracle: the chosen type holds every value
    (C35).  \<open>Script_Properties\<close>: MySQL reads a literal back as the bytes of the value (C27), the rows
    of a table are written once each, in order and in bounded batches, and no value starts a line
    (C39); defaults; a long text in a keyed Oracle column is refused
    (\<open>oracle_keyed_text_refused\<close>).


  \<^bold>\<open>Choices, bounds and fuel.\<close>

  \<^item> The Watch coordinator is the standalone deployment (\<open>s.cloud == nil\<close>).  One transaction reads the
    clock once.  \<open>sort.Slice\<close> is a stable sort.  The hash, the time format and the
    validators outside the package are the fields of \<open>watch_env\<close>; \<open>sound_env\<close> says that the
    hash has no collisions, that the nanosecond format tells instants apart, and that the
    configuration was accepted.  \<open>ex_env_sound\<close> shows that such an environment exists.

  \<^item> In the exception store each file-system step has an outcome given from outside, so that
    every failure is a case; a log line is written whole or not at all.  The JSON codec is
    a parameter with the hypothesis \<open>json_codec\<close>: what is encoded from valid texts and
    years 0 to 9999 decodes to itself.

  \<^item> Ed25519 and the JSON of claims are parameters of the licences, with the hypothesis that
    what the private key signed verifies under the public key.

  \<^item> The decision library, the schema formatter, \<open>strconv.Quote\<close> and Unicode case mapping are
    parameters of the narrowing.  \<open>trace_back\<close> takes the number of nodes seen as fuel: every
    node on the way back is seen and has a smaller depth, so the fuel suffices
    (\<open>path_tables_total\<close>).  All other loops are structural or have a termination proof; \<open>fresh_id\<close>
    and \<open>search\<close> are the ones with a measure.

  \<^item> In the filters the parsing of floating-point and time texts and the formatting of times
    are parameters, and the theorems hold for all of them; a time is its instant and the
    offset of its zone.

  \<^item> In the comparison a database is what its adapter answers.  The record-wise difference of
    the \<open>recordops\<close> package is a parameter with its contract \<open>diff_law\<close>: for strictly ascending
    identities one difference each, by presence and equality of the fields; \<open>plain_law\<close> shows a
    function that keeps it.  JSON is a parameter; \<open>json_keeps\<close> says that it keeps the rows at
    hand, which for texts that are not UTF-8 it does not.  The occurrence of a keyless row is printed
    with twenty digits, whence the bound of \<open>10^20\<close> rows.  That the temporary staging file
    cannot be written is not modelled.

  \<^item> In the choice of a column's type \<open>json.Valid\<close>, the parsing of times, the formatting of floats and
    the rounding to 32 bits are the fields of \<open>copy_env\<close>, and the theorem holds for all of them.
    The declared type as \<open>%q\<close> prints it is an argument.  What PostgreSQL holds (\<open>pg_holds\<close>) is
    its documented ranges, without its limits on the precision of a numeric and the length of a
    varchar; counters are unbounded integers.

  \<^item> In the script export the text SQLite makes of a REAL, the formatting and parsing of floats and
    the declared type as \<open>%q\<close> prints it are parameters; \<open>plain_floats\<close> says that a formatted float
    is printable.  The rows of a table are a list of values, so a failing driver is not a case; the
    limits of the engines (\<open>mysql_limits\<close>, \<open>mssql_limits\<close>, \<open>oracle_limits\<close>) and how MySQL reads
    a literal (\<open>mysql_reads\<close>) are what their manuals document.  The insert line of Oracle is taken
    as it was wrapped.


  \<^bold>\<open>Not modelled.\<close>

  \<^item> The cloud deployment of the coordinator (Firestore), whose branches depend on the Firestore
    client and on admission callbacks that are not part of the repository.

  \<^item> Opening and migrating databases, reading settings files, environment and flags beyond
    what a definition takes as an argument; the texts of screens and help.

  \<^item> The chat's user interface, agent loop and stores, the servers and their endpoints, the
    rest of the copying of databases, the query engine, the incident and detective
    screens and the generated web interface: they are drivers, protocols and screens around
    third-party libraries (terminal, HTTP, SQL, AI providers), or await a later part of
    this library (the copy plans and their DDL, the CHECK translation and the key budgets of the
    script dialects, the chat store's log).
\<close>

text \<open>
  C40: the coordinator refines the abstract scheduler.  From the empty store, every sequence of
  its operations is, on the view of the tables, a sequence of the actions of \<open>act\<close>, and so
  is every continuation; the tables keep each record under its own key.
\<close>

theorem coordinator_refines_schedule:
  assumes "sound_env env" and "(step env)\<^sup>*\<^sup>* empty_store st" and "(step env)\<^sup>*\<^sup>* st st'"
  shows "view empty_store = empty_schedule \<and> (act env)\<^sup>*\<^sup>* empty_schedule (view st) \<and>
    (act env)\<^sup>*\<^sup>* (view st) (view st') \<and> rep_ok env st' \<and> sched_inv env (view st')"
proof -
  note first = good_steps [OF empty_store_good [OF assms(1)] assms(2)]
  note next_steps = good_steps [OF conjunct1 [OF first] assms(3)]
  show ?thesis using first next_steps by (simp add: view_empty good_def)
qed

theorem coordinator_refines_schedule_witness:
  "(act ex_env)\<^sup>*\<^sup>* empty_schedule (view ex_st4) \<and> rep_ok ex_env (snd ex_fin) \<and>
   (act ex_env)\<^sup>*\<^sup>* empty_schedule (view (snd ex_fin))"
  using coordinator_refines_schedule [OF ex_env_sound ex_reach4 rtranclp.rtrancl_refl]
    coordinator_refines_schedule [OF ex_env_sound ex_reach6 rtranclp.rtrancl_refl] by blast

end
